(* ===== verification/Prelude.thy ===== *)
theory Prelude
  imports Main
begin

text \<open>
  Shared vocabulary of the development: the result type of fallible operations, the Python
  string operations the sources use, and the generic list lemmas the components share.

  A Python \<open>str\<close> is modelled as Isabelle's \<open>string\<close>, one \<open>char\<close> per code point, so
  the model covers the strings whose code points are below 256 (ASCII and Latin-1): \<open>length\<close>
  counts what Python's \<open>len\<close> counts. A \<open>bytes\<close> value is a list of naturals below 256.
\<close>

named_theorems res_simps "evaluation of the result type"

subsection \<open>Results\<close>

text \<open>An operation that may raise returns \<open>Inl\<close> the error or \<open>Inr\<close> the value.\<close>

type_synonym ('e, 'a) res = "'e + 'a"

definition bind_res :: "('e, 'a) res \<Rightarrow> ('a \<Rightarrow> ('e, 'b) res) \<Rightarrow> ('e, 'b) res" where
  "bind_res m f = (case m of Inl e \<Rightarrow> Inl e | Inr x \<Rightarrow> f x)"

lemma bind_res_simps [simp, res_simps]:
  "bind_res (Inl e) f = Inl e"
  "bind_res (Inr x) f = f x"
  by (simp_all add: bind_res_def)

lemma bind_res_Inr_iff [res_simps]:
  "bind_res m f = Inr y \<longleftrightarrow> (\<exists>x. m = Inr x \<and> f x = Inr y)"
  by (cases m) auto

lemma bind_res_InrE [elim!]:
  assumes "bind_res m f = Inr y"
  obtains x where "m = Inr x" and "f x = Inr y"
  using assms by (auto simp: bind_res_Inr_iff)

lemma if_Inl_InrE:
  assumes "(if b then Inl e else m) = Inr y"
  obtains "\<not> b" and "m = Inr y"
  using assms by (auto split: if_splits)

lemma case_prod_InrE:
  assumes "(case p of (a, b) \<Rightarrow> f a b) = Inr y"
  obtains a b where "p = (a, b)" and "f a b = Inr y"
  using assms by (cases p) auto

text \<open>Taking a successful run of an operation apart, statement by statement.\<close>

lemmas run_elims = bind_res_InrE if_Inl_InrE case_prod_InrE

lemma bind_res_cong [fundef_cong]:
  "m = m' \<Longrightarrow> (\<And>x. m' = Inr x \<Longrightarrow> f x = f' x) \<Longrightarrow> bind_res m f = bind_res m' f'"
  by (cases m') auto

text \<open>\<open>guard_res ok e\<close> is the statement \<open>if not ok: raise e\<close>.\<close>

definition guard_res :: "bool \<Rightarrow> 'e \<Rightarrow> ('e, unit) res" where
  "guard_res ok e = (if ok then Inr () else Inl e)"

lemma guard_res_simps [simp, res_simps]:
  "guard_res True e = Inr ()"
  "guard_res False e = Inl e"
  "guard_res ok e = Inr u \<longleftrightarrow> ok"
  "guard_res ok e = Inl e' \<longleftrightarrow> \<not> ok \<and> e' = e"
  by (auto simp: guard_res_def)

text \<open>\<open>map_res f xs\<close> is \<open>[f(x) for x in xs]\<close>: the first error ends the comprehension.\<close>

fun map_res :: "('a \<Rightarrow> ('e, 'b) res) \<Rightarrow> 'a list \<Rightarrow> ('e, 'b list) res" where
  "map_res f [] = Inr []"
| "map_res f (x # xs) =
     bind_res (f x) (\<lambda>y. bind_res (map_res f xs) (\<lambda>ys. Inr (y # ys)))"

lemma map_res_Inr_iff:
  "map_res f xs = Inr ys \<longleftrightarrow> list_all2 (\<lambda>x y. f x = Inr y) xs ys"
  by (induction xs arbitrary: ys) (auto simp: bind_res_Inr_iff list_all2_Cons1)

lemma map_res_length: "map_res f xs = Inr ys \<Longrightarrow> length ys = length xs"
  by (auto simp: map_res_Inr_iff dest: list_all2_lengthD)

lemma map_res_total: "(\<And>x. x \<in> set xs \<Longrightarrow> f x = Inr (g x)) \<Longrightarrow> map_res f xs = Inr (map g xs)"
  by (induction xs) auto

subsection \<open>Python strings\<close>

text \<open>\<open>str.isspace\<close> on code points below 256.\<close>

definition py_space :: "char \<Rightarrow> bool" where
  "py_space c \<longleftrightarrow> (let n = (of_char c :: nat) in
     (9 \<le> n \<and> n \<le> 13) \<or> (28 \<le> n \<and> n \<le> 32) \<or> n = 133 \<or> n = 160)"

definition py_strip :: "string \<Rightarrow> string" where
  "py_strip s = rev (dropWhile py_space (rev (dropWhile py_space s)))"

text \<open>\<open>str.lower\<close>: \<open>A-Z\<close> and the Latin-1 capitals (all but the multiplication sign).\<close>

definition py_lower_char :: "char \<Rightarrow> char" where
  "py_lower_char c = (let n = (of_char c :: nat) in
     if (65 \<le> n \<and> n \<le> 90) \<or> (192 \<le> n \<and> n \<le> 222 \<and> n \<noteq> 215) then char_of (n + 32) else c)"

definition py_lower :: "string \<Rightarrow> string" where
  "py_lower s = map py_lower_char s"

text \<open>\<open>part in s\<close>.\<close>

definition py_contains :: "string \<Rightarrow> string \<Rightarrow> bool" where
  "py_contains part s \<longleftrightarrow> list_ex (\<lambda>i. take (length part) (drop i s) = part) [0..<Suc (length s)]"

text \<open>\<open>s.split(c)\<close> for a one-character separator: always at least one piece.\<close>

fun py_split :: "char \<Rightarrow> string \<Rightarrow> string list" where
  "py_split c [] = [[]]"
| "py_split c (x # xs) =
     (if x = c then [] # py_split c xs
      else (case py_split c xs of [] \<Rightarrow> [[x]] | p # ps \<Rightarrow> (x # p) # ps))"

lemma py_split_not_Nil [simp]: "py_split c s \<noteq> []"
  by (induction s) (auto split: list.splits)

text \<open>\<open>c.join(parts)\<close>, the inverse of \<open>split\<close>.\<close>

fun py_join :: "string \<Rightarrow> string list \<Rightarrow> string" where
  "py_join sep [] = []"
| "py_join sep [p] = p"
| "py_join sep (p # q # ps) = p @ sep @ py_join sep (q # ps)"

lemma py_join_split: "py_join [c] (py_split c s) = s"
proof (induction s)
  case (Cons x xs)
  then show ?case
    by (cases "py_split c xs"; cases "tl (py_split c xs)") auto
qed simp

text \<open>\<open>str(n)\<close> for an integer.\<close>

fun nat_digits :: "nat \<Rightarrow> string" where
  "nat_digits n = (if n < 10 then [char_of (48 + n)]
                   else nat_digits (n div 10) @ [char_of (48 + n mod 10)])"

declare nat_digits.simps [simp del]

definition py_str_int :: "int \<Rightarrow> string" where
  "py_str_int i = (if i < 0 then ''-'' @ nat_digits (nat (- i)) else nat_digits (nat i))"

lemma dropWhile_twice: "dropWhile P (dropWhile P xs) = dropWhile P xs"
  by (induction xs) auto

lemma dropWhile_id_hd: "dropWhile P xs = xs \<longleftrightarrow> xs = [] \<or> \<not> P (hd xs)"
proof (cases xs)
  case (Cons a ys)
  have "length (dropWhile P ys) < length (a # ys)"
    by (simp add: length_dropWhile_le le_imp_less_Suc)
  then have "dropWhile P ys \<noteq> a # ys" by auto
  with Cons show ?thesis by simp
qed simp

text \<open>\<open>s.encode("utf-8")\<close> for code points below 256.\<close>

definition utf8_char :: "char \<Rightarrow> int list" where
  "utf8_char c = (let n = (of_char c :: int) in
     if n < 128 then [n] else [192 + n div 64, 128 + n mod 64])"

definition utf8 :: "string \<Rightarrow> int list" where
  "utf8 s = concat (map utf8_char s)"

subsection \<open>Loops that update a list by index\<close>

text \<open>\<open>for i in range(n): xs[i] = f(i, xs[i])\<close>.\<close>

lemma fold_update_upt:
  "n \<le> length xs \<Longrightarrow>
     fold (\<lambda>i ys. ys[i := f i (ys ! i)]) [0..<n] xs = map (\<lambda>i. f i (xs ! i)) [0..<n] @ drop n xs"
proof (induction n)
  case (Suc n)
  then have "fold (\<lambda>i ys. ys[i := f i (ys ! i)]) [0..<n] xs
      = map (\<lambda>i. f i (xs ! i)) [0..<n] @ xs ! n # drop (Suc n) xs"
    by (simp add: Cons_nth_drop_Suc)
  then show ?case by (simp add: list_update_append nth_append)
qed simp

lemma map2_upt: "length xs = length ys \<Longrightarrow>
    map2 f xs ys = map (\<lambda>i. f (xs ! i) (ys ! i)) [0..<length xs]"
  by (rule nth_equalityI) auto

subsection \<open>Bits of an integer\<close>

lemma bits_induct [case_names stop step]:
  assumes "\<And>b. b \<le> 0 \<Longrightarrow> P b" and "\<And>b. 0 < b \<Longrightarrow> P (drop_bit 1 b) \<Longrightarrow> P b"
  shows "P (b :: int)"
proof (induction b rule: measure_induct_rule [where f = nat])
  case (less b)
  then show ?case
    using assms [of b] by (cases "b \<le> 0") (auto simp: drop_bit_eq_div)
qed

lemma nonneg_induct [consumes 1, case_names zero step]:
  assumes "0 \<le> b" and "P 0" and "\<And>b. 0 < b \<Longrightarrow> 0 \<le> drop_bit 1 b \<Longrightarrow> P (drop_bit 1 b) \<Longrightarrow> P b"
  shows "P (b :: int)"
  using assms(1)
  by (induction b rule: bits_induct) (auto intro: assms(2,3) dest: antisym)

text \<open>\<open>int.bit_length\<close>.\<close>

function bit_length :: "int \<Rightarrow> nat" where
  "bit_length n = (if n \<le> 0 then 0 else Suc (bit_length (drop_bit 1 n)))"
  by pat_completeness auto
termination
  by (relation "measure nat") (auto simp: drop_bit_eq_div)

declare bit_length.simps [simp del]

lemma bit_length_0 [simp]: "bit_length 0 = 0"
  by (simp add: bit_length.simps)

lemma bit_length_le_iff: "0 \<le> n \<Longrightarrow> bit_length n \<le> k \<longleftrightarrow> n < 2 ^ k"
proof (induction n arbitrary: k rule: nonneg_induct)
  case (step n)
  show ?case
  proof (cases k)
    case 0
    with step.hyps show ?thesis by (simp add: bit_length.simps [of n])
  next
    case (Suc m)
    with step show ?thesis
      by (simp add: bit_length.simps [of n] drop_bit_eq_div) linarith
  qed
qed simp

lemma bit_length_bounds: "0 < n \<Longrightarrow> 2 ^ (bit_length n - 1) \<le> n \<and> n < 2 ^ bit_length n"
  using bit_length_le_iff [of n "bit_length n - 1"] bit_length_le_iff [of n "bit_length n"]
  by (cases "bit_length n") (auto simp: bit_length.simps [of n])

end
