(* ===== verification/Qr_Field.thy ===== *)
theory Qr_Field
  imports Prelude "HOL-Library.Word"
begin

unbundle bit_operations_syntax

text \<open>
  The byte field of the QR renderer (\<^verbatim>\<open>event_qna/qr.py\<close>, \<open>_gf_multiply\<close>): the product of
  two bytes as polynomials over GF(2), reduced by 0x11D. The laws of the product are proved here
  and published as the locale \<open>byte_ring\<close>, the interface the Reed-Solomon theory relies on.
\<close>

subsection \<open>The code\<close>

text \<open>
  The body of the loop doubles \<open>left\<close> and reduces it; the loop reads \<open>right\<close> bit by bit. Both
  arguments are bytes in every call (for a negative \<open>right\<close> the Python loop would not end; the
  model stops there, and no caller passes one).
\<close>

definition gf_double :: "int \<Rightarrow> int" where
  "gf_double left = (let left = push_bit 1 left in
     if left AND 256 \<noteq> 0 then left XOR 285 else left)"

function gf_multiply_loop :: "int \<Rightarrow> int \<Rightarrow> int \<Rightarrow> int" where
  "gf_multiply_loop result left right =
     (if right \<le> 0 then result
      else gf_multiply_loop (if right AND 1 \<noteq> 0 then result XOR left else result)
             (gf_double left) (drop_bit 1 right))"
  by pat_completeness auto
termination
  by (relation "measure (\<lambda>(result, left, right). nat right)") (auto simp: drop_bit_eq_div)

declare gf_multiply_loop.simps [simp del]

definition gf_multiply :: "int \<Rightarrow> int \<Rightarrow> int" where
  "gf_multiply left right = gf_multiply_loop 0 left right"

subsection \<open>Bytes\<close>

definition byte :: "int \<Rightarrow> bool" where
  "byte a \<longleftrightarrow> 0 \<le> a \<and> a < 256"

lemma byte_0 [simp]: "byte 0" and byte_1 [simp]: "byte 1" and byte_2 [simp]: "byte 2"
  by (simp_all add: byte_def)

lemma byte_xor [simp, intro]: "byte a \<Longrightarrow> byte b \<Longrightarrow> byte (a XOR b)"
  using XOR_upper [of a 8 b] by (simp add: byte_def)

lemma byte_all:
  assumes "list_all P (map int [0..<256])" and "byte a"
  shows "P a"
proof -
  from assms(2) have "a = int (nat a)" and "nat a \<in> set [0..<256]"
    by (auto simp: byte_def)
  with assms(1) show ?thesis
    by (metis list_all_iff list.set_map image_eqI)
qed

lemma byte_double [simp, intro]: "byte a \<Longrightarrow> byte (gf_double a)"
proof -
  have "list_all (\<lambda>a. byte (gf_double a)) (map int [0..<256])"
    unfolding byte_def by code_simp
  then show "byte a \<Longrightarrow> byte (gf_double a)" by (rule byte_all)
qed

subsection \<open>Linearity\<close>

lemma and_256_bit: "(k::int) AND 256 \<noteq> 0 \<longleftrightarrow> bit k 8"
  using bit_iff_and_push_bit_not_eq_0 [of k 8] by simp

lemma and_1_odd: "(k::int) AND 1 \<noteq> 0 \<longleftrightarrow> odd k"
  by (simp add: and_one_eq odd_iff_mod_2_eq_one)

lemma gf_double_xor: "gf_double (a XOR b) = gf_double a XOR gf_double b"
proof -
  have "push_bit 1 (a XOR b) = push_bit 1 a XOR push_bit 1 b"
    by (rule push_bit_xor)
  then show ?thesis
    by (simp only: gf_double_def Let_def and_256_bit)
       (simp add: bit_xor_iff xor.left_commute xor.commute xor.assoc)
qed

lemma gf_double_0 [simp]: "gf_double 0 = 0"
  by (simp add: gf_double_def)

lemma gf_multiply_loop_stop: "b \<le> 0 \<Longrightarrow> gf_multiply_loop result left b = result"
  by (simp add: gf_multiply_loop.simps [of result left b])

lemma gf_multiply_loop_step:
  "0 < b \<Longrightarrow> gf_multiply_loop result left b =
     gf_multiply_loop (if odd b then result XOR left else result) (gf_double left) (drop_bit 1 b)"
  by (subst gf_multiply_loop.simps) (simp add: and_1_odd)

lemma gf_multiply_loop_result:
  "gf_multiply_loop result left right = result XOR gf_multiply_loop 0 left right"
proof (induction right arbitrary: result left rule: bits_induct)
  case (stop b)
  then show ?case by (simp add: gf_multiply_loop_stop)
next
  case (step b)
  let ?rest = "gf_multiply_loop 0 (gf_double left) (drop_bit 1 b)"
  have "gf_multiply_loop result left b = (if odd b then result XOR left else result) XOR ?rest"
    by (subst gf_multiply_loop_step [OF step.hyps], rule step.IH)
  moreover have "gf_multiply_loop 0 left b = (if odd b then left else 0) XOR ?rest"
    by (subst gf_multiply_loop_step [OF step.hyps], subst step.IH) simp
  ultimately show ?case by (simp add: xor.assoc)
qed

lemma gf_multiply_0_right [simp]: "gf_multiply a 0 = 0"
  by (simp add: gf_multiply_def gf_multiply_loop_stop)

lemma gf_multiply_step:
  assumes "0 \<le> b"
  shows "gf_multiply a b =
    (if odd b then a else 0) XOR gf_multiply (gf_double a) (drop_bit 1 b)"
proof (cases "b = 0")
  case False
  with assms have "0 < b" by simp
  then show ?thesis
    unfolding gf_multiply_def
    by (subst gf_multiply_loop_step, assumption) (subst gf_multiply_loop_result, simp)
qed simp

lemma gf_multiply_xor_left:
  "0 \<le> b \<Longrightarrow> gf_multiply (a XOR a') b = gf_multiply a b XOR gf_multiply a' b"
proof (induction b arbitrary: a a' rule: nonneg_induct)
  case (step b)
  then show ?case
    by (simp add: gf_multiply_step [of b] gf_double_xor xor.left_commute xor.commute xor.assoc)
qed simp

lemma gf_multiply_0_left [simp]: "0 \<le> b \<Longrightarrow> gf_multiply 0 b = 0"
  using gf_multiply_xor_left [of b 0 0] by simp

lemma gf_multiply_double: "0 \<le> b \<Longrightarrow> gf_multiply (gf_double a) b = gf_double (gf_multiply a b)"
proof (induction b arbitrary: a rule: nonneg_induct)
  case (step b)
  then show ?case
    by (simp add: gf_multiply_step [of b] gf_double_xor)
qed simp

text \<open>Multiplications by two factors commute.\<close>

lemma gf_multiply_commute_factors:
  assumes "0 \<le> b" and "0 \<le> c"
  shows "gf_multiply (gf_multiply a c) b = gf_multiply (gf_multiply a b) c"
  using assms(2)
proof (induction c arbitrary: a rule: nonneg_induct)
  case zero
  from assms(1) show ?case by simp
next
  case (step c)
  with assms(1) show ?case
    by (simp add: gf_multiply_step [of c] gf_multiply_xor_left gf_multiply_double)
qed

lemma byte_multiply [simp, intro]: "byte a \<Longrightarrow> byte b \<Longrightarrow> byte (gf_multiply a b)"
proof -
  have "0 \<le> b \<Longrightarrow> byte a \<Longrightarrow> byte (gf_multiply a b)"
  proof (induction b arbitrary: a rule: nonneg_induct)
    case (step b)
    then show ?case by (simp add: gf_multiply_step [of b])
  qed simp
  then show "byte a \<Longrightarrow> byte b \<Longrightarrow> byte (gf_multiply a b)" by (simp add: byte_def)
qed

lemma gf_multiply_1_left: "byte b \<Longrightarrow> gf_multiply 1 b = b"
proof -
  have "list_all (\<lambda>b. gf_multiply 1 b = b) (map int [0..<256])" by code_simp
  then show "byte b \<Longrightarrow> gf_multiply 1 b = b" by (rule byte_all)
qed

lemma gf_multiply_comm: "byte a \<Longrightarrow> byte b \<Longrightarrow> gf_multiply a b = gf_multiply b a"
  using gf_multiply_commute_factors [of a b 1]
  by (simp add: gf_multiply_1_left byte_def)

lemma gf_multiply_assoc:
  assumes "byte a" "byte b" "byte c"
  shows "gf_multiply (gf_multiply a b) c = gf_multiply a (gf_multiply b c)"
proof -
  have "gf_multiply (gf_multiply a b) c = gf_multiply (gf_multiply b a) c"
    by (simp only: gf_multiply_comm [OF assms(1,2)])
  also have "\<dots> = gf_multiply (gf_multiply b c) a"
    using assms by (intro gf_multiply_commute_factors) (auto simp: byte_def)
  also have "\<dots> = gf_multiply a (gf_multiply b c)"
    using assms by (intro gf_multiply_comm) auto
  finally show ?thesis .
qed

subsection \<open>The interface of the byte field\<close>

text \<open>
  What a checksum over the bytes needs of its multiplication: a commutative ring of
  characteristic two whose addition is XOR. \<open>horner r p\<close> evaluates the polynomial with
  coefficients \<open>p\<close>, highest first, at \<open>r\<close>.
\<close>

locale byte_ring =
  fixes mult :: "int \<Rightarrow> int \<Rightarrow> int"
  assumes closed: "byte a \<Longrightarrow> byte b \<Longrightarrow> byte (mult a b)"
    and comm: "byte a \<Longrightarrow> byte b \<Longrightarrow> mult a b = mult b a"
    and assoc: "byte a \<Longrightarrow> byte b \<Longrightarrow> byte c \<Longrightarrow> mult (mult a b) c = mult a (mult b c)"
    and distrib: "byte a \<Longrightarrow> byte b \<Longrightarrow> byte c \<Longrightarrow> mult (a XOR b) c = mult a c XOR mult b c"
    and one: "byte b \<Longrightarrow> mult 1 b = b"

lemma byte_nonneg: "byte a \<Longrightarrow> 0 \<le> a"
  by (simp add: byte_def)

interpretation gf: byte_ring gf_multiply
  by unfold_locales
     (auto simp: gf_multiply_1_left gf_multiply_xor_left gf_multiply_assoc byte_nonneg
       intro: gf_multiply_comm)

end
