(* ===== verification/Qr_Reed_Solomon.thy ===== *)
theory Qr_Reed_Solomon
  imports Qr_Field
begin

unbundle bit_operations_syntax

text \<open>
  The error correction of the QR renderer (\<open>_reed_solomon\<close>): the generator polynomial with
  roots \<open>2^0 .. 2^(n-1)\<close> and the shift-register division by it. The algebra is proved in the
  locale \<open>byte_ring\<close> and used through its interpretation on \<open>gf_multiply\<close>; the result is that
  every block extended by its error-correction bytes vanishes at each root.
\<close>

subsection \<open>The code\<close>

text \<open>\<open>for index, coefficient in enumerate(generator)\<close>: multiply the generator by \<open>x + factor\<close>.\<close>

definition rs_generator_step :: "int \<Rightarrow> int list \<Rightarrow> int list" where
  "rs_generator_step factor generator =
     fold (\<lambda>(index, coefficient) next_generator.
         let next_generator = next_generator[index := next_generator ! index XOR coefficient]
         in next_generator[index + 1 :=
              next_generator ! (index + 1) XOR gf_multiply coefficient factor])
       (enumerate 0 generator) (replicate (length generator + 1) 0)"

definition rs_factor :: "nat \<Rightarrow> int" where
  "rs_factor exponent = ((\<lambda>factor. gf_multiply factor 2) ^^ exponent) 1"

definition rs_generator :: "nat \<Rightarrow> int list" where
  "rs_generator ecc_length =
     fold (\<lambda>exponent. rs_generator_step (rs_factor exponent)) [0..<ecc_length] [1]"

text \<open>One data codeword enters the shift register (\<open>ecc_length\<close> is positive in every call).\<close>

definition rs_remainder_step :: "int list \<Rightarrow> nat \<Rightarrow> int \<Rightarrow> int list \<Rightarrow> int list" where
  "rs_remainder_step generator ecc_length codeword remainder =
     (let factor = codeword XOR remainder ! 0;
          remainder = drop 1 remainder @ [0]
      in fold (\<lambda>index remainder. remainder[index :=
                  remainder ! index XOR gf_multiply (generator ! (index + 1)) factor])
           [0..<ecc_length] remainder)"

definition reed_solomon :: "int list \<Rightarrow> nat \<Rightarrow> int list" where
  "reed_solomon data ecc_length =
     (let generator = rs_generator ecc_length
      in fold (rs_remainder_step generator ecc_length) data (replicate ecc_length 0))"

subsection \<open>Polynomials over a byte ring\<close>

definition horner :: "(int \<Rightarrow> int \<Rightarrow> int) \<Rightarrow> int \<Rightarrow> int list \<Rightarrow> int" where
  "horner mult r p = foldl (\<lambda>acc c. mult acc r XOR c) 0 p"

definition bytes :: "int list \<Rightarrow> bool" where
  "bytes p \<longleftrightarrow> list_all byte p"

lemma bytes_simps [simp]:
  "bytes []"
  "bytes (c # p) \<longleftrightarrow> byte c \<and> bytes p"
  "bytes (p @ q) \<longleftrightarrow> bytes p \<and> bytes q"
  "bytes (replicate n 0)"
  by (auto simp: bytes_def list_all_iff)

lemma bytes_map2_xor [intro]: "bytes p \<Longrightarrow> bytes q \<Longrightarrow> bytes (map2 (XOR) p q)"
  by (fastforce simp: bytes_def list_all_iff elim: in_set_zipE)

text \<open>The shift register and the generator product, over any multiplication.\<close>

definition shift_step :: "(int \<Rightarrow> int \<Rightarrow> int) \<Rightarrow> int list \<Rightarrow> int \<Rightarrow> int list \<Rightarrow> int list" where
  "shift_step mult gt c rem =
     map2 (XOR) (tl rem @ [0]) (map (\<lambda>g. mult g (c XOR hd rem)) gt)"

definition root_step :: "(int \<Rightarrow> int \<Rightarrow> int) \<Rightarrow> int \<Rightarrow> int list \<Rightarrow> int list" where
  "root_step mult k g = map2 (XOR) (g @ [0]) (0 # map (\<lambda>c. mult c k) g)"

context byte_ring begin

definition pw :: "int \<Rightarrow> nat \<Rightarrow> int" where
  "pw r n = ((\<lambda>a. mult a r) ^^ n) 1"

lemma pw_simps [simp]: "pw r 0 = 1" "pw r (Suc n) = mult (pw r n) r"
  by (simp_all add: pw_def)

lemma pw_byte [simp]: "byte r \<Longrightarrow> byte (pw r n)"
  by (induction n) (auto intro: closed)

lemma one_right: "byte b \<Longrightarrow> mult b 1 = b"
  using comm [of b 1] one by simp

lemma zero_left: "byte b \<Longrightarrow> mult 0 b = 0"
  using distrib [of 0 0 b] by simp

lemma distrib_right:
  "byte a \<Longrightarrow> byte b \<Longrightarrow> byte c \<Longrightarrow> mult a (b XOR c) = mult a b XOR mult a c"
  by (metis byte_xor comm distrib)

lemma swap: "byte a \<Longrightarrow> byte b \<Longrightarrow> byte c \<Longrightarrow> mult (mult a b) c = mult (mult a c) b"
  by (metis assoc comm)

lemma horner_foldl_byte: "byte a \<Longrightarrow> byte r \<Longrightarrow> bytes p \<Longrightarrow> byte (foldl (\<lambda>acc c. mult acc r XOR c) a p)"
  by (induction p arbitrary: a) (simp_all add: closed)

lemma horner_byte [simp]: "byte r \<Longrightarrow> bytes p \<Longrightarrow> byte (horner mult r p)"
  by (simp add: horner_def horner_foldl_byte)

lemma horner_foldl:
  "byte a \<Longrightarrow> byte r \<Longrightarrow> bytes p \<Longrightarrow>
     foldl (\<lambda>acc c. mult acc r XOR c) a p = mult a (pw r (length p)) XOR horner mult r p"
proof (induction p rule: rev_induct)
  case Nil
  then show ?case by (simp add: horner_def one_right)
next
  case (snoc c p)
  let ?h = "horner mult r p" and ?n = "pw r (length p)"
  from snoc have h: "byte ?h" and n: "byte ?n" by simp_all
  have "foldl (\<lambda>acc c. mult acc r XOR c) a (p @ [c]) = mult (mult a ?n XOR ?h) r XOR c"
    using snoc by simp
  also have "\<dots> = mult (mult a ?n) r XOR mult ?h r XOR c"
    using snoc.prems h n by (simp add: distrib closed xor.assoc)
  also have "mult (mult a ?n) r = mult a (pw r (length (p @ [c])))"
    using snoc.prems n by (simp add: assoc)
  also have "mult ?h r XOR c = horner mult r (p @ [c])" by (simp add: horner_def)
  finally show ?case by (simp add: horner_def xor.assoc)
qed

lemma horner_append:
  "byte r \<Longrightarrow> bytes p \<Longrightarrow> bytes q \<Longrightarrow>
     horner mult r (p @ q) = mult (horner mult r p) (pw r (length q)) XOR horner mult r q"
  using horner_foldl [of "horner mult r p" r q] by (simp add: horner_def [of _ _ "p @ q"]
      horner_def [of _ _ p, symmetric])

lemma horner_snoc:
  "horner mult r (p @ [c]) = mult (horner mult r p) r XOR c"
  by (simp add: horner_def)

lemma horner_Cons:
  "byte r \<Longrightarrow> byte c \<Longrightarrow> bytes p \<Longrightarrow>
     horner mult r (c # p) = mult c (pw r (length p)) XOR horner mult r p"
  using horner_append [of r "[c]" p] by (simp add: horner_def zero_left)

lemma horner_Nil [simp]: "horner mult r [] = 0"
  by (simp add: horner_def)

lemma horner_zeros: "byte r \<Longrightarrow> horner mult r (replicate n 0) = 0"
  by (induction n) (simp_all add: horner_Cons zero_left)

lemma horner_xor:
  "byte r \<Longrightarrow> length p = length q \<Longrightarrow> bytes p \<Longrightarrow> bytes q \<Longrightarrow>
     horner mult r (map2 (XOR) p q) = horner mult r p XOR horner mult r q"
proof (induction p q rule: rev_induct2)
  case (4 x xs y ys)
  then show ?case
    by (simp add: horner_snoc distrib xor.assoc xor.left_commute)
qed simp_all

lemma horner_scale:
  "byte r \<Longrightarrow> byte k \<Longrightarrow> bytes p \<Longrightarrow>
     horner mult r (map (\<lambda>c. mult c k) p) = mult (horner mult r p) k"
proof (induction p rule: rev_induct)
  case (snoc c p)
  then show ?case
    by (simp add: horner_snoc distrib closed swap)
qed (simp add: zero_left)

lemma horner_root_step:
  assumes "byte r" "byte k" "bytes g"
  shows "horner mult r (root_step mult k g) = mult (horner mult r g) (r XOR k)"
proof -
  have b: "bytes (map (\<lambda>c. mult c k) g)"
    using assms by (auto simp: bytes_def list_all_iff closed)
  have "horner mult r (root_step mult k g)
      = horner mult r (g @ [0]) XOR horner mult r (0 # map (\<lambda>c. mult c k) g)"
    unfolding root_step_def using assms b by (intro horner_xor) auto
  also have "\<dots> = mult (horner mult r g) r XOR mult (horner mult r g) k"
    using assms b by (simp add: horner_snoc horner_Cons zero_left horner_scale)
  also have "\<dots> = mult (horner mult r g) (r XOR k)"
    using assms by (simp add: distrib_right)
  finally show ?thesis .
qed

lemma horner_shift_step:
  assumes r: "byte r" and c: "byte c" and rem: "bytes rem" "rem \<noteq> []"
    and gt: "bytes gt" "length gt = length rem"
    and root: "horner mult r gt = pw r (length rem)"
  shows "horner mult r (shift_step mult gt c rem)
       = mult (horner mult r rem) r XOR mult c (pw r (length rem))"
proof -
  obtain r0 rt where rem_eq: "rem = r0 # rt" using rem(2) by (cases rem) auto
  with rem have r0: "byte r0" and rt: "bytes rt" by auto
  let ?n = "pw r (length rem)" and ?f = "c XOR r0"
  have n: "byte ?n" using r by (rule pw_byte)
  have b: "bytes (map (\<lambda>g. mult g ?f) gt)"
    using gt(1) c r0 by (auto simp: bytes_def list_all_iff closed)
  have "horner mult r (shift_step mult gt c rem)
      = horner mult r (rt @ [0]) XOR horner mult r (map (\<lambda>g. mult g ?f) gt)"
    unfolding shift_step_def rem_eq list.sel
    using r rt b gt(2) rem_eq by (intro horner_xor) auto
  also have "\<dots> = mult (horner mult r rt) r XOR (mult ?n c XOR mult ?n r0)"
    using r c r0 gt(1) n by (simp add: horner_snoc horner_scale root distrib_right)
  also have "mult (horner mult r rt) r = mult (horner mult r rem) r XOR mult ?n r0"
  proof -
    have "horner mult r rem = mult r0 (pw r (length rt)) XOR horner mult r rt"
      unfolding rem_eq using r r0 rt by (rule horner_Cons)
    then have "mult (horner mult r rem) r = mult r0 ?n XOR mult (horner mult r rt) r"
      using r r0 rt by (simp add: distrib closed assoc rem_eq)
    then show ?thesis
      using comm [OF r0 n] by (simp add: xor.commute xor.left_commute)
  qed
  also have "(mult (horner mult r rem) r XOR mult ?n r0) XOR (mult ?n c XOR mult ?n r0)
      = mult (horner mult r rem) r XOR mult c ?n"
    using comm [OF c n] by (simp add: xor.commute xor.left_commute xor.assoc)
  finally show ?thesis .
qed

lemma shift_step_shape:
  assumes "bytes rem" "rem \<noteq> []" "bytes gt" "length gt = length rem" "byte c"
  shows "length (shift_step mult gt c rem) = length rem" and "bytes (shift_step mult gt c rem)"
proof -
  show "length (shift_step mult gt c rem) = length rem"
    using assms by (cases rem) (simp_all add: shift_step_def)
  obtain r0 rt where rem: "rem = r0 # rt" using assms(2) by (cases rem) auto
  have "bytes (map (\<lambda>g. mult g (c XOR r0)) gt)"
    using assms rem by (auto simp: bytes_def list_all_iff closed)
  then show "bytes (shift_step mult gt c rem)"
    using assms(1) unfolding shift_step_def rem by (auto intro!: bytes_map2_xor)
qed

text \<open>The register holds the remainder: appended to the data it cancels at every root.\<close>

lemma shift_register_root:
  assumes r: "byte r" and gt: "bytes gt" "gt \<noteq> []"
    and root: "horner mult r (1 # gt) = 0" and d: "bytes d"
  shows "horner mult r (d @ fold (shift_step mult gt) d (replicate (length gt) 0)) = 0"
proof -
  let ?n = "length gt"
  let ?reg = "\<lambda>d. fold (shift_step mult gt) d (replicate ?n 0)"
  have root': "horner mult r gt = pw r ?n"
    using root r gt by (simp add: horner_Cons one xor.commute)
       (metis xor.right_neutral xor_self_eq xor.left_commute)
  have "bytes d \<Longrightarrow> bytes (?reg d) \<and> length (?reg d) = ?n \<and>
      horner mult r (?reg d) = mult (horner mult r d) (pw r ?n)"
  proof (induction d rule: rev_induct)
    case Nil
    then show ?case using r by (simp add: horner_zeros zero_left)
  next
    case (snoc c d)
    then have IH: "bytes (?reg d)" "length (?reg d) = ?n"
      "horner mult r (?reg d) = mult (horner mult r d) (pw r ?n)" and c: "byte c" "bytes d"
      by auto
    from IH(2) gt(2) have ne: "?reg d \<noteq> []" by (metis length_0_conv)
    have "horner mult r (shift_step mult gt c (?reg d))
        = mult (mult (horner mult r d) (pw r ?n)) r XOR mult c (pw r ?n)"
      using horner_shift_step [of r c "?reg d" gt] r c(1) IH ne gt(1) root' by simp
    also have "\<dots> = mult (mult (horner mult r d) r XOR c) (pw r ?n)"
      using r c by (simp add: distrib closed swap)
    finally show ?case
      using shift_step_shape [of "?reg d" gt c] IH ne gt(1) c(1) by (simp add: horner_snoc)
  qed
  with d have reg: "bytes (?reg d)" "length (?reg d) = ?n"
    "horner mult r (?reg d) = mult (horner mult r d) (pw r ?n)" by auto
  then show ?thesis using r d by (simp add: horner_append)
qed

end

subsection \<open>The loops compute the polynomial operations\<close>

lemma rs_generator_step_eq:
  "rs_generator_step factor generator = root_step gf_multiply factor generator"
proof -
  let ?upd = "\<lambda>(index, coefficient) nx.
      let nx = nx[index := nx ! index XOR coefficient]
      in nx[index + 1 := nx ! (index + 1) XOR gf_multiply coefficient factor]"
  have "fold ?upd (enumerate (length pre) g) (pre @ x # replicate (length g) 0)
      = pre @ map2 (XOR) (g @ [0]) (x # map (\<lambda>c. gf_multiply c factor) g)" for pre x g
  proof (induction g arbitrary: pre x)
    case (Cons c g)
    have "fold ?upd (enumerate (length pre) (c # g)) (pre @ x # replicate (length (c # g)) 0)
        = fold ?upd (enumerate (length (pre @ [x XOR c])) g)
            ((pre @ [x XOR c]) @ gf_multiply c factor # replicate (length g) 0)"
      by (simp add: list_update_append nth_append)
    then show ?case by (simp only: Cons.IH) (simp add: xor.commute)
  qed simp
  from this [of "[]" generator 0] show ?thesis
    by (simp add: rs_generator_step_def root_step_def)
qed

lemma rs_remainder_step_eq:
  assumes "length generator = Suc n" and "length rem = n" and "0 < n"
  shows "rs_remainder_step generator n c rem = shift_step gf_multiply (tl generator) c rem"
proof -
  obtain r0 rt where rem: "rem = r0 # rt" using assms by (cases rem) auto
  obtain g0 gt where gen: "generator = g0 # gt" and len: "length gt = n"
    using assms by (cases generator) auto
  let ?rem = "rt @ [0]"
  have n: "n = length ?rem" using assms rem by simp
  have "rs_remainder_step generator n c rem
      = map (\<lambda>i. ?rem ! i XOR gf_multiply (gt ! i) (c XOR r0)) [0..<n]"
    unfolding rs_remainder_step_def Let_def rem gen
    using fold_update_upt [of n ?rem "\<lambda>i y. y XOR gf_multiply (gt ! i) (c XOR r0)"] n by simp
  also have "\<dots> = map2 (XOR) ?rem (map (\<lambda>g. gf_multiply g (c XOR r0)) gt)"
    using n len by (subst map2_upt) (auto intro!: map_cong)
  finally show ?thesis by (simp add: shift_step_def rem gen)
qed

lemma rs_factor_eq: "rs_factor i = gf.pw 2 i"
  by (simp add: rs_factor_def gf.pw_def)

lemma rs_factor_byte [simp]: "byte (rs_factor i)"
  by (simp add: rs_factor_eq)

lemma rs_generator_Suc:
  "rs_generator (Suc n) = root_step gf_multiply (rs_factor n) (rs_generator n)"
  by (simp add: rs_generator_def rs_generator_step_eq)

lemma rs_generator_shape:
  "length (rs_generator n) = Suc n \<and> bytes (rs_generator n) \<and> hd (rs_generator n) = 1"
proof (induction n)
  case 0
  then show ?case by (simp add: rs_generator_def)
next
  case (Suc n)
  then obtain gt where g: "rs_generator n = 1 # gt" and gt: "length gt = n" "bytes gt"
    by (cases "rs_generator n") auto
  have "bytes (map (\<lambda>c. gf_multiply c (rs_factor n)) (1 # gt))"
    using gt by (auto simp: bytes_def list_all_iff)
  with g gt show ?case
    by (auto simp: rs_generator_Suc root_step_def intro!: bytes_map2_xor)
qed

lemma rs_generator_root:
  "i < n \<Longrightarrow> horner gf_multiply (rs_factor i) (rs_generator n) = 0"
proof (induction n)
  case (Suc n)
  have "horner gf_multiply (rs_factor i) (rs_generator (Suc n))
      = gf_multiply (horner gf_multiply (rs_factor i) (rs_generator n)) (rs_factor i XOR rs_factor n)"
    unfolding rs_generator_Suc using rs_generator_shape by (intro gf.horner_root_step) auto
  with Suc show ?case
    by (cases "i = n") (simp_all add: rs_generator_shape gf.zero_left)
qed simp

lemma reed_solomon_register:
  assumes "0 < n" and "bytes data"
  shows "reed_solomon data n
       = fold (shift_step gf_multiply (tl (rs_generator n))) data (replicate n 0)"
    and "length (reed_solomon data n) = n" and "bytes (reed_solomon data n)"
proof -
  let ?gt = "tl (rs_generator n)"
  from rs_generator_shape [of n] have gt: "length ?gt = n" "bytes ?gt"
    by (cases "rs_generator n"; auto)+
  have "fold (rs_remainder_step (rs_generator n) n) d (replicate n 0)
        = fold (shift_step gf_multiply ?gt) d (replicate n 0) \<and>
      length (fold (shift_step gf_multiply ?gt) d (replicate n 0)) = n \<and>
      bytes (fold (shift_step gf_multiply ?gt) d (replicate n 0))" if "bytes d" for d
    using that
  proof (induction d rule: rev_induct)
    case (snoc c d)
    let ?reg = "fold (shift_step gf_multiply ?gt) d (replicate n 0)"
    from snoc have reg: "length ?reg = n" "bytes ?reg" and c: "byte c" by auto
    with assms(1) have ne: "?reg \<noteq> []" by auto
    show ?case
      using snoc c gf.shift_step_shape [OF reg(2) ne gt(2) _ c] reg(1) gt(1)
      by (simp add: rs_remainder_step_eq rs_generator_shape assms(1))
  qed simp
  from this [OF assms(2)] show "reed_solomon data n
       = fold (shift_step gf_multiply (tl (rs_generator n))) data (replicate n 0)"
    "length (reed_solomon data n) = n" "bytes (reed_solomon data n)"
    by (simp_all add: reed_solomon_def)
qed

text \<open>
  Every root of the generator is a root of the extended block, which is what a QR decoder's
  syndrome computation checks.
\<close>

lemma reed_solomon_syndrome:
  assumes "bytes data" and "i < n"
  shows "horner gf_multiply (rs_factor i) (data @ reed_solomon data n) = 0"
proof -
  from rs_generator_shape [of n] obtain gt where
    g: "rs_generator n = 1 # gt" and gt: "length gt = n" "bytes gt"
    by (cases "rs_generator n") auto
  from assms(2) gt(1) have ne: "gt \<noteq> []" by auto
  have "horner gf_multiply (rs_factor i) (1 # gt) = 0"
    using rs_generator_root [OF assms(2)] g by simp
  then show ?thesis
    using gf.shift_register_root [OF rs_factor_byte gt(2) ne _ assms(1), of i]
      reed_solomon_register(1) [of n data] assms gt(1) g
    by simp
qed

text \<open>
  C10 The error-correction bytes of a block of bytes number \<open>ecc_length\<close>, are bytes, and make the
  extended block a multiple of the generator: every syndrome a decoder computes is zero.
\<close>

theorem reed_solomon_block:
  assumes "bytes data" and "0 < n"
  shows "length (reed_solomon data n) = n \<and> bytes (reed_solomon data n)
    \<and> (\<forall>i. i < n \<longrightarrow> horner gf_multiply (rs_factor i) (data @ reed_solomon data n) = 0)"
  using reed_solomon_register(2,3) [OF assms(2,1)] reed_solomon_syndrome [OF assms(1)] by blast

lemma reed_solomon_block_witness:
  "horner gf_multiply (rs_factor 1) ([18, 52] @ reed_solomon [18, 52] 2) = 0"
proof -
  have "bytes [18, 52]" by (simp add: byte_def)
  then show ?thesis using reed_solomon_block [of "[18, 52]" 2] by simp
qed

end
