(* ===== verification/Qr_Reader.thy ===== *)
theory Qr_Reader
  imports Qr_Codewords
begin

unbundle bit_operations_syntax

text \<open>
  The specification side of the QR codewords: a reader that undoes the interleaving, unpacks the
  data codewords into bits, reads the byte-mode header and returns the payload. The lemmas show
  that it inverts each stage of \<open>codewords\<close> of theory Qr_Codewords.
\<close>

subsection \<open>The reader\<close>

definition bits_value :: "int list \<Rightarrow> int" where
  "bits_value bs = foldl (\<lambda>acc b. 2 * acc + b) 0 bs"

abbreviation byte_bits :: "int \<Rightarrow> int list" where
  "byte_bits b \<equiv> append_bits [] b 8"

fun distribute :: "nat list \<Rightarrow> int list \<Rightarrow> int list list \<Rightarrow> int list list" where
  "distribute (0 # ls) hs (r # rs) = r # distribute ls hs rs"
| "distribute (Suc l # ls) (h # hs) (r # rs) = (h # r) # distribute ls hs rs"
| "distribute ls hs rs = []"

function deinterleave :: "nat list \<Rightarrow> int list \<Rightarrow> int list list" where
  "deinterleave lens cws =
     (if list_all (\<lambda>l. l = 0) lens then map (\<lambda>_. []) lens
      else let n = length (filter (\<lambda>l. l \<noteq> 0) lens)
           in distribute lens (take n cws) (deinterleave (map (\<lambda>l. l - 1) lens) (drop n cws)))"
  by pat_completeness auto
termination
proof (relation "measure (\<lambda>(lens, cws). sum_list lens)")
  fix lens :: "nat list" and cws :: "int list"  and n
  assume "\<not> list_all (\<lambda>l. l = 0) lens"
  then have "sum_list (map (\<lambda>l. l - 1) lens) < sum_list lens"
    by (induction lens) (auto intro: add_le_less_mono sum_list_mono [where f = "\<lambda>l. l - 1" and g = id, simplified]
        add_less_le_mono simp: sum_list_mono2)
  then show "((map (\<lambda>l. l - 1) lens, drop n cws), lens, cws) \<in> measure (\<lambda>(lens, cws). sum_list lens)"
    by simp
qed simp

declare deinterleave.simps [simp del]

definition block_lengths :: "(nat \<times> nat \<times> nat) list \<Rightarrow> nat list" where
  "block_lengths groups = concat (map (\<lambda>(blocks, total, data). replicate blocks data) groups)"

definition read_payload :: "nat \<Rightarrow> int list \<Rightarrow> int list option" where
  "read_payload version data =
     (let bits = concat (map byte_bits data);
          cl = count_length version;
          n = nat (bits_value (take cl (drop 4 bits)));
          body = drop (4 + cl) bits
      in if bits_value (take 4 bits) = 4 \<and> 8 * n \<le> length body
         then Some (map (\<lambda>k. bits_value (take 8 (drop (8 * k) body))) [0..<n])
         else None)"

definition read_codewords :: "nat \<Rightarrow> int list \<Rightarrow> int list option" where
  "read_codewords version cws =
     (let lens = block_lengths (ecc_m ! (version - 1))
      in read_payload version (concat (deinterleave lens (take (sum_list lens) cws))))"

subsection \<open>Bits and bytes\<close>

definition is_bits :: "int list \<Rightarrow> bool" where
  "is_bits bs \<longleftrightarrow> list_all (\<lambda>b. b = 0 \<or> b = 1) bs"

lemma is_bits_simps [simp]:
  "is_bits []" "is_bits (b # bs) \<longleftrightarrow> (b = 0 \<or> b = 1) \<and> is_bits bs"
  "is_bits (as @ bs) \<longleftrightarrow> is_bits as \<and> is_bits bs" "is_bits (replicate n 0)"
  by (auto simp: is_bits_def list_all_iff)

lemma append_bits_append: "append_bits bits v n = bits @ append_bits [] v n"
  by (simp add: append_bits_def)

lemma append_bits_0 [simp]: "append_bits [] v 0 = []"
  by (simp add: append_bits_def)

lemma append_bits_Suc: "append_bits [] v (Suc n) = append_bits [] (v div 2) n @ [v mod 2]"
proof -
  have "rev [0..<Suc n] = map Suc (rev [0..<n]) @ [0]"
    by (simp add: rev_map [symmetric] map_Suc_upt upt_conv_Cons)
  then show ?thesis
    by (simp add: append_bits_def drop_bit_Suc and_one_eq)
qed

lemma length_append_bits [simp]: "length (append_bits bits v n) = length bits + n"
  by (simp add: append_bits_def)

lemma is_bits_append_bits [simp]: "is_bits (append_bits bits v n) = is_bits bits"
  by (auto simp: append_bits_def is_bits_def list_all_iff and_one_eq)

lemma bits_value_snoc: "bits_value (bs @ [b]) = 2 * bits_value bs + b"
  by (simp add: bits_value_def)

lemma bits_value_append_bits: "0 \<le> v \<Longrightarrow> v < 2 ^ n \<Longrightarrow> bits_value (append_bits [] v n) = v"
proof (induction n arbitrary: v)
  case 0
  then show ?case by (simp add: bits_value_def)
next
  case (Suc n)
  then have "bits_value (append_bits [] (v div 2) n) = v div 2"
    by (intro Suc.IH) auto
  then show ?case by (simp add: append_bits_Suc bits_value_snoc)
qed

lemma append_bits_bits_value: "is_bits bs \<Longrightarrow> append_bits [] (bits_value bs) (length bs) = bs"
  by (induction bs rule: rev_induct) (auto simp: bits_value_snoc append_bits_Suc)

lemma bits_value_bounds: "is_bits bs \<Longrightarrow> 0 \<le> bits_value bs \<and> bits_value bs < 2 ^ length bs"
proof (induction bs rule: rev_induct)
  case Nil
  then show ?case by (simp add: bits_value_def)
next
  case (snoc b bs)
  then show ?case by (auto simp: bits_value_snoc)
qed

lemma bits_value_8:
  assumes "length bs = 8"
  shows "sum_list (map (\<lambda>offset. push_bit (7 - offset) (bs ! offset)) [0..<8]) = bits_value bs"
proof -
  from assms obtain a b c d e f g h where bs: "bs = [a, b, c, d, e, f, g, h]"
    by (auto simp: length_Suc_conv eval_nat_numeral)
  have "[0..<8] = [0, 1, 2, 3, 4, 5, 6, 7 :: nat]" by (simp add: upt_rec)
  then show ?thesis
    by (simp add: bs bits_value_def push_bit_eq_mult)
qed

lemma pack_bytes_Nil [simp]: "pack_bytes [] = []"
  by (simp add: pack_bytes_def)

lemma pack_bytes_chunk:
  assumes "length c = 8"
  shows "pack_bytes (c @ bits) = bits_value c # pack_bytes bits"
proof -
  have "(length (c @ bits) + 7) div 8 = Suc ((length bits + 7) div 8)"
    using assms by simp
  then have "[0..<(length (c @ bits) + 7) div 8] = 0 # map Suc [0..<(length bits + 7) div 8]"
    by (simp only: map_Suc_upt upt_conv_Cons zero_less_Suc)
  moreover have "map (\<lambda>k. sum_list (map (\<lambda>offset. push_bit (7 - offset) ((c @ bits) ! (8 * k + offset))) [0..<8]))
      (map Suc [0..<(length bits + 7) div 8]) = pack_bytes bits"
    using assms by (auto simp: pack_bytes_def nth_append comp_def add.assoc)
  moreover have "sum_list (map (\<lambda>offset. push_bit (7 - offset) ((c @ bits) ! (8 * 0 + offset))) [0..<8])
      = bits_value c"
    unfolding bits_value_8 [OF assms, symmetric]
    by (intro arg_cong [where f = sum_list] map_cong) (use assms in \<open>auto simp: nth_append\<close>)
  ultimately show ?thesis
    by (simp only: pack_bytes_def [of "c @ bits"] list.map)
qed

lemma chunk8_induct [consumes 1, case_names Nil chunk]:
  assumes "8 dvd length bits" and "P []"
    and "\<And>c bits. length c = 8 \<Longrightarrow> 8 dvd length bits \<Longrightarrow> P bits \<Longrightarrow> P (c @ bits)"
  shows "P bits"
  using assms(1)
proof (induction bits rule: length_induct)
  case (1 bits)
  show ?case
  proof (cases "bits = []")
    case False
    with 1 have 8: "8 \<le> length bits" by (auto dest: dvd_imp_le)
    have "P (take 8 bits @ drop 8 bits)"
      using 1 8 False by (intro assms(3)) (auto simp: dvd_minus_self)
    then show ?thesis by simp
  qed (simp add: assms(2))
qed

lemma unpack_pack_bytes:
  "8 dvd length bits \<Longrightarrow> is_bits bits \<Longrightarrow> concat (map byte_bits (pack_bytes bits)) = bits"
proof (induction rule: chunk8_induct)
  case (chunk c bits)
  then show ?case
    using append_bits_bits_value [of c] by (simp add: pack_bytes_chunk)
qed simp

lemma pack_bytes_bytes: "8 dvd length bits \<Longrightarrow> is_bits bits \<Longrightarrow> bytes (pack_bytes bits)"
proof (induction rule: chunk8_induct)
  case (chunk c bits)
  then show ?case
    using bits_value_bounds [of c] by (simp add: pack_bytes_chunk byte_def)
qed simp

lemma length_pack_bytes: "length (pack_bytes bits) = (length bits + 7) div 8"
  by (simp add: pack_bytes_def)

subsection \<open>Interleaving\<close>

definition row :: "int list list \<Rightarrow> nat \<Rightarrow> int list" where
  "row blocks index =
     map (\<lambda>block. block ! index) (filter (\<lambda>block. index < length block) blocks)"

lemma interleave_rows:
  "interleave blocks = concat (map (row blocks) [0..<Max (set (map length blocks))])"
  by (simp add: interleave_def row_def [abs_def])

lemma row_Suc: "row blocks (Suc i) = row (map tl blocks) i"
proof (induction blocks)
  case (Cons b blocks)
  then show ?case by (cases b) (auto simp: row_def)
qed (simp add: row_def)

lemma rows_Suc:
  "concat (map (row blocks) [0..<Suc m]) = row blocks 0 @ concat (map (row (map tl blocks)) [0..<m])"
proof -
  have "[0..<Suc m] = 0 # map Suc [0..<m]" by (simp add: map_Suc_upt upt_conv_Cons)
  then show ?thesis by (simp add: comp_def row_Suc del: upt_Suc)
qed

lemma distribute_heads:
  "distribute (map length blocks) (row blocks 0) (map tl blocks) = blocks"
proof (induction blocks)
  case (Cons b blocks)
  then show ?case by (cases b) (auto simp: row_def)
qed (simp add: row_def)

lemma length_row_0: "length (row blocks 0) = length (filter (\<lambda>l. l \<noteq> 0) (map length blocks))"
  by (induction blocks) (auto simp: row_def)

lemma deinterleave_rows:
  "(\<And>b. b \<in> set blocks \<Longrightarrow> length b \<le> m) \<Longrightarrow>
     deinterleave (map length blocks) (concat (map (row blocks) [0..<m]) @ rest) = blocks"
proof (induction m arbitrary: blocks)
  case 0
  then have "list_all (\<lambda>l. l = 0) (map length blocks)" "map (\<lambda>_. []) (map length blocks) = blocks"
    by (auto simp: list_all_iff intro!: map_idI) fastforce
  then show ?case by (simp add: deinterleave.simps)
next
  case (Suc m)
  show ?case
  proof (cases "list_all (\<lambda>l. l = 0) (map length blocks)")
    case True
    then have "map (\<lambda>_. []) (map length blocks) = blocks"
      by (auto simp: list_all_iff intro!: map_idI)
    with True show ?thesis by (simp add: deinterleave.simps)
  next
    case False
    have lens: "map (\<lambda>l. l - 1) (map length blocks) = map length (map tl blocks)" by simp
    have IH: "deinterleave (map length (map tl blocks))
        (concat (map (row (map tl blocks)) [0..<m]) @ rest) = map tl blocks"
      using Suc.prems by (intro Suc.IH) (auto simp: le_diff_conv)
    have take_drop: "take (length (row blocks 0)) (row blocks 0 @ ys) = row blocks 0"
      "drop (length (row blocks 0)) (row blocks 0 @ ys) = ys" for ys by simp_all
    show ?thesis
      unfolding rows_Suc append_assoc
      by (subst deinterleave.simps)
         (simp only: False if_False Let_def length_row_0 [symmetric] take_drop lens IH distribute_heads)
  qed
qed

lemma deinterleave_interleave:
  "deinterleave (map length blocks) (interleave blocks @ rest) = blocks"
proof (cases "blocks = []")
  case True
  then show ?thesis by (simp add: deinterleave.simps)
next
  case False
  show ?thesis unfolding interleave_rows by (rule deinterleave_rows) simp
qed

lemma length_rows:
  "(\<And>b. b \<in> set blocks \<Longrightarrow> length b \<le> m) \<Longrightarrow>
     length (concat (map (row blocks) [0..<m])) = sum_list (map length blocks)"
proof (induction m arbitrary: blocks)
  case 0
  then show ?case by (auto intro!: sum_list_0 [symmetric] simp: sum_list_eq_0_iff)
next
  case (Suc m)
  have "length (concat (map (row (map tl blocks)) [0..<m])) = sum_list (map length (map tl blocks))"
    using Suc.prems by (intro Suc.IH) (auto simp: le_diff_conv)
  moreover have "sum_list (map length blocks) = length (row blocks 0) + sum_list (map length (map tl blocks))"
  proof (induction blocks)
    case (Cons b blocks)
    then show ?case by (cases b) (auto simp: row_def)
  qed (simp add: row_def)
  ultimately show ?case by (simp only: rows_Suc length_append)
qed

lemma length_interleave: "length (interleave blocks) = sum_list (map length blocks)"
  unfolding interleave_rows by (rule length_rows) simp

subsection \<open>The block split\<close>

fun blocks_from :: "(nat \<times> nat) list \<Rightarrow> int list \<Rightarrow> nat \<Rightarrow> (int list \<times> int list) list" where
  "blocks_from [] data offset = []"
| "blocks_from ((t, d) # specs) data offset =
     (let block = take d (drop offset data)
      in (block, reed_solomon block (t - d)) # blocks_from specs data (offset + d))"

definition block_specs :: "(nat \<times> nat \<times> nat) list \<Rightarrow> (nat \<times> nat) list" where
  "block_specs groups = concat (map (\<lambda>(blocks, total, data). replicate blocks (total, data)) groups)"

lemma split_group:
  "fold (\<lambda>_ (offset, blocks). (offset + d, blocks @ [(take d (drop offset data),
        reed_solomon (take d (drop offset data)) (t - d))])) [0..<n] (off, bs)
     = (off + n * d, bs @ blocks_from (replicate n (t, d)) data off)"
proof (induction n arbitrary: off bs)
  case (Suc n)
  have "[0..<Suc n] = 0 # map Suc [0..<n]" by (simp add: map_Suc_upt upt_conv_Cons)
  then show ?case
    by (simp add: fold_map comp_def Suc.IH Let_def del: upt_Suc)
qed simp

lemma blocks_from_append:
  "blocks_from (xs @ ys) data off
     = blocks_from xs data off @ blocks_from ys data (off + sum_list (map snd xs))"
  by (induction xs arbitrary: off) (auto simp: Let_def add.assoc)

lemma split_blocks_eq: "split_blocks groups data = blocks_from (block_specs groups) data 0"
proof -
  let ?step = "\<lambda>(n, t, d). fold (\<lambda>_ (offset, blocks). (offset + d, blocks @
        [(take d (drop offset data), reed_solomon (take d (drop offset data)) (t - d))])) [0..<n]"
  have "fold ?step groups (off, bs) = (off + sum_list (map snd (block_specs groups)),
      bs @ blocks_from (block_specs groups) data off)" for off bs
  proof (induction groups arbitrary: off bs)
    case (Cons g groups)
    obtain n t d where "g = (n, t, d)" by (cases g)
    then show ?case
      by (simp add: split_group Cons.IH block_specs_def blocks_from_append sum_list_replicate)
  qed (simp add: block_specs_def)
  then show ?thesis by (simp add: split_blocks_def Let_def)
qed

lemma blocks_from_data:
  "off + sum_list (map snd specs) \<le> length data \<Longrightarrow>
     concat (map fst (blocks_from specs data off)) = take (sum_list (map snd specs)) (drop off data) \<and>
     map length (map fst (blocks_from specs data off)) = map snd specs"
proof (induction specs arbitrary: off)
  case (Cons s specs)
  then show ?case
    by (cases s) (auto simp: Let_def take_add add.assoc drop_drop [symmetric] add.commute
        simp del: drop_drop)
qed simp

lemma blocks_from_ecc:
  "bytes data \<Longrightarrow> list_all (\<lambda>(t, d). d < t) specs \<Longrightarrow>
     map length (map snd (blocks_from specs data off)) = map (\<lambda>(t, d). t - d) specs"
proof (induction specs arbitrary: off)
  case (Cons s specs)
  obtain t d where s: "s = (t, d)" by (cases s)
  have "bytes (take d (drop off data))"
    using Cons.prems(1) by (auto simp: bytes_def list_all_iff dest: in_set_takeD in_set_dropD)
  with Cons s show ?case
    by (simp add: Let_def reed_solomon_register(2))
qed simp

subsection \<open>The header\<close>

lemma utf8_char_bytes: "bytes (utf8_char c)"
proof -
  have "(of_char c :: int) = int (of_char c)" by (simp only: of_nat_of_char)
  then have "0 \<le> (of_char c :: int)" "(of_char c :: int) < 256" by simp_all
  then show ?thesis by (auto simp: utf8_char_def Let_def byte_def)
qed

lemma utf8_bytes: "bytes (utf8 s)"
  using utf8_char_bytes by (auto simp: utf8_def bytes_def list_all_iff)

lemma header_bits_eq:
  "header_bits payload version =
     append_bits [] 4 4 @ append_bits [] (int (length payload)) (count_length version)
       @ concat (map byte_bits payload)"
proof -
  have "fold (\<lambda>byte bits. append_bits bits byte 8) ps bits = bits @ concat (map byte_bits ps)" for ps bits
  proof (induction ps arbitrary: bits)
    case (Cons b ps)
    show ?case by (simp add: Cons.IH append_bits_append [of bits b 8])
  qed simp
  then show ?thesis
    by (simp add: header_bits_def append_bits_append [of "append_bits [] 4 4" "int (length payload)"])
qed

lemma length_header_bits:
  "length (header_bits payload version) = 4 + count_length version + 8 * length payload"
  by (simp add: header_bits_eq length_concat comp_def sum_list_triv)

lemma is_bits_concat_byte_bits: "is_bits (concat (map byte_bits ps))"
  by (induction ps) simp_all

lemma take_concat_chunk:
  "(\<And>x. length (f x) = 8) \<Longrightarrow> k < length ps \<Longrightarrow>
     take 8 (drop (8 * k) (concat (map f ps) @ rest)) = f (ps ! k)"
proof (induction ps arbitrary: k)
  case (Cons p ps)
  then show ?case by (cases k) (auto simp: drop_append)
qed simp

lemma read_payload_bits:
  assumes "bytes payload" and "length payload < 2 ^ count_length version"
    and "concat (map byte_bits data) = header_bits payload version @ rest"
  shows "read_payload version data = Some payload"
proof -
  let ?cl = "count_length version" and ?n = "length payload"
  let ?bits = "concat (map byte_bits data)" and ?body = "concat (map byte_bits payload) @ rest"
  have bits: "?bits = append_bits [] 4 4 @ append_bits [] (int ?n) ?cl @ ?body"
    using assms(3) by (simp add: header_bits_eq)
  have a: "bits_value (take 4 ?bits) = 4"
    unfolding bits using bits_value_append_bits [of 4 4] by simp
  have b: "bits_value (take ?cl (drop 4 ?bits)) = int ?n"
    unfolding bits using assms(2) bits_value_append_bits [of "int ?n" ?cl] by simp
  have c: "drop (4 + ?cl) ?bits = ?body" unfolding bits by simp
  have d: "8 * ?n \<le> length ?body"
    by (simp add: length_concat comp_def sum_list_triv)
  have e: "map (\<lambda>k. bits_value (take 8 (drop (8 * k) ?body))) [0..<?n] = payload"
  proof (rule nth_equalityI)
    fix k assume "k < length (map (\<lambda>k. bits_value (take 8 (drop (8 * k) ?body))) [0..<?n])"
    then have k: "k < ?n" by simp
    then have "byte (payload ! k)" using assms(1) by (simp add: bytes_def list_all_iff)
    with k show "map (\<lambda>k. bits_value (take 8 (drop (8 * k) ?body))) [0..<?n] ! k = payload ! k"
      by (simp add: take_concat_chunk bits_value_append_bits byte_def
          del: take_append drop_append)
  qed simp
  show ?thesis
    unfolding read_payload_def Let_def by (simp only: a b c d e nat_int if_True simp_thms)
qed

subsection \<open>The reader inverts the encoder\<close>

definition groups_ok :: "(nat \<times> nat \<times> nat) list \<Rightarrow> bool" where
  "groups_ok groups \<longleftrightarrow> groups \<noteq> [] \<and>
     list_all (\<lambda>(blocks, total, data). 0 < blocks \<and> 0 < data \<and> data < total) groups"

lemma ecc_m_ok:
  assumes "1 \<le> version" and "version \<le> 40"
  shows "groups_ok (ecc_m ! (version - 1))"
    and "data_capacity (ecc_m ! (version - 1)) < 2 ^ count_length version"
proof -
  have "list_all (\<lambda>(v, groups). groups_ok groups \<and> data_capacity groups < 2 ^ count_length v)
      (enumerate 1 ecc_m)"
    by (simp add: ecc_m_def groups_ok_def data_capacity_def count_length_def)
  moreover have "length ecc_m = 40" by (simp add: ecc_m_def)
  then have "(version, ecc_m ! (version - 1)) \<in> set (enumerate 1 ecc_m)"
    using assms by (auto simp: in_set_enumerate_eq)
  ultimately show "groups_ok (ecc_m ! (version - 1))"
    "data_capacity (ecc_m ! (version - 1)) < 2 ^ count_length version"
    by (auto simp: list_all_iff)
qed

lemma capacity_specs:
  "data_capacity groups = sum_list (map snd (block_specs groups))"
  "data_capacity groups = sum_list (block_lengths groups)"
  "block_lengths groups = map snd (block_specs groups)"
proof -
  show "block_lengths groups = map snd (block_specs groups)"
    by (induction groups) (auto simp: block_lengths_def block_specs_def)
  show "data_capacity groups = sum_list (map snd (block_specs groups))"
    by (induction groups) (auto simp: data_capacity_def block_specs_def sum_list_replicate)
  then show "data_capacity groups = sum_list (block_lengths groups)"
    using \<open>block_lengths groups = map snd (block_specs groups)\<close> by simp
qed

lemma pad_data_shape:
  "bytes data \<Longrightarrow> bytes (pad_data data n)" "n \<le> length (pad_data data n)"
  "pad_data data n = data @ drop (length data) (pad_data data n)"
proof -
  have "byte ([236, 17] ! (k mod 2))" for k :: nat
    by (cases "even k") (auto simp: even_iff_mod_2_eq_zero odd_iff_mod_2_eq_one byte_def)
  then show "bytes data \<Longrightarrow> bytes (pad_data data n)"
    by (auto simp: pad_data_def Let_def bytes_def list_all_iff)
qed (auto simp: pad_data_def Let_def)

lemma take_byte_bits:
  "concat (map byte_bits (take k data)) = take (8 * k) (concat (map byte_bits data))"
proof (induction data arbitrary: k)
  case (Cons d data)
  then show ?case by (cases k) simp_all
qed simp

definition symbol_data :: "string \<Rightarrow> nat \<Rightarrow> int list" where
  "symbol_data url version =
     (let capacity = data_capacity (ecc_m ! (version - 1));
          bits = header_bits (utf8 url) version;
          bits = append_bits bits 0 (min 4 (capacity * 8 - length bits));
          bits = bits @ replicate (8 - length bits mod 8) 0
      in pad_data (pack_bytes bits) capacity)"

lemma symbol_data_shape:
  assumes "length (header_bits (utf8 url) version) \<le> data_capacity (ecc_m ! (version - 1)) * 8"
  shows "bytes (symbol_data url version)"
    and "data_capacity (ecc_m ! (version - 1)) \<le> length (symbol_data url version)"
    and "\<exists>rest. concat (map byte_bits (take (data_capacity (ecc_m ! (version - 1))) (symbol_data url version)))
           = header_bits (utf8 url) version @ rest"
proof -
  let ?cap = "data_capacity (ecc_m ! (version - 1))"
  define h where "h = header_bits (utf8 url) version"
  define b1 where "b1 = append_bits h 0 (min 4 (?cap * 8 - length h))"
  define b2 where "b2 = b1 @ replicate (8 - length b1 mod 8) 0"
  have data: "symbol_data url version = pad_data (pack_bytes b2) ?cap"
    by (simp add: symbol_data_def Let_def h_def b1_def b2_def)
  have 8: "8 dvd length b2"
  proof -
    have "n + (8 - n mod 8) = 8 * Suc (n div 8)" for n :: nat
      using div_mult_mod_eq [of n 8] mod_less_divisor [of 8 n] by (simp only: mult_Suc_right)
    then have "length b2 = 8 * Suc (length b1 div 8)" by (simp add: b2_def)
    then show ?thesis by (simp only: dvd_triv_left)
  qed
  have "is_bits h" by (simp add: h_def header_bits_eq is_bits_concat_byte_bits)
  then have bits: "is_bits b2" by (simp add: b2_def b1_def)
  show "bytes (symbol_data url version)" "?cap \<le> length (symbol_data url version)"
    unfolding data using pack_bytes_bytes [OF 8 bits] pad_data_shape by blast+
  have "symbol_data url version = pack_bytes b2 @ drop (length (pack_bytes b2)) (symbol_data url version)"
    unfolding data by (rule pad_data_shape(3))
  then have split: "concat (map byte_bits (symbol_data url version)) = concat (map byte_bits
      (pack_bytes b2 @ drop (length (pack_bytes b2)) (symbol_data url version)))"
    by (rule arg_cong)
  have "concat (map byte_bits (pack_bytes b2)) = h @ drop (length h) b2"
    unfolding unpack_pack_bytes [OF 8 bits]
    by (simp add: b2_def b1_def append_bits_append [of h])
  then have "concat (map byte_bits (symbol_data url version)) = h @ drop (length h) b2
      @ concat (map byte_bits (drop (length (pack_bytes b2)) (symbol_data url version)))"
    unfolding split by simp
  then obtain rest where "concat (map byte_bits (symbol_data url version)) = h @ rest" by blast
  then have "concat (map byte_bits (take ?cap (symbol_data url version)))
      = h @ take (8 * ?cap - length h) rest"
    using assms by (simp add: take_byte_bits h_def)
  then show "\<exists>rest. concat (map byte_bits (take ?cap (symbol_data url version)))
           = header_bits (utf8 url) version @ rest"
    unfolding h_def by blast
qed

lemma codewords_eq:
  "codewords url version =
     (if length (header_bits (utf8 url) version) > data_capacity (ecc_m ! (version - 1)) * 8
      then Inl QRCodeUnavailable
      else let blocks = split_blocks (ecc_m ! (version - 1)) (symbol_data url version)
           in Inr (interleave (map fst blocks) @ interleave (map snd blocks)))"
  by (simp add: codewords_def symbol_data_def Let_def)

lemma deinterleave_codewords:
  assumes ok: "codewords url version = Inr cws"
  shows "concat (deinterleave (block_lengths (ecc_m ! (version - 1)))
      (take (sum_list (block_lengths (ecc_m ! (version - 1)))) (cws @ remainder)))
    = take (data_capacity (ecc_m ! (version - 1))) (symbol_data url version)"
    and "length (header_bits (utf8 url) version) \<le> data_capacity (ecc_m ! (version - 1)) * 8"
proof -
  let ?groups = "ecc_m ! (version - 1)" and ?data = "symbol_data url version"
  define blocks where "blocks = split_blocks ?groups ?data"
  from ok have fits: "length (header_bits (utf8 url) version) \<le> data_capacity ?groups * 8"
    and cws: "cws = interleave (map fst blocks) @ interleave (map snd blocks)"
    by (auto simp: codewords_eq blocks_def Let_def split: if_splits)
  note shape = symbol_data_shape [OF fits]
  have split: "concat (map fst blocks) = take (data_capacity ?groups) ?data"
    "map length (map fst blocks) = block_lengths ?groups"
    using blocks_from_data [of 0 "block_specs ?groups" ?data] shape(2)
    by (simp_all add: blocks_def split_blocks_eq capacity_specs(1,3))
  have len: "length (interleave (map fst blocks)) = sum_list (block_lengths ?groups)"
    by (simp only: length_interleave split(2))
  then have "take (sum_list (block_lengths ?groups)) (cws @ remainder) = interleave (map fst blocks) @ []"
    by (simp add: cws)
  then show "concat (deinterleave (block_lengths ?groups)
      (take (sum_list (block_lengths ?groups)) (cws @ remainder))) = take (data_capacity ?groups) ?data"
    by (simp only: split(2) [symmetric] deinterleave_interleave split(1))
  show "length (header_bits (utf8 url) version) \<le> data_capacity ?groups * 8" by (rule fits)
qed

lemma read_codewords_inverse:
  assumes "1 \<le> version" "version \<le> 40" and ok: "codewords url version = Inr cws"
  shows "read_codewords version (cws @ remainder) = Some (utf8 url)"
proof -
  let ?groups = "ecc_m ! (version - 1)" and ?data = "symbol_data url version"
  have fits: "length (header_bits (utf8 url) version) \<le> data_capacity ?groups * 8"
    by (rule deinterleave_codewords(2) [OF ok])
  note shape = symbol_data_shape [OF fits]
  have "concat (deinterleave (block_lengths ?groups)
      (take (sum_list (block_lengths ?groups)) (cws @ remainder))) = take (data_capacity ?groups) ?data"
    by (rule deinterleave_codewords(1) [OF ok])
  moreover from shape(3) obtain rest where
    "concat (map byte_bits (take (data_capacity ?groups) ?data)) = header_bits (utf8 url) version @ rest"
    by blast
  moreover have "length (utf8 url) < 2 ^ count_length version"
    using fits ecc_m_ok(2) [OF assms(1,2)] by (simp add: length_header_bits)
  ultimately show ?thesis
    by (simp add: read_codewords_def Let_def read_payload_bits utf8_bytes)
qed

definition total_codewords :: "nat \<Rightarrow> nat" where
  "total_codewords version =
     sum_list (map (\<lambda>(blocks, total, data). blocks * total) (ecc_m ! (version - 1)))"

lemma sum_list_ecc:
  "list_all (\<lambda>(t, d). d < t) specs \<Longrightarrow>
     sum_list (map snd specs) + sum_list (map (\<lambda>(t, d). t - d) specs) = (sum_list (map fst specs) :: nat)"
  by (induction specs) auto

lemma sum_list_totals:
  "sum_list (map fst (block_specs groups)) = sum_list (map (\<lambda>(blocks, total, data). blocks * total) groups)"
  by (induction groups) (auto simp: block_specs_def sum_list_replicate)

lemma codewords_shape:
  assumes "1 \<le> version" "version \<le> 40" and ok: "codewords url version = Inr cws"
  shows "length cws = total_codewords version"
proof -
  let ?groups = "ecc_m ! (version - 1)" and ?data = "symbol_data url version"
  define blocks where "blocks = split_blocks ?groups ?data"
  from ok have fits: "length (header_bits (utf8 url) version) \<le> data_capacity ?groups * 8"
    and cws: "cws = interleave (map fst blocks) @ interleave (map snd blocks)"
    by (auto simp: codewords_eq blocks_def Let_def split: if_splits)
  note shape = symbol_data_shape [OF fits]
  from ecc_m_ok(1) [OF assms(1,2)] have lt: "list_all (\<lambda>(t, d). d < t) (block_specs ?groups)"
    by (auto simp: groups_ok_def block_specs_def list_all_iff)
  have d: "map length (map fst blocks) = map snd (block_specs ?groups)"
    using blocks_from_data [of 0 "block_specs ?groups" ?data] shape(2)
    by (simp add: blocks_def split_blocks_eq capacity_specs(1))
  have e: "map length (map snd blocks) = map (\<lambda>(t, d). t - d) (block_specs ?groups)"
    unfolding blocks_def split_blocks_eq using shape(1) lt by (rule blocks_from_ecc)
  have "length cws = sum_list (map snd (block_specs ?groups))
      + sum_list (map (\<lambda>(t, d). t - d) (block_specs ?groups))"
    by (simp only: cws length_append length_interleave d e)
  also have "\<dots> = sum_list (map fst (block_specs ?groups))"
    using lt by (rule sum_list_ecc)
  also have "\<dots> = total_codewords version"
    unfolding total_codewords_def by (rule sum_list_totals)
  finally show ?thesis .
qed

end
