(* ===== verification/Qr_Symbol.thy ===== *)
theory Qr_Symbol
  imports Qr_Reader
begin

unbundle bit_operations_syntax

text \<open>
  The module matrix of the QR symbol (\<open>_alignment_positions\<close>, \<open>_make_matrix\<close>, \<open>_matrix\<close>):
  the function patterns as the ordered list of \<open>set_function\<close> calls the code makes, then the
  data modules along the zigzag, masked with pattern 0. Coordinates are Python ints.
\<close>

subsection \<open>The code\<close>

definition alignment_positions :: "int \<Rightarrow> int \<Rightarrow> int list" where
  "alignment_positions version sz =
     (if version = 1 then []
      else let count = version div 7 + 2;
               step = (if version = 32 then 26
                       else ((version * 4 + count * 2 + 1) div (count * 2 - 2)) * 2)
           in 6 # rev (map (\<lambda>index. sz - 7 - step * index) [0..count - 2]))"

text \<open>The grid under construction: \<open>matrix\<close> (\<open>None\<close> is an unset module) and \<open>function\<close>.\<close>

record grid =
  matrix :: "bool option list list"
  function_map :: "bool list list"

definition set_function :: "int \<Rightarrow> int \<times> int \<times> bool \<Rightarrow> grid \<Rightarrow> grid" where
  "set_function sz call g = (case call of (x, y, dark) \<Rightarrow>
     if 0 \<le> x \<and> x < sz \<and> 0 \<le> y \<and> y < sz
     then g\<lparr>matrix := (matrix g)[nat y := (matrix g ! nat y)[nat x := Some dark]],
            function_map := (function_map g)[nat y := (function_map g ! nat y)[nat x := True]]\<rparr>
     else g)"

definition timing_calls :: "int \<Rightarrow> (int \<times> int \<times> bool) list" where
  "timing_calls sz =
     concat (map (\<lambda>index. [(6, index, index mod 2 = 0), (index, 6, index mod 2 = 0)]) [0..sz - 1])"

definition finder :: "int \<Rightarrow> int \<Rightarrow> (int \<times> int \<times> bool) list" where
  "finder center_x center_y =
     concat (map (\<lambda>dy. map (\<lambda>dx. let distance = max \<bar>dx\<bar> \<bar>dy\<bar>
                                in (center_x + dx, center_y + dy, distance \<notin> {2, 4})) [-4..4]) [-4..4])"

definition alignment_calls :: "int \<Rightarrow> int \<Rightarrow> (int \<times> int \<times> bool) list" where
  "alignment_calls version sz =
     (let positions = alignment_positions version sz;
          finder_centers = {(6, 6), (sz - 7, 6), (6, sz - 7)}
      in concat (map (\<lambda>center_y. concat (map (\<lambda>center_x.
           if (center_x, center_y) \<in> finder_centers then []
           else concat (map (\<lambda>dy. map (\<lambda>dx.
                  (center_x + dx, center_y + dy, max \<bar>dx\<bar> \<bar>dy\<bar> \<noteq> 1)) [-2..2]) [-2..2]))
         positions)) positions))"

definition version_calls :: "int \<Rightarrow> int \<Rightarrow> (int \<times> int \<times> bool) list" where
  "version_calls version sz =
     (if version \<ge> 7 then
        let version_bits = bch version 7973 12
        in concat (map (\<lambda>index.
             let bit = (drop_bit (nat index) version_bits AND 1 \<noteq> 0)
             in [(index div 3, index mod 3 + sz - 8 - 3, bit),
                 (index mod 3 + sz - 8 - 3, index div 3, bit)]) [0..17])
      else [])"

definition format_calls :: "int \<Rightarrow> (int \<times> int \<times> bool) list" where
  "format_calls sz =
     (let format_bits = bch 0 1335 10 XOR 21522
      in concat (map (\<lambda>index.
           let vertical_bit = (drop_bit (nat index) format_bits AND 1 \<noteq> 0);
               horizontal_bit = (drop_bit (nat (14 - index)) format_bits AND 1 \<noteq> 0);
               vertical_offset = (if index = 6 then 1 else 0);
               horizontal_offset = (if index = 6 then 1 else 0)
           in [(8, index + vertical_offset, vertical_bit),
               (index + horizontal_offset, 8, horizontal_bit),
               (sz - 1 - index, 8, vertical_bit),
               (8, sz - 1 - index, horizontal_bit)]) [0..7]))"

definition function_calls :: "int \<Rightarrow> int \<Rightarrow> (int \<times> int \<times> bool) list" where
  "function_calls version sz =
     timing_calls sz
     @ finder 3 3 @ finder (sz - 4) 3 @ finder 3 (sz - 4)
     @ alignment_calls version sz
     @ [(8, sz - 8, True)]
     @ version_calls version sz
     @ format_calls sz
     @ [(8, 8, False), (8, sz - 8, True)]"

definition symbol_size :: "int \<Rightarrow> int" where
  "symbol_size version = version * 4 + 17"

definition blank_grid :: "int \<Rightarrow> grid" where
  "blank_grid sz =
     \<lparr>matrix = replicate (nat sz) (replicate (nat sz) None),
      function_map = replicate (nat sz) (replicate (nat sz) False)\<rparr>"

definition function_patterns :: "int \<Rightarrow> grid" where
  "function_patterns version =
     (let sz = symbol_size version
      in fold (set_function sz) (function_calls version sz) (blank_grid sz))"

text \<open>The values \<open>right\<close> takes in the body of the \<open>while\<close> loop.\<close>

function columns :: "int \<Rightarrow> int list" where
  "columns right =
     (if right \<ge> 1 then
        let right = (if right = 6 then right - 1 else right) in right # columns (right - 2)
      else [])"
  by pat_completeness auto
termination by (relation "measure nat") (auto split: if_splits)

declare columns.simps [simp del]

text \<open>The modules in the order the nested loops visit them.\<close>

definition zigzag :: "int \<Rightarrow> (int \<times> int) list" where
  "zigzag sz =
     concat (map (\<lambda>right. concat (map (\<lambda>offset. map (\<lambda>x.
        let upward = ((right AND 2 = 0) \<noteq> (x < 6));
            y = (if upward then sz - 1 - offset else offset)
        in (x, y)) [right, right - 1]) [0..sz - 1])) (columns (sz - 1)))"

definition place_module ::
    "bool list list \<Rightarrow> int list \<Rightarrow> int \<times> int \<Rightarrow>
       bool option list list \<times> nat \<Rightarrow> bool option list list \<times> nat" where
  "place_module function data_bits pos st = (case pos of (x, y) \<Rightarrow> case st of (m, bit_index) \<Rightarrow>
     if function ! nat y ! nat x then (m, bit_index)
     else let dark = (bit_index < length data_bits \<and> data_bits ! bit_index \<noteq> 0);
              dark = (if (x + y) mod 2 = 0 then \<not> dark else dark)
          in (m[nat y := (m ! nat y)[nat x := Some dark]], bit_index + 1))"

definition data_bits :: "int list \<Rightarrow> int list" where
  "data_bits cws =
     concat (map (\<lambda>codeword. map (\<lambda>shift. drop_bit shift codeword AND 1) (rev [0..<8])) cws)"

definition make_matrix :: "int list \<Rightarrow> int \<Rightarrow> bool list list" where
  "make_matrix cws version =
     (let sz = symbol_size version;
          g = function_patterns version;
          (m, _) = fold (place_module (function_map g) (data_bits cws)) (zigzag sz) (matrix g, 0)
      in map (map (\<lambda>cell. cell = Some True)) m)"

text \<open>\<open>_matrix\<close>: the first version whose codewords do not raise.\<close>

fun matrix_from :: "string \<Rightarrow> nat list \<Rightarrow> (qr_error, bool list list) res" where
  "matrix_from url [] = Inl QRCodeUnavailable"
| "matrix_from url (version # versions) =
     (case codewords url version of
        Inl QRCodeUnavailable \<Rightarrow> matrix_from url versions
      | Inr cws \<Rightarrow> Inr (make_matrix cws (int version)))"

definition qr_matrix :: "string \<Rightarrow> (qr_error, bool list list) res" where
  "qr_matrix url = matrix_from url [1..<41]"

end
