(* ===== verification/Qr_Placement.thy ===== *)
theory Qr_Placement
  imports Qr_Symbol
begin

unbundle bit_operations_syntax

text \<open>
  What the placement loops of theory Qr_Symbol compute: the shape of the function patterns, the
  zigzag as an enumeration without repetition of the modules outside the timing column, the
  value every data module gets, and that each of the 40 versions has room for its codewords.
\<close>

subsection \<open>Function patterns\<close>

definition square :: "int \<Rightarrow> 'a list list \<Rightarrow> bool" where
  "square sz m \<longleftrightarrow> length m = nat sz \<and> list_all (\<lambda>r. length r = nat sz) m"

definition cell :: "'a list list \<Rightarrow> int \<times> int \<Rightarrow> 'a" where
  "cell m p = m ! nat (snd p) ! nat (fst p)"

definition within :: "int \<Rightarrow> int \<times> int \<Rightarrow> bool" where
  "within sz p \<longleftrightarrow> 0 \<le> fst p \<and> fst p < sz \<and> 0 \<le> snd p \<and> snd p < sz"

abbreviation set_cell :: "'a list list \<Rightarrow> int \<times> int \<Rightarrow> 'a \<Rightarrow> 'a list list" where
  "set_cell m p v \<equiv> m[nat (snd p) := (m ! nat (snd p))[nat (fst p) := v]]"

lemma square_replicate: "square sz (replicate (nat sz) (replicate (nat sz) v))"
  by (simp add: square_def list_all_iff)

lemma square_row: "square sz m \<Longrightarrow> 0 \<le> y \<Longrightarrow> y < sz \<Longrightarrow> length (m ! nat y) = nat sz"
  by (simp add: square_def list_all_length)

lemma square_set_cell: "square sz m \<Longrightarrow> within sz p \<Longrightarrow> square sz (set_cell m p v)"
  by (auto simp: square_def within_def list_all_length nth_list_update)

lemma cell_set_cell:
  "square sz m \<Longrightarrow> within sz p \<Longrightarrow> within sz q \<Longrightarrow>
     cell (set_cell m p v) q = (if q = p then v else cell m q)"
  using square_row [of sz m "snd p"]
  by (cases p; cases q) (auto simp: square_def within_def cell_def nth_list_update)

definition grid_ok :: "int \<Rightarrow> grid \<Rightarrow> bool" where
  "grid_ok sz g \<longleftrightarrow> square sz (matrix g) \<and> square sz (function_map g)"

lemma set_function_ok: "grid_ok sz g \<Longrightarrow> grid_ok sz (set_function sz call g)"
  using square_set_cell [of sz "matrix g" "(fst call, fst (snd call))"]
    square_set_cell [of sz "function_map g" "(fst call, fst (snd call))"]
  by (cases call) (auto simp: grid_ok_def set_function_def within_def)

lemma set_function_map:
  "grid_ok sz g \<Longrightarrow> within sz p \<Longrightarrow>
     cell (function_map (set_function sz call g)) p \<longleftrightarrow>
       cell (function_map g) p \<or> p = (fst call, fst (snd call))"
  using cell_set_cell [of sz "function_map g" "(fst call, fst (snd call))" p True]
  by (cases call; cases p) (auto simp: grid_ok_def set_function_def within_def)

lemma fold_set_function:
  "grid_ok sz g \<Longrightarrow> grid_ok sz (fold (set_function sz) calls g) \<and>
     (\<forall>p. within sz p \<longrightarrow> (cell (function_map (fold (set_function sz) calls g)) p \<longleftrightarrow>
        cell (function_map g) p \<or> p \<in> (\<lambda>(x, y, dark). (x, y)) ` set calls))"
proof (induction calls arbitrary: g)
  case (Cons call calls)
  obtain x y dark where "call = (x, y, dark)" by (cases call)
  then show ?case
    using Cons.IH [OF set_function_ok [OF Cons.prems, of call]] set_function_map [OF Cons.prems]
    by auto
qed simp

lemma blank_grid_ok: "grid_ok sz (blank_grid sz)"
  by (simp add: grid_ok_def blank_grid_def square_replicate)

lemma blank_grid_map: "within sz p \<Longrightarrow> \<not> cell (function_map (blank_grid sz)) p"
  by (simp add: cell_def within_def blank_grid_def)

lemma function_patterns_ok:
  "grid_ok (symbol_size version) (function_patterns version)"
  using fold_set_function [OF blank_grid_ok] by (simp add: function_patterns_def Let_def)

lemma function_patterns_map:
  "within (symbol_size version) p \<Longrightarrow>
     cell (function_map (function_patterns version)) p \<longleftrightarrow>
       p \<in> (\<lambda>(x, y, dark). (x, y)) ` set (function_calls version (symbol_size version))"
  unfolding function_patterns_def Let_def
  using fold_set_function [OF blank_grid_ok, of "symbol_size version"
      "function_calls version (symbol_size version)"] blank_grid_map [of "symbol_size version" p]
  by blast

subsection \<open>The zigzag\<close>

lemma distinct_concat_map:
  "distinct xs \<Longrightarrow> (\<And>x. x \<in> set xs \<Longrightarrow> distinct (f x)) \<Longrightarrow>
   (\<And>x y. x \<in> set xs \<Longrightarrow> y \<in> set xs \<Longrightarrow> x \<noteq> y \<Longrightarrow> set (f x) \<inter> set (f y) = {}) \<Longrightarrow>
   distinct (concat (map f xs))"
proof (induction xs)
  case (Cons x xs)
  have "set (f x) \<inter> set (f y) = {}" if "y \<in> set xs" for y
    using Cons.prems(1,3) that by auto
  then show ?case using Cons by auto
qed simp

lemma columns_even: "columns (2 * int k + 6) = map (\<lambda>i. 2 * int i + 6) (rev [1..<Suc k]) @ [5, 3, 1]"
proof (induction k)
  case 0
  have "columns 6 = [5, 3, 1]" by (simp add: columns.simps)
  then show ?case by simp
next
  case (Suc k)
  have "columns (2 * int (Suc k) + 6) = (2 * int (Suc k) + 6) # columns (2 * int k + 6)"
    by (subst columns.simps) (simp add: Let_def algebra_simps)
  then show ?case using Suc by simp
qed

lemma symbol_columns:
  assumes "1 \<le> version"
  obtains k where "symbol_size version = 2 * int k + 7"
    and "columns (symbol_size version - 1) = map (\<lambda>i. 2 * int i + 6) (rev [1..<Suc k]) @ [5, 3, 1]"
proof -
  let ?k = "nat (2 * version + 5)"
  from assms have "symbol_size version = 2 * int ?k + 7" by (simp add: symbol_size_def)
  moreover from this have "symbol_size version - 1 = 2 * int ?k + 6" by simp
  ultimately show ?thesis using that columns_even by metis
qed

definition zigzag_row :: "int \<Rightarrow> int \<Rightarrow> int \<Rightarrow> int \<Rightarrow> int" where
  "zigzag_row sz right offset x =
     (if (right AND 2 = 0) \<noteq> (x < 6) then sz - 1 - offset else offset)"

definition column_cells :: "int \<Rightarrow> int \<Rightarrow> (int \<times> int) list" where
  "column_cells sz right = concat (map (\<lambda>offset.
      map (\<lambda>x. (x, zigzag_row sz right offset x)) [right, right - 1]) [0..sz - 1])"

lemma zigzag_columns: "zigzag sz = concat (map (column_cells sz) (columns (sz - 1)))"
  by (simp add: zigzag_def column_cells_def [abs_def] zigzag_row_def Let_def)

lemma zigzag_row_bounds:
  "0 \<le> offset \<Longrightarrow> offset < sz \<Longrightarrow>
     0 \<le> zigzag_row sz right offset x \<and> zigzag_row sz right offset x < sz"
  by (simp add: zigzag_row_def)

lemma zigzag_row_inj: "zigzag_row sz right o1 x = zigzag_row sz right o2 x \<longleftrightarrow> o1 = o2"
  by (simp add: zigzag_row_def)

lemma column_cells_set:
  "p \<in> set (column_cells sz right) \<Longrightarrow> fst p \<in> {right, right - 1} \<and> 0 \<le> snd p \<and> snd p < sz"
  by (auto simp: column_cells_def zigzag_row_bounds)

lemma column_cells_distinct: "distinct (column_cells sz right)"
  unfolding column_cells_def
  by (rule distinct_concat_map) (auto simp: zigzag_row_inj)

lemma column_cells_length: "length (column_cells sz right) = 2 * nat sz"
  by (simp add: column_cells_def length_concat comp_def sum_list_triv)

lemma zigzag_shape:
  assumes "1 \<le> version"
  shows "distinct (zigzag (symbol_size version))"
    and "p \<in> set (zigzag (symbol_size version)) \<Longrightarrow> within (symbol_size version) p \<and> fst p \<noteq> 6"
    and "int (length (zigzag (symbol_size version))) = symbol_size version * (symbol_size version - 1)"
proof -
  let ?sz = "symbol_size version"
  from symbol_columns [OF assms] obtain k where sz: "?sz = 2 * int k + 7"
    and cols: "columns (?sz - 1) = map (\<lambda>i. 2 * int i + 6) (rev [1..<Suc k]) @ [5, 3, 1]"
    by blast
  have mem: "(8 \<le> c \<and> c < ?sz \<and> even c) \<or> (1 \<le> c \<and> c \<le> 5 \<and> odd c)"
    if "c \<in> set (columns (?sz - 1))" for c
    using that sz unfolding cols by auto
  have "distinct (columns (?sz - 1))"
    unfolding cols by (auto simp: distinct_map inj_on_def)
  then show "distinct (zigzag ?sz)"
    unfolding zigzag_columns
  proof (rule distinct_concat_map)
    fix c d assume cd: "c \<in> set (columns (?sz - 1))" "d \<in> set (columns (?sz - 1))" "c \<noteq> d"
    have "c \<noteq> d - 1" "c - 1 \<noteq> d"
      using mem [OF cd(1)] mem [OF cd(2)] by presburger+
    with cd(3) have "{c, c - 1} \<inter> {d, d - 1} = {}" by auto
    then show "set (column_cells ?sz c) \<inter> set (column_cells ?sz d) = {}"
      using column_cells_set by blast
  qed (rule column_cells_distinct)
  show "p \<in> set (zigzag ?sz) \<Longrightarrow> within ?sz p \<and> fst p \<noteq> 6"
  proof -
    assume "p \<in> set (zigzag ?sz)"
    then obtain c where c: "c \<in> set (columns (?sz - 1))" and p: "p \<in> set (column_cells ?sz c)"
      unfolding zigzag_columns by auto
    from column_cells_set [OF p] have xy: "fst p = c \<or> fst p = c - 1" "0 \<le> snd p" "snd p < ?sz"
      by auto
    have "5 < ?sz" using sz by simp
    with xy(1) mem [OF c] have "0 \<le> fst p \<and> fst p < ?sz \<and> fst p \<noteq> 6" by presburger
    with xy show "within ?sz p \<and> fst p \<noteq> 6" by (simp add: within_def)
  qed
  have "length (zigzag ?sz) = length (columns (?sz - 1)) * (2 * nat ?sz)"
    by (simp add: zigzag_columns length_concat comp_def column_cells_length sum_list_triv)
  also have "length (columns (?sz - 1)) = k + 3" by (simp add: cols)
  finally have "length (zigzag ?sz) = (k + 3) * (2 * nat ?sz)" .
  then have "int (length (zigzag ?sz)) = (int k + 3) * (2 * ?sz)" using sz by simp
  then show "int (length (zigzag ?sz)) = ?sz * (?sz - 1)" using sz by (simp add: algebra_simps)
qed

subsection \<open>Placing and reading data modules\<close>

definition mask0 :: "int \<times> int \<Rightarrow> bool" where
  "mask0 p \<longleftrightarrow> (fst p + snd p) mod 2 = 0"

definition module_value :: "int list \<Rightarrow> int \<times> int \<Rightarrow> nat \<Rightarrow> bool" where
  "module_value bits p i = ((i < length bits \<and> bits ! i \<noteq> 0) \<noteq> mask0 p)"

lemma place_module_eq:
  "place_module fn bits p (m, i) =
     (if cell fn p then (m, i) else (set_cell m p (Some (module_value bits p i)), Suc i))"
  by (cases p) (simp add: place_module_def cell_def module_value_def mask0_def Let_def)

lemma fold_place_module:
  assumes "distinct ps" and "\<And>p. p \<in> set ps \<Longrightarrow> within sz p" and "square sz m"
  shows "square sz (fst (fold (place_module fn bits) ps (m, i))) \<and>
    (\<forall>q. within sz q \<and> q \<notin> set (filter (\<lambda>p. \<not> cell fn p) ps) \<longrightarrow>
       cell (fst (fold (place_module fn bits) ps (m, i))) q = cell m q) \<and>
    (\<forall>j < length (filter (\<lambda>p. \<not> cell fn p) ps).
       cell (fst (fold (place_module fn bits) ps (m, i))) (filter (\<lambda>p. \<not> cell fn p) ps ! j)
         = Some (module_value bits (filter (\<lambda>p. \<not> cell fn p) ps ! j) (i + j)))"
  using assms
proof (induction ps arbitrary: m i)
  case (Cons p ps)
  show ?case
  proof (cases "cell fn p")
    case True
    then show ?thesis using Cons.IH [of m i] Cons.prems by (simp add: place_module_eq)
  next
    case False
    let ?m = "set_cell m p (Some (module_value bits p i))"
    let ?fs = "filter (\<lambda>p. \<not> cell fn p) ps"
    from Cons.prems have p: "within sz p" and sq: "square sz m" and pn: "p \<notin> set ?fs" by auto
    have IH: "square sz (fst (fold (place_module fn bits) ps (?m, Suc i)))"
      "\<And>q. within sz q \<Longrightarrow> q \<notin> set ?fs \<Longrightarrow>
         cell (fst (fold (place_module fn bits) ps (?m, Suc i))) q = cell ?m q"
      "\<And>j. j < length ?fs \<Longrightarrow> cell (fst (fold (place_module fn bits) ps (?m, Suc i))) (?fs ! j)
         = Some (module_value bits (?fs ! j) (Suc i + j))"
      using Cons.IH [of ?m "Suc i"] Cons.prems square_set_cell [OF sq p] by auto
    have fold: "fold (place_module fn bits) (p # ps) (m, i) = fold (place_module fn bits) ps (?m, Suc i)"
      using False by (simp add: place_module_eq)
    have fs: "filter (\<lambda>p. \<not> cell fn p) (p # ps) = p # ?fs" using False by simp
    have keep: "cell ?m q = cell m q" if "within sz q" "q \<noteq> p" for q
      using cell_set_cell [OF sq p that(1)] that(2) by simp
    have here: "cell ?m p = Some (module_value bits p i)"
      using cell_set_cell [OF sq p p] by simp
    show ?thesis
      unfolding fold fs
    proof (intro conjI allI impI)
      show "square sz (fst (fold (place_module fn bits) ps (?m, Suc i)))" by (rule IH(1))
    next
      fix q assume "within sz q \<and> q \<notin> set (p # ?fs)"
      then show "cell (fst (fold (place_module fn bits) ps (?m, Suc i))) q = cell m q"
        using IH(2) [of q] keep by simp
    next
      fix j assume j: "j < length (p # ?fs)"
      show "cell (fst (fold (place_module fn bits) ps (?m, Suc i))) ((p # ?fs) ! j)
          = Some (module_value bits ((p # ?fs) ! j) (i + j))"
      proof (cases j)
        case 0
        then show ?thesis using IH(2) [OF p pn] here by simp
      next
        case (Suc k)
        then show ?thesis using IH(3) [of k] j by simp
      qed
    qed
  qed
qed simp

text \<open>The data modules of a version, in reading order, and the bits a reader takes from them.\<close>

definition data_modules :: "int \<Rightarrow> (int \<times> int) list" where
  "data_modules version =
     filter (\<lambda>p. \<not> cell (function_map (function_patterns version)) p) (zigzag (symbol_size version))"

definition read_bits :: "int \<Rightarrow> bool list list \<Rightarrow> int list" where
  "read_bits version m = map (\<lambda>p. if cell m p \<noteq> mask0 p then 1 else 0) (data_modules version)"

lemma make_matrix_shape:
  assumes "1 \<le> version"
  shows "square (symbol_size version) (make_matrix cws version)"
    and "read_bits version (make_matrix cws version)
       = map (\<lambda>i. if i < length (data_bits cws) \<and> data_bits cws ! i \<noteq> 0 then 1 else 0)
           [0..<length (data_modules version)]"
proof -
  let ?sz = "symbol_size version" and ?g = "function_patterns version"
  let ?m = "fst (fold (place_module (function_map ?g) (data_bits cws)) (zigzag ?sz) (matrix ?g, 0))"
  have mm: "make_matrix cws version = map (map (\<lambda>c. c = Some True)) ?m"
    by (simp add: make_matrix_def Let_def split_beta)
  note place = fold_place_module [OF zigzag_shape(1) [OF assms], of ?sz "matrix ?g"
      "function_map ?g" "data_bits cws" 0]
  have sq: "square ?sz ?m"
    using place zigzag_shape(2) [OF assms] function_patterns_ok by (simp add: grid_ok_def)
  then show "square ?sz (make_matrix cws version)"
    by (simp add: mm square_def list_all_length)
  have cells: "cell ?m (data_modules version ! j) = Some (module_value (data_bits cws) (data_modules version ! j) j)"
    if "j < length (data_modules version)" for j
    using place zigzag_shape(2) [OF assms] function_patterns_ok that
    by (simp add: grid_ok_def data_modules_def)
  have made: "cell (make_matrix cws version) p = (cell ?m p = Some True)" if "within ?sz p" for p
    using that sq square_row [OF sq, of "snd p"]
    by (simp add: mm cell_def within_def square_def)
  have range: "within ?sz (data_modules version ! j)" if "j < length (data_modules version)" for j
    using nth_mem [OF that] zigzag_shape(2) [OF assms] by (auto simp: data_modules_def)
  have "cell (make_matrix cws version) (data_modules version ! j)
      = module_value (data_bits cws) (data_modules version ! j) j" if "j < length (data_modules version)" for j
    using made [OF range [OF that]] cells [OF that] by simp
  then show "read_bits version (make_matrix cws version)
       = map (\<lambda>i. if i < length (data_bits cws) \<and> data_bits cws ! i \<noteq> 0 then 1 else 0)
           [0..<length (data_modules version)]"
    by (intro nth_equalityI) (auto simp add: read_bits_def module_value_def)
qed

subsection \<open>Room for the codewords\<close>

type_synonym rect = "int \<times> int \<times> int \<times> int"

definition in_rect :: "int \<times> int \<Rightarrow> rect \<Rightarrow> bool" where
  "in_rect p r = (case r of (x0, x1, y0, y1) \<Rightarrow>
     x0 \<le> fst p \<and> fst p \<le> x1 \<and> y0 \<le> snd p \<and> snd p \<le> y1)"

definition area :: "rect \<Rightarrow> int" where
  "area r = (case r of (x0, x1, y0, y1) \<Rightarrow> max 0 (x1 - x0 + 1) * max 0 (y1 - y0 + 1))"

text \<open>Rectangles that cover the function modules outside the timing column.\<close>

definition alignment_rects :: "int \<Rightarrow> int \<Rightarrow> rect list" where
  "alignment_rects version sz =
     concat (map (\<lambda>cy. concat (map (\<lambda>cx.
       if (cx, cy) \<in> {(6, 6), (sz - 7, 6), (6, sz - 7)} then []
       else if cx = 6 then [(4, 5, cy - 2, cy + 2), (7, 8, cy - 2, cy + 2)]
       else if cy = 6 then [(cx - 2, cx + 2, 4, 5), (cx - 2, cx + 2, 7, 8)]
       else [(cx - 2, cx + 2, cy - 2, cy + 2)])
     (alignment_positions version sz))) (alignment_positions version sz))"

definition cover :: "int \<Rightarrow> int \<Rightarrow> rect list" where
  "cover version sz =
     [(0, 5, 0, 8), (7, 8, 0, 8), (sz - 8, sz - 1, 0, 8), (0, 5, sz - 8, sz - 1),
      (7, 8, sz - 8, sz - 1), (9, sz - 9, 6, 6)]
     @ alignment_rects version sz
     @ (if version \<ge> 7 then [(0, 5, sz - 11, sz - 9), (sz - 11, sz - 9, 0, 5)] else [])"

lemma card_rects:
  "finite {p. \<exists>r \<in> set rs. in_rect p r} \<and> int (card {p. \<exists>r \<in> set rs. in_rect p r}) \<le> sum_list (map area rs)"
proof (induction rs)
  case (Cons r rs)
  obtain x0 x1 y0 y1 where r: "r = (x0, x1, y0, y1)" by (cases r)
  have eq: "{p. in_rect p r} = {x0..x1} \<times> {y0..y1}"
    by (auto simp: in_rect_def r)
  have one: "finite {p. in_rect p r}" "int (card {p. in_rect p r}) = area r"
    unfolding eq by (auto simp: area_def r card_cartesian_product max_def nat_eq_iff2
        split: if_splits)
  have "{p. \<exists>r \<in> set (r # rs). in_rect p r} = {p. in_rect p r} \<union> {p. \<exists>r \<in> set rs. in_rect p r}"
    by auto
  moreover have "card ({p. in_rect p r} \<union> {p. \<exists>r \<in> set rs. in_rect p r})
      \<le> card {p. in_rect p r} + card {p. \<exists>r \<in> set rs. in_rect p r}"
    by (rule card_Un_le)
  ultimately show ?case using Cons one by simp
qed simp

lemma finder_near:
  "(x, y, dark) \<in> set (finder cx cy) \<Longrightarrow> cx - 4 \<le> x \<and> x \<le> cx + 4 \<and> cy - 4 \<le> y \<and> y \<le> cy + 4"
  by (auto simp: finder_def Let_def simp del: upto.simps)

lemma alignment_square_near:
  "(x, y, dark) \<in> set (concat (map (\<lambda>dy. map (\<lambda>dx. (cx + dx, cy + dy, P dx dy)) [-2..2]) [-2..2])) \<Longrightarrow>
     cx - 2 \<le> x \<and> x \<le> cx + 2 \<and> cy - 2 \<le> y \<and> y \<le> cy + 2"
  by (auto simp del: upto.simps)

lemma nested_loop_mem:
  "z \<in> set (concat (map (\<lambda>b. concat (map (\<lambda>a. if P a b then [] else f a b) as)) bs))
     \<longleftrightarrow> (\<exists>b \<in> set bs. \<exists>a \<in> set as. \<not> P a b \<and> z \<in> set (f a b))"
  by (auto split: if_splits)

lemma alignment_near:
  assumes "(x, y, dark) \<in> set (alignment_calls version sz)"
  obtains cx cy where "cx \<in> set (alignment_positions version sz)"
    "cy \<in> set (alignment_positions version sz)" "(cx, cy) \<notin> {(6, 6), (sz - 7, 6), (6, sz - 7)}"
    "cx - 2 \<le> x" "x \<le> cx + 2" "cy - 2 \<le> y" "y \<le> cy + 2"
  using assms unfolding alignment_calls_def Let_def nested_loop_mem
proof (elim bexE conjE)
  fix cx cy
  assume c: "cy \<in> set (alignment_positions version sz)" "cx \<in> set (alignment_positions version sz)"
    "(cx, cy) \<notin> {(6, 6), (sz - 7, 6), (6, sz - 7)}"
    and "(x, y, dark) \<in> set (concat (map (\<lambda>dy. map (\<lambda>dx.
      (cx + dx, cy + dy, max \<bar>dx\<bar> \<bar>dy\<bar> \<noteq> 1)) [-2..2]) [-2..2]))"
  from alignment_square_near [OF this(4)] that [OF c(2,1,3)] show thesis by simp
qed

lemma format_near:
  assumes "(x, y, dark) \<in> set (format_calls sz)"
  shows "x = 8 \<and> y \<le> 8 \<or> x \<le> 8 \<and> y = 8 \<or> sz - 8 \<le> x \<and> y = 8 \<or> x = 8 \<and> sz - 8 \<le> y"
proof -
  obtain index where "index \<in> set [0..7]" and call: "(x, y, dark) \<in> set
        (let vertical_bit = (drop_bit (nat index) (bch 0 1335 10 XOR 21522) AND 1 \<noteq> 0);
             horizontal_bit = (drop_bit (nat (14 - index)) (bch 0 1335 10 XOR 21522) AND 1 \<noteq> 0);
             vertical_offset = (if index = 6 then 1 else 0);
             horizontal_offset = (if index = 6 then 1 else 0)
         in [(8, index + vertical_offset, vertical_bit), (index + horizontal_offset, 8, horizontal_bit),
             (sz - 1 - index, 8, vertical_bit), (8, sz - 1 - index, horizontal_bit)])"
    using assms unfolding format_calls_def set_concat set_map Let_def UN_iff image_iff by blast
  then have index: "0 \<le> index" "index \<le> 7" by (simp_all del: upto.simps)
  from call have "x = 8 \<and> (y = index + (if index = 6 then 1 else 0) \<or> y = sz - 1 - index)
      \<or> y = 8 \<and> (x = index + (if index = 6 then 1 else 0) \<or> x = sz - 1 - index)"
    unfolding Let_def by (simp only: set_simps insert_iff empty_iff prod.inject) blast
  then have "x = 8 \<and> (y \<le> 8 \<or> y = sz - 1 - index) \<or> y = 8 \<and> (x \<le> 8 \<or> x = sz - 1 - index)"
    using index by (auto split: if_splits)
  then show ?thesis using index by linarith
qed

lemma version_near:
  assumes "(x, y, dark) \<in> set (version_calls version sz)"
  shows "(0 \<le> x \<and> x \<le> 5 \<and> sz - 11 \<le> y \<and> y \<le> sz - 9 \<or> 0 \<le> y \<and> y \<le> 5 \<and> sz - 11 \<le> x \<and> x \<le> sz - 9)
    \<and> version \<ge> 7"
proof -
  from assms have v: "version \<ge> 7" by (auto simp: version_calls_def split: if_splits)
  obtain index where "index \<in> set [0..17]" and call: "(x, y, dark) \<in> set
        (let bit = (drop_bit (nat index) (bch version 7973 12) AND 1 \<noteq> 0)
         in [(index div 3, index mod 3 + sz - 8 - 3, bit), (index mod 3 + sz - 8 - 3, index div 3, bit)])"
    using assms v unfolding version_calls_def if_P [OF v] set_concat set_map Let_def UN_iff image_iff
    by blast
  then have index: "0 \<le> index" "index \<le> 17" by (simp_all del: upto.simps)
  define q r where "q = index div 3" and "r = index mod 3"
  have qr: "0 \<le> q" "q \<le> 5" "0 \<le> r" "r \<le> 2" using index by (auto simp: q_def r_def)
  from call have "x = q \<and> y = r + sz - 8 - 3 \<or> y = q \<and> x = r + sz - 8 - 3"
    unfolding Let_def q_def r_def by (simp only: set_simps insert_iff empty_iff prod.inject) blast
  with qr v show ?thesis by auto
qed

lemma function_calls_cover:
  assumes call: "(x, y, dark) \<in> set (function_calls version sz)"
    and xy: "0 \<le> x" "x < sz" "0 \<le> y" "y < sz" "x \<noteq> 6"
  shows "\<exists>r \<in> set (cover version sz). in_rect (x, y) r"
proof -
  have base: "\<exists>r \<in> set (cover version sz). in_rect (x, y) r"
    if b: "x \<le> 8 \<and> y \<le> 8 \<or> sz - 8 \<le> x \<and> y \<le> 8 \<or> x \<le> 8 \<and> sz - 8 \<le> y \<or> y = 6"
  proof -
    from b xy consider "x \<le> 5" "y \<le> 8" | "7 \<le> x" "x \<le> 8" "y \<le> 8" | "sz - 8 \<le> x" "y \<le> 8"
      | "x \<le> 5" "sz - 8 \<le> y" | "7 \<le> x" "x \<le> 8" "sz - 8 \<le> y" | "9 \<le> x" "x \<le> sz - 9" "y = 6"
      by linarith
    then show ?thesis
      by cases (use xy in \<open>simp_all add: cover_def in_rect_def\<close>)
  qed
  from call consider
      "(x, y, dark) \<in> set (timing_calls sz)"
    | "(x, y, dark) \<in> set (finder 3 3 @ finder (sz - 4) 3 @ finder 3 (sz - 4))"
    | "(x, y, dark) \<in> set (alignment_calls version sz)"
    | "(x, y) \<in> {(8, sz - 8), (8, 8)}"
    | "(x, y, dark) \<in> set (version_calls version sz)"
    | "(x, y, dark) \<in> set (format_calls sz)"
    by (auto simp: function_calls_def)
  then show ?thesis
  proof cases
    case 1
    then have "y = 6" using xy(5) by (auto simp: timing_calls_def)
    then show ?thesis by (intro base) simp
  next
    case 2
    then have "x \<le> 7 \<and> y \<le> 7 \<or> sz - 8 \<le> x \<and> y \<le> 7 \<or> x \<le> 7 \<and> sz - 8 \<le> y"
      by (auto dest!: finder_near)
    then show ?thesis by (intro base) auto
  next
    case 3
    then obtain cx cy where c: "cx \<in> set (alignment_positions version sz)"
      "cy \<in> set (alignment_positions version sz)" "(cx, cy) \<notin> {(6, 6), (sz - 7, 6), (6, sz - 7)}"
      and d: "cx - 2 \<le> x" "x \<le> cx + 2" "cy - 2 \<le> y" "y \<le> cy + 2"
      by (rule alignment_near)
    show ?thesis
    proof (cases "y = 6")
      case True
      then show ?thesis by (intro base) simp
    next
      case False
      let ?rs = "if cx = 6 then [(4, 5, cy - 2, cy + 2), (7, 8, cy - 2, cy + 2)]
        else if cy = 6 then [(cx - 2, cx + 2, 4, 5), (cx - 2, cx + 2, 7, 8)]
        else [(cx - 2, cx + 2, cy - 2, cy + 2)]"
      have "\<exists>r \<in> set ?rs. in_rect (x, y) r"
        using d False xy(5) by (auto simp: in_rect_def)
      moreover have "set ?rs \<subseteq> set (alignment_rects version sz)"
        using c by (auto simp: alignment_rects_def intro!: bexI [where x = cx] bexI [where x = cy])
      ultimately show ?thesis by (auto simp: cover_def)
    qed
  next
    case 4
    then show ?thesis using xy by (intro base) auto
  next
    case 5
    then have "(0 \<le> x \<and> x \<le> 5 \<and> sz - 11 \<le> y \<and> y \<le> sz - 9 \<or> 0 \<le> y \<and> y \<le> 5 \<and> sz - 11 \<le> x \<and> x \<le> sz - 9)
        \<and> version \<ge> 7"
      by (rule version_near)
    then show ?thesis by (auto simp: cover_def in_rect_def)
  next
    case 6
    then have "x = 8 \<and> y \<le> 8 \<or> x \<le> 8 \<and> y = 8 \<or> sz - 8 \<le> x \<and> y = 8 \<or> x = 8 \<and> sz - 8 \<le> y"
      by (rule format_near)
    then show ?thesis by (intro base) auto
  qed
qed

lemma data_modules_count:
  assumes "1 \<le> version"
  shows "symbol_size version * (symbol_size version - 1)
       - sum_list (map area (cover version (symbol_size version)))
       \<le> int (length (data_modules version))"
proof -
  let ?sz = "symbol_size version" and ?fn = "cell (function_map (function_patterns version))"
  let ?F = "{p. \<exists>r \<in> set (cover version ?sz). in_rect p r}"
  have "set (filter ?fn (zigzag ?sz)) \<subseteq> ?F"
  proof
    fix p assume "p \<in> set (filter ?fn (zigzag ?sz))"
    then have p: "within ?sz p" "fst p \<noteq> 6" "?fn p"
      using zigzag_shape(2) [OF assms, of p] by auto
    then obtain dark where "(fst p, snd p, dark) \<in> set (function_calls version ?sz)"
      by (auto simp: function_patterns_map)
    from function_calls_cover [OF this] p show "p \<in> ?F" by (simp add: within_def)
  qed
  then have "card (set (filter ?fn (zigzag ?sz))) \<le> card ?F"
    by (intro card_mono conjunct1 [OF card_rects])
  moreover have "card (set (filter ?fn (zigzag ?sz))) = length (filter ?fn (zigzag ?sz))"
    using zigzag_shape(1) [OF assms] by (intro distinct_card) simp
  ultimately have "int (length (filter ?fn (zigzag ?sz))) \<le> sum_list (map area (cover version ?sz))"
    using card_rects [of "cover version ?sz"] by linarith
  moreover have "length (filter ?fn (zigzag ?sz)) + length (data_modules version) = length (zigzag ?sz)"
    unfolding data_modules_def by (rule sum_length_filter_compl)
  ultimately show ?thesis using zigzag_shape(3) [OF assms] by linarith
qed

lemma sum_list_int:
  "sum_list (map (\<lambda>(blocks, total, data). int blocks * int total) groups)
     = int (sum_list (map (\<lambda>(blocks, total, data). blocks * total) groups))"
  by (induction groups) auto

lemma symbol_capacity:
  assumes "1 \<le> version" and "version \<le> 40"
  shows "8 * total_codewords version \<le> length (data_modules (int version))"
proof -
  have "list_all (\<lambda>v. 8 * sum_list (map (\<lambda>(blocks, total, data). int blocks * int total) (ecc_m ! (v - 1)))
      \<le> symbol_size (int v) * (symbol_size (int v) - 1)
         - sum_list (map area (cover (int v) (symbol_size (int v))))) [1..<41]"
    by code_simp
  with assms have "8 * sum_list (map (\<lambda>(blocks, total, data). int blocks * int total) (ecc_m ! (version - 1)))
      \<le> int (length (data_modules (int version)))"
    using data_modules_count [of "int version"] by (auto simp: list_all_iff intro: order_trans)
  moreover have "sum_list (map (\<lambda>(blocks, total, data). int blocks * int total) (ecc_m ! (version - 1)))
      = int (total_codewords version)"
    unfolding total_codewords_def by (rule sum_list_int)
  ultimately show ?thesis by linarith
qed

end
