(* ===== verification/Qr_Scan.thy ===== *)
theory Qr_Scan
  imports Qr_Placement
begin

text \<open>
  The encoder end to end: a reader that takes the module matrix back to the bytes of the URL, and
  the version the encoder settles on.
\<close>

subsection \<open>From the matrix back to the codewords\<close>










subsection \<open>The reader\<close>


lemma matrix_from_split:
  "matrix_from url (pre @ version # post) = Inr m \<longleftrightarrow>
     (if \<forall>v \<in> set pre. codewords url v = Inl QRCodeUnavailable
      then matrix_from url (version # post) = Inr m else matrix_from url pre = Inr m)"
  by (induction pre) (auto split: sum.splits qr_error.splits)

lemma matrix_from_Inr:
  "matrix_from url vs = Inr m \<Longrightarrow>
     \<exists>pre version post cws. vs = pre @ version # post \<and>
       (\<forall>v \<in> set pre. codewords url v = Inl QRCodeUnavailable) \<and>
       codewords url version = Inr cws \<and> m = make_matrix cws (int version)"
proof (induction vs)
  case (Cons v vs)
  show ?case
  proof (cases "codewords url v")
    case (Inl e)
    then obtain pre version post cws where "vs = pre @ version # post"
      "\<forall>v \<in> set pre. codewords url v = Inl QRCodeUnavailable"
      "codewords url version = Inr cws" "m = make_matrix cws (int version)"
      using Cons by (cases e) auto
    moreover have "codewords url v = Inl QRCodeUnavailable" using Inl by (cases e) simp
    ultimately show ?thesis
      by (intro exI [of _ "v # pre"] exI [of _ version] exI [of _ post] exI [of _ cws]) simp
  next
    case (Inr cws)
    then show ?thesis
      using Cons.prems by (intro exI [of _ "[]"] exI [of _ v] exI [of _ vs] exI [of _ cws]) simp
  qed
qed simp

lemma matrix_from_Inl:
  "matrix_from url vs = Inl e \<longleftrightarrow> (\<forall>v \<in> set vs. codewords url v = Inl QRCodeUnavailable)"
proof -
  have "e = QRCodeUnavailable" by (cases e)
  then show ?thesis by (induction vs) (auto split: sum.splits qr_error.splits)
qed

lemma qr_matrix_Inr:
  assumes "qr_matrix url = Inr m"
  obtains version cws where "1 \<le> version" and "version \<le> 40"
    and "\<And>v. 1 \<le> v \<Longrightarrow> v < version \<Longrightarrow> codewords url v = Inl QRCodeUnavailable"
    and "codewords url version = Inr cws" and "m = make_matrix cws (int version)"
proof -
  from matrix_from_Inr [OF assms [unfolded qr_matrix_def]] obtain pre version post cws
    where split: "[1..<41] = pre @ version # post"
      and pre: "\<forall>v \<in> set pre. codewords url v = Inl QRCodeUnavailable"
      and ok: "codewords url version = Inr cws" and m: "m = make_matrix cws (int version)"
    by blast
  from split have "version = 1 + length pre" and "length pre < 40"
  proof -
    show len: "length pre < 40"
      using arg_cong [OF split, of "\<lambda>xs. length xs"] by (simp del: upt.simps)
    have "[1..<41] ! length pre = version" by (simp only: split nth_append_length)
    then show "version = 1 + length pre" using len by (simp del: upt.simps)
  qed
  moreover have "v \<in> set pre" if "1 \<le> v" "v < version" for v
  proof -
    have "pre = take (length pre) [1..<41]" unfolding split by simp
    then have "pre = [1..<version]" using calculation by (simp del: upt.simps add: take_upt)
    then show ?thesis using that by simp
  qed
  ultimately show ?thesis using pre ok m that [of version cws] by auto
qed

text \<open>The bytes a version takes: the mode and count indicators, then eight bits per byte.\<close>

definition payload_capacity :: "nat \<Rightarrow> nat" where
  "payload_capacity version =
     (data_capacity (ecc_m ! (version - 1)) * 8 - 4 - count_length version) div 8"

lemma payload_capacities:
  "map payload_capacity [1..<41] =
     [14, 26, 42, 62, 84, 106, 122, 152, 180, 213, 251, 287, 331, 362, 412, 450, 504, 560, 624, 666,
      711, 779, 857, 911, 997, 1059, 1125, 1190, 1264, 1370, 1452, 1538, 1628, 1722, 1809, 1911,
      1989, 2099, 2213, 2331]"
  by (simp add: payload_capacity_def data_capacity_def count_length_def ecc_m_def upt_rec)

lemma payload_capacity_le: "1 \<le> version \<Longrightarrow> version \<le> 40 \<Longrightarrow> payload_capacity version \<le> 2331"
proof -
  assume v: "1 \<le> version" "version \<le> 40"
  have "payload_capacity version = map payload_capacity [1..<41] ! (version - 1)"
    using v by (simp del: upt.simps)
  also have "\<dots> \<in> set (map payload_capacity [1..<41])"
    using v by (intro nth_mem) (simp del: upt.simps)
  finally show ?thesis unfolding payload_capacities by auto
qed

lemma codewords_fit:
  assumes "1 \<le> version" and "version \<le> 40"
  shows "codewords url version = Inl QRCodeUnavailable \<longleftrightarrow> payload_capacity version < length (utf8 url)"
proof -
  have "4 + count_length version \<le> data_capacity (ecc_m ! (version - 1)) * 8"
  proof -
    have "list_all (\<lambda>v. 4 + count_length v \<le> data_capacity (ecc_m ! (v - 1)) * 8) [1..<41]"
      by (simp add: data_capacity_def count_length_def ecc_m_def upt_rec)
    with assms show ?thesis by (auto simp: list_all_iff simp del: upt.simps)
  qed
  then show ?thesis
    by (auto simp: codewords_eq Let_def length_header_bits payload_capacity_def)
qed

subsection \<open>End to end\<close>


lemma matrix_version:
  "qr_matrix url = Inr m \<longleftrightarrow>
     (\<exists>version cws. 1 \<le> version \<and> version \<le> 40
        \<and> (\<forall>v. 1 \<le> v \<and> v < version \<longrightarrow> payload_capacity v < length (utf8 url))
        \<and> length (utf8 url) \<le> payload_capacity version
        \<and> codewords url version = Inr cws \<and> m = make_matrix cws (int version))"
  (is "_ \<longleftrightarrow> ?spec")
proof
  assume "qr_matrix url = Inr m"
  then obtain version cws where v: "1 \<le> version" "version \<le> 40"
    and pre: "\<And>v. 1 \<le> v \<Longrightarrow> v < version \<Longrightarrow> codewords url v = Inl QRCodeUnavailable"
    and ok: "codewords url version = Inr cws" and m: "m = make_matrix cws (int version)"
    by (rule qr_matrix_Inr) blast
  have "payload_capacity v < length (utf8 url)" if "1 \<le> v" "v < version" for v
    using codewords_fit [of v url] pre [OF that] that v by simp
  moreover have "length (utf8 url) \<le> payload_capacity version"
    using codewords_fit [OF v, of url] ok by simp
  ultimately show ?spec using v ok m by blast
next
  assume ?spec
  then obtain version cws where v: "1 \<le> version" "version \<le> 40"
    and pre: "\<And>v. 1 \<le> v \<Longrightarrow> v < version \<Longrightarrow> payload_capacity v < length (utf8 url)"
    and ok: "codewords url version = Inr cws" and m: "m = make_matrix cws (int version)"
    by blast
  have "[1..<41] = [1..<version] @ version # [Suc version..<41]"
    using v upt_add_eq_append [of 1 version "41 - version"] upt_conv_Cons [of version 41]
    by (simp del: upt.simps)
  moreover have "codewords url v = Inl QRCodeUnavailable" if "v \<in> set [1..<version]" for v
    using codewords_fit [of v url] pre [of v] that v by simp
  ultimately have "matrix_from url [1..<41] = matrix_from url (version # [Suc version..<41])"
    using matrix_from_split by (metis matrix_from.simps(2) m ok sum.simps(6))
  then show "qr_matrix url = Inr m" by (simp add: qr_matrix_def ok m del: upt.simps)
qed

lemma matrix_unavailable:
  "qr_matrix url = Inl QRCodeUnavailable \<longleftrightarrow> 2331 < length (utf8 url)"
proof -
  have "qr_matrix url = Inl QRCodeUnavailable
      \<longleftrightarrow> (\<forall>v \<in> set [1..<41]. payload_capacity v < length (utf8 url))"
    using codewords_fit by (auto simp: qr_matrix_def matrix_from_Inl simp del: upt.simps)
  also have "\<dots> \<longleftrightarrow> (\<forall>c \<in> set (map payload_capacity [1..<41]). c < length (utf8 url))"
    by (simp del: upt.simps)
  also have "\<dots> \<longleftrightarrow> 2331 < length (utf8 url)"
    unfolding payload_capacities by auto
  finally show ?thesis .
qed

lemma qr_matrix_a: "\<exists>m. qr_matrix ''a'' = Inr m"
proof -
  have "length (utf8 ''a'') = 1" by (simp add: utf8_def utf8_char_def)
  then have "qr_matrix ''a'' \<noteq> Inl QRCodeUnavailable" by (simp add: matrix_unavailable)
  then show ?thesis by (metis (full_types) qr_error.exhaust sum.exhaust)
qed

subsection \<open>Padding\<close>

lemma pack_bytes_append:
  "8 dvd length as \<Longrightarrow> pack_bytes (as @ bs) = pack_bytes as @ pack_bytes bs"
proof (induction rule: chunk8_induct)
  case (chunk c bits)
  then show ?case by (simp add: pack_bytes_chunk)
qed simp

lemma count_length_bytes: "count_length version = 8 * (count_length version div 8)"
  by (simp add: count_length_def)

lemma pack_zero_byte: "pack_bytes (replicate 8 0) = [0]"
  using pack_bytes_chunk [of "replicate 8 0" "[]"] by (simp add: bits_value_def eval_nat_numeral)

lemma symbol_data_padding:
  assumes "length (utf8 url) + 1 + count_length version div 8 < data_capacity (ecc_m ! (version - 1))"
  shows "symbol_data url version ! (length (utf8 url) + 1 + count_length version div 8) = 0"
proof -
  let ?cap = "data_capacity (ecc_m ! (version - 1))" and ?n = "length (utf8 url)"
  define k where "k = ?n + 1 + count_length version div 8"
  define h where "h = header_bits (utf8 url) version"
  define b1 where "b1 = append_bits h 0 (min 4 (?cap * 8 - length h))"
  have "length h + 4 = 8 * k"
    using count_length_bytes [of version] by (simp add: h_def k_def length_header_bits algebra_simps)
  moreover have "8 * k \<le> ?cap * 8" using assms by (simp add: k_def)
  ultimately have len: "length b1 = 8 * k" by (simp add: b1_def)
  then have b1: "8 dvd length b1" "length (pack_bytes b1) = k" by (simp_all add: length_pack_bytes)
  have b2: "b1 @ replicate (8 - length b1 mod 8) 0 = b1 @ replicate 8 0" by (simp add: len)
  have "symbol_data url version = pad_data (pack_bytes (b1 @ replicate 8 0)) ?cap"
    unfolding symbol_data_def Let_def by (simp only: b2 flip: h_def b1_def)
  then have "symbol_data url version = pad_data (pack_bytes b1 @ [0]) ?cap"
    by (simp only: pack_bytes_append [OF b1(1)] pack_zero_byte)
  then have "symbol_data url version ! k = 0"
    using b1(2) by (simp add: pad_data_def Let_def nth_append)
  then show ?thesis by (simp only: k_def)
qed

subsection \<open>Properties\<close>



text \<open>
  The encoder takes the first of the 40 versions whose byte capacity at level M holds the URL,
  and the matrix is the square of that version.
\<close>

theorem qr_smallest_version:
  "qr_matrix url = Inr m \<longleftrightarrow>
     (\<exists>version cws. 1 \<le> version \<and> version \<le> 40
        \<and> (\<forall>v. 1 \<le> v \<and> v < version \<longrightarrow> payload_capacity v < length (utf8 url))
        \<and> length (utf8 url) \<le> payload_capacity version
        \<and> codewords url version = Inr cws \<and> length cws = total_codewords version
        \<and> m = make_matrix cws (int version) \<and> square (symbol_size (int version)) m)"
proof -
  have "codewords url v = Inr c \<and> m = make_matrix c (int v) \<longleftrightarrow>
      codewords url v = Inr c \<and> length c = total_codewords v \<and> m = make_matrix c (int v)
        \<and> square (symbol_size (int v)) m" if "1 \<le> v" "v \<le> 40" for v c
    using codewords_shape [OF that] make_matrix_shape(1) [of "int v" c] that by auto
  then show ?thesis unfolding matrix_version by blast
qed

lemma qr_smallest_version_witness:
  "\<exists>m version. qr_matrix ''a'' = Inr m \<and> length (utf8 ''a'') \<le> payload_capacity version
     \<and> square (symbol_size (int version)) m"
  using qr_matrix_a qr_smallest_version [of "''a''"] by blast

text \<open>The encoder raises exactly on the URLs of more than 2331 UTF-8 bytes.\<close>

theorem qr_unavailable_iff:
  "qr_matrix url = Inl QRCodeUnavailable \<longleftrightarrow> 2331 < length (utf8 url)"
  by (rule matrix_unavailable)

text \<open>
  When the data area has room after the terminator, the codeword a scanner finds there (after
  deinterleaving the data part of the codewords) is a zero byte where the standard asks for the pad
  codeword 0xEC: the fill to a byte boundary adds eight bits to a length that is already a
  multiple of eight.
\<close>

theorem qr_extra_zero_codeword:
  assumes "codewords url version = Inr cws"
    and "length (utf8 url) + 1 + count_length version div 8 < data_capacity (ecc_m ! (version - 1))"
  shows "concat (deinterleave (block_lengths (ecc_m ! (version - 1)))
      (take (sum_list (block_lengths (ecc_m ! (version - 1)))) cws))
    ! (length (utf8 url) + 1 + count_length version div 8) = 0"
  using deinterleave_codewords(1) [OF assms(1), of "[]"] symbol_data_padding [OF assms(2)] assms(2) by simp

lemma codewords_a: "\<exists>cws. codewords ''a'' 1 = Inr cws"
  by (simp add: codewords_eq length_header_bits utf8_def utf8_char_def count_length_def ecc_m_def
      data_capacity_def Let_def)

lemma qr_extra_zero_codeword_witness:
  "\<exists>cws. codewords ''a'' 1 = Inr cws
     \<and> concat (deinterleave (block_lengths (ecc_m ! 0)) (take (sum_list (block_lengths (ecc_m ! 0))) cws)) ! 3 = 0"
proof -
  obtain cws where cws: "codewords ''a'' 1 = Inr cws" using codewords_a by blast
  have "data_capacity (ecc_m ! 0) = 16" by (simp add: ecc_m_def data_capacity_def)
  moreover have "length (utf8 ''a'') + 1 + count_length 1 div 8 = 3"
    by (simp add: utf8_def utf8_char_def count_length_def)
  ultimately show ?thesis using qr_extra_zero_codeword [OF cws] cws by auto
qed

end
