(* ===== verification/Qr_Render.thy ===== *)
theory Qr_Render
  imports Qr_Scan "HOL-Library.Word"
begin

unbundle bit_operations_syntax

text \<open>
  The two renderings of the module matrix (\<open>svg\<close>, \<open>_png_chunk\<close>, \<open>png\<close>). \<open>zlib.compress\<close> is the
  parameter \<open>compress\<close>; \<open>zlib.crc32\<close> is the standard CRC-32 on 32-bit words. A \<open>bytes\<close> value is
  a list of ints below 256, the SVG markup a string whose characters are ASCII.
\<close>

subsection \<open>SVG\<close>

text \<open>\<open>xml.sax.saxutils.escape\<close> and the decimal numbers of the f-strings.\<close>

definition xml_escape :: "string \<Rightarrow> string" where
  "xml_escape s = concat (map (\<lambda>c.
     if c = CHR ''&'' then ''&amp;'' else if c = CHR ''<'' then ''&lt;''
     else if c = CHR ''>'' then ''&gt;'' else [c]) s)"

definition svg_path :: "nat \<times> nat \<Rightarrow> string" where
  "svg_path p = (case p of (x, y) \<Rightarrow>
     ''M'' @ nat_digits x @ '' '' @ nat_digits y @ ''h1v1h-1z'')"

definition svg_modules :: "bool list list \<Rightarrow> (nat \<times> nat) list" where
  "svg_modules m =
     concat (map (\<lambda>(y, row). map (\<lambda>(x, dark). (x, y)) (filter (\<lambda>(x, dark). dark) (enumerate 4 row)))
       (enumerate 4 m))"

definition svg :: "string \<Rightarrow> (qr_error, string) res" where
  "svg url = bind_res (qr_matrix url) (\<lambda>m.
     let sz = nat_digits (length m + 8);
         paths = map svg_path (svg_modules m);
         aria_label = xml_escape ''Event Q&A share code''
     in Inr (''<svg xmlns=\"http://www.w3.org/2000/svg\" viewBox=\"0 0 '' @ sz @ '' '' @ sz @ ''\" ''
          @ ''role=\"img\" aria-label=\"'' @ aria_label @ ''\">''
          @ ''<path fill=\"currentColor\" d=\"'' @ concat paths @ ''\"/></svg>''))"

subsection \<open>PNG\<close>

text \<open>\<open>struct.pack(">I", n)\<close> for \<open>0 \<le> n < 2 ^ 32\<close>; larger lengths do not occur here.\<close>

definition pack_be32 :: "int \<Rightarrow> int list" where
  "pack_be32 n = map (\<lambda>k. drop_bit (8 * k) n AND 255) [3, 2, 1, 0]"

definition crc32_bit :: "32 word \<Rightarrow> 32 word" where
  "crc32_bit c = (if c AND 1 \<noteq> 0 then drop_bit 1 c XOR 3988292384 else drop_bit 1 c)"

definition crc32 :: "int list \<Rightarrow> int" where
  "crc32 data = uint (NOT (fold (\<lambda>b c. (crc32_bit ^^ 8) (c XOR word_of_int b)) data (NOT (0 :: 32 word))))"

definition ascii_bytes :: "string \<Rightarrow> int list" where
  "ascii_bytes s = map of_char s"

definition png_chunk :: "int list \<Rightarrow> int list \<Rightarrow> int list" where
  "png_chunk kind data =
     (let checksum = pack_be32 (crc32 (kind @ data) AND 4294967295)
      in pack_be32 (int (length data)) @ kind @ data @ checksum)"

definition png_row :: "bool list list \<Rightarrow> nat \<Rightarrow> nat \<Rightarrow> nat \<Rightarrow> int list" where
  "png_row m scale modules y =
     (let source_y = int (y div scale) - 4
      in 255 # concat (map (\<lambda>x.
           let source_x = int (x div scale) - 4;
               dark = (0 \<le> source_y \<and> source_y < int (length m)
                       \<and> 0 \<le> source_x \<and> source_x < int (length m)
                       \<and> m ! nat source_y ! nat source_x)
           in replicate 3 (if dark then 0 else 255)) [0..<modules]))"

definition png_raw :: "bool list list \<Rightarrow> nat \<Rightarrow> nat \<Rightarrow> int list" where
  "png_raw m scale modules =
     concat (concat (map (\<lambda>y. replicate scale (png_row m scale modules y)) [0..<modules]))"

definition png_scale :: "int \<Rightarrow> nat \<Rightarrow> nat" where
  "png_scale sz modules = (let sz = max 64 (min 2048 sz) in nat (max 1 (sz div int modules)))"

definition png_signature :: "int list" where
  "png_signature = [137, 80, 78, 71, 13, 10, 26, 10]"

definition png :: "(int list \<Rightarrow> int list) \<Rightarrow> string \<Rightarrow> int \<Rightarrow> (qr_error, int list) res" where
  "png compress url sz = bind_res (qr_matrix url) (\<lambda>m.
     let modules = length m + 8;
         scale = png_scale sz modules;
         pixels = int (modules * scale);
         raw = png_raw m scale modules
     in Inr (png_signature
          @ png_chunk (ascii_bytes ''IHDR'') (pack_be32 pixels @ pack_be32 pixels @ [8, 2, 0, 0, 0])
          @ png_chunk (ascii_bytes ''IDAT'') (compress raw)
          @ png_chunk (ascii_bytes ''IEND'') []))"

subsection \<open>Reading chunks back\<close>

definition read_be32 :: "int list \<Rightarrow> int" where
  "read_be32 bs = foldl (\<lambda>acc b. 256 * acc + b) 0 (take 4 bs)"

text \<open>A PNG reader's view of a chunk: length, type, data and a matching checksum.\<close>

definition read_chunk :: "int list \<Rightarrow> (int list \<times> int list \<times> int list) option" where
  "read_chunk bs =
     (let n = nat (read_be32 bs);
          kind = take 4 (drop 4 bs);
          data = take n (drop 8 bs)
      in if 12 + n \<le> length bs \<and> read_be32 (drop (8 + n) bs) = crc32 (kind @ data)
         then Some (kind, data, drop (12 + n) bs) else None)"

lemma and_255: "(n :: int) AND 255 = n mod 256"
  using take_bit_eq_mask [of 8 n] by (simp add: take_bit_eq_mod mask_eq_exp_minus_1)

lemma length_pack_be32 [simp]: "length (pack_be32 n) = 4"
  by (simp add: pack_be32_def)

lemma read_be32_4: "read_be32 ([a, b, c, d] @ rest) = 256 * (256 * (256 * a + b) + c) + d"
  by (simp add: read_be32_def)

lemma read_pack_be32:
  assumes "0 \<le> n" and "n < 2 ^ 32"
  shows "read_be32 (pack_be32 n @ rest) = n"
proof -
  have "pack_be32 n = [n div 16777216 mod 256, n div 65536 mod 256, n div 256 mod 256, n mod 256]"
    by (simp add: pack_be32_def and_255 drop_bit_eq_div)
  moreover have "256 * (256 * (256 * (n div 16777216 mod 256) + n div 65536 mod 256) + n div 256 mod 256)
      + n mod 256 = n"
  proof -
    define a b c where "a = n div 256" and "b = a div 256" and "c = b div 256"
    have d: "n div 65536 = b" "n div 16777216 = c"
      by (simp_all add: a_def b_def c_def flip: zdiv_zmult2_eq)
    have "0 \<le> c" "c < 256"
      using assms zdiv_mono1 [of n "2 ^ 32 - 1" 16777216]
      by (simp_all add: pos_imp_zdiv_nonneg_iff flip: d)
    then have "c mod 256 = c" by simp
    moreover have "256 * a + n mod 256 = n" "256 * b + a mod 256 = a" "256 * c + b mod 256 = b"
      by (simp_all only: a_def b_def c_def mult_div_mod_eq)
    ultimately show ?thesis unfolding d by (simp only: flip: a_def)
  qed
  ultimately show ?thesis by (simp only: read_be32_4)
qed

lemma crc32_range: "0 \<le> crc32 data \<and> crc32 data < 2 ^ 32"
  unfolding crc32_def using uint_lt2p [of "NOT (fold (\<lambda>b c. (crc32_bit ^^ 8) (c XOR word_of_int b))
      data (NOT (0 :: 32 word)))"] by simp

lemma crc32_masked: "crc32 data AND 4294967295 = crc32 data"
proof -
  have "crc32 data AND 4294967295 = take_bit 32 (crc32 data)"
    by (simp add: take_bit_eq_mask mask_eq_exp_minus_1)
  then show ?thesis using crc32_range [of data] by (simp add: take_bit_eq_mod)
qed

lemma read_chunk_png_chunk:
  assumes "length kind = 4" and "length data < 2 ^ 32"
  shows "read_chunk (png_chunk kind data @ rest) = Some (kind, data, rest)"
proof -
  let ?crc = "pack_be32 (crc32 (kind @ data))"
  have chunk: "png_chunk kind data @ rest
      = pack_be32 (int (length data)) @ kind @ data @ ?crc @ rest"
    by (simp add: png_chunk_def crc32_masked)
  have n: "nat (read_be32 (png_chunk kind data @ rest)) = length data"
    unfolding chunk using assms(2) by (subst read_pack_be32) simp_all
  have "drop (8 + length data) (png_chunk kind data @ rest) = ?crc @ rest"
    unfolding chunk using assms(1) by simp
  moreover have "read_be32 (?crc @ rest) = crc32 (kind @ data)"
    using crc32_range by (intro read_pack_be32) simp_all
  ultimately show ?thesis
    unfolding read_chunk_def Let_def n using assms(1) by (simp add: chunk)
qed

subsection \<open>The shape of the raster and of the path\<close>





lemma svg_modules_set:
  "(x, y) \<in> set (svg_modules m) \<longleftrightarrow>
     4 \<le> x \<and> 4 \<le> y \<and> y - 4 < length m \<and> x - 4 < length (m ! (y - 4)) \<and> m ! (y - 4) ! (x - 4)"
proof -
  have "(x, y) \<in> set (svg_modules m) \<longleftrightarrow>
      (\<exists>p \<in> set (enumerate 4 m). fst p = y \<and> (\<exists>q \<in> set (enumerate 4 (snd p)). fst q = x \<and> snd q))"
    by (force simp: svg_modules_def split_beta)
  also have "\<dots> \<longleftrightarrow> (\<exists>row. (y, row) \<in> set (enumerate 4 m) \<and> (x, True) \<in> set (enumerate 4 row))"
  proof -
    have pair: "(\<exists>p \<in> A. fst p = u \<and> P (snd p)) \<longleftrightarrow> (\<exists>r. (u, r) \<in> A \<and> P r)"
      for A :: "(nat \<times> 'c) set" and P u by force
    have "(\<exists>q \<in> B. fst q = x \<and> snd q) \<longleftrightarrow> (x, True) \<in> B" for B by force
    then show ?thesis
      using pair [of "set (enumerate 4 m)" y "\<lambda>row. (x, True) \<in> set (enumerate 4 row)"] by simp
  qed
  finally show ?thesis by (auto simp: in_set_enumerate_eq)
qed

subsection \<open>Properties\<close>

text \<open>
  The chunks of the PNG read back: length, type and data are those written, and the stored
  checksum is the CRC-32 of type and data, for any chunk whose length fits 32 bits.
\<close>

theorem png_chunk_round_trip:
  assumes "length kind = 4" and "length data < 2 ^ 32"
  shows "read_chunk (png_chunk kind data @ rest) = Some (kind, data, rest)"
  using assms by (rule read_chunk_png_chunk)

lemma png_chunk_round_trip_witness:
  "read_chunk (png_chunk (ascii_bytes ''IEND'') [] @ [1, 2]) = Some (ascii_bytes ''IEND'', [], [1, 2])"
  by (rule png_chunk_round_trip) (simp_all add: ascii_bytes_def)



text \<open>
  The SVG draws one unit square per dark module and no other: the path is the concatenation of
  the squares of the modules \<open>(x, y)\<close>, shifted by the quiet zone of four.
\<close>

theorem svg_draws_dark_modules:
  assumes "qr_matrix url = Inr m"
  shows "\<exists>pre post ps. svg url = Inr (pre @ concat (map svg_path ps) @ post)
    \<and> (\<forall>x y. (x, y) \<in> set ps \<longleftrightarrow> 4 \<le> x \<and> 4 \<le> y \<and> y - 4 < length m
         \<and> x - 4 < length (m ! (y - 4)) \<and> m ! (y - 4) ! (x - 4))"
proof -
  have "\<exists>pre post. svg url = Inr (pre @ concat (map svg_path (svg_modules m)) @ post)"
    unfolding svg_def assms bind_res_simps Let_def append_assoc [symmetric]
    by (metis append_assoc)
  then show ?thesis using svg_modules_set by blast
qed

lemma svg_draws_dark_modules_witness:
  "\<exists>m ps. qr_matrix ''a'' = Inr m \<and> (\<exists>pre post. svg ''a'' = Inr (pre @ concat (map svg_path ps) @ post))"
proof -
  obtain m where m: "qr_matrix ''a'' = Inr m" using qr_matrix_a by blast
  then show ?thesis using svg_draws_dark_modules [OF m] by blast
qed

end
