(* ===== verification/Py_Value.thy ===== *)
theory Py_Value
  imports Prelude
begin

text \<open>
  Python values as they come out of a decoded JSON request (\<open>json.loads\<close>), with the operations
  the services apply to them: equality with a string, \<open>in {None, ...}\<close>, hashability, \<open>str\<close> and
  \<open>repr\<close>. A float is kept as its \<open>repr\<close> text, which is all the services can observe of it.
\<close>

datatype pyval =
    PNone
  | PBool bool
  | PInt int
  | PFloat string
  | PStr string
  | PList "pyval list"
  | PDict "(string \<times> pyval) list"

text \<open>A request payload: a JSON object, its keys distinct.\<close>

type_synonym payload = "(string \<times> pyval) list"

definition has_key :: "string \<Rightarrow> payload \<Rightarrow> bool" where
  "has_key k p \<longleftrightarrow> k \<in> fst ` set p"

definition get_key :: "string \<Rightarrow> payload \<Rightarrow> pyval" where
  "get_key k p = (case map_of p k of Some v \<Rightarrow> v | None \<Rightarrow> PNone)"

text \<open>\<open>set(payload) - allowed\<close> is nonempty.\<close>

definition extra_keys :: "payload \<Rightarrow> string list \<Rightarrow> bool" where
  "extra_keys p allowed \<longleftrightarrow> list_ex (\<lambda>(k, v). k \<notin> set allowed) p"

fun hashable :: "pyval \<Rightarrow> bool" where
  "hashable (PList xs) = False"
| "hashable (PDict d) = False"
| "hashable v = True"

fun is_str :: "pyval \<Rightarrow> bool" where
  "is_str (PStr s) = True" | "is_str v = False"

text \<open>\<open>value in (None, "")\<close> compares with \<open>==\<close>, so it never raises.\<close>

fun is_blank :: "pyval \<Rightarrow> bool" where
  "is_blank PNone = True"
| "is_blank (PStr s) = (s = [])"
| "is_blank v = False"

subsection \<open>str and repr\<close>

definition hex_digit :: "nat \<Rightarrow> char" where
  "hex_digit n = (if n < 10 then char_of (48 + n) else char_of (87 + n))"

text \<open>\<open>str.isprintable\<close> on code points below 256.\<close>

definition py_printable :: "char \<Rightarrow> bool" where
  "py_printable c \<longleftrightarrow> (let n = (of_char c :: nat) in
     (32 \<le> n \<and> n \<le> 126) \<or> (161 \<le> n \<and> n \<noteq> 173))"

definition repr_char :: "char \<Rightarrow> char \<Rightarrow> string" where
  "repr_char q c =
     (let n = (of_char c :: nat) in
      if c = q \<or> n = 92 then [char_of (92 :: nat), c]
      else if n = 10 then [char_of (92 :: nat), CHR ''n'']
      else if n = 13 then [char_of (92 :: nat), CHR ''r'']
      else if n = 9 then [char_of (92 :: nat), CHR ''t'']
      else if py_printable c then [c]
      else [char_of (92 :: nat), CHR ''x'', hex_digit (n div 16), hex_digit (n mod 16)])"

definition py_repr_str :: "string \<Rightarrow> string" where
  "py_repr_str s =
     (let single = char_of (39 :: nat); double = char_of (34 :: nat);
          q = (if single \<in> set s \<and> double \<notin> set s then double else single)
      in [q] @ concat (map (repr_char q) s) @ [q])"

fun py_repr :: "pyval \<Rightarrow> string" where
  "py_repr PNone = ''None''"
| "py_repr (PBool b) = (if b then ''True'' else ''False'')"
| "py_repr (PInt i) = py_str_int i"
| "py_repr (PFloat s) = s"
| "py_repr (PStr s) = py_repr_str s"
| "py_repr (PList xs) = ''['' @ py_join '', '' (map py_repr xs) @ '']''"
| "py_repr (PDict d) =
     ''{'' @ py_join '', '' (map (\<lambda>(k, v). py_repr_str k @ '': '' @ py_repr v) d) @ ''}''"

definition py_str :: "pyval \<Rightarrow> string" where
  "py_str v = (case v of PStr s \<Rightarrow> s | _ \<Rightarrow> py_repr v)"

end
