(* ===== verification/Tables.thy ===== *)
theory Tables
  imports Prelude
begin

text \<open>
  The database tables of the models: a table is the list of its rows in insertion order. The query-set
  operations the services use, and the lemmas on rows with distinct keys that the stores share.
\<close>

subsection \<open>Query sets\<close>

text \<open>\<open>filter().update()\<close> and \<open>filter().count()\<close>.\<close>

definition update_where :: "('r \<Rightarrow> bool) \<Rightarrow> ('r \<Rightarrow> 'r) \<Rightarrow> 'r list \<Rightarrow> 'r list" where
  "update_where P f rows = map (\<lambda>r. if P r then f r else r) rows"

definition count_where :: "('r \<Rightarrow> bool) \<Rightarrow> 'r list \<Rightarrow> int" where
  "count_where P rows = int (length (filter P rows))"

lemma find_append:
  "List.find P (xs @ ys) = (case List.find P xs of None \<Rightarrow> List.find P ys | Some x \<Rightarrow> Some x)"
  by (induction xs) auto

lemma find_filter_None: "List.find P xs = None \<Longrightarrow> List.find P (filter Q xs) = None"
  by (auto simp: find_None_iff)

subsection \<open>Rows with distinct keys\<close>

definition put_row :: "('r \<Rightarrow> 'k) \<Rightarrow> 'r \<Rightarrow> 'r list \<Rightarrow> 'r list" where
  "put_row key r rows = map (\<lambda>x. if key x = key r then r else x) rows"

lemma keys_put_row [simp]: "map key (put_row key r rows) = map key rows"
  by (simp add: put_row_def)

lemma length_put_row [simp]: "length (put_row key r rows) = length rows"
  by (simp add: put_row_def)

lemma set_put_row:
  "x \<in> set rows \<Longrightarrow> key x = key r \<Longrightarrow> set (put_row key r rows) = insert r {y \<in> set rows. key y \<noteq> key r}"
  by (auto simp: put_row_def image_iff)

lemma distinct_key_eq:
  "distinct (map key rows) \<Longrightarrow> x \<in> set rows \<Longrightarrow> y \<in> set rows \<Longrightarrow> key x = key y \<Longrightarrow> x = y"
  by (auto simp: distinct_map dest: inj_onD)

lemma update_where_row:
  assumes "distinct (map key rows)" and "x \<in> set rows" and "key (f x) = key x"
    and "\<And>y. y \<in> set rows \<Longrightarrow> P y \<longleftrightarrow> key y = key x"
  shows "update_where P f rows = put_row key (f x) rows"
  unfolding update_where_def put_row_def
  using assms distinct_key_eq [OF assms(1)] by (auto intro!: map_cong)

lemma count_where_put_row:
  assumes "distinct (map key rows)" and "x \<in> set rows" and "key r = key x"
  shows "count_where P (put_row key r rows) =
    count_where P rows - (if P x then 1 else 0) + (if P r then 1 else 0)"
  using assms
proof (induction rows)
  case (Cons a rows)
  show ?case
  proof (cases "x = a")
    case True
    with Cons.prems have "key y \<noteq> key r" if "y \<in> set rows" for y
      using that by (auto simp: image_iff)
    then have "put_row key r rows = rows"
      by (auto simp: put_row_def intro!: map_idI)
    then show ?thesis using True Cons.prems(3) by (simp add: put_row_def count_where_def)
  next
    case False
    with Cons.prems have x: "x \<in> set rows" and "key a \<noteq> key r" by auto
    then have "put_row key r (a # rows) = a # put_row key r rows" by (simp add: put_row_def)
    then show ?thesis using Cons.IH Cons.prems x by (auto simp: count_where_def split: if_splits)
  qed
qed simp

lemma filter_put_row:
  assumes "\<And>x. x \<in> set rows \<Longrightarrow> key x = key r \<Longrightarrow> \<not> P x" and "\<not> P r"
  shows "filter P (put_row key r rows) = filter P rows"
  using assms by (induction rows) (auto simp: put_row_def)

lemma find_Some: "List.find P xs = Some x \<Longrightarrow> x \<in> set xs \<and> P x"
  by (auto simp: find_Some_iff)

lemma find_key:
  "distinct (map key rows) \<Longrightarrow> x \<in> set rows \<Longrightarrow> List.find (\<lambda>y. key y = key x) rows = Some x"
  by (induction rows) (auto simp: image_iff)

lemma count_where_nonneg [simp]: "0 \<le> count_where P rows"
  by (simp add: count_where_def)

lemma count_where_mono: "(\<And>r. r \<in> set rows \<Longrightarrow> P r \<Longrightarrow> Q r) \<Longrightarrow> count_where P rows \<le> count_where Q rows"
  by (induction rows) (auto simp: count_where_def)

lemma count_where_cong: "(\<And>r. r \<in> set rows \<Longrightarrow> P r = Q r) \<Longrightarrow> count_where P rows = count_where Q rows"
  by (simp add: count_where_def cong: filter_cong)

lemma count_where_append [simp]: "count_where P (xs @ ys) = count_where P xs + count_where P ys"
  by (simp add: count_where_def)

lemma count_where_single [simp]: "count_where P [x] = (if P x then 1 else 0)"
  by (simp add: count_where_def)

lemma count_where_one: "distinct (map key rows) \<Longrightarrow> x \<in> set rows \<Longrightarrow> count_where (\<lambda>y. y = x) rows = 1"
proof (induction rows)
  case (Cons a rows)
  then show ?case by (cases "x \<in> set rows") (auto simp: count_where_def filter_empty_conv)
qed simp

lemma count_where_pos: "x \<in> set rows \<Longrightarrow> P x \<Longrightarrow> 1 \<le> count_where P rows"
  by (induction rows) (auto simp: count_where_def)

lemma count_where_none: "(\<And>r. r \<in> set rows \<Longrightarrow> \<not> P r) \<Longrightarrow> count_where P rows = 0"
  by (simp add: count_where_def filter_empty_conv)

lemma find_update_where:
  "(\<And>r. Q (f r) = Q r) \<Longrightarrow> List.find Q (update_where P f rows)
     = map_option (\<lambda>r. if P r then f r else r) (List.find Q rows)"
  by (induction rows) (auto simp: update_where_def)

end
