(* ===== verification/Py_Uuid.thy ===== *)
theory Py_Uuid
  imports Py_Value Tables
begin

unbundle bit_operations_syntax

text \<open>
  Python's \<open>uuid.UUID\<close>: a UUID is its 128-bit integer, \<open>uuid.hex\<close> its 32 digits and \<open>str(uuid)\<close> the
  hyphenated text.
\<close>

type_synonym uuid = nat

text \<open>\<open>str(uuid)\<close>: 32 hex digits with hyphens after the 8th, 12th, 16th and 20th.\<close>

definition uuid_hex :: "uuid \<Rightarrow> string" where
  "uuid_hex u = map (\<lambda>k. hex_digit (drop_bit (4 * k) u AND 15)) (rev [0..<32])"

definition uuid_str :: "uuid \<Rightarrow> string" where
  "uuid_str u = (let h = uuid_hex u in
     take 8 h @ ''-'' @ take 4 (drop 8 h) @ ''-'' @ take 4 (drop 12 h) @ ''-''
     @ take 4 (drop 16 h) @ ''-'' @ drop 20 h)"

end
