(* ===== verification/Py_Time.thy ===== *)
theory Py_Time
  imports Prelude
begin

text \<open>
  Aware UTC datetimes as microseconds since 1970-01-01T00:00:00Z, the proleptic Gregorian
  calendar behind \<open>datetime\<close>, and the texts \<open>str(dt)\<close> and \<open>dt.isoformat()\<close>.
\<close>

type_synonym datetime = int

definition seconds :: "int \<Rightarrow> int" where
  "seconds s = s * 1000000"

definition days :: "int \<Rightarrow> int" where
  "days d = seconds (d * 86400)"

text \<open>Year, month and day of a day number (days since 1970-01-01), in 400-year eras.\<close>

definition civil_from_days :: "int \<Rightarrow> int \<times> int \<times> int" where
  "civil_from_days day =
     (let z = day + 719468;
          era = z div 146097;
          doe = z - era * 146097;
          yoe = (doe - doe div 1460 + doe div 36524 - doe div 146096) div 365;
          doy = doe - (365 * yoe + yoe div 4 - yoe div 100);
          mp = (5 * doy + 2) div 153;
          d = doy - (153 * mp + 2) div 5 + 1;
          m = (if mp < 10 then mp + 3 else mp - 9)
      in (yoe + era * 400 + (if m \<le> 2 then 1 else 0), m, d))"

definition pad_int :: "nat \<Rightarrow> int \<Rightarrow> string" where
  "pad_int width i = (let s = py_str_int i in replicate (width - length s) CHR ''0'' @ s)"

definition iso_with :: "string \<Rightarrow> datetime \<Rightarrow> string" where
  "iso_with sep t =
     (let day = t div days 1;
          us = t mod days 1;
          s = us div 1000000;
          micro = us mod 1000000
      in case civil_from_days day of (y, m, d) \<Rightarrow>
           pad_int 4 y @ ''-'' @ pad_int 2 m @ ''-'' @ pad_int 2 d @ sep
           @ pad_int 2 (s div 3600) @ '':'' @ pad_int 2 (s div 60 mod 60) @ '':'' @ pad_int 2 (s mod 60)
           @ (if micro = 0 then [] else ''.'' @ pad_int 6 micro) @ ''+00:00'')"

definition py_isoformat :: "datetime \<Rightarrow> string" where
  "py_isoformat t = iso_with ''T'' t"

definition py_str_datetime :: "datetime \<Rightarrow> string" where
  "py_str_datetime t = iso_with '' '' t"

text \<open>\<open>dt.isoformat().replace("+00:00", "Z")\<close>.\<close>

definition iso_z :: "datetime \<Rightarrow> string" where
  "iso_z t = (let s = py_isoformat t in take (length s - 6) s @ ''Z'')"

end
