(* ===== verification/Job_Queue.thy ===== *)
theory Job_Queue
  imports Py_Uuid Py_Time
begin

text \<open>
  The durable job queue of \<open>community_base\<close>: the columns of its table the services read or write, and
  the contract of \<open>dispatch_after_commit\<close>, which is a parameter of the models that enqueue work.
\<close>

text \<open>
  The columns of \<open>community_base\<close>'s \<open>JobIntent\<close> that the services read or write; of its statuses they
  name two, the others are kept by their text.
\<close>

datatype job_status = Pending | Dead | Other_status string

record job =
  job_id :: uuid
  handler :: string
  dedup_key :: string
  job_payload :: payload
  job_status :: job_status
  attempts :: nat
  available_at :: datetime
  lease_token :: "string option"
  lease_expires_at :: "datetime option"
  last_error :: string

text \<open>\<open>Inl\<close> is the \<open>DispatchConflict\<close> of a key that already stands for another job.\<close>

type_synonym 'e dispatcher =
  "string \<Rightarrow> string \<Rightarrow> payload \<Rightarrow> job list \<Rightarrow> ('e, (job \<times> bool) \<times> job list) res"

subsection \<open>What the dispatcher promises\<close>

text \<open>
  The documented contract of the durable job queue: one intent per deduplication key. The call that
  finds it with its own handler and payload gets it as it is, one that wants another job under the key
  is refused; without one, a pending intent with a new identifier is created.
\<close>

definition dispatch_law :: "'e dispatcher \<Rightarrow> bool" where
  "dispatch_law dispatch \<longleftrightarrow> (\<forall>h k p js.
     case List.find (\<lambda>j. dedup_key j = k) js of
       Some j \<Rightarrow> if handler j = h \<and> job_payload j = p then dispatch h k p js = Inr ((j, False), js)
                 else (\<exists>e. dispatch h k p js = Inl e)
     | None \<Rightarrow> (\<exists>j. dispatch h k p js = Inr ((j, True), js @ [j]) \<and> handler j = h \<and> dedup_key j = k
                 \<and> job_payload j = p \<and> job_status j = Pending \<and> job_id j \<notin> job_id ` set js))"

lemma dispatch_lawD:
  assumes "dispatch_law dispatch" and "dispatch h k p js = Inr ((j, new), js')"
  shows "handler j = h" "dedup_key j = k" "j \<in> set js'" "job_payload j = p"
    and "List.find (\<lambda>j. dedup_key j = k) js' = Some j"
    and "js' = (if new then js @ [j] else js)"
    and "distinct (map job_id js) \<Longrightarrow> distinct (map job_id js')"
proof -
  note law = assms(1) [unfolded dispatch_law_def, rule_format, of h k p js]
  have "handler j = h \<and> dedup_key j = k \<and> j \<in> set js' \<and> job_payload j = p
    \<and> List.find (\<lambda>j. dedup_key j = k) js' = Some j \<and> js' = (if new then js @ [j] else js)
    \<and> (distinct (map job_id js) \<longrightarrow> distinct (map job_id js'))"
  proof (cases "List.find (\<lambda>j. dedup_key j = k) js")
    case None
    with law assms(2) have "js' = js @ [j]" "new" "handler j = h" "dedup_key j = k" "job_id j \<notin> job_id ` set js"
      "job_payload j = p"
      by auto
    with None show ?thesis by (simp add: find_append)
  next
    case (Some i)
    with law assms(2) have "i = j" "new = False" "js' = js" "handler i = h" "job_payload i = p"
      by (auto split: if_splits)
    with Some find_Some [OF Some] show ?thesis by simp
  qed
  then show "handler j = h" "dedup_key j = k" "j \<in> set js'" "job_payload j = p"
    and "List.find (\<lambda>j. dedup_key j = k) js' = Some j"
    and "js' = (if new then js @ [j] else js)"
    and "distinct (map job_id js) \<Longrightarrow> distinct (map job_id js')"
    by blast+
qed

lemma dispatch_twice:
  assumes "dispatch_law dispatch" and "dispatch h k p js = Inr ((j, new), js')"
  shows "dispatch h k p js' = Inr ((j, False), js')"
  using assms(1) [unfolded dispatch_law_def, rule_format, of h k p js'] dispatch_lawD(1,4,5) [OF assms] by simp

text \<open>The table that does just this keeps the contract.\<close>

definition table_dispatch :: "'e \<Rightarrow> 'e dispatcher" where
  "table_dispatch conflict h k p js = (case List.find (\<lambda>j. dedup_key j = k) js of
     Some j \<Rightarrow> if handler j = h \<and> job_payload j = p then Inr ((j, False), js) else Inl conflict
   | None \<Rightarrow> let j = \<lparr>job_id = Suc (fold max (map job_id js) 0), handler = h, dedup_key = k, job_payload = p,
               job_status = Pending, attempts = 0, available_at = 0, lease_token = None,
               lease_expires_at = None, last_error = []\<rparr> in Inr ((j, True), js @ [j]))"

lemma table_dispatch_law: "dispatch_law (table_dispatch conflict)"
proof -
  have fresh: "Suc (fold max (map job_id js) 0) \<notin> job_id ` set js" for js
  proof
    have "x \<in> set xs \<Longrightarrow> x \<le> fold max xs a" and "a \<le> fold max xs a" for x a :: nat and xs
      by (induction xs arbitrary: a) (auto intro: le_trans [OF max.cobounded1] le_trans [OF max.cobounded2])
    moreover assume "Suc (fold max (map job_id js) 0) \<in> job_id ` set js"
    ultimately have "Suc (fold max (map job_id js) 0) \<le> fold max (map job_id js) 0" by force
    then show False by simp
  qed
  then show ?thesis
    by (auto simp: dispatch_law_def table_dispatch_def Let_def split: option.splits)
qed

end
