(* ===== verification/Qna_Data.thy ===== *)
theory Qna_Data
  imports Job_Queue
begin

text \<open>
  The rows of the Event Q&A store (\<open>event_qna/models.py\<close>), the errors (\<open>errors.py\<close>,
  \<open>services.py\<close>, \<open>core.models.RevisionConflict\<close>), and the few query-set operations the services
  use on a table: \<open>filter().first()\<close>/\<open>get()\<close>, \<open>filter().update()\<close>, \<open>create()\<close> and \<open>delete()\<close>.
  A table is the list of its rows in insertion order. An operation that raises inside
  \<open>transaction.atomic\<close> returns \<open>Inl\<close>, so the caller's store is the one before the call.
\<close>

subsection \<open>Choices\<close>

datatype lifecycle = Draft | Open | Closed | Archived
datatype placement = Separate | Bottom | Inline
datatype sorting = Popular | Recent
datatype qstatus = Visible | Answered | Deleted

fun lifecycle_value :: "lifecycle \<Rightarrow> string" where
  "lifecycle_value Draft = ''draft''" | "lifecycle_value Open = ''open''"
| "lifecycle_value Closed = ''closed''" | "lifecycle_value Archived = ''archived''"

fun placement_value :: "placement \<Rightarrow> string" where
  "placement_value Separate = ''separate''" | "placement_value Bottom = ''bottom''"
| "placement_value Inline = ''inline''"

fun sorting_value :: "sorting \<Rightarrow> string" where
  "sorting_value Popular = ''popular''" | "sorting_value Recent = ''recent''"

fun qstatus_value :: "qstatus \<Rightarrow> string" where
  "qstatus_value Visible = ''visible''" | "qstatus_value Answered = ''answered''"
| "qstatus_value Deleted = ''deleted''"

definition lifecycle_of :: "string \<Rightarrow> lifecycle option" where
  "lifecycle_of s = List.find (\<lambda>c. lifecycle_value c = s) [Draft, Open, Closed, Archived]"

definition placement_of :: "string \<Rightarrow> placement option" where
  "placement_of s = List.find (\<lambda>c. placement_value c = s) [Separate, Bottom, Inline]"

definition sorting_of :: "string \<Rightarrow> sorting option" where
  "sorting_of s = List.find (\<lambda>c. sorting_value c = s) [Popular, Recent]"

definition qstatus_of :: "string \<Rightarrow> qstatus option" where
  "qstatus_of s = List.find (\<lambda>c. qstatus_value c = s) [Visible, Answered, Deleted]"

lemma choice_of_value [simp]:
  "lifecycle_of (lifecycle_value c) = Some c" "placement_of (placement_value p) = Some p"
  "sorting_of (sorting_value s) = Some s" "qstatus_of (qstatus_value q) = Some q"
  by (cases c, simp_all add: lifecycle_of_def) (cases p, simp_all add: placement_of_def,
    (cases s, simp_all add: sorting_of_def), (cases q, simp_all add: qstatus_of_def))

subsection \<open>Errors\<close>

datatype qna_err =
    QnaError int string string
  | RevisionConflict int int
  | EventQnaError string
  | EventQnaNotFound string
  | ValueError string
  | TypeError
  | IntegrityError
  | TransactionManagementError
  | DoesNotExist

definition QnaNotFound :: qna_err where
  "QnaNotFound = QnaError 404 ''not_found'' ''The Q&A resource was not found.''"

definition QnaArchived :: qna_err where
  "QnaArchived = QnaError 410 ''archived'' ''This Q&A session has been archived.''"

subsection \<open>Rows\<close>

record event =
  ev_pk :: int
  content_id :: uuid
  ev_status :: string
  public_id :: "int option"
  slug :: string

record session =
  session_id :: uuid
  session_event :: int
  state :: lifecycle
  listed :: bool
  allow_names :: bool
  require_names :: bool
  answered_placement :: placement
  default_sorting :: sorting
  expires_at :: "datetime option"
  retention_days :: "int option"
  state_changed_at :: datetime
  archive_delete_at :: "datetime option"
  q_total :: int
  q_answered :: int
  backend_key :: string
  backend_reference :: string
  revision :: int
  provisioning_job :: "uuid option"
  updated_at :: datetime

record question =
  question_id :: string
  q_session :: uuid
  q_text :: string
  author_name :: string
  participant_digest :: string
  status :: qstatus
  score :: int
  pinned :: bool
  created_at :: datetime
  answered_at :: "datetime option"

record vote =
  v_question :: string
  v_digest :: string

record invite =
  invite_id :: string
  i_session :: uuid
  i_name :: string
  i_passcode :: string
  created_by_ref :: string
  i_created_at :: datetime
  revoked_at :: "datetime option"

record rate_bucket =
  rate_id :: nat
  scope_digest :: string
  window_seconds :: int
  window_started_at :: datetime
  hits :: int

record audit_event =
  action :: string
  target_type :: string
  target_id :: uuid
  target_label :: string
  outcome :: string
  actor_ref :: string
  metadata :: payload

record db =
  events :: "event list"
  sessions :: "session list"
  questions :: "question list"
  votes :: "vote list"
  invites :: "invite list"
  rates :: "rate_bucket list"
  jobs :: "job list"
  audits :: "audit_event list"

subsection \<open>Query sets\<close>

definition get_session :: "uuid \<Rightarrow> db \<Rightarrow> session option" where
  "get_session sid db = List.find (\<lambda>s. session_id s = sid) (sessions db)"

definition get_question :: "string \<Rightarrow> uuid \<Rightarrow> db \<Rightarrow> question option" where
  "get_question qid sid db =
     List.find (\<lambda>q. question_id q = qid \<and> q_session q = sid) (questions db)"

text \<open>\<open>question.save(update_fields=...)\<close>: the named columns of the row with that primary key.\<close>

definition save_question :: "(question \<Rightarrow> question) \<Rightarrow> string \<Rightarrow> db \<Rightarrow> db" where
  "save_question f qid db =
     db\<lparr>questions := update_where (\<lambda>q. question_id q = qid) f (questions db)\<rparr>"

end
