(* ===== verification/Qna_Ids.thy ===== *)
theory Qna_Ids
  imports Qna_Data "HOL-Library.List_Lexorder" "HOL-Library.Char_ord"
begin

unbundle bit_operations_syntax

text \<open>
  Identifiers of the Event Q&A store: the ULID-like row ids and the name and passcode
  normalisation of \<open>ids.py\<close>, and \<open>_coerce_event_id\<close> of \<open>services.py\<close>, which brings every event
  handle to the identity UUID. A UUID is its 128-bit integer.
\<close>

subsection \<open>ids.py\<close>

definition crockford :: string where
  "crockford = ''0123456789ABCDEFGHJKMNPQRSTVWXYZ''"

text \<open>\<open>millis\<close> is \<open>int(time.time() * 1_000)\<close>, \<open>random_bits\<close> is \<open>secrets.randbits(80)\<close>.\<close>

definition opaque_id :: "nat \<Rightarrow> nat \<Rightarrow> string" where
  "opaque_id millis random_bits =
     (let timestamp = millis AND (2 ^ 48 - 1);
          val = push_bit 80 timestamp OR random_bits
      in map (\<lambda>shift. if shift < 128 then crockford ! (drop_bit shift val AND 31) else CHR ''0'')
           (map (\<lambda>k. 125 - 5 * k) [0..<26]))"

definition normalize_cohost_name :: "pyval \<Rightarrow> string" where
  "normalize_cohost_name v = (case v of PStr s \<Rightarrow> py_lower (py_strip s) | _ \<Rightarrow> [])"

text \<open>\<open>str.upper\<close>; of the Latin-1 letters, the sharp s becomes two letters.\<close>

definition py_upper :: "string \<Rightarrow> string" where
  "py_upper s = concat (map (\<lambda>c. let n = (of_char c :: nat) in
     if n = 223 then ''SS''
     else if (97 \<le> n \<and> n \<le> 122) \<or> (224 \<le> n \<and> n \<le> 254 \<and> n \<noteq> 247) then [char_of (n - 32)]
     else [c]) s)"

text \<open>\<open>"".join(s.split())\<close> drops every whitespace character.\<close>

definition normalize_passcode :: "pyval \<Rightarrow> string" where
  "normalize_passcode v = (case v of
     PStr s \<Rightarrow> filter (\<lambda>c. c \<noteq> CHR ''-'') (filter (\<lambda>c. \<not> py_space c) (py_upper (py_strip s)))
   | _ \<Rightarrow> [])"

subsection \<open>Event handles\<close>

datatype event_handle = HBool bool | HInt int | HUuid uuid | HStr string | HOther

text \<open>\<open>uuid.variant == uuid.RFC_4122\<close>: bit 63 set and bit 62 clear.\<close>

definition rfc4122 :: "uuid \<Rightarrow> bool" where
  "rfc4122 u \<longleftrightarrow> bit u 63 \<and> \<not> bit u 62"

definition hex_value :: "char \<Rightarrow> nat option" where
  "hex_value c = (let n = (of_char c :: nat) in
     if 48 \<le> n \<and> n \<le> 57 then Some (n - 48)
     else if 97 \<le> n \<and> n \<le> 102 then Some (n - 87)
     else if 65 \<le> n \<and> n \<le> 70 then Some (n - 55) else None)"

text \<open>
  \<open>uuid.UUID(s)\<close> followed by the test \<open>str(parsed) == s\<close>. Of the spellings \<open>UUID\<close> accepts, the
  test only leaves the one \<open>str\<close> writes, so it is enough to read its hex digits.
\<close>

definition canonical_uuid :: "string \<Rightarrow> uuid option" where
  "canonical_uuid s =
     (let digits = map hex_value (filter (\<lambda>c. c \<noteq> CHR ''-'') s)
      in if length digits = 32 \<and> list_all (\<lambda>d. d \<noteq> None) digits
         then let u = foldl (\<lambda>acc d. 16 * acc + the d) 0 digits
              in if uuid_str u = s then Some u else None
         else None)"

definition coerce_event_id :: "event_handle \<Rightarrow> db \<Rightarrow> (qna_err, uuid) res" where
  "coerce_event_id event_id db = (case event_id of
     HInt pk \<Rightarrow>
       if pk < 1 then Inl (EventQnaError ''event_id_invalid'')
       else (case List.find (\<lambda>e. ev_pk e = pk) (events db) of
               Some e \<Rightarrow> Inr (content_id e)
             | None \<Rightarrow> Inl (EventQnaNotFound ''event_not_found''))
   | HUuid u \<Rightarrow> if rfc4122 u then Inr u else Inl (EventQnaError ''event_id_invalid'')
   | HStr s \<Rightarrow> (case canonical_uuid s of
       Some u \<Rightarrow> if rfc4122 u then Inr u else Inl (EventQnaError ''event_id_invalid'')
     | None \<Rightarrow> Inl (EventQnaError ''event_id_invalid''))
   | _ \<Rightarrow> Inl (EventQnaError ''event_id_invalid''))"

text \<open>\<open>_event_row\<close> and \<open>_qna_session\<close>: the shared row of a handle and its session.\<close>

definition event_row :: "event_handle \<Rightarrow> db \<Rightarrow> (qna_err, event) res" where
  "event_row event_id db = bind_res (coerce_event_id event_id db) (\<lambda>u.
     case List.find (\<lambda>e. content_id e = u) (events db) of
       Some e \<Rightarrow> Inr e | None \<Rightarrow> Inl QnaNotFound)"

definition qna_session :: "event_handle \<Rightarrow> db \<Rightarrow> (qna_err, event \<times> session) res" where
  "qna_session event_id db = bind_res (event_row event_id db) (\<lambda>e.
     case List.find (\<lambda>s. session_event s = ev_pk e) (sessions db) of
       Some s \<Rightarrow> Inr (e, s) | None \<Rightarrow> Inl QnaNotFound)"

subsection \<open>The order of the ids\<close>

definition base32 :: "nat \<Rightarrow> nat \<Rightarrow> string" where
  "base32 n v = map (\<lambda>k. crockford ! (v div 32 ^ k mod 32)) (rev [0..<n])"

lemma base32_Suc: "base32 (Suc n) v = base32 n (v div 32) @ [crockford ! (v mod 32)]"
proof -
  have "rev [0..<Suc n] = map Suc (rev [0..<n]) @ [0]"
    by (simp add: rev_map [symmetric] map_Suc_upt upt_conv_Cons)
  then show ?thesis by (simp add: base32_def div_mult2_eq)
qed

lemma length_base32 [simp]: "length (base32 n v) = n"
  by (simp add: base32_def)

lemma crockford_sorted: "i < j \<Longrightarrow> j < 32 \<Longrightarrow> crockford ! i < crockford ! j"
proof -
  have "sorted_wrt (<) crockford" by (simp add: crockford_def less_char_def)
  moreover assume "i < j" "j < 32"
  moreover have "length crockford = 32" by (simp add: crockford_def)
  ultimately show ?thesis by (simp add: sorted_wrt_nth_less)
qed

lemma append_less_same_length:
  fixes us :: "'a :: order list"
  shows "length us = length ws \<Longrightarrow> us < ws \<Longrightarrow> us @ xs < ws @ ys"
  by (induction us ws rule: list_induct2) (auto simp: Cons_less_Cons)

lemma append_less_same_prefix:
  fixes us :: "'a :: order list"
  shows "xs < ys \<Longrightarrow> us @ xs < us @ ys"
  by (induction us) auto

lemma base32_less: "v < w \<Longrightarrow> w < 32 ^ n \<Longrightarrow> base32 n v < base32 n w"
proof (induction n arbitrary: v w)
  case (Suc n)
  show ?case
  proof (cases "v div 32 < w div 32")
    case True
    have "w div 32 < 32 ^ n" using Suc.prems(2) by (simp add: less_mult_imp_div_less mult.commute)
    with True Suc.IH show ?thesis
      unfolding base32_Suc by (intro append_less_same_length) auto
  next
    case False
    then have eq: "v div 32 = w div 32" using Suc.prems(1) div_le_mono [of v w 32] by linarith
    then have "v mod 32 < w mod 32"
      using Suc.prems(1) div_mult_mod_eq [of v 32] div_mult_mod_eq [of w 32] by linarith
    then have "crockford ! (v mod 32) < crockford ! (w mod 32)"
      by (intro crockford_sorted) simp_all
    then show ?thesis unfolding base32_Suc eq by (intro append_less_same_prefix) simp
  qed
qed simp

lemma nat_and_mask: "(x :: nat) AND 31 = x mod 32" "x AND 15 = x mod 16"
  using take_bit_eq_mask [of 5 x] take_bit_eq_mask [of 4 x]
  by (simp_all add: take_bit_eq_mod mask_eq_exp_minus_1)

lemma opaque_id_base32:
  assumes "random_bits < 2 ^ 80"
  shows "opaque_id millis random_bits = base32 26 (millis mod 2 ^ 48 * 2 ^ 80 + random_bits)"
proof -
  have ts: "millis AND (2 ^ 48 - 1) = millis mod 2 ^ 48"
    by (simp only: mask_eq_exp_minus_1 [symmetric] take_bit_eq_mask [symmetric] take_bit_eq_mod)
  define t where "t = millis mod 2 ^ 48"
  have "push_bit 80 t OR random_bits = push_bit 80 t + random_bits"
  proof (rule disjunctive_add [symmetric])
    fix n
    show "\<not> bit (push_bit 80 t) n \<or> \<not> bit random_bits n"
    proof (cases "n < 80")
      case False
      then have "random_bits < 2 ^ n" using assms by (meson le_less_trans less_le_trans
        linorder_not_less power_increasing one_le_numeral order_less_imp_le)
      then show ?thesis by (simp add: bit_iff_odd)
    qed (simp add: bit_simps)
  qed
  then have val: "push_bit 80 t OR random_bits = t * 2 ^ 80 + random_bits"
    by (simp add: push_bit_eq_mult)
  have digit: "drop_bit (5 * k) v AND 31 = v div 32 ^ k mod 32" for k and v :: nat
    by (simp add: drop_bit_eq_div power_mult nat_and_mask)
  have "map (\<lambda>k. 125 - 5 * k) [0..<26] = map (\<lambda>k. 5 * k) (rev [0..<26])"
    by (simp add: upt_rec)
  then show ?thesis
    unfolding opaque_id_def Let_def ts t_def [symmetric] val base32_def
    by (simp add: digit del: upt.simps)
qed

lemma opaque_id_less:
  assumes "a < b" "b < 2 ^ 48" "r < 2 ^ 80" "r' < 2 ^ 80"
  shows "opaque_id a r < opaque_id b r'"
proof -
  have "a * 2 ^ 80 + r < (a + 1) * 2 ^ 80" using assms(3) by simp
  also have "\<dots> \<le> b * 2 ^ 80" using assms(1) by (intro mult_le_mono1) simp
  also have "\<dots> \<le> b * 2 ^ 80 + r'" by simp
  finally have less: "a * 2 ^ 80 + r < b * 2 ^ 80 + r'" .
  have "b * 2 ^ 80 + r' < (b + 1) * 2 ^ 80" using assms(4) by simp
  also have "\<dots> \<le> 2 ^ 48 * 2 ^ 80" using assms(2) by (intro mult_le_mono1) simp
  also have "\<dots> \<le> 32 ^ 26" by simp
  finally have "b * 2 ^ 80 + r' < 32 ^ 26" .
  with less have "base32 26 (a * 2 ^ 80 + r) < base32 26 (b * 2 ^ 80 + r')" by (rule base32_less)
  then show ?thesis using assms by (simp add: opaque_id_base32)
qed

lemma take_base32: "take n (base32 (n + m) v) = base32 n (v div 32 ^ m)"
proof (induction m arbitrary: v)
  case (Suc m)
  have "take n (base32 (n + Suc m) v) = take n (base32 (n + m) (v div 32))"
    by (simp add: base32_Suc)
  then show ?case by (simp add: Suc div_mult2_eq)
qed simp

text \<open>The first four characters are the top 18 of the 48 timestamp bits.\<close>

lemma opaque_id_prefix:
  assumes "r < 2 ^ 80"
  shows "take 4 (opaque_id a r) = base32 4 (a mod 2 ^ 48 div 2 ^ 30)"
proof -
  define t where "t = a mod 2 ^ 48"
  have "(t * 2 ^ 80 + r) div 32 ^ 22 = (t * 2 ^ 80 + r) div 2 ^ 80 div 2 ^ 30"
    by (simp flip: div_mult2_eq)
  also have "(t * 2 ^ 80 + r) div 2 ^ 80 = t" using assms by simp
  finally show ?thesis
    using take_base32 [of 4 22 "t * 2 ^ 80 + r"] assms by (simp add: opaque_id_base32 t_def)
qed

lemma length_opaque_id [simp]: "length (opaque_id a r) = 26"
  by (simp add: opaque_id_def Let_def)

subsection \<open>Handles of one event\<close>

lemma canonical_uuid_str: "canonical_uuid s = Some u \<Longrightarrow> uuid_str u = s"
  by (auto simp: canonical_uuid_def Let_def split: if_splits)

lemma hex_value_digit: "n < 16 \<Longrightarrow> hex_value (hex_digit n) = Some n"
  by (auto simp: hex_value_def hex_digit_def Let_def)

lemma hex_digit_hyphen: "n < 16 \<Longrightarrow> hex_digit n \<noteq> CHR ''-''"
  using hex_value_digit [of n] by (auto simp: hex_value_def)

lemma length_uuid_hex: "length (uuid_hex u) = 32"
  by (simp add: uuid_hex_def)

lemma filter_uuid_str: "filter (\<lambda>c. c \<noteq> CHR ''-'') (uuid_str u) = uuid_hex u"
proof -
  have "list_all (\<lambda>c. c \<noteq> CHR ''-'') (uuid_hex u)"
    by (auto simp: uuid_hex_def list_all_iff nat_and_mask intro!: hex_digit_hyphen)
  then have keep: "filter (\<lambda>c. c \<noteq> CHR ''-'') (take n (drop m (uuid_hex u))) = take n (drop m (uuid_hex u))"
    for n m by (auto simp: list_all_iff filter_id_conv dest: in_set_takeD in_set_dropD)
  have rest: "take n xs @ take k (drop n xs) = take (n + k) xs" for n k and xs :: string
    by (simp add: take_add)
  show ?thesis
    using keep [of 8 0] keep [of 4 8] keep [of 4 12] keep [of 4 16] keep [of 12 20]
      rest [of 8 "uuid_hex u" 4] rest [of 12 "uuid_hex u" 4] rest [of 16 "uuid_hex u" 4]
    by (simp add: uuid_str_def Let_def length_uuid_hex flip: append_assoc)
qed

lemma foldl_hex:
  "foldl (\<lambda>acc d. 16 * acc + d) 0 (map (\<lambda>k. u div 16 ^ k mod 16) (rev [0..<n])) = (u mod 16 ^ n :: nat)"
proof (induction n arbitrary: u)
  case (Suc n)
  have "rev [0..<Suc n] = map Suc (rev [0..<n]) @ [0]"
    by (simp add: rev_map [symmetric] map_Suc_upt upt_conv_Cons)
  then have "foldl (\<lambda>acc d. 16 * acc + d) 0 (map (\<lambda>k. u div 16 ^ k mod 16) (rev [0..<Suc n]))
      = 16 * (u div 16 mod 16 ^ n) + u mod 16"
    using Suc [of "u div 16"] by (simp add: comp_def div_mult2_eq)
  then show ?case using mod_mult2_eq [of u 16 "16 ^ n"] by simp
qed simp

lemma canonical_uuid_of_str:
  assumes "u < 2 ^ 128"
  shows "canonical_uuid (uuid_str u) = Some u"
proof -
  have hex: "uuid_hex u = map (\<lambda>k. hex_digit (u div 16 ^ k mod 16)) (rev [0..<32])"
    by (simp add: uuid_hex_def drop_bit_eq_div power_mult nat_and_mask del: upt.simps)
  have digits: "map hex_value (uuid_hex u) = map Some (map (\<lambda>k. u div 16 ^ k mod 16) (rev [0..<32]))"
    by (simp add: hex hex_value_digit comp_def del: upt.simps)
  have the: "foldl (\<lambda>acc d. 16 * acc + the d) 0 (map Some ds) = foldl (\<lambda>acc d. 16 * acc + d) 0 ds"
    for ds :: "nat list"
    by (simp add: foldl_map)
  have "foldl (\<lambda>acc d. 16 * acc + the d) 0 (map hex_value (uuid_hex u)) = u"
    unfolding digits the foldl_hex using assms by simp
  moreover have "list_all (\<lambda>d. d \<noteq> None) (map hex_value (uuid_hex u))"
    by (auto simp: digits list_all_iff)
  ultimately show ?thesis
    by (simp add: canonical_uuid_def filter_uuid_str Let_def length_uuid_hex)
qed

lemma canonical_uuid_iff:
  "u < 2 ^ 128 \<Longrightarrow> canonical_uuid s = Some u \<longleftrightarrow> uuid_str u = s"
  using canonical_uuid_str canonical_uuid_of_str by blast

end
