(* ===== verification/Qna_Session.thy ===== *)
theory Qna_Session
  imports Qna_Ids "HOL-Library.AList"
begin

text \<open>
  The session side of \<open>event_qna/services.py\<close>: the optimistic write \<open>_bump_session\<close>, the
  lifecycle, the settings and \<open>update_session\<close>. The in-memory model instance (\<open>session\<close>, an
  argument) and the stored row (in \<open>db\<close>) are kept apart, as the code does: a write goes through
  only when the stored revision is the one the instance was read with. \<open>now\<close> is the reading of
  the clock, taken as one instant per call.
\<close>

subsection \<open>Audit rows\<close>

definition audit :: "string \<Rightarrow> session \<Rightarrow> string \<Rightarrow> payload \<Rightarrow> db \<Rightarrow> db" where
  "audit act s ctx meta db = db\<lparr>audits := audits db @
     [\<lparr>action = act, target_type = ''events.qna_session'', target_id = session_id s,
       target_label = ''event-qna'', outcome = ''succeeded'', actor_ref = ctx, metadata = meta\<rparr>]\<rparr>"

text \<open>\<open>if audit_context is not None: _audit(...)\<close>.\<close>

definition audit_if :: "string option \<Rightarrow> string \<Rightarrow> session \<Rightarrow> payload \<Rightarrow> db \<Rightarrow> db" where
  "audit_if context act s meta db = (case context of None \<Rightarrow> db | Some ctx \<Rightarrow> audit act s ctx meta db)"

subsection \<open>The optimistic write\<close>

text \<open>The check constraints of \<open>EventQnaSession.Meta\<close> and the nonnegative columns.\<close>

definition session_check :: "session \<Rightarrow> bool" where
  "session_check s \<longleftrightarrow> 1 \<le> revision s \<and> backend_key s \<noteq> [] \<and> 0 \<le> q_answered s
     \<and> q_answered s \<le> q_total s \<and> (case retention_days s of None \<Rightarrow> True | Some d \<Rightarrow> 1 \<le> d)"

text \<open>\<open>values[field] = getattr(session, field)\<close> for one field name.\<close>

definition setters :: "session \<Rightarrow> (string \<times> (session \<Rightarrow> session)) list" where
  "setters s =
     [(''state'', \<lambda>row. row\<lparr>state := state s\<rparr>),
      (''state_changed_at'', \<lambda>row. row\<lparr>state_changed_at := state_changed_at s\<rparr>),
      (''archive_delete_at'', \<lambda>row. row\<lparr>archive_delete_at := archive_delete_at s\<rparr>),
      (''listed'', \<lambda>row. row\<lparr>listed := listed s\<rparr>),
      (''allow_names'', \<lambda>row. row\<lparr>allow_names := allow_names s\<rparr>),
      (''require_names'', \<lambda>row. row\<lparr>require_names := require_names s\<rparr>),
      (''answered_placement'', \<lambda>row. row\<lparr>answered_placement := answered_placement s\<rparr>),
      (''default_sort'', \<lambda>row. row\<lparr>default_sorting := default_sorting s\<rparr>),
      (''expires_at'', \<lambda>row. row\<lparr>expires_at := expires_at s\<rparr>),
      (''retention_days'', \<lambda>row. row\<lparr>retention_days := retention_days s\<rparr>),
      (''q_total'', \<lambda>row. row\<lparr>q_total := q_total s\<rparr>),
      (''q_answered'', \<lambda>row. row\<lparr>q_answered := q_answered s\<rparr>)]"

definition copy_field :: "session \<Rightarrow> string \<Rightarrow> session \<Rightarrow> session" where
  "copy_field s field row = (case map_of (setters s) field of None \<Rightarrow> row | Some set_column \<Rightarrow> set_column row)"

definition bump_session :: "datetime \<Rightarrow> string list \<Rightarrow> session \<Rightarrow> db \<Rightarrow> (qna_err, session \<times> db) res" where
  "bump_session now names s db =
     (let previous_revision = revision s;
          s = s\<lparr>revision := previous_revision + 1, updated_at := now\<rparr>;
          matches = (\<lambda>r. session_id r = session_id s \<and> revision r = previous_revision);
          write = (\<lambda>r. (fold (copy_field s) names r)\<lparr>revision := revision s, updated_at := updated_at s\<rparr>)
      in if \<not> list_all (\<lambda>r. matches r \<longrightarrow> session_check (write r)) (sessions db) then Inl IntegrityError
         else if count_where matches (sessions db) \<noteq> 1
         then Inl (RevisionConflict previous_revision (revision s))
         else Inr (s, db\<lparr>sessions := update_where matches write (sessions db)\<rparr>))"

subsection \<open>Lifecycle\<close>

fun transitions :: "lifecycle \<Rightarrow> lifecycle list" where
  "transitions Draft = [Open, Archived]"
| "transitions Open = [Closed, Archived]"
| "transitions Closed = [Open, Archived]"
| "transitions Archived = [Open, Closed]"

definition archive_delete_days :: int where
  "archive_delete_days = 7"

definition invalid_transition :: "lifecycle \<Rightarrow> pyval \<Rightarrow> qna_err" where
  "invalid_transition current target = QnaError 400 ''invalid_transition''
     (''Cannot move a Q&A session from '' @ lifecycle_value current @ '' to '' @ py_str target @ ''.'')"

text \<open>\<open>target\<close> may come straight from a request, so it is a Python value.\<close>

definition target_of :: "pyval \<Rightarrow> lifecycle option" where
  "target_of target = (case target of PStr t \<Rightarrow> lifecycle_of t | _ \<Rightarrow> None)"

definition transition_locked :: "datetime \<Rightarrow> pyval \<Rightarrow> session \<Rightarrow> db \<Rightarrow> (qna_err, session \<times> db) res" where
  "transition_locked now target s db =
     (let current = state s
      in if target = PStr (lifecycle_value current) then Inr (s, db)
         else if \<not> hashable target then Inl TypeError
         else case target_of target of
             None \<Rightarrow> Inl (invalid_transition current target)
           | Some t \<Rightarrow>
               if t \<notin> set (transitions current) then Inl (invalid_transition current target)
               else bump_session now [''state'', ''state_changed_at'', ''archive_delete_at'']
                      (s\<lparr>state := t, state_changed_at := now,
                         archive_delete_at :=
                           (if t = Archived then Some (now + days archive_delete_days) else None)\<rparr>) db)"

definition refresh_expiry :: "datetime \<Rightarrow> session \<Rightarrow> db \<Rightarrow> (qna_err, session \<times> db) res" where
  "refresh_expiry now s db =
     (if state s = Open \<and> (case expires_at s of None \<Rightarrow> False | Some e \<Rightarrow> e \<le> now)
      then transition_locked now (PStr ''closed'') s db
      else Inr (s, db))"

definition transition_session ::
    "datetime \<Rightarrow> event_handle \<Rightarrow> string \<Rightarrow> string option \<Rightarrow> db \<Rightarrow> (qna_err, session \<times> db) res" where
  "transition_session now event_id target audit_context db =
     bind_res (qna_session event_id db) (\<lambda>(e, s).
     bind_res (transition_locked now (PStr target) s db) (\<lambda>(s, db).
       Inr (s, audit_if audit_context ''events.qna.lifecycle_changed'' s
                 [(''state'', PStr (lifecycle_value (state s)))] db)))"

subsection \<open>Public access\<close>

definition public_event_lifecycles :: "string list" where
  "public_event_lifecycles = [''upcoming'', ''completed'']"

definition public_session :: "event_handle \<Rightarrow> db \<Rightarrow> (qna_err, event \<times> session) res" where
  "public_session event_id db = bind_res (qna_session event_id db) (\<lambda>(e, s).
     if ev_status e \<notin> set public_event_lifecycles then Inl QnaNotFound
     else if state s = Archived then Inl QnaArchived
     else if state s = Draft then Inl QnaNotFound
     else Inr (e, s))"

subsection \<open>Settings\<close>

definition invalid_settings :: qna_err where
  "invalid_settings = QnaError 400 ''invalid_settings'' ''The Q&A settings are invalid.''"

definition default_settings :: payload where
  "default_settings = [(''listed'', PBool True), (''allow_names'', PBool True),
     (''require_names'', PBool False), (''answered_placement'', PStr ''separate''),
     (''default_sort'', PStr ''popular'')]"

text \<open>One iteration of the loop over \<open>raw.items()\<close>; \<open>value not in allowed\<close> hashes the value.\<close>

definition clean_setting :: "string \<times> pyval \<Rightarrow> payload \<Rightarrow> (qna_err, payload) res" where
  "clean_setting item result = (case item of (key, val) \<Rightarrow>
     if \<not> has_key key default_settings then Inl invalid_settings
     else if key = ''answered_placement'' \<or> key = ''default_sort'' then
       let allowed = (if key = ''answered_placement''
                      then map placement_value [Separate, Bottom, Inline]
                      else map sorting_value [Popular, Recent])
       in if \<not> hashable val then Inl TypeError
          else if val \<notin> PStr ` set allowed then Inl invalid_settings
          else Inr (AList.update key val result)
     else (case val of PBool b \<Rightarrow> Inr (AList.update key val result) | _ \<Rightarrow> Inl invalid_settings))"

fun clean_items :: "payload \<Rightarrow> payload \<Rightarrow> (qna_err, payload) res" where
  "clean_items [] result = Inr result"
| "clean_items (item # items) result =
     bind_res (clean_setting item result) (\<lambda>result. clean_items items result)"

definition clean_settings :: "pyval \<Rightarrow> payload \<Rightarrow> (qna_err, payload) res" where
  "clean_settings raw base = (case raw of
     PDict items \<Rightarrow>
       bind_res (clean_items items
           (map (\<lambda>(key, val). (key, if has_key key base then get_key key base else val)) default_settings))
         (\<lambda>result.
            if get_key ''allow_names'' result \<noteq> PBool True \<and> get_key ''require_names'' result = PBool True
            then Inl invalid_settings else Inr result)
   | _ \<Rightarrow> Inl invalid_settings)"

text \<open>
  \<open>django.utils.dateparse.parse_datetime\<close> is outside the repository: it raises \<open>ValueError\<close> on a
  well-formed but impossible timestamp, returns \<open>None\<close> on text it does not match, and otherwise
  a naive or an aware datetime.
\<close>

datatype parsed_datetime = ParseRaises | ParseNone | ParseNaive | ParseAware datetime

definition replace_z :: "string \<Rightarrow> string" where
  "replace_z s = concat (map (\<lambda>c. if c = CHR ''Z'' then ''+00:00'' else [c]) s)"

definition parse_expiry :: "(string \<Rightarrow> parsed_datetime) \<Rightarrow> pyval \<Rightarrow> (qna_err, datetime option) res" where
  "parse_expiry parse_datetime val =
     (let invalid = QnaError 400 ''invalid_request'' ''expires_at must be an RFC 3339 timestamp.''
      in if is_blank val then Inr None
         else case val of
             PStr s \<Rightarrow> (case parse_datetime (replace_z s) of
                 ParseRaises \<Rightarrow> Inl (ValueError ''parse_datetime'')
               | ParseAware t \<Rightarrow> Inr (Some t)
               | _ \<Rightarrow> Inl invalid)
           | _ \<Rightarrow> Inl invalid)"

subsection \<open>update_session\<close>

definition session_settings :: "session \<Rightarrow> payload" where
  "session_settings s =
     [(''listed'', PBool (listed s)), (''allow_names'', PBool (allow_names s)),
      (''require_names'', PBool (require_names s)),
      (''answered_placement'', PStr (placement_value (answered_placement s))),
      (''default_sort'', PStr (sorting_value (default_sorting s)))]"

text \<open>
  The three field blocks of the body, each returning the changed instance and the names of the
  columns to write. The cleaned settings hold booleans and choice values only, so reading them
  into the row is total.
\<close>

definition setting_names :: "string list" where
  "setting_names = [''listed'', ''allow_names'', ''require_names'', ''answered_placement'', ''default_sort'']"

definition assign_settings :: "payload \<Rightarrow> session \<Rightarrow> session" where
  "assign_settings v s = s\<lparr>
     listed := (get_key ''listed'' v = PBool True),
     allow_names := (get_key ''allow_names'' v = PBool True),
     require_names := (get_key ''require_names'' v = PBool True),
     answered_placement := (case get_key ''answered_placement'' v of
        PStr t \<Rightarrow> (case placement_of t of Some p \<Rightarrow> p | None \<Rightarrow> answered_placement s) | _ \<Rightarrow> answered_placement s),
     default_sorting := (case get_key ''default_sort'' v of
        PStr t \<Rightarrow> (case sorting_of t of Some p \<Rightarrow> p | None \<Rightarrow> default_sorting s) | _ \<Rightarrow> default_sorting s)\<rparr>"

definition apply_settings :: "payload \<Rightarrow> session \<Rightarrow> (qna_err, session \<times> string list) res" where
  "apply_settings payload s =
     (if has_key ''settings'' payload then
        bind_res (clean_settings (get_key ''settings'' payload) (session_settings s)) (\<lambda>v.
          Inr (assign_settings v s, setting_names))
      else Inr (s, []))"

definition apply_expiry ::
    "(string \<Rightarrow> parsed_datetime) \<Rightarrow> payload \<Rightarrow> session \<times> string list \<Rightarrow> (qna_err, session \<times> string list) res" where
  "apply_expiry parse_datetime payload st = (case st of (s, names) \<Rightarrow>
     if has_key ''expires_at'' payload then
       bind_res (parse_expiry parse_datetime (get_key ''expires_at'' payload)) (\<lambda>t.
         Inr (s\<lparr>expires_at := t\<rparr>, names @ [''expires_at'']))
     else Inr (s, names))"

definition apply_retention ::
    "payload \<Rightarrow> session \<times> string list \<Rightarrow> (qna_err, session \<times> string list) res" where
  "apply_retention payload st = (case st of (s, names) \<Rightarrow>
     if has_key ''retention_days'' payload then
       (case get_key ''retention_days'' payload of
          PNone \<Rightarrow> Inl (QnaError 400 ''retention_policy_required''
            (''retention_days must be a positive number of days; ''
             @ ''indefinite retention requires an approved policy decision.''))
        | PInt d \<Rightarrow>
            if d < 1 then Inl (QnaError 400 ''invalid_request'' ''retention_days must be at least 1.'')
            else Inr (s\<lparr>retention_days := Some d\<rparr>, names @ [''retention_days''])
        | _ \<Rightarrow> Inl (QnaError 400 ''invalid_request'' ''retention_days must be at least 1.''))
     else Inr (s, names))"

text \<open>The body after the revision check.\<close>

definition update_session_body ::
    "datetime \<Rightarrow> (string \<Rightarrow> parsed_datetime) \<Rightarrow> payload \<Rightarrow> string option \<Rightarrow> session \<Rightarrow> db
       \<Rightarrow> (qna_err, session \<times> db) res" where
  "update_session_body now parse_datetime payload audit_context s db =
     bind_res (refresh_expiry now s db) (\<lambda>(s, db).
     if state s = Archived \<and> extra_keys payload [''state'']
     then Inl (QnaError 409 ''archived'' ''An archived session can only be reopened.'')
     else
       bind_res (apply_settings payload s) (\<lambda>st.
       bind_res (apply_expiry parse_datetime payload st) (\<lambda>st.
       bind_res (apply_retention payload st) (\<lambda>(s, names).
       bind_res (if names \<noteq> [] then bump_session now names s db else Inr (s, db)) (\<lambda>(s, db).
       bind_res (if has_key ''state'' payload then transition_locked now (get_key ''state'' payload) s db
                 else Inr (s, db)) (\<lambda>(s, db).
         Inr (s, audit_if audit_context ''events.qna.session_updated'' s
           [(''state'', PStr (lifecycle_value (state s))),
            (''fields'', PList (map PStr (sort (remdups
               (names @ (if has_key ''state'' payload then [''state''] else []))))))] db)))))))"

definition update_session ::
    "datetime \<Rightarrow> (string \<Rightarrow> parsed_datetime) \<Rightarrow> event_handle \<Rightarrow> payload \<Rightarrow> string \<Rightarrow> int option
       \<Rightarrow> string option \<Rightarrow> db \<Rightarrow> (qna_err, session \<times> db) res" where
  "update_session now parse_datetime event_id payload actor_role expected_revision audit_context db =
     (if actor_role = ''cohost''
      then Inl (QnaError 403 ''cohost_scope'' ''A co-host may moderate questions only.'')
      else if extra_keys payload [''settings'', ''expires_at'', ''retention_days'', ''state'']
      then Inl (QnaError 400 ''invalid_fields'' ''The Q&A settings are invalid.'')
      else bind_res (qna_session event_id db) (\<lambda>(e, s).
        case expected_revision of
          Some r \<Rightarrow> if revision s \<noteq> r then Inl (RevisionConflict r (revision s))
                    else update_session_body now parse_datetime payload audit_context s db
        | None \<Rightarrow> update_session_body now parse_datetime payload audit_context s db))"

end
