(* ===== verification/Qna_Questions.thy ===== *)
theory Qna_Questions
  imports Qna_Session
begin

text \<open>
  The question side of \<open>event_qna/services.py\<close>: validation, submission, moderation, pinning and
  votes. \<open>digest\<close> stands for \<open>security.participant_digest\<close>, an HMAC under the site's secret key;
  \<open>fresh\<close> for the identifier \<open>opaque_id()\<close> returns in the call.
\<close>

subsection \<open>Validation\<close>

definition max_question_length :: nat where "max_question_length = 315"
definition max_name_length :: nat where "max_name_length = 60"
definition question_edit_window :: int where "question_edit_window = 300"

definition validate_text :: "pyval \<Rightarrow> (qna_err, string) res" where
  "validate_text val =
     (let invalid = QnaError 400 ''invalid_request'' ''text must be 1 to 315 characters.''
      in case val of
           PStr s \<Rightarrow>
             let text = py_strip s
             in if 1 \<le> length text \<and> length text \<le> max_question_length then Inr text else Inl invalid
         | _ \<Rightarrow> Inl invalid)"

definition validate_name :: "pyval \<Rightarrow> session \<Rightarrow> (qna_err, string) res" where
  "validate_name val s =
     bind_res (if is_blank val then Inr []
               else (case val of PStr t \<Rightarrow> Inr (py_strip t)
                     | _ \<Rightarrow> Inl (QnaError 400 ''invalid_request'' ''The name is invalid.''))) (\<lambda>name.
     if length name > max_name_length
     then Inl (QnaError 400 ''invalid_request'' ''The name must be 60 characters or fewer.'')
     else if name \<noteq> [] \<and> \<not> allow_names s
     then Inl (QnaError 400 ''names_disabled'' ''This Q&A session does not accept names.'')
     else if name = [] \<and> require_names s
     then Inl (QnaError 400 ''name_required'' ''This Q&A session requires a name.'')
     else Inr name)"

definition can_author_edit ::
    "datetime \<Rightarrow> (string \<Rightarrow> string) \<Rightarrow> question \<Rightarrow> string option \<Rightarrow> bool" where
  "can_author_edit now digest q participant = (case participant of
     None \<Rightarrow> False
   | Some p \<Rightarrow>
       if p = [] \<or> participant_digest q \<noteq> digest p then False
       else if status q \<noteq> Visible \<or> score q > 1 then False
       else created_at q + seconds question_edit_window > now)"

subsection \<open>submit_question\<close>

text \<open>\<open>objects.create\<close>: the primary key and the unique and check constraints of the table.\<close>

definition create_question :: "question \<Rightarrow> db \<Rightarrow> (qna_err, db) res" where
  "create_question q db =
     (if question_id q \<in> question_id ` set (questions db) \<or> q_text q = [] \<or> participant_digest q = []
      then Inl IntegrityError
      else Inr (db\<lparr>questions := questions db @ [q]\<rparr>))"

definition create_vote :: "string \<Rightarrow> string \<Rightarrow> db \<Rightarrow> (qna_err, db) res" where
  "create_vote qid d db =
     (if \<lparr>v_question = qid, v_digest = d\<rparr> \<in> set (votes db) then Inl IntegrityError
      else Inr (db\<lparr>votes := votes db @ [\<lparr>v_question = qid, v_digest = d\<rparr>]\<rparr>))"

definition participant_required :: qna_err where
  "participant_required =
     QnaError 400 ''participant_required'' ''A participant identity is required.''"

definition submit_question ::
    "datetime \<Rightarrow> (string \<Rightarrow> string) \<Rightarrow> string \<Rightarrow> event_handle \<Rightarrow> pyval \<Rightarrow> pyval \<Rightarrow> string \<Rightarrow> db
       \<Rightarrow> (qna_err, question \<times> db) res" where
  "submit_question now digest fresh event_id text author participant db =
     (if participant = [] then Inl participant_required
      else
        bind_res (qna_session event_id db) (\<lambda>(e, s).
        bind_res (refresh_expiry now s db) (\<lambda>(s, db).
        if state s \<noteq> Open
        then Inl (QnaError 409 ''questions_closed'' ''This Q&A session is not accepting questions.'')
        else
          bind_res (validate_text text) (\<lambda>text.
          bind_res (validate_name author s) (\<lambda>name.
          let q = \<lparr>question_id = fresh, q_session = session_id s, q_text = text, author_name = name,
                   participant_digest = digest participant, status = Visible, score = 0,
                   pinned = False, created_at = now, answered_at = None\<rparr>
          in bind_res (create_question q db) (\<lambda>db.
             bind_res (create_vote fresh (participant_digest q) db) (\<lambda>db.
             let q = q\<lparr>score := 1\<rparr>;
                 db = save_question (\<lambda>r. r\<lparr>score := score q\<rparr>) fresh db;
                 s = s\<lparr>q_total := q_total s + 1\<rparr>
             in bind_res (bump_session now [''q_total''] s db) (\<lambda>(s, db). Inr (q, db)))))))))"

subsection \<open>update_question\<close>

definition invalid_status :: qna_err where
  "invalid_status = QnaError 400 ''invalid_status'' ''The question status is invalid.''"

definition deleted_error :: qna_err where
  "deleted_error = QnaError 409 ''deleted'' ''A deleted question can no longer be changed.''"

definition set_status_locked ::
    "datetime \<Rightarrow> session \<Rightarrow> question \<Rightarrow> string \<Rightarrow> db \<Rightarrow> (qna_err, session \<times> question \<times> db) res" where
  "set_status_locked now s q target db = (case qstatus_of target of
     None \<Rightarrow> Inl invalid_status
   | Some target \<Rightarrow>
       let current = status q in
       if current = target then Inr (s, q, db)
       else if current = Deleted then Inl deleted_error
       else
         let q = q\<lparr>status := target, answered_at := (if target = Answered then Some now else None)\<rparr>;
             q = (if target = Answered \<or> target = Deleted then q\<lparr>pinned := False\<rparr> else q);
             db = save_question (\<lambda>r. r\<lparr>status := status q, answered_at := answered_at q, pinned := pinned q\<rparr>)
                    (question_id q) db;
             s = (if current = Answered then s\<lparr>q_answered := max 0 (q_answered s - 1)\<rparr> else s);
             s = (if target = Answered then s\<lparr>q_answered := q_answered s + 1\<rparr> else s);
             s = (if target = Deleted then s\<lparr>q_total := max 0 (q_total s - 1)\<rparr> else s)
         in bind_res (bump_session now [''q_total'', ''q_answered''] s db) (\<lambda>(s, db). Inr (s, q, db)))"

definition set_pin_locked ::
    "datetime \<Rightarrow> session \<Rightarrow> question \<Rightarrow> bool \<Rightarrow> db \<Rightarrow> (qna_err, session \<times> question \<times> db) res" where
  "set_pin_locked now s q pin db =
     (if status q = Deleted
      then Inl (QnaError 409 ''deleted'' ''A deleted question cannot be pinned.'')
      else
        let db = (if pin then db\<lparr>questions := update_where
                    (\<lambda>r. q_session r = session_id s \<and> pinned r \<and> question_id r \<noteq> question_id q)
                    (\<lambda>r. r\<lparr>pinned := False\<rparr>) (questions db)\<rparr> else db);
            q = q\<lparr>pinned := pin\<rparr>;
            db = save_question (\<lambda>r. r\<lparr>pinned := pinned q\<rparr>) (question_id q) db
        in bind_res (bump_session now [] s db) (\<lambda>(s, db). Inr (s, q, db)))"

text \<open>The checks on the payload, in the order of the code, for the question found.\<close>

definition check_update ::
    "datetime \<Rightarrow> (string \<Rightarrow> string) \<Rightarrow> payload \<Rightarrow> string option \<Rightarrow> bool \<Rightarrow> question \<Rightarrow> (qna_err, unit) res" where
  "check_update now digest payload participant moderator q =
     (let status_value = get_key ''status'' payload;
          valid_status = (case status_value of
             PNone \<Rightarrow> True | PStr t \<Rightarrow> qstatus_of t \<noteq> None | _ \<Rightarrow> False);
          is_bool = (case get_key ''pinned'' payload of PBool b \<Rightarrow> True | _ \<Rightarrow> False)
      in if has_key ''status'' payload \<and> \<not> valid_status then Inl invalid_status
         else if has_key ''pinned'' payload \<and> \<not> is_bool
         then Inl (QnaError 400 ''invalid_fields'' ''The question update is invalid.'')
         else if \<not> moderator \<and> \<not> can_author_edit now digest q participant
         then Inl (QnaError 403 ''forbidden'' ''This question can no longer be changed.'')
         else if \<not> moderator \<and> (extra_keys payload [''text'', ''status'']
                                 \<or> status_value \<notin> {PNone, PStr ''deleted''})
         then Inl (QnaError 403 ''forbidden'' ''You may only edit or withdraw your question.'')
         else if moderator \<and> extra_keys payload [''text'', ''status'', ''pinned'']
         then Inl (QnaError 400 ''invalid_fields'' ''The question update is invalid.'')
         else if status q = Deleted \<and> extra_keys payload [''status''] then Inl deleted_error
         else Inr ())"

definition apply_text ::
    "datetime \<Rightarrow> payload \<Rightarrow> session \<Rightarrow> question \<Rightarrow> db \<Rightarrow> (qna_err, session \<times> question \<times> db) res" where
  "apply_text now payload s q db =
     (if has_key ''text'' payload then
        bind_res (validate_text (get_key ''text'' payload)) (\<lambda>text.
          let q = q\<lparr>q_text := text\<rparr>;
              db = save_question (\<lambda>r. r\<lparr>q_text := q_text q\<rparr>) (question_id q) db
          in bind_res (bump_session now [] s db) (\<lambda>(s, db). Inr (s, q, db)))
      else Inr (s, q, db))"

definition apply_status ::
    "datetime \<Rightarrow> payload \<Rightarrow> session \<Rightarrow> question \<Rightarrow> db \<Rightarrow> (qna_err, session \<times> question \<times> db) res" where
  "apply_status now payload s q db = (case get_key ''status'' payload of
     PStr t \<Rightarrow> set_status_locked now s q t db
   | _ \<Rightarrow> Inr (s, q, db))"

definition apply_pin ::
    "datetime \<Rightarrow> payload \<Rightarrow> bool \<Rightarrow> session \<Rightarrow> question \<Rightarrow> db \<Rightarrow> (qna_err, session \<times> question \<times> db) res" where
  "apply_pin now payload moderator s q db =
     (if has_key ''pinned'' payload then
        if \<not> moderator then Inl (QnaError 403 ''forbidden'' ''Only moderators can pin questions.'')
        else set_pin_locked now s q (get_key ''pinned'' payload = PBool True) db
      else Inr (s, q, db))"

definition update_question_body ::
    "datetime \<Rightarrow> (string \<Rightarrow> string) \<Rightarrow> string \<Rightarrow> payload \<Rightarrow> string option \<Rightarrow> bool \<Rightarrow> string option
       \<Rightarrow> session \<Rightarrow> db \<Rightarrow> (qna_err, question \<times> db) res" where
  "update_question_body now digest qid payload participant moderator audit_context s db =
     (case get_question qid (session_id s) db of
        None \<Rightarrow> Inl QnaNotFound
      | Some q \<Rightarrow>
          bind_res (check_update now digest payload participant moderator q) (\<lambda>_.
          bind_res (apply_text now payload s q db) (\<lambda>(s, q, db).
          bind_res (apply_status now payload s q db) (\<lambda>(s, q, db).
          bind_res (apply_pin now payload moderator s q db) (\<lambda>(s, q, db).
            case List.find (\<lambda>r. question_id r = question_id q) (questions db) of
              None \<Rightarrow> Inl DoesNotExist
            | Some q \<Rightarrow> Inr (q, if moderator
                then audit_if audit_context ''events.qna.question_moderated'' s
                       [(''question_id'', PStr (question_id q)),
                        (''status'', PStr (qstatus_value (status q))),
                        (''pinned'', PBool (pinned q))] db
                else db))))))"

definition update_question ::
    "datetime \<Rightarrow> (string \<Rightarrow> string) \<Rightarrow> event_handle \<Rightarrow> string \<Rightarrow> payload \<Rightarrow> string option \<Rightarrow> bool
       \<Rightarrow> string option \<Rightarrow> int option \<Rightarrow> db \<Rightarrow> (qna_err, question \<times> db) res" where
  "update_question now digest event_id qid payload participant moderator audit_context expected_revision db =
     bind_res (qna_session event_id db) (\<lambda>(e, s).
       if state s = Archived then Inl QnaArchived
       else case expected_revision of
           Some r \<Rightarrow>
             if revision s \<noteq> r then Inl (RevisionConflict r (revision s))
             else update_question_body now digest qid payload participant moderator audit_context s db
         | None \<Rightarrow> update_question_body now digest qid payload participant moderator audit_context s db)"

subsection \<open>vote_question\<close>

definition public_statuses :: "qstatus list" where
  "public_statuses = [Visible, Answered]"

text \<open>The two branches that change a vote; \<open>create\<close> runs in its own savepoint.\<close>

definition change_vote ::
    "bool \<Rightarrow> string \<Rightarrow> question \<Rightarrow> db \<Rightarrow> bool \<times> db" where
  "change_vote add d q db =
     (let existing = (\<lparr>v_question = question_id q, v_digest = d\<rparr> \<in> set (votes db))
      in if add \<and> \<not> existing then
           (case create_vote (question_id q) d db of
              Inl e \<Rightarrow> (False, db)
            | Inr db \<Rightarrow> (True, save_question (\<lambda>r. r\<lparr>score := score r + 1\<rparr>) (question_id q) db))
         else if \<not> add \<and> existing then
           (True, save_question (\<lambda>r. r\<lparr>score := max 0 (score q - 1)\<rparr>) (question_id q)
              (db\<lparr>votes := filter (\<lambda>v. v \<noteq> \<lparr>v_question = question_id q, v_digest = d\<rparr>) (votes db)\<rparr>))
         else (False, db))"

definition vote_question ::
    "datetime \<Rightarrow> (string \<Rightarrow> string) \<Rightarrow> event_handle \<Rightarrow> string \<Rightarrow> string \<Rightarrow> bool \<Rightarrow> db
       \<Rightarrow> (qna_err, (int \<times> bool) \<times> db) res" where
  "vote_question now digest event_id qid participant add db =
     (if participant = [] then Inl participant_required
      else
        let d = digest participant in
        bind_res (qna_session event_id db) (\<lambda>(e, s).
        bind_res (refresh_expiry now s db) (\<lambda>(s, db).
        if state s \<noteq> Open
        then Inl (QnaError 409 ''voting_closed'' ''Voting is closed for this Q&A session.'')
        else case get_question qid (session_id s) db of
            None \<Rightarrow> Inl QnaNotFound
          | Some q \<Rightarrow>
              if status q \<notin> set public_statuses then Inl QnaNotFound
              else let (changed, db) = change_vote add d q db
                   in case List.find (\<lambda>r. question_id r = question_id q) (questions db) of
                       None \<Rightarrow> Inl DoesNotExist
                     | Some q \<Rightarrow>
                         bind_res (if changed then bump_session now [] s db else Inr (s, db)) (\<lambda>(s, db).
                           Inr ((score q, \<lparr>v_question = question_id q, v_digest = d\<rparr> \<in> set (votes db)), db)))))"

end
