(* ===== verification/Qna_Invariant.thy ===== *)
theory Qna_Invariant
  imports Qna_Questions
begin

text \<open>
  The invariant of the Event Q&A store and the effect of the session and question operations on
  it: counters agree with the rows, scores with the votes, at most one pin per room, deletion is
  terminal, and a session row whose content changes gets a larger revision.
\<close>

subsection \<open>The invariant\<close>

definition questions_of :: "uuid \<Rightarrow> db \<Rightarrow> question list" where
  "questions_of sid db = filter (\<lambda>q. q_session q = sid) (questions db)"

definition session_ok :: "session \<Rightarrow> bool" where
  "session_ok s \<longleftrightarrow> 1 \<le> revision s \<and> backend_key s \<noteq> []
     \<and> (case retention_days s of None \<Rightarrow> True | Some d \<Rightarrow> 1 \<le> d)
     \<and> (archive_delete_at s \<noteq> None \<longleftrightarrow> state s = Archived)
     \<and> (require_names s \<longrightarrow> allow_names s)"

definition question_ok :: "question \<Rightarrow> bool" where
  "question_ok q \<longleftrightarrow> 1 \<le> length (q_text q) \<and> length (q_text q) \<le> max_question_length
     \<and> length (author_name q) \<le> max_name_length \<and> participant_digest q \<noteq> []
     \<and> (status q = Deleted \<longrightarrow> \<not> pinned q)
     \<and> (answered_at q \<noteq> None \<longleftrightarrow> status q = Answered)"

definition counters_ok :: "session \<Rightarrow> question list \<Rightarrow> bool" where
  "counters_ok s qs \<longleftrightarrow>
     q_total s = count_where (\<lambda>q. q_session q = session_id s \<and> status q \<noteq> Deleted) qs
     \<and> q_answered s = count_where (\<lambda>q. q_session q = session_id s \<and> status q = Answered) qs
     \<and> count_where (\<lambda>q. q_session q = session_id s \<and> pinned q) qs \<le> 1"

definition db_ok :: "db \<Rightarrow> bool" where
  "db_ok db \<longleftrightarrow>
     distinct (map session_id (sessions db)) \<and> distinct (map question_id (questions db))
     \<and> distinct (votes db)
     \<and> (\<forall>s \<in> set (sessions db). session_ok s \<and> counters_ok s (questions db))
     \<and> (\<forall>q \<in> set (questions db). question_ok q
          \<and> score q = count_where (\<lambda>v. v_question v = question_id q) (votes db))
     \<and> (\<forall>v \<in> set (votes db). v_question v \<in> question_id ` set (questions db))
     \<and> (\<forall>q \<in> set (questions db). q_session q \<in> session_id ` set (sessions db))"

text \<open>
  What one operation may do to the rest of the world: a session whose content or questions change
  has its revision raised, and no row of a deleted question changes. The provisioning columns are
  not part of the content the revision protects.
\<close>

definition content :: "session \<Rightarrow> session" where
  "content s = s\<lparr>backend_reference := [], provisioning_job := None, updated_at := 0\<rparr>"

definition advances :: "db \<Rightarrow> db \<Rightarrow> bool" where
  "advances db db' \<longleftrightarrow>
     (\<forall>s \<in> set (sessions db). \<exists>s' \<in> set (sessions db'). session_id s' = session_id s
        \<and> (content s' = content s \<and> questions_of (session_id s) db' = questions_of (session_id s) db
           \<or> revision s < revision s'))
     \<and> (\<forall>q \<in> set (questions db). status q = Deleted \<longrightarrow> q \<in> set (questions db'))"

lemma advances_refl [intro!, simp]: "advances db db"
  by (auto simp: advances_def)

lemma advances_trans:
  assumes "advances a b" and "advances b c"
  shows "advances a c"
  unfolding advances_def
proof (intro conjI ballI impI)
  fix s assume "s \<in> set (sessions a)"
  then obtain s' where s': "s' \<in> set (sessions b)" "session_id s' = session_id s"
    "content s' = content s \<and> questions_of (session_id s) b = questions_of (session_id s) a \<or> revision s < revision s'"
    using assms(1) by (auto simp: advances_def)
  then obtain s'' where "s'' \<in> set (sessions c)" "session_id s'' = session_id s'"
    "content s'' = content s' \<and> questions_of (session_id s') c = questions_of (session_id s') b \<or> revision s' < revision s''"
    using assms(2) unfolding advances_def by blast
  note s'' = this
  have rv: "revision x = revision y" if "content x = content y" for x y
    using arg_cong [OF that, of revision] by (simp add: content_def)
  have "content s'' = content s \<and> questions_of (session_id s) c = questions_of (session_id s) a
      \<or> revision s < revision s''"
  proof (cases "revision s < revision s''")
    case False
    then have b: "content s' = content s" "questions_of (session_id s) b = questions_of (session_id s) a"
      using s'(3) s''(3) rv [of s'' s'] by auto
    with False have "content s'' = content s'" "questions_of (session_id s) c = questions_of (session_id s) b"
      using s''(3) rv [of s' s] s'(2) by auto
    with b show ?thesis by simp
  qed simp
  then show "\<exists>t \<in> set (sessions c). session_id t = session_id s
      \<and> (content t = content s \<and> questions_of (session_id s) c = questions_of (session_id s) a \<or> revision s < revision t)"
    using s'(2) s''(1,2) by (intro bexI [of _ s'']) auto
qed (use assms in \<open>auto simp: advances_def\<close>)

subsection \<open>The optimistic write\<close>

abbreviation put_session :: "session \<Rightarrow> db \<Rightarrow> db" where
  "put_session s db \<equiv> db\<lparr>sessions := put_row session_id s (sessions db)\<rparr>"

abbreviation bumped :: "datetime \<Rightarrow> session \<Rightarrow> session" where
  "bumped now s \<equiv> s\<lparr>revision := revision s + 1, updated_at := now\<rparr>"

text \<open>The instance differs from its row at most in the columns it is about to write.\<close>

definition instance_of :: "session \<Rightarrow> string list \<Rightarrow> db \<Rightarrow> bool" where
  "instance_of s names db \<longleftrightarrow> (\<exists>r \<in> set (sessions db). session_id r = session_id s
     \<and> revision r = revision s \<and> (fold (copy_field s) names r)\<lparr>updated_at := updated_at s\<rparr> = s)"

lemma copy_field_keeps [simp]:
  "session_id (copy_field s f r) = session_id r" "revision (copy_field s f r) = revision r"
proof -
  have "\<forall>g \<in> snd ` set (setters s). session_id (g r) = session_id r \<and> revision (g r) = revision r"
    by (simp add: setters_def)
  moreover have "g \<in> snd ` set (setters s)" if "map_of (setters s) f = Some g" for g
    using map_of_SomeD [OF that] by force
  ultimately show "session_id (copy_field s f r) = session_id r" "revision (copy_field s f r) = revision r"
    by (auto simp: copy_field_def split: option.splits)
qed

lemma fold_copy_field_keeps [simp]:
  "session_id (fold (copy_field s) names r) = session_id r"
  "revision (fold (copy_field s) names r) = revision r"
  by (induction names arbitrary: r) simp_all

lemma copy_field_irrelevant:
  "copy_field (s\<lparr>revision := k, updated_at := t\<rparr>) f r = copy_field s f r"
  by (simp add: copy_field_def setters_def)

lemma bump_session_eq:
  assumes "distinct (map session_id (sessions db))" and "instance_of s names db"
  shows "bump_session now names s db =
    (if session_check (bumped now s) then Inr (bumped now s, put_session (bumped now s) db)
     else Inl IntegrityError)"
proof -
  from assms(2) obtain r where r: "r \<in> set (sessions db)" "session_id r = session_id s"
    "revision r = revision s" "(fold (copy_field s) names r)\<lparr>updated_at := updated_at s\<rparr> = s"
    by (auto simp: instance_of_def)
  let ?matches = "\<lambda>x. session_id x = session_id s \<and> revision x = revision s"
  let ?stored = "\<lambda>x. (fold (copy_field (bumped now s)) names x)\<lparr>revision := revision s + 1, updated_at := now\<rparr>"
  have only: "?matches x \<longleftrightarrow> x = r" if "x \<in> set (sessions db)" for x
    using distinct_key_eq [OF assms(1) that r(1)] r by auto
  have "?stored r = ((fold (copy_field s) names r)\<lparr>updated_at := updated_at s\<rparr>)
      \<lparr>revision := revision s + 1, updated_at := now\<rparr>"
    by (simp add: copy_field_irrelevant [abs_def])
  then have written: "?stored r = bumped now s" by (simp only: r(4))
  have upd: "update_where ?matches ?stored (sessions db) = put_row session_id (bumped now s) (sessions db)"
    using update_where_row [OF assms(1) r(1), of ?stored ?matches] only r(2,3) written
      distinct_key_eq [OF assms(1) _ r(1)] by auto
  have "count_where ?matches (sessions db) = count_where (\<lambda>x. x = r) (sessions db)"
    by (rule count_where_cong) (rule only)
  also have "\<dots> = 1"
    using assms(1) r(1) by (rule count_where_one)
  finally have count: "count_where ?matches (sessions db) = 1" .
  have check: "list_all (\<lambda>x. ?matches x \<longrightarrow> session_check (?stored x)) (sessions db)
      \<longleftrightarrow> session_check (bumped now s)"
    using r(1) only written by (auto simp: list_all_iff)
  show ?thesis
    unfolding bump_session_def Let_def using check count upd by simp
qed

subsection \<open>Changing one session\<close>

lemma counters_ok_filter:
  "counters_ok s qs \<longleftrightarrow> counters_ok s (filter (\<lambda>q. q_session q = session_id s) qs)"
  by (simp add: counters_ok_def count_where_def conj_commute cong: conj_cong)

lemma counters_ok_cong:
  "session_id s = session_id t \<Longrightarrow> q_total s = q_total t \<Longrightarrow> q_answered s = q_answered t \<Longrightarrow>
     counters_ok s qs = counters_ok t qs"
  by (simp add: counters_ok_def)

abbreviation others :: "uuid \<Rightarrow> question list \<Rightarrow> question list" where
  "others sid qs \<equiv> filter (\<lambda>q. q_session q \<noteq> sid) qs"

lemma filter_others:
  assumes "others sid qs' = others sid qs" and "tid \<noteq> sid"
  shows "filter (\<lambda>q. q_session q = tid) qs' = filter (\<lambda>q. q_session q = tid) qs"
proof -
  have "filter (\<lambda>q. q_session q = tid) xs = filter (\<lambda>q. q_session q = tid) (others sid xs)" for xs
    using assms(2) by (auto simp: intro!: filter_cong)
  then show ?thesis using assms(1) by metis
qed

text \<open>
  The shape of every write: one session row goes up, its questions become \<open>qs\<close>, the other rooms'
  questions stay.
\<close>

lemma db_ok_change:
  assumes ok: "db_ok db" and s: "s \<in> set (sessions db)" and id: "session_id s' = session_id s"
    and s': "session_ok s'" "counters_ok s' qs"
    and qs: "distinct (map question_id qs)" "others (session_id s) qs = others (session_id s) (questions db)"
    and vs: "distinct vs" "\<forall>v \<in> set vs. v_question v \<in> question_id ` set qs"
    and q: "\<forall>q \<in> set qs. question_ok q \<and> score q = count_where (\<lambda>v. v_question v = question_id q) vs"
  shows "db_ok (db\<lparr>sessions := put_row session_id s' (sessions db), questions := qs, votes := vs\<rparr>)"
proof -
  have d: "distinct (map session_id (sessions db))" using ok by (simp add: db_ok_def)
  have "session_ok t \<and> counters_ok t qs" if "t \<in> set (put_row session_id s' (sessions db))" for t
  proof (cases "t = s'")
    case True
    then show ?thesis using s' by simp
  next
    case False
    with that s id have t: "t \<in> set (sessions db)" "session_id t \<noteq> session_id s"
      by (auto simp: set_put_row [OF s id [symmetric]])
    then have "counters_ok t (questions db)" "session_ok t" using ok by (auto simp: db_ok_def)
    then show ?thesis
      using counters_ok_filter [of t qs] counters_ok_filter [of t "questions db"]
        filter_others [OF qs(2) t(2)] by simp
  qed
  moreover have "r \<in> set qs \<Longrightarrow> q_session r \<in> session_id ` set (put_row session_id s' (sessions db))" for r
  proof -
    assume r: "r \<in> set qs"
    have ids: "session_id ` set (put_row session_id s' (sessions db)) = session_id ` set (sessions db)"
      using keys_put_row [of session_id s' "sessions db"] by (metis list.set_map)
    show ?thesis
    proof (cases "q_session r = session_id s")
      case False
      then have "r \<in> set (others (session_id s) qs)" using r by simp
      then have "r \<in> set (questions db)" by (simp only: qs(2)) simp
      then show ?thesis using ok by (auto simp: db_ok_def ids)
    qed (use s ids in auto)
  qed
  ultimately show ?thesis using d qs vs q by (simp add: db_ok_def)
qed

lemma advances_change:
  assumes s: "s \<in> set (sessions db)" and id: "session_id s' = session_id s"
    and "distinct (map session_id (sessions db))" and "revision s < revision s'"
    and qs: "others (session_id s) qs = others (session_id s) (questions db)"
    and "\<forall>q \<in> set (questions db). status q = Deleted \<longrightarrow> q \<in> set qs"
  shows "advances db (db\<lparr>sessions := put_row session_id s' (sessions db), questions := qs, votes := vs\<rparr>)"
  unfolding advances_def
proof (intro conjI ballI)
  fix t assume t: "t \<in> set (sessions db)"
  show "\<exists>t' \<in> set (sessions (db\<lparr>sessions := put_row session_id s' (sessions db), questions := qs, votes := vs\<rparr>)).
      session_id t' = session_id t \<and> (content t' = content t \<and> questions_of (session_id t)
        (db\<lparr>sessions := put_row session_id s' (sessions db), questions := qs, votes := vs\<rparr>)
        = questions_of (session_id t) db \<or> revision t < revision t')"
  proof (cases "session_id t = session_id s")
    case True
    then have "t = s" using distinct_key_eq [OF assms(3) t s] by simp
    then show ?thesis using assms(4) id s by (auto simp: set_put_row [OF s id [symmetric]])
  next
    case False
    then show ?thesis
      using t id filter_others [OF qs False]
      by (intro bexI [of _ t]) (simp_all add: set_put_row [OF s id [symmetric]] questions_of_def)
  qed
qed (use assms(6) in simp)

lemma session_check_ok:
  assumes "session_ok s" and "counters_ok s qs"
  shows "session_check s"
proof -
  have "q_answered s \<le> q_total s"
    using assms(2) count_where_mono [of qs "\<lambda>q. q_session q = session_id s \<and> status q = Answered"
        "\<lambda>q. q_session q = session_id s \<and> status q \<noteq> Deleted"] by (auto simp: counters_ok_def)
  with assms show ?thesis by (auto simp: session_check_def session_ok_def counters_ok_def)
qed

text \<open>In a good store the optimistic write of a good instance goes through.\<close>

lemma session_ok_bumped: "session_ok s \<Longrightarrow> session_ok (bumped now s)"
  by (simp add: session_ok_def)

lemma counters_ok_bumped: "counters_ok (bumped now s) qs = counters_ok s qs"
  by (simp add: counters_ok_def)

lemma bump_session_ok:
  assumes "distinct (map session_id (sessions db))" and "instance_of s names db"
    and "session_ok s" and "counters_ok s qs"
  shows "bump_session now names s db = Inr (bumped now s, put_session (bumped now s) db)"
  using assms bump_session_eq session_check_ok [of "bumped now s" qs]
  by (simp add: session_ok_bumped counters_ok_bumped)

lemma instance_of_row: "s \<in> set (sessions db) \<Longrightarrow> instance_of s [] db"
  by (auto simp: instance_of_def intro!: bexI [of _ s])

end
