(* ===== verification/Qna_Preservation.thy ===== *)
theory Qna_Preservation
  imports Qna_Invariant
begin

text \<open>
  Every session and question operation keeps the invariant of theory Qna_Invariant and only
  advances the store. Each lemma also says what the operation wrote.
\<close>

lemma db_ok_dest:
  assumes "db_ok db"
  shows "distinct (map session_id (sessions db))" "distinct (map question_id (questions db))"
    "distinct (votes db)"
    "s \<in> set (sessions db) \<Longrightarrow> session_ok s \<and> counters_ok s (questions db)"
    "q \<in> set (questions db) \<Longrightarrow> question_ok q \<and> score q = count_where (\<lambda>v. v_question v = question_id q) (votes db)"
    "v \<in> set (votes db) \<Longrightarrow> v_question v \<in> question_id ` set (questions db)"
    "q \<in> set (questions db) \<Longrightarrow> q_session q \<in> session_id ` set (sessions db)"
  using assms by (auto simp: db_ok_def)

text \<open>The one write every operation ends with.\<close>

lemma write_session:
  assumes ok: "db_ok db" and s0: "s0 \<in> set (sessions db)"
    and inst: "session_id s = session_id s0" "revision s = revision s0"
      "(fold (copy_field s) names s0)\<lparr>updated_at := updated_at s\<rparr> = s"
    and s: "session_ok s" "counters_ok s qs"
    and qs: "distinct (map question_id qs)" "others (session_id s) qs = others (session_id s) (questions db)"
    and vs: "distinct vs" "\<forall>v \<in> set vs. v_question v \<in> question_id ` set qs"
    and q: "\<forall>q \<in> set qs. question_ok q \<and> score q = count_where (\<lambda>v. v_question v = question_id q) vs"
    and del: "\<forall>q \<in> set (questions db). status q = Deleted \<longrightarrow> q \<in> set qs"
  obtains db' where "bump_session now names s (db\<lparr>questions := qs, votes := vs\<rparr>) = Inr (bumped now s, db')"
    and "db' = db\<lparr>sessions := put_row session_id (bumped now s) (sessions db), questions := qs, votes := vs\<rparr>"
    and "db_ok db'" and "advances db db'" and "bumped now s \<in> set (sessions db')"
proof -
  let ?s = "bumped now s"
  let ?db = "db\<lparr>sessions := put_row session_id ?s (sessions db), questions := qs, votes := vs\<rparr>"
  have d: "distinct (map session_id (sessions db))" using ok by (rule db_ok_dest)
  have i: "instance_of s names (db\<lparr>questions := qs, votes := vs\<rparr>)"
    using s0 inst by (auto simp: instance_of_def intro!: bexI [of _ s0])
  have id: "session_id ?s = session_id s0" by (simp add: inst)
  have oth: "others (session_id s0) qs = others (session_id s0) (questions db)"
    using qs(2) by (simp only: inst(1))
  have "bump_session now names s (db\<lparr>questions := qs, votes := vs\<rparr>) = Inr (?s, ?db)"
    using bump_session_ok [OF _ i s(1,2), of now] d by simp
  moreover have "db_ok ?db"
    using db_ok_change [OF ok s0 id _ _ qs(1) oth vs q] s
    by (simp add: session_ok_bumped counters_ok_bumped)
  moreover have "advances db ?db"
    using advances_change [OF s0 id d _ oth del] inst(2) by simp
  moreover have "?s \<in> set (sessions ?db)"
    using set_put_row [OF s0 id [symmetric]] by simp
  ultimately show ?thesis using that by blast
qed

text \<open>The case where only the session row changes.\<close>

lemma write_session_only:
  assumes ok: "db_ok db" and s0: "s0 \<in> set (sessions db)"
    and inst: "session_id s = session_id s0" "revision s = revision s0"
      "(fold (copy_field s) names s0)\<lparr>updated_at := updated_at s\<rparr> = s"
    and s: "session_ok s" "q_total s = q_total s0" "q_answered s = q_answered s0"
  obtains db' where "bump_session now names s db = Inr (bumped now s, db')"
    and "db' = put_session (bumped now s) db"
    and "db_ok db'" and "advances db db'" and "bumped now s \<in> set (sessions db')"
proof -
  have c: "counters_ok s (questions db)"
    using db_ok_dest(4) [OF ok s0] counters_ok_cong [OF inst(1) s(2,3)] by simp
  have "db\<lparr>questions := questions db, votes := votes db\<rparr> = db" by simp
  then show ?thesis
    using write_session [OF ok s0 inst s(1) c db_ok_dest(2) [OF ok] refl db_ok_dest(3) [OF ok], of now]
      db_ok_dest(5,6) [OF ok] that by auto
qed

subsection \<open>Lifecycle\<close>

definition moved :: "datetime \<Rightarrow> lifecycle \<Rightarrow> session \<Rightarrow> session" where
  "moved now t s = s\<lparr>state := t, state_changed_at := now, archive_delete_at :=
     (if t = Archived then Some (now + days archive_delete_days) else None)\<rparr>"

lemma moved_simps [simp]:
  "state (moved now t s) = t" "session_id (moved now t s) = session_id s"
  "session_event (moved now t s) = session_event s" "revision (moved now t s) = revision s"
  "q_total (moved now t s) = q_total s" "q_answered (moved now t s) = q_answered s"
  "session_ok s \<Longrightarrow> session_ok (moved now t s)"
  "(fold (copy_field (moved now t s)) [''state'', ''state_changed_at'', ''archive_delete_at''] s)
     \<lparr>updated_at := updated_at (moved now t s)\<rparr> = moved now t s"
  by (simp_all add: moved_def session_ok_def copy_field_def setters_def)

lemma lifecycle_of_Some: "lifecycle_of u = Some t \<longleftrightarrow> u = lifecycle_value t"
proof
  assume "lifecycle_of u = Some t"
  from find_Some [OF this [unfolded lifecycle_of_def]] show "u = lifecycle_value t" by simp
qed simp

lemma target_of_Some: "target_of v = Some t \<longleftrightarrow> v = PStr (lifecycle_value t)"
  by (cases v) (simp_all add: target_of_def lifecycle_of_Some)

lemma lifecycle_value_inj [simp]: "lifecycle_value a = lifecycle_value b \<longleftrightarrow> a = b"
  by (metis choice_of_value(1) option.inject)

lemma transition_locked_Inr:
  "transition_locked now target s db = Inr r \<longleftrightarrow>
     target = PStr (lifecycle_value (state s)) \<and> r = (s, db)
     \<or> (\<exists>t. target = PStr (lifecycle_value t) \<and> t \<noteq> state s \<and> t \<in> set (transitions (state s))
          \<and> bump_session now [''state'', ''state_changed_at'', ''archive_delete_at''] (moved now t s) db = Inr r)"
proof (cases "target_of target")
  case None
  then have "target \<noteq> PStr (lifecycle_value t)" for t
    using target_of_Some [of target t] by auto
  then show ?thesis using None by (simp add: transition_locked_def Let_def)
next
  case (Some t)
  then have target: "target = PStr (lifecycle_value t)" by (simp only: target_of_Some)
  show ?thesis
    using Some by (cases "t = state s") (auto simp: transition_locked_def target moved_def Let_def)
qed

lemma move_session:
  assumes "db_ok db" "s \<in> set (sessions db)"
  obtains db' where "bump_session now [''state'', ''state_changed_at'', ''archive_delete_at''] (moved now t s) db
      = Inr (bumped now (moved now t s), db')"
    and "db' = put_session (bumped now (moved now t s)) db"
    and "db_ok db'" and "advances db db'" and "bumped now (moved now t s) \<in> set (sessions db')"
proof (rule write_session_only [OF assms, of "moved now t s"
    "[''state'', ''state_changed_at'', ''archive_delete_at'']" now])
  show "session_ok (moved now t s)" using db_ok_dest(4) [OF assms] by simp
qed (simp_all only: moved_simps that)

lemma transition_locked_ok:
  assumes ok: "db_ok db" and s: "s \<in> set (sessions db)"
    and run: "transition_locked now target s db = Inr (s', db')"
  shows "db_ok db'" and "advances db db'" and "s' \<in> set (sessions db')"
    and "s' = s \<and> db' = db \<and> target = PStr (lifecycle_value (state s))
      \<or> (\<exists>t. target = PStr (lifecycle_value t) \<and> t \<in> set (transitions (state s))
           \<and> s' = bumped now (moved now t s) \<and> db' = put_session s' db)"
proof -
  have "db_ok db' \<and> advances db db' \<and> s' \<in> set (sessions db') \<and>
     (s' = s \<and> db' = db \<and> target = PStr (lifecycle_value (state s))
      \<or> (\<exists>t. target = PStr (lifecycle_value t) \<and> t \<in> set (transitions (state s))
           \<and> s' = bumped now (moved now t s) \<and> db' = put_session s' db))"
  proof (cases "target = PStr (lifecycle_value (state s))")
    case True
    then show ?thesis using run ok s by (auto simp: transition_locked_Inr)
  next
    case False
    with run obtain t where tgt: "target = PStr (lifecycle_value t)"
      and t: "t \<in> set (transitions (state s))"
      and bump: "bump_session now [''state'', ''state_changed_at'', ''archive_delete_at''] (moved now t s) db
        = Inr (s', db')"
      by (auto simp: transition_locked_Inr)
    obtain d where d: "bump_session now [''state'', ''state_changed_at'', ''archive_delete_at''] (moved now t s) db
        = Inr (bumped now (moved now t s), d)"
      and new: "d = put_session (bumped now (moved now t s)) db" "db_ok d" "advances db d"
        "bumped now (moved now t s) \<in> set (sessions d)"
      by (rule move_session [OF ok s])
    from bump [unfolded d] have eq: "s' = bumped now (moved now t s)" "db' = d" by auto
    have "db_ok db' \<and> advances db db' \<and> s' \<in> set (sessions db') \<and> s' = bumped now (moved now t s)
        \<and> db' = put_session s' db"
      unfolding eq using new by blast
    then show ?thesis using t tgt by blast
  qed
  then show "db_ok db'" and "advances db db'" and "s' \<in> set (sessions db')"
    and "s' = s \<and> db' = db \<and> target = PStr (lifecycle_value (state s))
      \<or> (\<exists>t. target = PStr (lifecycle_value t) \<and> t \<in> set (transitions (state s))
           \<and> s' = bumped now (moved now t s) \<and> db' = put_session s' db)"
    by blast+
qed

lemma transition_locked_keeps:
  assumes "db_ok db" "s \<in> set (sessions db)" "transition_locked now target s db = Inr (s', db')"
  shows "session_id s' = session_id s" "session_event s' = session_event s"
    "q_total s' = q_total s" "q_answered s' = q_answered s" "questions db' = questions db"
    "votes db' = votes db" "target = PStr (lifecycle_value (state s'))"
  using transition_locked_ok(4) [OF assms] by auto

lemma refresh_expiry_ok:
  assumes "db_ok db" "s \<in> set (sessions db)" "refresh_expiry now s db = Inr (s', db')"
  shows "db_ok db' \<and> advances db db' \<and> s' \<in> set (sessions db') \<and> session_id s' = session_id s
    \<and> (state s' = Open \<longrightarrow> s' = s \<and> db' = db)"
proof (cases "state s = Open \<and> (case expires_at s of None \<Rightarrow> False | Some e \<Rightarrow> e \<le> now)")
  case True
  then have run: "transition_locked now (PStr ''closed'') s db = Inr (s', db')"
    using assms(3) by (simp add: refresh_expiry_def)
  have "state s' = Closed"
    using transition_locked_keeps(7) [OF assms(1,2) run] by (cases "state s'") simp_all
  then show ?thesis
    using transition_locked_ok(1-3) [OF assms(1,2) run] transition_locked_keeps(1) [OF assms(1,2) run]
    by simp
next
  case False
  then have "s' = s \<and> db' = db" using assms(3) by (auto simp: refresh_expiry_def split: if_splits)
  then show ?thesis using assms(1,2) by simp
qed

lemma event_row_mem: "event_row event_id db = Inr e \<Longrightarrow> e \<in> set (events db)"
  by (auto simp: event_row_def bind_res_Inr_iff split: option.splits dest: find_Some)

lemma qna_session_row:
  assumes "qna_session event_id db = Inr (e, s)"
  shows "s \<in> set (sessions db)" "e \<in> set (events db)" "session_event s = ev_pk e"
    "event_row event_id db = Inr e"
proof -
  from assms have e: "event_row event_id db = Inr e"
    and "List.find (\<lambda>s. session_event s = ev_pk e) (sessions db) = Some s"
    by (auto simp: qna_session_def bind_res_Inr_iff split: option.splits)
  then show "s \<in> set (sessions db)" "e \<in> set (events db)" "session_event s = ev_pk e"
    "event_row event_id db = Inr e"
    using event_row_mem find_Some by fastforce+
qed

lemma audit_if_simps [simp]:
  "events (audit_if c a s m db) = events db" "sessions (audit_if c a s m db) = sessions db"
  "questions (audit_if c a s m db) = questions db" "votes (audit_if c a s m db) = votes db"
  "invites (audit_if c a s m db) = invites db" "rates (audit_if c a s m db) = rates db"
  "jobs (audit_if c a s m db) = jobs db"
  "db_ok (audit_if c a s m db) = db_ok db" "advances d (audit_if c a s m db) = advances d db"
  by (simp_all add: audit_if_def audit_def db_ok_def advances_def questions_of_def split: option.splits)

lemma transition_session_ok:
  assumes "db_ok db" and "transition_session now event_id target ctx db = Inr (s', db')"
  shows "db_ok db' \<and> advances db db'"
proof -
  from assms(2) obtain e s d where "qna_session event_id db = Inr (e, s)"
    and "transition_locked now (PStr target) s db = Inr (s', d)"
    and "db' = audit_if ctx ''events.qna.lifecycle_changed'' s' [(''state'', PStr (lifecycle_value (state s')))] d"
    by (auto simp: transition_session_def bind_res_Inr_iff)
  then show ?thesis
    using transition_locked_ok(1,2) [OF assms(1), of s now "PStr target" s' d] qna_session_row(1) by simp
qed

subsection \<open>update_session\<close>

definition edited :: "session \<Rightarrow> string list \<Rightarrow> session \<Rightarrow> bool" where
  "edited s0 names s \<longleftrightarrow> fold (copy_field s) names s0 = s \<and> session_id s = session_id s0
     \<and> revision s = revision s0 \<and> q_total s = q_total s0 \<and> q_answered s = q_answered s0
     \<and> state s = state s0 \<and> session_ok s \<and> set names \<subseteq> set (setting_names @ [''expires_at'', ''retention_days''])"

lemma clean_settings_names:
  "clean_settings raw base = Inr v \<Longrightarrow>
     get_key ''require_names'' v = PBool True \<Longrightarrow> get_key ''allow_names'' v = PBool True"
  by (cases raw) (auto simp: clean_settings_def bind_res_Inr_iff split: if_splits)

lemma apply_settings_edited:
  assumes "session_ok s" and "apply_settings payload s = Inr (s', names)"
  shows "edited s names s' \<and> set names \<subseteq> set setting_names"
proof (cases "has_key ''settings'' payload")
  case True
  with assms(2) obtain v where v: "clean_settings (get_key ''settings'' payload) (session_settings s) = Inr v"
    and eq: "s' = assign_settings v s" "names = setting_names"
    by (auto simp: apply_settings_def bind_res_Inr_iff)
  have "session_ok s'"
    using assms(1) clean_settings_names [OF v] by (simp add: eq session_ok_def assign_settings_def)
  moreover have "fold (copy_field s') names s = s'"
    unfolding eq by (simp add: copy_field_def setters_def setting_names_def assign_settings_def)
  ultimately show ?thesis by (simp add: edited_def eq assign_settings_def setting_names_def)
qed (use assms in \<open>auto simp: apply_settings_def edited_def\<close>)

lemma copy_field_other:
  "f \<noteq> ''expires_at'' \<Longrightarrow> copy_field (s\<lparr>expires_at := t\<rparr>) f = copy_field s f"
  "f \<noteq> ''retention_days'' \<Longrightarrow> copy_field (s\<lparr>retention_days := d\<rparr>) f = copy_field s f"
  by (rule ext, simp add: copy_field_def setters_def cong: if_cong split del: if_split)+

lemma fold_copy_other:
  "''expires_at'' \<notin> set names \<Longrightarrow> fold (copy_field (s\<lparr>expires_at := t\<rparr>)) names r = fold (copy_field s) names r"
  by (induction names arbitrary: r) (auto simp: copy_field_other)

lemma fold_copy_other':
  "''retention_days'' \<notin> set names \<Longrightarrow> fold (copy_field (s\<lparr>retention_days := d\<rparr>)) names r = fold (copy_field s) names r"
  by (induction names arbitrary: r) (auto simp: copy_field_other)

lemma apply_expiry_edited:
  assumes "edited s0 names s" and "''expires_at'' \<notin> set names"
    and "apply_expiry parse payload (s, names) = Inr (s', names')"
  shows "edited s0 names' s' \<and> set names' \<subseteq> insert ''expires_at'' (set names)"
proof (cases "has_key ''expires_at'' payload")
  case True
  with assms(3) obtain t where eq: "s' = s\<lparr>expires_at := t\<rparr>" "names' = names @ [''expires_at'']"
    by (auto simp: apply_expiry_def bind_res_Inr_iff)
  have "fold (copy_field s') names' s0 = s'"
    using assms(1,2) by (simp add: eq fold_copy_other edited_def) (simp add: copy_field_def setters_def)
  then show ?thesis using assms(1) by (auto simp: edited_def eq session_ok_def)
qed (use assms in \<open>auto simp: apply_expiry_def\<close>)

lemma apply_retention_edited:
  assumes "edited s0 names s" and "''retention_days'' \<notin> set names"
    and "apply_retention payload (s, names) = Inr (s', names')"
  shows "edited s0 names' s'"
proof (cases "has_key ''retention_days'' payload")
  case True
  with assms(3) obtain d where eq: "s' = s\<lparr>retention_days := Some d\<rparr>" "names' = names @ [''retention_days'']"
    and d: "1 \<le> d"
    by (auto simp: apply_retention_def split: pyval.splits if_splits)
  have "fold (copy_field s') names' s0 = s'"
    using assms(1,2) by (simp add: eq fold_copy_other' edited_def) (simp add: copy_field_def setters_def)
  then show ?thesis using assms(1) d by (auto simp: edited_def eq session_ok_def)
qed (use assms in \<open>auto simp: apply_retention_def\<close>)

lemma apply_fields_edited:
  assumes "session_ok s" and "apply_settings payload s = Inr a" and "apply_expiry parse payload a = Inr b"
    and "apply_retention payload b = Inr (s', names)"
  shows "edited s names s'"
proof -
  obtain s1 n1 s2 n2 where ab: "a = (s1, n1)" "b = (s2, n2)" by (cases a, cases b)
  have 1: "edited s n1 s1 \<and> set n1 \<subseteq> set setting_names"
    using apply_settings_edited [OF assms(1)] assms(2) by (simp add: ab)
  then have "''expires_at'' \<notin> set n1" by (auto simp: setting_names_def)
  with 1 have 2: "edited s n2 s2 \<and> set n2 \<subseteq> insert ''expires_at'' (set n1)"
    using apply_expiry_edited [of s n1 s1 parse payload s2 n2] assms(3) by (simp add: ab)
  with 1 have "''retention_days'' \<notin> set n2" by (auto simp: setting_names_def)
  with 2 show ?thesis
    using apply_retention_edited [of s n2 s2 payload s' names] assms(4) by (simp add: ab)
qed

lemma write_edited:
  assumes "db_ok db" "s0 \<in> set (sessions db)" "edited s0 names s"
    and "(if names \<noteq> [] then bump_session now names s db else Inr (s, db)) = Inr (s', db')"
  shows "db_ok db' \<and> advances db db' \<and> s' \<in> set (sessions db') \<and> state s' = state s0
    \<and> session_id s' = session_id s0"
proof (cases "names = []")
  case True
  have "s' = s" "db' = db" using assms(4) by (simp_all add: True)
  moreover have "fold (copy_field s) [] s0 = s" using assms(3) unfolding edited_def True by (elim conjE)
  ultimately show ?thesis using assms(1,2) by simp
next
  case False
  have e: "session_id s = session_id s0" "revision s = revision s0"
    "(fold (copy_field s) names s0)\<lparr>updated_at := updated_at s\<rparr> = s" "session_ok s"
    "q_total s = q_total s0" "q_answered s = q_answered s0"
    using assms(3) by (simp_all add: edited_def)
  obtain d where d: "bump_session now names s db = Inr (bumped now s, d)"
    and new: "db_ok d" "advances db d" "bumped now s \<in> set (sessions d)"
    by (rule write_session_only [OF assms(1,2) e])
  have eq: "s' = bumped now s" "db' = d" using assms(4) False by (simp_all add: d)
  have "state s = state s0" using assms(3) by (simp only: edited_def)
  then show ?thesis unfolding eq using new e(1) by simp
qed

lemma update_session_body_ok:
  assumes ok: "db_ok db" and s: "s \<in> set (sessions db)"
    and run: "update_session_body now parse payload ctx s db = Inr (s', db')"
  shows "db_ok db' \<and> advances db db'"
proof -
  obtain s1 d1 where r: "refresh_expiry now s db = Inr (s1, d1)"
    using run by (auto simp: update_session_body_def)
  obtain a where a: "apply_settings payload s1 = Inr a"
    using run r by (cases "apply_settings payload s1") (auto simp: update_session_body_def split: if_splits)
  obtain b where b: "apply_expiry parse payload a = Inr b"
    using run r a by (cases "apply_expiry parse payload a") (auto simp: update_session_body_def split: if_splits)
  obtain s2 names where c: "apply_retention payload b = Inr (s2, names)"
    using run r a b by (cases "apply_retention payload b") (auto simp: update_session_body_def split: if_splits)
  note f = a b c
  obtain s3 d3 where w: "(if names \<noteq> [] then bump_session now names s2 d1 else Inr (s2, d1)) = Inr (s3, d3)"
    using run r f by (cases "if names \<noteq> [] then bump_session now names s2 d1 else Inr (s2, d1)")
      (auto simp: update_session_body_def split: if_splits)
  obtain s4 d4 where t: "(if has_key ''state'' payload then transition_locked now (get_key ''state'' payload) s3 d3
             else Inr (s3, d3)) = Inr (s4, d4)"
    using run r f w by (cases "if has_key ''state'' payload then transition_locked now (get_key ''state'' payload) s3 d3
             else Inr (s3, d3)") (auto simp: update_session_body_def split: if_splits)
  obtain meta where out: "db' = audit_if ctx ''events.qna.session_updated'' s4 meta d4"
    using run unfolding update_session_body_def r f w t bind_res_simps prod.case
    by (auto split: if_splits)
  from refresh_expiry_ok [OF ok s r] have 1: "db_ok d1" "advances db d1" "s1 \<in> set (sessions d1)" by auto
  have "edited s1 names s2" using apply_fields_edited [OF _ f] db_ok_dest(4) [OF 1(1,3)] by simp
  from write_edited [OF 1(1,3) this w] have 3: "db_ok d3" "advances d1 d3" "s3 \<in> set (sessions d3)" by auto
  have "db_ok d4 \<and> advances d3 d4"
  proof (cases "has_key ''state'' payload")
    case True
    then have "transition_locked now (get_key ''state'' payload) s3 d3 = Inr (s4, d4)" using t by simp
    then show ?thesis using transition_locked_ok(1,2) [OF 3(1,3)] by blast
  qed (use t 3 in auto)
  then show ?thesis
    using 1(2) 3(2) by (auto simp: out intro: advances_trans)
qed

lemma update_session_ok:
  assumes "db_ok db" and "update_session now parse event_id payload role expected ctx db = Inr (s', db')"
  shows "db_ok db' \<and> advances db db'"
proof -
  from assms(2) obtain e s where s: "qna_session event_id db = Inr (e, s)"
    and run: "update_session_body now parse payload ctx s db = Inr (s', db')"
    by (auto simp: update_session_def bind_res_Inr_iff split: if_splits option.splits)
  then show ?thesis using update_session_body_ok [OF assms(1) qna_session_row(1) [OF s] run] by simp
qed

end
