(* ===== verification/Qna_Moderation.thy ===== *)
theory Qna_Moderation
  imports Qna_Preservation
begin

text \<open>
  The question operations keep the invariant: submission, the status and pin transitions of
  \<open>update_question\<close>, and votes. The in-memory question and session are the stored rows whenever a
  step starts, which is what makes the partial column writes of the code add up.
\<close>

subsection \<open>Rewriting one question row\<close>

lemma save_question_row:
  assumes "distinct (map question_id (questions db))" and "q \<in> set (questions db)"
    and "question_id (f q) = question_id q"
  shows "save_question f (question_id q) db = db\<lparr>questions := put_row question_id (f q) (questions db)\<rparr>"
  using update_where_row [of question_id "questions db" q f "\<lambda>r. question_id r = question_id q"] assms
  by (simp add: save_question_def)

lemma others_put_row:
  assumes "distinct (map question_id qs)" and "q \<in> set qs" and "question_id q' = question_id q"
    and "q_session q = sid" and "q_session q' = sid"
  shows "others sid (put_row question_id q' qs) = others sid qs"
proof (rule filter_put_row)
  fix x assume "x \<in> set qs" "question_id x = question_id q'"
  then have "x = q" using distinct_key_eq [OF assms(1) _ assms(2)] assms(3) by simp
  then show "\<not> q_session x \<noteq> sid" using assms(4) by simp
qed (use assms(5) in simp)

lemma ids_put_row: "question_id ` set (put_row question_id q' qs) = question_id ` set qs"
  using keys_put_row [of question_id q' qs] by (metis list.set_map)

text \<open>The write that replaces \<open>q\<close> by \<open>q'\<close> and its session row \<open>s0\<close> by the bumped \<open>s\<close>.\<close>

lemma write_question:
  assumes ok: "db_ok db" and s0: "s0 \<in> set (sessions db)" and q: "q \<in> set (questions db)"
    and sess: "q_session q = session_id s0" and alive: "status q \<noteq> Deleted"
    and q': "question_id q' = question_id q" "q_session q' = q_session q" "question_ok q'"
    and inst: "session_id s = session_id s0" "revision s = revision s0"
      "(fold (copy_field s) names s0)\<lparr>updated_at := updated_at s\<rparr> = s"
    and s: "session_ok s" "counters_ok s (put_row question_id q' (questions db))"
    and vs: "distinct vs" "\<And>v. v \<in> set vs \<Longrightarrow> v_question v \<in> question_id ` set (questions db)"
      "score q' = count_where (\<lambda>v. v_question v = question_id q) vs"
      "\<And>r :: question. question_id r \<noteq> question_id q \<Longrightarrow> count_where (\<lambda>v. v_question v = question_id r) vs
         = count_where (\<lambda>v. v_question v = question_id r) (votes db)"
  obtains db' where "bump_session now names s
      (db\<lparr>questions := put_row question_id q' (questions db), votes := vs\<rparr>) = Inr (bumped now s, db')"
    and "questions db' = put_row question_id q' (questions db)" "votes db' = vs"
    and "db_ok db'" and "advances db db'" and "bumped now s \<in> set (sessions db')" and "q' \<in> set (questions db')"
proof -
  let ?qs = "put_row question_id q' (questions db)"
  have d: "distinct (map question_id (questions db))" using ok by (rule db_ok_dest)
  have set_qs: "set ?qs = insert q' {r \<in> set (questions db). question_id r \<noteq> question_id q}"
    using set_put_row [OF q q'(1) [symmetric]] q'(1) by simp
  have f1: "\<forall>r \<in> set ?qs. question_ok r \<and> score r = count_where (\<lambda>v. v_question v = question_id r) vs"
    using q'(1,3) vs(3,4) db_ok_dest(5) [OF ok] by (auto simp: set_qs)
  have f2: "\<forall>r \<in> set (questions db). status r = Deleted \<longrightarrow> r \<in> set ?qs"
  proof (intro ballI impI)
    fix r assume "r \<in> set (questions db)" "status r = Deleted"
    then show "r \<in> set ?qs" using alive distinct_key_eq [OF d _ q, of r] by (auto simp: set_qs)
  qed
  have f3: "distinct (map question_id ?qs)" using d by simp
  have f4: "others (session_id s) ?qs = others (session_id s) (questions db)"
    using others_put_row [OF d q q'(1)] sess q'(2) inst(1) by simp
  have f5: "\<forall>v \<in> set vs. v_question v \<in> question_id ` set ?qs"
    using vs(2) by (auto simp: ids_put_row)
  obtain db' where
    bump: "bump_session now names s (db\<lparr>questions := ?qs, votes := vs\<rparr>) = Inr (bumped now s, db')"
    and eq: "db' = db\<lparr>sessions := put_row session_id (bumped now s) (sessions db), questions := ?qs, votes := vs\<rparr>"
    and new: "db_ok db'" "advances db db'" "bumped now s \<in> set (sessions db')"
    by (rule write_session [OF ok s0 inst s f3 f4 vs(1) f5 f1 f2])
  note bump new
  moreover have "q' \<in> set (questions db')" by (simp add: eq set_qs)
  moreover have "questions db' = ?qs" "votes db' = vs" by (simp_all add: eq)
  ultimately show ?thesis using that by blast
qed

text \<open>The state between two steps of \<open>update_question\<close>.\<close>

definition synced :: "session \<Rightarrow> question \<Rightarrow> db \<Rightarrow> bool" where
  "synced s q db \<longleftrightarrow> db_ok db \<and> s \<in> set (sessions db) \<and> q \<in> set (questions db)
     \<and> q_session q = session_id s"

lemma syncedD:
  assumes "synced s q db"
  shows "db_ok db" "s \<in> set (sessions db)" "q \<in> set (questions db)" "q_session q = session_id s"
    "session_ok s" "counters_ok s (questions db)" "question_ok q"
    "score q = count_where (\<lambda>v. v_question v = question_id q) (votes db)"
    "distinct (map question_id (questions db))" "distinct (votes db)"
    "\<And>v. v \<in> set (votes db) \<Longrightarrow> v_question v \<in> question_id ` set (questions db)"
  using assms db_ok_dest [of db] by (auto simp: synced_def)

lemma db_votes_update: "db\<lparr>questions := qs, votes := votes db\<rparr> = db\<lparr>questions := qs\<rparr>"
  by simp

text \<open>The write where no vote changes.\<close>

lemma write_question_votes:
  assumes sync: "synced s0 q db" and alive: "status q \<noteq> Deleted"
    and q': "question_id q' = question_id q" "q_session q' = q_session q" "question_ok q'" "score q' = score q"
    and inst: "session_id s = session_id s0" "revision s = revision s0"
      "(fold (copy_field s) names s0)\<lparr>updated_at := updated_at s\<rparr> = s"
    and s: "session_ok s" "counters_ok s (put_row question_id q' (questions db))"
  obtains db' where "bump_session now names s (db\<lparr>questions := put_row question_id q' (questions db)\<rparr>)
      = Inr (bumped now s, db')"
    and "synced (bumped now s) q' db'" and "advances db db'"
    and "questions db' = put_row question_id q' (questions db)" "votes db' = votes db"
proof -
  note d = syncedD [OF sync]
  obtain db' where "bump_session now names s (db\<lparr>questions := put_row question_id q' (questions db), votes := votes db\<rparr>)
      = Inr (bumped now s, db')"
    and q: "questions db' = put_row question_id q' (questions db)" "votes db' = votes db"
    and db': "db_ok db'" "advances db db'" "bumped now s \<in> set (sessions db')" "q' \<in> set (questions db')"
    using write_question [OF d(1,2,3,4) alive q'(1,2,3) inst s d(10,11) _ refl, where now = now and thesis = thesis] q'(4) d(8)
    by metis
  moreover have "synced (bumped now s) q' db'"
    using db' q'(2) d(4) inst(1) by (simp add: synced_def)
  ultimately show ?thesis using that [of db'] by (simp only: db_votes_update)
qed

subsection \<open>The steps of update_question\<close>

definition step_ok :: "session \<Rightarrow> question \<Rightarrow> db \<Rightarrow> session \<Rightarrow> question \<Rightarrow> db \<Rightarrow> bool" where
  "step_ok s q db s' q' db' \<longleftrightarrow> synced s' q' db' \<and> advances db db'
     \<and> session_id s' = session_id s \<and> question_id q' = question_id q"

lemma step_ok_refl: "synced s q db \<Longrightarrow> step_ok s q db s q db"
  by (simp add: step_ok_def)

lemma step_ok_trans: "step_ok s q db s' q' db' \<Longrightarrow> step_ok s' q' db' s'' q'' db'' \<Longrightarrow> step_ok s q db s'' q'' db''"
  by (auto simp: step_ok_def intro: advances_trans)

text \<open>How replacing one row of a room moves the three counts.\<close>

lemma counts_put_row:
  assumes "synced s q db" and "question_id q' = question_id q" and "q_session q' = q_session q"
  shows "counters_ok t (put_row question_id q' (questions db)) \<longleftrightarrow>
    (let in_room = (session_id t = session_id s);
         moved = (\<lambda>P. count_where (\<lambda>r. q_session r = session_id t \<and> P r) (questions db)
                   + (if in_room then (if P q' then 1 else 0) - (if P q then 1 else 0) else 0))
     in q_total t = moved (\<lambda>r. status r \<noteq> Deleted) \<and> q_answered t = moved (\<lambda>r. status r = Answered)
        \<and> moved pinned \<le> 1)"
proof -
  note d = syncedD [OF assms(1)]
  have "count_where (\<lambda>r. q_session r = session_id t \<and> P r) (put_row question_id q' (questions db))
      = count_where (\<lambda>r. q_session r = session_id t \<and> P r) (questions db)
        + (if session_id t = session_id s then (if P q' then 1 else 0) - (if P q then 1 else 0) else 0)" for P
    using count_where_put_row [OF d(9,3) assms(2), of "\<lambda>r. q_session r = session_id t \<and> P r"]
      assms(3) d(4) by auto
  then show ?thesis unfolding counters_ok_def Let_def by simp
qed

lemma apply_text_ok:
  assumes sync: "synced s q db" and alive: "has_key ''text'' payload \<longrightarrow> status q \<noteq> Deleted"
    and run: "apply_text now payload s q db = Inr (s', q', db')"
  shows "step_ok s q db s' q' db' \<and> status q' = status q"
proof (cases "has_key ''text'' payload")
  case True
  note d = syncedD [OF sync]
  from run True obtain body where body: "validate_text (get_key ''text'' payload) = Inr body"
    and bump: "bump_session now [] s (save_question (\<lambda>r. r\<lparr>q_text := body\<rparr>) (question_id q) db) = Inr (s', db')"
    and q': "q' = q\<lparr>q_text := body\<rparr>"
    by (auto simp: apply_text_def Let_def bind_res_Inr_iff)
  have "1 \<le> length body \<and> length body \<le> max_question_length"
    using body by (auto simp: validate_text_def Let_def split: pyval.splits if_splits)
  then have ok: "question_ok (q\<lparr>q_text := body\<rparr>)" using d(7) by (simp add: question_ok_def)
  have "counters_ok s (put_row question_id (q\<lparr>q_text := body\<rparr>) (questions db))"
    using d(6) counts_put_row [OF sync, of "q\<lparr>q_text := body\<rparr>" s]
    by (auto simp: Let_def counters_ok_def)
  then obtain d' where
    "bump_session now [] s (db\<lparr>questions := put_row question_id (q\<lparr>q_text := body\<rparr>) (questions db)\<rparr>)
       = Inr (bumped now s, d')"
    and "synced (bumped now s) (q\<lparr>q_text := body\<rparr>) d'" and "advances db d'"
    using write_question_votes [OF sync _ _ _ ok, of s "[]", where now = now and thesis = thesis] alive True d(5)
    by auto
  with bump q' show ?thesis
    using save_question_row [OF d(9,3), of "\<lambda>r. r\<lparr>q_text := body\<rparr>"] by (auto simp: step_ok_def)
next
  case False
  then show ?thesis using run sync by (simp add: apply_text_def step_ok_refl)
qed

text \<open>The counter arithmetic of \<open>_set_status_locked\<close>.\<close>

definition restated :: "datetime \<Rightarrow> qstatus \<Rightarrow> question \<Rightarrow> question" where
  "restated now t q = q\<lparr>status := t, answered_at := (if t = Answered then Some now else None),
     pinned := (pinned q \<and> t = Visible)\<rparr>"

definition recounted :: "qstatus \<Rightarrow> qstatus \<Rightarrow> session \<Rightarrow> session" where
  "recounted old new s = s\<lparr>
     q_answered := (if old = Answered then max 0 (q_answered s - 1) else q_answered s)
                   + (if new = Answered then 1 else 0),
     q_total := (if new = Deleted then max 0 (q_total s - 1) else q_total s)\<rparr>"

lemma set_status_cases:
  "set_status_locked now s q (qstatus_value t) db =
     (if status q = t then Inr (s, q, db)
      else if status q = Deleted then Inl deleted_error
      else bind_res (bump_session now [''q_total'', ''q_answered''] (recounted (status q) t s)
             (save_question (\<lambda>r. r\<lparr>status := t, answered_at := answered_at (restated now t q),
                pinned := pinned (restated now t q)\<rparr>) (question_id q) db))
           (\<lambda>(s, db). Inr (s, restated now t q, db)))"
  unfolding set_status_locked_def choice_of_value option.case Let_def
  by (cases t; cases "status q") (simp_all add: restated_def recounted_def)

lemma restated_simps [simp]:
  "question_id (restated now t q) = question_id q" "q_session (restated now t q) = q_session q"
  "status (restated now t q) = t" "score (restated now t q) = score q"
  "pinned (restated now t q) \<longleftrightarrow> pinned q \<and> t = Visible"
  "question_ok q \<Longrightarrow> question_ok (restated now t q)"
  by (simp_all add: restated_def question_ok_def)

lemma recounted_simps [simp]:
  "session_id (recounted a b s) = session_id s" "revision (recounted a b s) = revision s"
  "session_ok (recounted a b s) = session_ok s" "state (recounted a b s) = state s"
  "(fold (copy_field (recounted a b s)) [''q_total'', ''q_answered''] s)
     \<lparr>updated_at := updated_at (recounted a b s)\<rparr> = recounted a b s"
  by (simp_all add: recounted_def session_ok_def copy_field_def setters_def)

lemma recounted_ok:
  assumes sync: "synced s q db" and "status q \<noteq> t" and "status q \<noteq> Deleted"
  shows "counters_ok (recounted (status q) t s) (put_row question_id (restated now t q) (questions db))"
proof -
  note d = syncedD [OF sync]
  have "1 \<le> q_total s"
    using d(3,4,6) assms(3) count_where_pos [of q "questions db" "\<lambda>r. q_session r = session_id s \<and> status r \<noteq> Deleted"]
    by (simp add: counters_ok_def)
  moreover have "status q = Answered \<Longrightarrow> 1 \<le> q_answered s"
    using d(3,4,6) count_where_pos [of q "questions db" "\<lambda>r. q_session r = session_id s \<and> status r = Answered"]
    by (simp add: counters_ok_def)
  ultimately show ?thesis
    using d(6) assms(2,3) counts_put_row [OF sync, of "restated now t q" "recounted (status q) t s"]
    by (cases t; cases "status q") (auto simp: Let_def counters_ok_def recounted_def)
qed

lemma qstatus_of_Some: "qstatus_of u = Some t \<longleftrightarrow> u = qstatus_value t"
proof
  assume "qstatus_of u = Some t"
  from find_Some [OF this [unfolded qstatus_of_def]] show "u = qstatus_value t" by simp
qed simp

lemma set_status_ok:
  assumes sync: "synced s q db" and run: "set_status_locked now s q target db = Inr (s', q', db')"
  shows "step_ok s q db s' q' db' \<and> target = qstatus_value (status q')
    \<and> (status q = Deleted \<longrightarrow> s' = s \<and> q' = q \<and> db' = db)"
proof -
  note d = syncedD [OF sync]
  from run obtain t where t: "target = qstatus_value t"
    by (auto simp: set_status_locked_def qstatus_of_Some split: option.splits)
  show ?thesis
  proof (cases "status q = t")
    case True
    then show ?thesis using run sync by (simp add: t set_status_cases step_ok_refl)
  next
    case False
    let ?s = "recounted (status q) t s" and ?q = "restated now t q"
    from run False have alive: "status q \<noteq> Deleted" by (auto simp: t set_status_cases)
    let ?save = "save_question (\<lambda>r. r\<lparr>status := t, answered_at := answered_at ?q, pinned := pinned ?q\<rparr>) (question_id q) db"
    have save: "?save = db\<lparr>questions := put_row question_id ?q (questions db)\<rparr>"
      by (subst save_question_row [OF d(9,3)]) (simp_all add: restated_def)
    have ok: "counters_ok ?s (put_row question_id ?q (questions db))"
      using recounted_ok [OF sync False alive] .
    obtain d' where bump: "bump_session now [''q_total'', ''q_answered''] ?s ?save = Inr (bumped now ?s, d')"
      and new: "synced (bumped now ?s) ?q d'" "advances db d'"
      unfolding save
      by (rule write_question_votes [OF sync alive restated_simps(1,2) restated_simps(6) [OF d(7)]
            restated_simps(4) recounted_simps(1,2,5) _ ok])
        (use d(5) in simp)
    have "set_status_locked now s q target db = Inr (bumped now ?s, ?q, d')"
      using False alive bump by (simp add: t set_status_cases)
    with run have "s' = bumped now ?s" "q' = ?q" "db' = d'" by simp_all
    then show ?thesis using new alive t by (simp add: step_ok_def)
  qed
qed

subsection \<open>Pinning\<close>

definition unpin_others :: "session \<Rightarrow> question \<Rightarrow> db \<Rightarrow> db" where
  "unpin_others s q db = db\<lparr>questions := update_where
     (\<lambda>r. q_session r = session_id s \<and> pinned r \<and> question_id r \<noteq> question_id q)
     (\<lambda>r. r\<lparr>pinned := False\<rparr>) (questions db)\<rparr>"

lemma set_pin_cases:
  "set_pin_locked now s q pin db =
     (if status q = Deleted then Inl (QnaError 409 ''deleted'' ''A deleted question cannot be pinned.'')
      else bind_res (bump_session now [] s (save_question (\<lambda>r. r\<lparr>pinned := pin\<rparr>) (question_id q)
             (if pin then unpin_others s q db else db)))
           (\<lambda>(s, db). Inr (s, q\<lparr>pinned := pin\<rparr>, db)))"
  by (simp add: set_pin_locked_def unpin_others_def Let_def)

text \<open>
  Unpinning the others is itself harmless: it leaves a good store whose room has no pin but
  possibly the one of \<open>q\<close>.
\<close>

lemma count_where_update:
  "(\<And>r. P (f r) = P r) \<Longrightarrow> count_where P (update_where Q f rows) = count_where P rows"
  by (induction rows) (auto simp: count_where_def update_where_def)

lemma question_ok_unpin: "question_ok q \<Longrightarrow> question_ok (q\<lparr>pinned := False\<rparr>)"
  by (simp add: question_ok_def)

lemma unpin_others_ok:
  assumes sync: "synced s q db"
  shows "db_ok (unpin_others s q db)" and "q \<in> set (questions (unpin_others s q db))"
    and "s \<in> set (sessions (unpin_others s q db))"
    and "\<forall>r \<in> set (questions (unpin_others s q db)). q_session r = session_id s \<and> pinned r \<longrightarrow> r = q"
    and "\<forall>r \<in> set (questions db). status r = Deleted \<longrightarrow> r \<in> set (questions (unpin_others s q db))"
    and "others (session_id s) (questions (unpin_others s q db)) = others (session_id s) (questions db)"
proof -
  note d = syncedD [OF sync]
  let ?P = "\<lambda>r. q_session r = session_id s \<and> pinned r \<and> question_id r \<noteq> question_id q"
  let ?f = "\<lambda>r :: question. r\<lparr>pinned := False\<rparr>"
  let ?qs = "update_where ?P ?f (questions db)"
  have qs: "questions (unpin_others s q db) = ?qs" "votes (unpin_others s q db) = votes db"
    "sessions (unpin_others s q db) = sessions db" by (simp_all add: unpin_others_def)
  have ids: "map question_id ?qs = map question_id (questions db)"
    by (simp add: update_where_def)
  then have ids': "question_id ` set ?qs = question_id ` set (questions db)" by (metis list.set_map)
  show mem: "q \<in> set (questions (unpin_others s q db))"
    using d(3) by (force simp: qs update_where_def)
  show "s \<in> set (sessions (unpin_others s q db))" using d(2) by (simp add: qs)
  show only: "\<forall>r \<in> set (questions (unpin_others s q db)). q_session r = session_id s \<and> pinned r \<longrightarrow> r = q"
    using distinct_key_eq [OF d(9) _ d(3)] by (auto simp: qs update_where_def)
  show "\<forall>r \<in> set (questions db). status r = Deleted \<longrightarrow> r \<in> set (questions (unpin_others s q db))"
    using db_ok_dest(5) [OF d(1)] by (force simp: qs update_where_def question_ok_def)
  show "others (session_id s) (questions (unpin_others s q db)) = others (session_id s) (questions db)"
  proof -
    have "others (session_id s) (update_where ?P ?f rows) = others (session_id s) rows" for rows
      by (induction rows) (auto simp: update_where_def)
    then show ?thesis by (simp only: qs)
  qed
  have count: "count_where (\<lambda>r. q_session r = sid \<and> status r \<noteq> Deleted) ?qs
        = count_where (\<lambda>r. q_session r = sid \<and> status r \<noteq> Deleted) (questions db)"
      "count_where (\<lambda>r. q_session r = sid \<and> status r = Answered) ?qs
        = count_where (\<lambda>r. q_session r = sid \<and> status r = Answered) (questions db)" for sid
    by (rule count_where_update, simp)+
  have pins: "count_where (\<lambda>r. q_session r = sid \<and> pinned r) ?qs
      \<le> count_where (\<lambda>r. q_session r = sid \<and> pinned r) (questions db)" for sid
  proof -
    have "count_where (\<lambda>r. q_session r = sid \<and> pinned r) (update_where ?P ?f rows)
        \<le> count_where (\<lambda>r. q_session r = sid \<and> pinned r) rows" for rows
      by (induction rows) (auto simp: update_where_def count_where_def)
    then show ?thesis .
  qed
  have "counters_ok t ?qs" if "t \<in> set (sessions db)" for t
    using db_ok_dest(4) [OF d(1) that] count [of "session_id t"] pins [of "session_id t"]
    by (simp add: counters_ok_def)
  moreover have "question_ok r \<and> score r = count_where (\<lambda>v. v_question v = question_id r) (votes db)"
    if "r \<in> set ?qs" for r
    using that db_ok_dest(5) [OF d(1)] by (auto simp: update_where_def question_ok_unpin)
  moreover have "q_session r \<in> session_id ` set (sessions db)" if "r \<in> set ?qs" for r
    using that db_ok_dest(7) [OF d(1)] d(2) by (auto simp: update_where_def)
  ultimately show "db_ok (unpin_others s q db)"
    using d(1) ids ids' by (simp add: db_ok_def qs)
qed

text \<open>Preparing the questions of one room and then bumping its row advances the store.\<close>

lemma advances_prepared:
  assumes prep: "sessions db1 = sessions db"
      "others sid (questions db1) = others sid (questions db)"
      "\<forall>r \<in> set (questions db). status r = Deleted \<longrightarrow> r \<in> set (questions db1)"
    and adv: "advances db1 db'" and distinct: "distinct (map session_id (sessions db'))"
    and up: "s' \<in> set (sessions db')" "session_id s' = sid"
      "\<And>s. s \<in> set (sessions db) \<Longrightarrow> session_id s = sid \<Longrightarrow> revision s < revision s'"
  shows "advances db db'"
  unfolding advances_def
proof (intro conjI ballI impI)
  fix t assume t: "t \<in> set (sessions db)"
  then obtain t' where t': "t' \<in> set (sessions db')" "session_id t' = session_id t"
    "content t' = content t \<and> questions_of (session_id t) db' = questions_of (session_id t) db1 \<or> revision t < revision t'"
    using adv prep(1) unfolding advances_def by metis
  show "\<exists>t' \<in> set (sessions db'). session_id t' = session_id t
      \<and> (content t' = content t \<and> questions_of (session_id t) db' = questions_of (session_id t) db \<or> revision t < revision t')"
  proof (cases "session_id t = sid")
    case True
    then show ?thesis using up t by (intro bexI [of _ s']) auto
  next
    case False
    then have "questions_of (session_id t) db1 = questions_of (session_id t) db"
      using filter_others [OF prep(2)] by (simp add: questions_of_def)
    then show ?thesis using t' by (intro bexI [of _ t']) auto
  qed
qed (use prep(3) adv in \<open>auto simp: advances_def\<close>)

lemma set_pin_ok:
  assumes sync: "synced s q db" and run: "set_pin_locked now s q pin db = Inr (s', q', db')"
  shows "step_ok s q db s' q' db' \<and> pinned q' = pin \<and> status q' = status q"
proof -
  let ?db = "if pin then unpin_others s q db else db"
  let ?q = "q\<lparr>pinned := pin\<rparr>"
  note u = unpin_others_ok [OF sync]
  have sess: "sessions ?db = sessions db" by (simp add: unpin_others_def)
  have sync1: "synced s q ?db"
    using sync u(1-3) by (auto simp: synced_def)
  note d = syncedD [OF sync1]
  from run have alive: "status q \<noteq> Deleted"
    and bump: "bump_session now [] s (save_question (\<lambda>r. r\<lparr>pinned := pin\<rparr>) (question_id q) ?db) = Inr (s', db')"
    and q': "q' = ?q"
    by (auto simp: set_pin_cases bind_res_Inr_iff split: if_splits)
  have ok: "question_ok ?q" using d(7) alive by (simp add: question_ok_def)
  have pins: "count_where (\<lambda>r. q_session r = session_id s \<and> pinned r) (questions ?db)
      + (if pin then 1 else 0) - (if pinned q then 1 else 0) \<le> 1"
  proof (cases pin)
    case True
    have "count_where (\<lambda>r. q_session r = session_id s \<and> pinned r) (questions ?db)
        \<le> count_where (\<lambda>r. r = q \<and> pinned q) (questions ?db)"
      using u(4) True by (intro count_where_mono) auto
    also have "\<dots> = (if pinned q then 1 else 0)"
      using count_where_one [OF d(9,3)] by (simp add: count_where_none)
    finally show ?thesis using True by simp
  next
    case False
    then show ?thesis using d(6) by (simp add: counters_ok_def)
  qed
  have count: "counters_ok s (put_row question_id ?q (questions ?db))"
    using d(6) pins counts_put_row [OF sync1, of ?q s] by (auto simp: Let_def counters_ok_def)
  obtain d' where d': "bump_session now [] s (?db\<lparr>questions := put_row question_id ?q (questions ?db)\<rparr>)
      = Inr (bumped now s, d')"
    and new: "synced (bumped now s) ?q d'" "advances ?db d'"
    by (rule write_question_votes [OF sync1 alive _ _ ok _ _ _ _ d(5) count, of "[]"]) simp_all
  have "save_question (\<lambda>r. r\<lparr>pinned := pin\<rparr>) (question_id q) ?db
      = ?db\<lparr>questions := put_row question_id ?q (questions ?db)\<rparr>"
    by (rule save_question_row [OF d(9,3)]) simp
  with bump d' have eq: "s' = bumped now s" "db' = d'" by auto
  have "advances db d'"
  proof (rule advances_prepared [OF sess _ _ new(2)])
    show "distinct (map session_id (sessions d'))" using new(1) by (auto simp: synced_def db_ok_def)
    show "bumped now s \<in> set (sessions d')" using new(1) by (simp add: synced_def)
    show "session_id (bumped now s) = session_id s" by simp
    show "others (session_id s) (questions ?db) = others (session_id s) (questions db)"
      using u(6) by simp
    show "\<forall>r \<in> set (questions db). status r = Deleted \<longrightarrow> r \<in> set (questions ?db)"
      using u(5) by simp
    fix r assume "r \<in> set (sessions db)" "session_id r = session_id s"
    then have "r = s" using distinct_key_eq [OF db_ok_dest(1) [OF d(1)]] d(2) sess by metis
    then show "revision r < revision (bumped now s)" by simp
  qed
  then show ?thesis using new(1) by (simp add: step_ok_def eq q')
qed

subsection \<open>update_question\<close>

lemma get_question_Some:
  "get_question qid sid db = Some q \<Longrightarrow> q \<in> set (questions db) \<and> question_id q = qid \<and> q_session q = sid"
  unfolding get_question_def by (auto dest: find_Some)

lemma update_question_body_ok:
  assumes ok: "db_ok db" and s: "s \<in> set (sessions db)"
    and run: "update_question_body now digest qid payload participant moderator ctx s db = Inr (q', db')"
  obtains q where "get_question qid (session_id s) db = Some q"
    and "check_update now digest payload participant moderator q = Inr ()"
    and "db_ok db'" and "advances db db'" and "q' \<in> set (questions db')" and "question_id q' = qid"
    and "q_session q' = session_id s"
proof -
  from run obtain q where q: "get_question qid (session_id s) db = Some q"
    and check: "check_update now digest payload participant moderator q = Inr ()"
    by (auto simp: update_question_body_def split: option.splits)
  from run q check obtain s1 q1 d1 where 1: "apply_text now payload s q db = Inr (s1, q1, d1)"
    by (auto simp: update_question_body_def)
  from run q check 1 obtain s2 q2 d2 where 2: "apply_status now payload s1 q1 d1 = Inr (s2, q2, d2)"
    by (auto simp: update_question_body_def)
  from run q check 1 2 obtain s3 q3 d3 where 3: "apply_pin now payload moderator s2 q2 d2 = Inr (s3, q3, d3)"
    by (auto simp: update_question_body_def)
  from run q check 1 2 3 obtain meta where
    found: "List.find (\<lambda>r. question_id r = question_id q3) (questions d3) = Some q'"
    and out: "db' = (if moderator then audit_if ctx ''events.qna.question_moderated'' s3 meta d3 else d3)"
    by (auto simp: update_question_body_def split: option.splits)
  have sync: "synced s q db" using ok s get_question_Some [OF q] by (simp add: synced_def)
  have "\<not> extra_keys payload [''status''] \<Longrightarrow> \<not> has_key ''text'' payload"
    by (fastforce simp: extra_keys_def has_key_def list_ex_iff)
  then have "has_key ''text'' payload \<longrightarrow> status q \<noteq> Deleted"
    using check by (auto simp: check_update_def Let_def split: if_splits)
  then have s1: "step_ok s q db s1 q1 d1" using apply_text_ok [OF sync _ 1] by blast
  have s2: "step_ok s1 q1 d1 s2 q2 d2"
  proof (cases "get_key ''status'' payload")
    case (PStr t)
    then have "set_status_locked now s1 q1 t d1 = Inr (s2, q2, d2)" using 2 by (simp add: apply_status_def)
    then show ?thesis using set_status_ok [of s1 q1 d1] s1 by (auto simp: step_ok_def)
  qed (use 2 s1 in \<open>auto simp: apply_status_def step_ok_def\<close>)
  have s3: "step_ok s2 q2 d2 s3 q3 d3"
  proof (cases "has_key ''pinned'' payload")
    case True
    then have "set_pin_locked now s2 q2 (get_key ''pinned'' payload = PBool True) d2 = Inr (s3, q3, d3)"
      using 3 by (simp add: apply_pin_def split: if_splits)
    then show ?thesis using set_pin_ok [of s2 q2 d2] s2 by (auto simp: step_ok_def)
  qed (use 3 s2 in \<open>auto simp: apply_pin_def step_ok_def\<close>)
  have step: "step_ok s q db s3 q3 d3"
    using step_ok_trans [OF step_ok_trans [OF s1 s2] s3] .
  then have d3: "synced s3 q3 d3" "advances db d3" "session_id s3 = session_id s" "question_id q3 = question_id q"
    by (simp_all add: step_ok_def)
  have "q' = q3" using find_key [OF syncedD(9,3) [OF d3(1)]] found by simp
  then show ?thesis
    using that [OF q check] syncedD [OF d3(1)] d3(2-4) get_question_Some [OF q] by (auto simp: out)
qed

lemma update_question_ok:
  assumes "db_ok db"
    and run: "update_question now digest event_id qid payload participant moderator ctx expected db = Inr (q', db')"
  obtains e s q where "qna_session event_id db = Inr (e, s)" and "state s \<noteq> Archived"
    and "expected \<noteq> None \<longrightarrow> expected = Some (revision s)"
    and "get_question qid (session_id s) db = Some q"
    and "check_update now digest payload participant moderator q = Inr ()"
    and "db_ok db'" and "advances db db'" and "q' \<in> set (questions db')" and "question_id q' = qid"
proof -
  from run obtain e s where s: "qna_session event_id db = Inr (e, s)" and unarchived: "state s \<noteq> Archived"
    and e: "expected \<noteq> None \<longrightarrow> expected = Some (revision s)"
    and body: "update_question_body now digest qid payload participant moderator ctx s db = Inr (q', db')"
    by (auto simp: update_question_def bind_res_Inr_iff split: if_splits option.splits)
  show ?thesis
    by (rule update_question_body_ok [OF assms(1) qna_session_row(1) [OF s] body]) (rule that [OF s unarchived e])
qed

subsection \<open>submit_question\<close>

lemma validate_text_Inr:
  "validate_text v = Inr t \<Longrightarrow> 1 \<le> length t \<and> length t \<le> max_question_length"
  by (auto simp: validate_text_def Let_def split: pyval.splits if_splits)

lemma validate_name_Inr:
  "validate_name v s = Inr n \<Longrightarrow> length n \<le> max_name_length"
  by (auto simp: validate_name_def bind_res_Inr_iff split: if_splits)

definition submitted :: "datetime \<Rightarrow> string \<Rightarrow> uuid \<Rightarrow> string \<Rightarrow> string \<Rightarrow> string \<Rightarrow> question" where
  "submitted now qid sid body name d =
     \<lparr>question_id = qid, q_session = sid, q_text = body, author_name = name, participant_digest = d,
      status = Visible, score = 1, pinned = False, created_at = now, answered_at = None\<rparr>"

text \<open>The store after the two inserts and the score write.\<close>

lemma submit_rows:
  assumes "create_question ((submitted now qid sid body name d)\<lparr>score := 0\<rparr>) db = Inr d1"
    and "create_vote qid d d1 = Inr d2"
  shows "qid \<notin> question_id ` set (questions db)" and "body \<noteq> []" and "d \<noteq> []"
    and "save_question (\<lambda>r. r\<lparr>score := 1\<rparr>) qid d2 =
      db\<lparr>questions := questions db @ [submitted now qid sid body name d],
         votes := votes db @ [\<lparr>v_question = qid, v_digest = d\<rparr>]\<rparr>"
proof -
  show fresh: "qid \<notin> question_id ` set (questions db)" "body \<noteq> []" "d \<noteq> []"
    using assms(1) by (auto simp: create_question_def submitted_def split: if_splits)
  then have "update_where (\<lambda>q. question_id q = qid) f (questions db) = questions db" for f
    by (auto simp: update_where_def intro!: map_idI)
  then show "save_question (\<lambda>r. r\<lparr>score := 1\<rparr>) qid d2 =
      db\<lparr>questions := questions db @ [submitted now qid sid body name d],
         votes := votes db @ [\<lparr>v_question = qid, v_digest = d\<rparr>]\<rparr>"
    using assms by (auto simp: create_question_def create_vote_def save_question_def submitted_def
        update_where_def split: if_splits)
qed

lemma write_submission:
  assumes ok: "db_ok db" and s: "s \<in> set (sessions db)"
    and fresh: "qid \<notin> question_id ` set (questions db)"
    and body: "1 \<le> length body" "length body \<le> max_question_length"
    and name: "length name \<le> max_name_length" and dig: "d \<noteq> []"
  obtains db' where "bump_session now [''q_total''] (s\<lparr>q_total := q_total s + 1\<rparr>)
      (db\<lparr>questions := questions db @ [submitted now qid (session_id s) body name d],
          votes := votes db @ [\<lparr>v_question = qid, v_digest = d\<rparr>]\<rparr>) = Inr (bumped now (s\<lparr>q_total := q_total s + 1\<rparr>), db')"
    and "db' = db\<lparr>sessions := put_row session_id (bumped now (s\<lparr>q_total := q_total s + 1\<rparr>)) (sessions db),
          questions := questions db @ [submitted now qid (session_id s) body name d],
          votes := votes db @ [\<lparr>v_question = qid, v_digest = d\<rparr>]\<rparr>"
    and "db_ok db'" and "advances db db'"
proof -
  let ?q = "submitted now qid (session_id s) body name d"
  let ?qs = "questions db @ [?q]" and ?vs = "votes db @ [\<lparr>v_question = qid, v_digest = d\<rparr>]"
  let ?s = "s\<lparr>q_total := q_total s + 1\<rparr>"
  note D = db_ok_dest [OF ok]
  have new: "v_question v \<noteq> qid" if "v \<in> set (votes db)" for v using D(6) [OF that] fresh by auto
  have "\<lparr>v_question = qid, v_digest = d\<rparr> \<notin> set (votes db)" using new by force
  then have dv: "distinct ?vs" using D(3) by simp
  have rv: "\<forall>v \<in> set ?vs. v_question v \<in> question_id ` set ?qs"
    using D(6) by (auto simp: submitted_def)
  have dq: "distinct (map question_id ?qs)" using D(2) fresh by (simp add: submitted_def)
  have oth: "others (session_id ?s) ?qs = others (session_id ?s) (questions db)" by (simp add: submitted_def)
  have rows: "question_ok r \<and> score r = count_where (\<lambda>v. v_question v = question_id r) ?vs" if "r \<in> set ?qs" for r
  proof (cases "r = ?q")
    case True
    have "count_where (\<lambda>v. v_question v = qid) (votes db) = 0" using new by (intro count_where_none) auto
    then show ?thesis using True body name dig
      by (simp add: submitted_def question_ok_def)
  next
    case False
    then have r: "r \<in> set (questions db)" using that by simp
    then have "question_id r \<noteq> qid" using fresh by auto
    then show ?thesis using D(5) [OF r] by simp
  qed
  have so: "session_ok ?s" and c: "counters_ok ?s ?qs"
    using D(4) [OF s] by (simp_all add: session_ok_def counters_ok_def submitted_def)
  have inst: "(fold (copy_field ?s) [''q_total''] s)\<lparr>updated_at := updated_at ?s\<rparr> = ?s"
    by (simp add: copy_field_def setters_def)
  show ?thesis
    by (rule write_session [OF ok s _ _ inst so c dq oth dv rv, of now])
      (use rows that in simp_all)
qed

lemma submit_question_ok:
  assumes ok: "db_ok db" and run: "submit_question now digest fresh event_id text author participant db = Inr (q, db')"
  obtains e s body name where "qna_session event_id db = Inr (e, s)" and "state s = Open"
    and "validate_text text = Inr body" and "validate_name author s = Inr name"
    and "q = submitted now fresh (session_id s) body name (digest participant)"
    and "db' = db\<lparr>sessions := put_row session_id (bumped now (s\<lparr>q_total := q_total s + 1\<rparr>)) (sessions db),
          questions := questions db @ [q],
          votes := votes db @ [\<lparr>v_question = fresh, v_digest = digest participant\<rparr>]\<rparr>"
    and "db_ok db'" and "advances db db'"
proof -
  from run obtain e s s1 d1 where s: "qna_session event_id db = Inr (e, s)"
    and r: "refresh_expiry now s db = Inr (s1, d1)" and op: "state s1 = Open"
    by (auto simp: submit_question_def bind_res_Inr_iff split: if_splits)
  have srow: "s \<in> set (sessions db)" using qna_session_row(1) [OF s] .
  have same: "s1 = s" "d1 = db" using refresh_expiry_ok [OF ok srow r] op by auto
  from run obtain body where body: "validate_text text = Inr body"
    by (auto simp: submit_question_def s r op bind_res_Inr_iff split: if_splits)
  from run obtain name where name: "validate_name author s = Inr name"
    by (auto simp: submit_question_def s r op body same bind_res_Inr_iff split: if_splits)
  let ?q0 = "(submitted now fresh (session_id s) body name (digest participant))\<lparr>score := 0\<rparr>"
  have steps: "bind_res (create_question ?q0 db) (\<lambda>db.
      bind_res (create_vote fresh (digest participant) db) (\<lambda>db.
      bind_res (bump_session now [''q_total''] (s\<lparr>q_total := q_total s + 1\<rparr>)
        (save_question (\<lambda>r. r\<lparr>score := 1\<rparr>) fresh db)) (\<lambda>(s, db).
      Inr (submitted now fresh (session_id s1) body name (digest participant), db)))) = Inr (q, db')"
    using run by (simp add: submit_question_def s r op body name same Let_def submitted_def split: if_splits)
  then obtain d2 where d2: "create_question ?q0 db = Inr d2"
    by (auto simp only: bind_res_Inr_iff)
  with steps obtain d3 where d3: "create_vote fresh (digest participant) d2 = Inr d3"
    by (auto simp only: bind_res_simps bind_res_Inr_iff)
  note rows = submit_rows [OF d2 d3]
  obtain d4 where d4: "bump_session now [''q_total''] (s\<lparr>q_total := q_total s + 1\<rparr>)
      (db\<lparr>questions := questions db @ [submitted now fresh (session_id s) body name (digest participant)],
          votes := votes db @ [\<lparr>v_question = fresh, v_digest = digest participant\<rparr>]\<rparr>)
        = Inr (bumped now (s\<lparr>q_total := q_total s + 1\<rparr>), d4)"
    and eq: "d4 = db\<lparr>sessions := put_row session_id (bumped now (s\<lparr>q_total := q_total s + 1\<rparr>)) (sessions db),
          questions := questions db @ [submitted now fresh (session_id s) body name (digest participant)],
          votes := votes db @ [\<lparr>v_question = fresh, v_digest = digest participant\<rparr>]\<rparr>"
    and new: "db_ok d4" "advances db d4"
    by (rule write_submission [OF ok srow rows(1) _ _ validate_name_Inr [OF name] rows(3), of body now])
      (use validate_text_Inr [OF body] in auto)
  from steps [unfolded d2 d3 bind_res_simps rows(4) d4 prod.case same]
  have out: "q = submitted now fresh (session_id s) body name (digest participant)" "db' = d4" by auto
  then show ?thesis using that [OF s _ body name out(1)] op same eq new by simp
qed

subsection \<open>vote_question\<close>

abbreviation the_vote :: "question \<Rightarrow> string \<Rightarrow> vote" where
  "the_vote q d \<equiv> \<lparr>v_question = question_id q, v_digest = d\<rparr>"

definition revote :: "bool \<Rightarrow> string \<Rightarrow> question \<Rightarrow> db \<Rightarrow> vote list" where
  "revote add d q db = (if add then votes db @ [the_vote q d] else filter (\<lambda>v. v \<noteq> the_vote q d) (votes db))"

definition rescored :: "bool \<Rightarrow> question \<Rightarrow> question" where
  "rescored add q = q\<lparr>score := (if add then score q + 1 else score q - 1)\<rparr>"

lemma rescored_simps [simp]:
  "question_id (rescored add q) = question_id q" "q_session (rescored add q) = q_session q"
  "status (rescored add q) = status q" "pinned (rescored add q) = pinned q"
  "question_ok (rescored add q) = question_ok q"
  "score (rescored add q) = (if add then score q + 1 else score q - 1)"
  by (simp_all add: rescored_def question_ok_def)

lemma count_where_remove:
  "distinct rows \<Longrightarrow> x \<in> set rows \<Longrightarrow>
     count_where P (filter (\<lambda>y. y \<noteq> x) rows) = count_where P rows - (if P x then 1 else 0)"
proof (induction rows)
  case (Cons a rows)
  show ?case
  proof (cases "a = x")
    case True
    with Cons.prems have "filter (\<lambda>y. y \<noteq> x) rows = rows" by (auto simp: filter_id_conv)
    then show ?thesis using True by (simp add: count_where_def)
  next
    case False
    then show ?thesis using Cons by (auto simp: count_where_def split: if_splits)
  qed
qed simp

lemma revote_ok:
  assumes sync: "synced s q db" and change: "add \<longleftrightarrow> the_vote q d \<notin> set (votes db)"
  shows "distinct (revote add d q db)"
    and "v \<in> set (revote add d q db) \<Longrightarrow> v_question v \<in> question_id ` set (questions db)"
    and "score (rescored add q) = count_where (\<lambda>v. v_question v = question_id q) (revote add d q db)"
    and "question_id r \<noteq> question_id q \<Longrightarrow> count_where (\<lambda>v. v_question v = question_id r) (revote add d q db)
       = count_where (\<lambda>v. v_question v = question_id r) (votes db)"
  using syncedD(3,8,10,11) [OF sync] change
    count_where_remove [of "votes db" "the_vote q d"]
  by (auto simp: revote_def)

lemma change_vote_eq:
  assumes sync: "synced s q db"
  shows "change_vote add d q db =
    (if add \<longleftrightarrow> the_vote q d \<notin> set (votes db)
     then (True, db\<lparr>questions := put_row question_id (rescored add q) (questions db), votes := revote add d q db\<rparr>)
     else (False, db))"
proof -
  note D = syncedD [OF sync]
  have pos: "1 \<le> score q" if "the_vote q d \<in> set (votes db)"
    using count_where_pos [OF that, of "\<lambda>v. v_question v = question_id q"] D(8) by simp
  have add: "save_question (\<lambda>r. r\<lparr>score := score r + 1\<rparr>) (question_id q) (db\<lparr>votes := vs\<rparr>)
      = db\<lparr>questions := put_row question_id (rescored True q) (questions db), votes := vs\<rparr>" for vs
    using save_question_row [of "db\<lparr>votes := vs\<rparr>" q "\<lambda>r. r\<lparr>score := score r + 1\<rparr>"] D(3,9)
    by (simp add: rescored_def)
  have sub: "save_question (\<lambda>r. r\<lparr>score := max 0 (score q - 1)\<rparr>) (question_id q) (db\<lparr>votes := vs\<rparr>)
      = db\<lparr>questions := put_row question_id (rescored False q) (questions db), votes := vs\<rparr>"
    if "1 \<le> score q" for vs
    using save_question_row [of "db\<lparr>votes := vs\<rparr>" q "\<lambda>r. r\<lparr>score := max 0 (score q - 1)\<rparr>"] D(3,9) that
    by (simp add: rescored_def)
  show ?thesis
    using pos by (auto simp: change_vote_def create_vote_def add sub revote_def Let_def)
qed

lemma write_vote:
  assumes sync: "synced s q db" and alive: "status q \<noteq> Deleted"
    and change: "add \<longleftrightarrow> the_vote q d \<notin> set (votes db)"
  obtains db' where "bump_session now [] s (snd (change_vote add d q db)) = Inr (bumped now s, db')"
    and "questions db' = put_row question_id (rescored add q) (questions db)" "votes db' = revote add d q db"
    and "db_ok db'" and "advances db db'" and "rescored add q \<in> set (questions db')"
proof -
  note D = syncedD [OF sync]
  have c: "counters_ok s (put_row question_id (rescored add q) (questions db))"
    using D(6) counts_put_row [OF sync, of "rescored add q" s] by (auto simp: Let_def counters_ok_def)
  have ok: "question_ok (rescored add q)" using D(7) by simp
  show ?thesis
    by (rule write_question [OF D(1,2,3,4) alive _ _ ok _ _ _ D(5) c revote_ok [OF sync change], of "[]" now])
      (use change in \<open>auto simp: change_vote_eq [OF sync] intro: that\<close>)
qed

lemma vote_question_ok:
  assumes ok: "db_ok db"
    and run: "vote_question now digest event_id qid participant add db = Inr ((sc, voted), db')"
  obtains e s q where "qna_session event_id db = Inr (e, s)" and "state s = Open"
    and "get_question qid (session_id s) db = Some q" and "status q \<noteq> Deleted" and "voted = add"
    and "db_ok db'" and "advances db db'"
    and "add = (the_vote q (digest participant) \<in> set (votes db)) \<Longrightarrow> db' = db \<and> sc = score q"
    and "add \<noteq> (the_vote q (digest participant) \<in> set (votes db)) \<Longrightarrow>
      votes db' = revote add (digest participant) q db \<and> sc = (if add then score q + 1 else score q - 1)"
proof -
  let ?d = "digest participant"
  from run obtain e s s1 d1 where s: "qna_session event_id db = Inr (e, s)"
    and r: "refresh_expiry now s db = Inr (s1, d1)" and op: "state s1 = Open"
    by (auto simp: vote_question_def bind_res_Inr_iff Let_def split: if_splits)
  have srow: "s \<in> set (sessions db)" using qna_session_row(1) [OF s] .
  have same: "s1 = s" "d1 = db" using refresh_expiry_ok [OF ok srow r] op by auto
  from run obtain q where q: "get_question qid (session_id s) db = Some q" and st: "status q \<in> set public_statuses"
    by (auto simp: vote_question_def s r op same Let_def split: if_splits option.splits)
  have alive: "status q \<noteq> Deleted" using st by (auto simp: public_statuses_def)
  have sync: "synced s q db" using ok srow get_question_Some [OF q] by (simp add: synced_def)
  obtain changed d2 where change: "change_vote add ?d q db = (changed, d2)" by (cases "change_vote add ?d q db")
  from run obtain q2 s2 where q2: "List.find (\<lambda>r. question_id r = question_id q) (questions d2) = Some q2"
    and w: "(if changed then bump_session now [] s d2 else Inr (s, d2)) = Inr (s2, db')"
    and out: "sc = score q2" "voted = (the_vote q2 ?d \<in> set (votes db'))"
    by (auto simp: vote_question_def s r op same q st change Let_def bind_res_Inr_iff
        split: if_splits option.splits)
  show ?thesis
  proof (cases "add \<longleftrightarrow> the_vote q ?d \<notin> set (votes db)")
    case False
    then have "db' = db" "d2 = db" using w change by (auto simp: change_vote_eq [OF sync])
    moreover have "q2 = q" using find_key [OF syncedD(9,3) [OF sync]] q2 calculation by simp
    ultimately show ?thesis using that [OF s _ q alive _ _ _] False op same ok out by auto
  next
    case True
    obtain d' where d': "bump_session now [] s (snd (change_vote add ?d q db)) = Inr (bumped now s, d')"
      and qs: "questions d' = put_row question_id (rescored add q) (questions db)"
      and vs: "votes d' = revote add ?d q db" and new: "db_ok d'" "advances db d'" "rescored add q \<in> set (questions d')"
      by (rule write_vote [OF sync alive True])
    have "changed" using True change by (auto simp: change_vote_eq [OF sync])
    then have eq: "db' = d'" using w d' change by simp
    have "questions d2 = questions d'" using change True by (auto simp: change_vote_eq [OF sync] qs)
    then have "q2 = rescored add q"
      using find_key [OF db_ok_dest(2) [OF new(1)] new(3)] q2 by simp
    then show ?thesis
      using that [OF s _ q alive _ _ _] True op same out eq new vs by (auto simp: revote_def)
  qed
qed

end
