(* ===== verification/Qna_Listing.thy ===== *)
theory Qna_Listing
  imports Qna_Moderation "HOL-Library.Product_Lexorder" "HOL-Library.Multiset"
begin

text \<open>
  Listing a room (\<open>_rank_questions\<close>, \<open>serialize_question\<close>, \<open>list_questions\<close>). Python compares the
  rank tuples lexicographically, which is the order of HOL's product order here; \<open>created_at\<close> is
  compared in microseconds. \<open>list_questions\<close> is not atomic: closing an expired room on the way is
  kept even when the call then raises, so the operation returns its result beside the store.
  \<open>sha256\<close> is \<open>hashlib.sha256(...).hexdigest()\<close>.
\<close>

subsection \<open>Ranking\<close>

definition popular_key :: "question \<Rightarrow> bool \<times> int \<times> datetime \<times> string" where
  "popular_key q = (\<not> pinned q, - score q, created_at q, question_id q)"

definition recent_key :: "question \<Rightarrow> bool \<times> int \<times> string" where
  "recent_key q = (\<not> pinned q, - created_at q, question_id q)"

definition invalid_sort :: qna_err where
  "invalid_sort = QnaError 400 ''invalid_sort'' ''sort must be popular or recent.''"

definition rank_questions :: "question list \<Rightarrow> string \<Rightarrow> placement \<Rightarrow> (qna_err, question list) res" where
  "rank_questions qs srt place = (case sorting_of srt of
     None \<Rightarrow> Inl invalid_sort
   | Some srt \<Rightarrow>
       let ordered = (if srt = Recent then sort_key recent_key qs else sort_key popular_key qs)
       in Inr (if place = Bottom then sort_key (\<lambda>q. status q = Answered) ordered else ordered))"

subsection \<open>Serialisation\<close>

text \<open>The dictionary of \<open>serialize_question\<close>; the viewer part is absent for \<open>participant is None\<close>.\<close>

record viewer =
  own :: bool
  voted :: bool
  editable :: bool

record question_dto =
  dto_id :: string
  dto_text :: string
  dto_author :: "string option"
  dto_status :: string
  dto_score :: int
  dto_pinned :: bool
  dto_created_at :: string
  dto_answered_at :: "string option"
  dto_viewer :: "viewer option"

definition serialize_question ::
    "datetime \<Rightarrow> (string \<Rightarrow> string) \<Rightarrow> question \<Rightarrow> string option \<Rightarrow> bool \<Rightarrow> question_dto" where
  "serialize_question now digest q participant has_voted =
     \<lparr>dto_id = question_id q, dto_text = q_text q,
      dto_author = (if author_name q = [] then None else Some (author_name q)),
      dto_status = qstatus_value (status q), dto_score = score q, dto_pinned = pinned q,
      dto_created_at = iso_z (created_at q), dto_answered_at = map_option iso_z (answered_at q),
      dto_viewer = map_option (\<lambda>p. \<lparr>own = (participant_digest q = digest p), voted = has_voted,
                     editable = can_author_edit now digest q participant\<rparr>) participant\<rparr>"

definition question_digest :: "question \<Rightarrow> string" where
  "question_digest q =
     question_id q @ '':'' @ q_text q @ '':'' @ qstatus_value (status q) @ '':'' @ py_str_int (score q) @ '':''
     @ (if pinned q then ''1'' else ''0'') @ '':''
     @ (case answered_at q of None \<Rightarrow> [] | Some t \<Rightarrow> py_str_datetime t)"

definition listing_etag :: "(string \<Rightarrow> string) \<Rightarrow> session \<Rightarrow> string \<Rightarrow> question list \<Rightarrow> string" where
  "listing_etag sha256 s srt ordered =
     ''W/\"'' @ take 20 (sha256 (lifecycle_value (state s) @ '':'' @ py_str_int (revision s) @ '':''
        @ placement_value (answered_placement s) @ '':'' @ srt @ '':'' @ concat (map question_digest ordered))) @ ''\"''"

subsection \<open>list_questions\<close>

record listing =
  items :: "question_dto list"
  visible_count :: int
  answered_count :: int
  etag :: string
  current :: session

definition list_room ::
    "datetime \<Rightarrow> (string \<Rightarrow> string) \<Rightarrow> (string \<Rightarrow> string) \<Rightarrow> string option \<Rightarrow> bool \<Rightarrow> string option
       \<Rightarrow> string list option \<Rightarrow> session \<Rightarrow> db \<Rightarrow> (qna_err, listing) res" where
  "list_room now digest sha256 participant moderator srt statuses s db =
     (let public = map qstatus_value public_statuses;
          selected = (case statuses of None \<Rightarrow> public | Some xs \<Rightarrow> if xs = [] then public else xs)
      in if ''deleted'' \<in> set selected then Inl invalid_status
         else if \<not> set selected \<subseteq> qstatus_value ` {Visible, Answered, Deleted} then Inl invalid_status
         else
           let selected = (if moderator then selected else filter (\<lambda>x. x \<in> set public) selected);
               raw = filter (\<lambda>q. q_session q = session_id s \<and> qstatus_value (status q) \<in> set selected) (questions db);
               voter = (case participant of None \<Rightarrow> None | Some p \<Rightarrow> if p = [] then None else Some (digest p));
               voted_ids = (case voter of None \<Rightarrow> []
                 | Some d \<Rightarrow> map v_question (filter (\<lambda>v. v_question v \<in> question_id ` set raw \<and> v_digest v = d) (votes db)));
               effective = (case srt of None \<Rightarrow> sorting_value (default_sorting s)
                 | Some x \<Rightarrow> if x = [] then sorting_value (default_sorting s) else x)
           in bind_res (rank_questions raw effective (answered_placement s)) (\<lambda>ordered.
                Inr \<lparr>items = map (\<lambda>q. serialize_question now digest q participant (question_id q \<in> set voted_ids)) ordered,
                     visible_count = count_where (\<lambda>q. status q = Visible) raw,
                     answered_count = count_where (\<lambda>q. status q = Answered) raw,
                     etag = listing_etag sha256 s effective ordered, current = s\<rparr>))"

definition list_questions ::
    "datetime \<Rightarrow> (string \<Rightarrow> string) \<Rightarrow> (string \<Rightarrow> string) \<Rightarrow> event_handle \<Rightarrow> string option \<Rightarrow> bool
       \<Rightarrow> string option \<Rightarrow> string list option \<Rightarrow> db \<Rightarrow> (qna_err, listing) res \<times> db" where
  "list_questions now digest sha256 event_id participant moderator srt statuses db =
     (case qna_session event_id db of
        Inl e \<Rightarrow> (Inl e, db)
      | Inr (e, s) \<Rightarrow>
          if state s = Archived \<and> \<not> moderator then (Inl QnaArchived, db)
          else if state s = Draft \<and> \<not> moderator then (Inl QnaNotFound, db)
          else (case refresh_expiry now s db of
              Inl e \<Rightarrow> (Inl e, db)
            | Inr (s, db) \<Rightarrow> (list_room now digest sha256 participant moderator srt statuses s db, db)))"

subsection \<open>What a listing shows\<close>

lemma insort_flag:
  "(\<And>y. y \<in> set ns \<Longrightarrow> \<not> f y) \<Longrightarrow> (\<And>y. y \<in> set ps \<Longrightarrow> f y) \<Longrightarrow>
     insort_key f x (ns @ ps) = (if f x then ns @ x # ps else x # ns @ ps)"
proof (induction ns)
  case Nil
  then show ?case by (cases ps) auto
next
  case (Cons n ns)
  then show ?case by auto
qed

text \<open>Sorting stably by a flag moves the flagged elements behind the others.\<close>

lemma sort_by_flag: "sort_key f xs = filter (\<lambda>x. \<not> f x) xs @ filter f xs"
proof (induction xs)
  case (Cons x xs)
  have "insort_key f x (filter (\<lambda>x. \<not> f x) xs @ filter f xs)
      = (if f x then filter (\<lambda>x. \<not> f x) xs @ x # filter f xs else x # filter (\<lambda>x. \<not> f x) xs @ filter f xs)"
    by (rule insort_flag) auto
  then show ?case unfolding sort_key_simps Cons.IH by simp
qed simp

lemma rank_questions_Inr:
  assumes "rank_questions qs srt place = Inr out"
  obtains ordered where "mset ordered = mset qs"
    and "srt = ''recent'' \<and> sorted (map recent_key ordered) \<or> srt = ''popular'' \<and> sorted (map popular_key ordered)"
    and "out = (if place = Bottom
        then filter (\<lambda>q. status q \<noteq> Answered) ordered @ filter (\<lambda>q. status q = Answered) ordered else ordered)"
proof -
  from assms obtain k where k: "sorting_of srt = Some k"
    by (auto simp: rank_questions_def split: option.splits)
  have srt: "srt = sorting_value k" using find_Some [OF k [unfolded sorting_of_def]] by simp
  let ?ordered = "if k = Recent then sort_key recent_key qs else sort_key popular_key qs"
  have "out = (if place = Bottom then sort_key (\<lambda>q. status q = Answered) ?ordered else ?ordered)"
    using assms by (simp add: rank_questions_def k Let_def)
  then have "out = (if place = Bottom
        then filter (\<lambda>q. status q \<noteq> Answered) ?ordered @ filter (\<lambda>q. status q = Answered) ?ordered else ?ordered)"
    by (simp only: sort_by_flag)
  moreover have "mset ?ordered = mset qs" by simp
  ultimately show ?thesis by (intro that [of ?ordered]) (cases k; simp add: srt)+
qed

lemma rank_questions_set: "rank_questions qs srt place = Inr out \<Longrightarrow> mset out = mset qs"
  by (erule rank_questions_Inr) (auto simp: add.commute simp flip: multiset_partition)

text \<open>The rows a call lists: the room's questions of the selected public statuses.\<close>

definition selected_statuses :: "bool \<Rightarrow> string list option \<Rightarrow> string set" where
  "selected_statuses moderator statuses = (case statuses of
     None \<Rightarrow> {''visible'', ''answered''} | Some xs \<Rightarrow> if xs = [] then {''visible'', ''answered''} else set xs)"

lemma count_statuses:
  "(\<And>q. q \<in> set qs \<Longrightarrow> status q = Visible \<or> status q = Answered) \<Longrightarrow>
     count_where (\<lambda>q. status q = Visible) qs + count_where (\<lambda>q. status q = Answered) qs = int (length qs)"
proof (induction qs)
  case (Cons q qs)
  have "status q = Visible \<or> status q = Answered" using Cons.prems by simp
  with Cons show ?case by (auto simp: count_where_def)
qed (simp add: count_where_def)

lemma list_room_Inr:
  assumes "list_room now digest sha256 participant moderator srt statuses s db = Inr out"
  shows "selected_statuses moderator statuses \<subseteq> {''visible'', ''answered''}"
    and "mset (map dto_id (items out)) = mset (map question_id (filter
      (\<lambda>q. q_session q = session_id s \<and> qstatus_value (status q) \<in> selected_statuses moderator statuses) (questions db)))"
    and "visible_count out + answered_count out = int (length (items out))"
    and "current out = s"
proof -
  let ?sel = "selected_statuses moderator statuses"
  let ?raw = "filter (\<lambda>q. q_session q = session_id s \<and> qstatus_value (status q) \<in> ?sel) (questions db)"
  define sel where "sel = (case statuses of None \<Rightarrow> map qstatus_value public_statuses
      | Some xs \<Rightarrow> if xs = [] then map qstatus_value public_statuses else xs)"
  have set_sel: "set sel = ?sel"
    by (auto simp: sel_def selected_statuses_def public_statuses_def split: option.splits)
  have 1: "''deleted'' \<notin> set sel" "set sel \<subseteq> {''visible'', ''answered'', ''deleted''}"
    using assms by (auto simp: list_room_def Let_def sel_def [symmetric] split: if_splits)
  then show sub: "?sel \<subseteq> {''visible'', ''answered''}" using set_sel by auto
  have "set (if moderator then sel else filter (\<lambda>x. x \<in> set (map qstatus_value public_statuses)) sel) = ?sel"
    using sub set_sel by (auto simp: public_statuses_def)
  then have raw: "filter (\<lambda>q. q_session q = session_id s \<and> qstatus_value (status q)
      \<in> set (if moderator then sel else filter (\<lambda>x. x \<in> set (map qstatus_value public_statuses)) sel)) (questions db) = ?raw"
    by simp
  define voter where "voter = (case participant of None \<Rightarrow> None | Some p \<Rightarrow> if p = [] then None else Some (digest p))"
  define voted_ids where "voted_ids = (case voter of None \<Rightarrow> []
      | Some d \<Rightarrow> map v_question (filter (\<lambda>v. v_question v \<in> question_id ` set ?raw \<and> v_digest v = d) (votes db)))"
  define effective where "effective = (case srt of None \<Rightarrow> sorting_value (default_sorting s)
      | Some x \<Rightarrow> if x = [] then sorting_value (default_sorting s) else x)"
  have "bind_res (rank_questions ?raw effective (answered_placement s)) (\<lambda>ordered.
      Inr \<lparr>items = map (\<lambda>q. serialize_question now digest q participant (question_id q \<in> set voted_ids)) ordered,
           visible_count = count_where (\<lambda>q. status q = Visible) ?raw,
           answered_count = count_where (\<lambda>q. status q = Answered) ?raw,
           etag = listing_etag sha256 s effective ordered, current = s\<rparr>) = Inr out"
    using assms unfolding list_room_def Let_def sel_def [symmetric] raw voter_def [symmetric]
      voted_ids_def [symmetric] effective_def [symmetric]
    by (simp split: if_split_asm)
  then obtain ordered where
    ranked: "rank_questions ?raw effective (answered_placement s) = Inr ordered"
    and out: "items out = map (\<lambda>q. serialize_question now digest q participant (question_id q \<in> set voted_ids)) ordered"
      "visible_count out = count_where (\<lambda>q. status q = Visible) ?raw"
      "answered_count out = count_where (\<lambda>q. status q = Answered) ?raw" "current out = s"
    by (auto simp: bind_res_Inr_iff)
  show "current out = s" by (rule out)
  have m: "mset ordered = mset ?raw" by (rule rank_questions_set [OF ranked])
  have "map dto_id (items out) = map question_id ordered"
    by (simp add: out serialize_question_def)
  then show "mset (map dto_id (items out)) = mset (map question_id ?raw)" using m by simp
  have "status q = Visible \<or> status q = Answered" if "q \<in> set ?raw" for q
    using that sub by (cases "status q") auto
  then have "count_where (\<lambda>q. status q = Visible) ?raw + count_where (\<lambda>q. status q = Answered) ?raw = int (length ?raw)"
    by (rule count_statuses)
  moreover have "length (items out) = length ?raw" using m by (simp add: out mset_eq_length)
  ultimately show "visible_count out + answered_count out = int (length (items out))" using out by simp
qed

lemma list_questions_ok:
  assumes "db_ok db" and "list_questions now digest sha256 event_id participant moderator srt statuses db = (r, db')"
  shows "db_ok db' \<and> advances db db'"
  using assms refresh_expiry_ok [OF assms(1) qna_session_row(1)]
  by (auto simp: list_questions_def split: sum.splits if_splits prod.splits)

end
