(* ===== verification/Qna_Cohost.thy ===== *)
theory Qna_Cohost
  imports Qna_Moderation
begin

text \<open>
  Co-host links (\<open>create_cohost\<close>, \<open>redeem_cohost\<close>, \<open>cohost_for_request\<close>, \<open>revoke_cohost\<close>) and the
  parts of \<open>security.py\<close> they use. \<open>ids\<close> enumerates what \<open>opaque_id()\<close> returns during the call,
  \<open>choices\<close> the draws of \<open>secrets.choice\<close>; \<open>make_password\<close>, \<open>check_password\<close> and \<open>unsign\<close> stand
  for Django's password hashers and its \<open>TimestampSigner\<close>.
\<close>

subsection \<open>Passcodes and tokens\<close>

definition passcode_alphabet :: string where
  "passcode_alphabet = ''23456789ABCDEFGHJKMNPQRSTVWXYZ''"

definition new_passcode :: "(nat \<Rightarrow> nat) \<Rightarrow> string" where
  "new_passcode choices =
     (let raw = map (\<lambda>i. passcode_alphabet ! (choices i mod length passcode_alphabet)) [0..<12]
      in take 4 raw @ ''-'' @ take 4 (drop 4 raw) @ ''-'' @ drop 8 raw)"

definition passcode_matches :: "(string \<Rightarrow> string \<Rightarrow> bool) \<Rightarrow> pyval \<Rightarrow> string \<Rightarrow> bool" where
  "passcode_matches check_password passcode digest =
     (let normalized = normalize_passcode passcode
      in normalized \<noteq> [] \<and> check_password normalized digest)"

text \<open>The signed payload is \<open>session_id:invite_id\<close>.\<close>

definition cohost_claim :: "(string \<Rightarrow> string option) \<Rightarrow> pyval \<Rightarrow> (string \<times> string) option" where
  "cohost_claim unsign token = (case token of
     PStr t \<Rightarrow>
       if t = [] then None
       else (case unsign t of
           None \<Rightarrow> None
         | Some payload \<Rightarrow>
             (case py_split (CHR '':'') payload of
                [sid, iid] \<Rightarrow> if sid = [] \<or> iid = [] then None else Some (sid, iid)
              | _ \<Rightarrow> None))
   | _ \<Rightarrow> None)"

subsection \<open>create_cohost\<close>

text \<open>\<open>^[a-z0-9][a-z0-9-]{2,47}$\<close>.\<close>

definition name_char :: "char \<Rightarrow> bool" where
  "name_char c \<longleftrightarrow> (let n = (of_char c :: nat) in (97 \<le> n \<and> n \<le> 122) \<or> (48 \<le> n \<and> n \<le> 57))"

definition cohost_name_ok :: "string \<Rightarrow> bool" where
  "cohost_name_ok s \<longleftrightarrow> 3 \<le> length s \<and> length s \<le> 48 \<and> name_char (hd s)
     \<and> list_all (\<lambda>c. name_char c \<or> c = CHR ''-'') (tl s)"

text \<open>
  The insert, without a savepoint of its own. An \<open>IntegrityError\<close> inside an atomic block leaves
  the transaction unusable: Django answers every further query in it with
  \<open>TransactionManagementError\<close> (\<open>broken\<close> below).
\<close>

definition create_invite :: "bool \<Rightarrow> invite \<Rightarrow> db \<Rightarrow> (qna_err, db) res" where
  "create_invite broken i db =
     (if broken then Inl TransactionManagementError
      else if invite_id i \<in> invite_id ` set (invites db)
           \<or> (i_session i, i_name i) \<in> (\<lambda>j. (i_session j, i_name j)) ` set (invites db)
      then Inl IntegrityError
      else Inr (db\<lparr>invites := invites db @ [i]\<rparr>))"

definition generated_name :: "string \<Rightarrow> string \<Rightarrow> string" where
  "generated_name a b = py_lower (take 4 a) @ ''-'' @ py_lower (take 4 b)"

text \<open>The \<open>for\<close> loop with its \<open>else\<close>; \<open>k\<close> counts the identifiers drawn so far.\<close>

fun invite_loop ::
    "nat \<Rightarrow> string \<Rightarrow> (string \<Rightarrow> invite) \<Rightarrow> (nat \<Rightarrow> string) \<Rightarrow> string \<Rightarrow> nat \<Rightarrow> bool \<Rightarrow> db
       \<Rightarrow> (qna_err, invite \<times> db) res" where
  "invite_loop 0 requested row ids invite_name k broken db =
     Inl (QnaError 503 ''name_exhausted'' ''A co-host link could not be allocated.'')"
| "invite_loop (Suc n) requested row ids invite_name k broken db =
     (let (invite_name, k) = (if invite_name = [] then (generated_name (ids k) (ids (k + 1)), k + 2)
                              else (invite_name, k));
          i = (row invite_name)\<lparr>invite_id := ids k\<rparr>
      in case create_invite broken i db of
           Inr db \<Rightarrow> Inr (i, db)
         | Inl IntegrityError \<Rightarrow>
             if requested \<noteq> []
             then Inl (QnaError 409 ''name_taken'' ''This session already has that co-host link.'')
             else invite_loop n requested row ids [] (k + 1) True db
         | Inl e \<Rightarrow> Inl e)"

record cohost_result =
  co_invite_id :: string
  co_name :: string
  co_passcode :: string
  co_join_url :: string
  co_created_at :: string

definition event_qna_path :: "event \<Rightarrow> (qna_err, string) res" where
  "event_qna_path e = (case public_id e of
     None \<Rightarrow> Inl QnaNotFound
   | Some p \<Rightarrow> Inr (''/events/'' @ py_str_int p @ ''/'' @ slug e @ ''/qna''))"

definition create_cohost ::
    "datetime \<Rightarrow> (string \<Rightarrow> string) \<Rightarrow> (nat \<Rightarrow> string) \<Rightarrow> (nat \<Rightarrow> nat) \<Rightarrow> event_handle \<Rightarrow> pyval \<Rightarrow> pyval
       \<Rightarrow> string \<Rightarrow> string option \<Rightarrow> db \<Rightarrow> (qna_err, cohost_result \<times> db) res" where
  "create_cohost now make_password ids choices event_id name passcode actor audit_context db =
     (let requested = normalize_cohost_name name;
          supplied = (if is_blank passcode then new_passcode choices else py_strip (py_str passcode))
      in if requested \<noteq> [] \<and> \<not> cohost_name_ok requested
         then Inl (QnaError 400 ''invalid_name'' ''The co-host link name is invalid.'')
         else if length (normalize_passcode (PStr supplied)) < 6
         then Inl (QnaError 400 ''invalid_passcode'' ''A co-host passcode is too short.'')
         else
           bind_res (qna_session event_id db) (\<lambda>(e, s).
           if state s = Archived then Inl QnaArchived
           else
             bind_res (invite_loop 5 requested
               (\<lambda>nm. \<lparr>invite_id = [], i_session = session_id s, i_name = nm,
                      i_passcode = make_password (normalize_passcode (PStr supplied)),
                      created_by_ref = actor, i_created_at = now, revoked_at = None\<rparr>)
               ids requested 0 False db) (\<lambda>(i, db).
             bind_res (event_qna_path e) (\<lambda>path.
               Inr (\<lparr>co_invite_id = invite_id i, co_name = i_name i, co_passcode = supplied,
                     co_join_url = path @ ''/cohost/'' @ i_name i @ ''/'',
                     co_created_at = iso_z (i_created_at i)\<rparr>,
                    audit_if audit_context ''events.qna.cohost_created'' s
                      [(''invite_id'', PStr (invite_id i))] db)))))"

subsection \<open>Using and revoking a link\<close>

definition mismatch :: string where
  "mismatch = ''That link and passcode do not match. Check them with the host.''"

definition redeem_cohost ::
    "(string \<Rightarrow> string \<Rightarrow> bool) \<Rightarrow> event_handle \<Rightarrow> pyval \<Rightarrow> pyval \<Rightarrow> db
       \<Rightarrow> (qna_err, invite option \<times> string option) res" where
  "redeem_cohost check_password event_id name passcode db = (case public_session event_id db of
     Inl (QnaError st code message) \<Rightarrow> Inr (None, Some message)
   | Inl err \<Rightarrow> Inl err
   | Inr (e, s) \<Rightarrow>
       (case List.find (\<lambda>i. i_session i = session_id s \<and> i_name i = normalize_cohost_name name
                            \<and> revoked_at i = None) (invites db) of
          None \<Rightarrow> Inr (None, Some mismatch)
        | Some i \<Rightarrow> if passcode_matches check_password passcode (i_passcode i)
                   then Inr (Some i, None) else Inr (None, Some mismatch)))"

definition cohost_for_request ::
    "(string \<Rightarrow> string option) \<Rightarrow> uuid \<Rightarrow> pyval \<Rightarrow> db \<Rightarrow> invite option" where
  "cohost_for_request unsign sid token db = (case cohost_claim unsign token of
     None \<Rightarrow> None
   | Some (claimed, iid) \<Rightarrow>
       if claimed \<noteq> uuid_str sid then None
       else List.find (\<lambda>i. invite_id i = iid \<and> i_session i = sid \<and> revoked_at i = None) (invites db))"

definition revoke_cohost ::
    "datetime \<Rightarrow> event_handle \<Rightarrow> string \<Rightarrow> string option \<Rightarrow> db \<Rightarrow> (qna_err, unit \<times> db) res" where
  "revoke_cohost now event_id iid audit_context db =
     bind_res (qna_session event_id db) (\<lambda>(e, s).
     case List.find (\<lambda>i. i_session i = session_id s \<and> invite_id i = iid \<and> revoked_at i = None) (invites db) of
       None \<Rightarrow> Inl QnaNotFound
     | Some i \<Rightarrow> Inr ((), audit_if audit_context ''events.qna.cohost_revoked'' s
           [(''invite_id'', PStr (invite_id i))]
           (db\<lparr>invites := update_where (\<lambda>r. invite_id r = invite_id i)
                 (\<lambda>r. r\<lparr>revoked_at := Some now\<rparr>) (invites db)\<rparr>)))"

subsection \<open>The invariant of the links\<close>

definition invites_ok :: "db \<Rightarrow> bool" where
  "invites_ok db \<longleftrightarrow> distinct (map invite_id (invites db))
     \<and> distinct (map (\<lambda>i. (i_session i, i_name i)) (invites db))"

lemma create_invite_Inr:
  "create_invite broken i db = Inr db' \<Longrightarrow>
     \<not> broken \<and> db' = db\<lparr>invites := invites db @ [i]\<rparr> \<and> invite_id i \<notin> invite_id ` set (invites db)
     \<and> (i_session i, i_name i) \<notin> (\<lambda>j. (i_session j, i_name j)) ` set (invites db)"
  by (auto simp: create_invite_def split: if_splits)

text \<open>Once broken, the transaction never allocates a link.\<close>

lemma invite_loop_broken: "\<exists>e. invite_loop n requested row ids nm k True db = Inl e"
  by (cases n) (auto simp: create_invite_def Let_def split: prod.splits)

lemma invite_loop_first:
  "invite_loop (Suc n) requested row ids nm k False db = Inr (i, db') \<Longrightarrow>
     i = (row (if nm = [] then generated_name (ids k) (ids (k + 1)) else nm))
           \<lparr>invite_id := ids (if nm = [] then k + 2 else k)\<rparr>
     \<and> create_invite False i db = Inr db'"
  using invite_loop_broken
  by (auto simp: Let_def split: if_splits sum.splits qna_err.splits) (metis sum.distinct(1))+

lemma create_cohost_Inr:
  assumes "create_cohost now make_password ids choices event_id name passcode actor ctx db = Inr (r, db')"
  obtains e s i where "qna_session event_id db = Inr (e, s)" and "state s \<noteq> Archived"
    and "create_invite False i db = Inr (db\<lparr>invites := invites db @ [i]\<rparr>)"
    and "invites db' = invites db @ [i]"
    and "sessions db' = sessions db" "questions db' = questions db" "votes db' = votes db" "events db' = events db"
    and "i_session i = session_id s" "i_name i = co_name r" "revoked_at i = None"
    and "i_passcode i = make_password (normalize_passcode (PStr (co_passcode r)))"
    and "6 \<le> length (normalize_passcode (PStr (co_passcode r)))"
    and "invite_id i = co_invite_id r"
    and "co_name r = (if normalize_cohost_name name = [] then generated_name (ids 0) (ids 1)
                      else normalize_cohost_name name)"
    and "normalize_cohost_name name = [] \<or> cohost_name_ok (normalize_cohost_name name)"
proof -
  define supplied where "supplied = (if is_blank passcode then new_passcode choices else py_strip (py_str passcode))"
  define requested where "requested = normalize_cohost_name name"
  note defs = supplied_def [symmetric] requested_def [symmetric]
  from assms obtain e s where s: "qna_session event_id db = Inr (e, s)" and st: "state s \<noteq> Archived"
    and long: "6 \<le> length (normalize_passcode (PStr supplied))"
    and nm: "requested = [] \<or> cohost_name_ok requested"
    unfolding create_cohost_def Let_def defs by (auto split: if_split_asm)
  define row where "row = (\<lambda>nm. \<lparr>invite_id = [], i_session = session_id s, i_name = nm,
      i_passcode = make_password (normalize_passcode (PStr supplied)),
      created_by_ref = actor, i_created_at = now, revoked_at = None\<rparr>)"
  from assms s st long nm obtain i d where loop: "invite_loop 5 requested row ids requested 0 False db = Inr (i, d)"
    and r: "co_invite_id r = invite_id i" "co_name r = i_name i" "co_passcode r = supplied"
    and db': "db' = audit_if ctx ''events.qna.cohost_created'' s [(''invite_id'', PStr (invite_id i))] d"
    unfolding create_cohost_def Let_def defs row_def by (auto simp: bind_res_Inr_iff split: if_split_asm)
  have "(5 :: nat) = Suc 4" by simp
  then have "invite_loop (Suc 4) requested row ids requested 0 False db = Inr (i, d)" using loop by metis
  from invite_loop_first [OF this]
  have i: "i = (row (if requested = [] then generated_name (ids 0) (ids (0 + 1)) else requested))
      \<lparr>invite_id := ids (if requested = [] then 0 + 2 else 0)\<rparr>" and c: "create_invite False i db = Inr d"
    by blast+
  have d: "d = db\<lparr>invites := invites db @ [i]\<rparr>" using create_invite_Inr [OF c] by simp
  show ?thesis
    by (rule that [OF s st, of i]) (use c d i r db' long nm in \<open>simp_all add: row_def requested_def\<close>)
qed

subsection \<open>Names are stored normalised\<close>

lemma name_char_lower: "name_char c \<or> c = CHR ''-'' \<Longrightarrow> py_lower_char c = c \<and> \<not> py_space c"
  by (auto simp: name_char_def py_lower_char_def py_space_def Let_def)

lemma normalize_plain:
  assumes "list_all (\<lambda>c. name_char c \<or> c = CHR ''-'') s"
  shows "normalize_cohost_name (PStr s) = s"
proof -
  have nospace: "dropWhile py_space xs = xs" if "set xs \<subseteq> set s" for xs
    using assms that name_char_lower by (cases xs) (auto simp: list_all_iff)
  have "py_strip s = s" by (simp add: py_strip_def nospace)
  moreover have "py_lower s = s"
    using assms name_char_lower by (auto simp: py_lower_def list_all_iff intro!: map_idI)
  ultimately show ?thesis by (simp add: normalize_cohost_name_def)
qed

lemma cohost_name_ok_plain: "cohost_name_ok s \<Longrightarrow> list_all (\<lambda>c. name_char c \<or> c = CHR ''-'') s"
  by (cases s) (auto simp: cohost_name_ok_def)

lemma opaque_id_chars: "set (opaque_id a r) \<subseteq> set crockford"
proof -
  have "crockford ! (n AND 31) \<in> set crockford" for n :: nat
    by (rule nth_mem) (simp add: nat_and_mask crockford_def)
  then show ?thesis by (auto simp: opaque_id_def Let_def crockford_def)
qed

lemma generated_name_plain:
  "list_all (\<lambda>c. name_char c \<or> c = CHR ''-'') (generated_name (opaque_id a r) (opaque_id b t))"
proof -
  have "list_all (\<lambda>c. name_char (py_lower_char c)) crockford"
    by (simp add: crockford_def name_char_def py_lower_char_def)
  then have "name_char (py_lower_char c)" if "c \<in> set (take 4 (opaque_id a' r'))" for c a' r'
    using opaque_id_chars [of a' r'] set_take_subset [of 4 "opaque_id a' r'"] that by (auto simp: list_all_iff)
  then show ?thesis by (auto simp: generated_name_def py_lower_def list_all_iff)
qed

lemma generated_name_window:
  assumes "r < 2 ^ 80" "t < 2 ^ 80" "a div 2 ^ 30 = b div 2 ^ 30"
  shows "take 4 (opaque_id a r) = take 4 (opaque_id b t)"
proof -
  have "a mod 2 ^ 48 div 2 ^ 30 = a div 2 ^ 30 mod 2 ^ 18" for a :: nat
    using mod_mult2_eq [of a "2 ^ 30" "2 ^ 18"] by simp
  then show ?thesis using assms by (simp add: opaque_id_prefix)
qed

subsection \<open>A created link can be redeemed until it is revoked\<close>

lemma find_snoc: "(\<And>x. x \<in> set xs \<Longrightarrow> \<not> P x) \<Longrightarrow> List.find P (xs @ [y]) = (if P y then Some y else None)"
  by (induction xs) auto

lemma qna_session_cong:
  "events d = events db \<Longrightarrow> sessions d = sessions db \<Longrightarrow> qna_session h d = qna_session h db"
  by (cases h) (simp_all add: qna_session_def event_row_def coerce_event_id_def)

lemma public_session_row:
  "public_session h db = Inr (e, s) \<Longrightarrow> qna_session h db = Inr (e, s) \<and> (state s = Open \<or> state s = Closed)"
  by (cases "state s"; cases "qna_session h db") (auto simp: public_session_def split: if_splits)

lemma redeem_created:
  assumes create: "create_cohost now make_password ids choices event_id name passcode actor ctx db = Inr (r, db')"
    and ids: "\<And>k. \<exists>ms rnd. ids k = opaque_id ms rnd"
    and hasher: "\<And>p. check_password p (make_password p)"
    and public: "public_session event_id db' = Inr (e, s)"
  shows "\<exists>i. redeem_cohost check_password event_id (PStr (co_name r)) (PStr (co_passcode r)) db' = Inr (Some i, None)
     \<and> invite_id i = co_invite_id r \<and> i_session i = session_id s"
proof -
  obtain e' s' i where s': "qna_session event_id db = Inr (e', s')"
    and c: "create_invite False i db = Inr (db\<lparr>invites := invites db @ [i]\<rparr>)"
    and inv: "invites db' = invites db @ [i]" and same: "sessions db' = sessions db" "events db' = events db"
    and i: "i_session i = session_id s'" "i_name i = co_name r" "revoked_at i = None"
      "i_passcode i = make_password (normalize_passcode (PStr (co_passcode r)))" "invite_id i = co_invite_id r"
    and long: "6 \<le> length (normalize_passcode (PStr (co_passcode r)))"
    and nm: "co_name r = (if normalize_cohost_name name = [] then generated_name (ids 0) (ids 1)
                      else normalize_cohost_name name)"
      "normalize_cohost_name name = [] \<or> cohost_name_ok (normalize_cohost_name name)"
    by (rule create_cohost_Inr [OF create])
  have "qna_session event_id db' = Inr (e', s')" using qna_session_cong [OF same(2,1)] s' by simp
  then have eq: "s' = s" using public_session_row [OF public] by simp
  have plain: "list_all (\<lambda>c. name_char c \<or> c = CHR ''-'') (co_name r)"
  proof (cases "normalize_cohost_name name = []")
    case True
    then show ?thesis using nm(1) ids [of 0] ids [of 1] generated_name_plain by auto
  next
    case False
    then show ?thesis using nm cohost_name_ok_plain by auto
  qed
  have "(i_session j, i_name j) \<noteq> (i_session i, i_name i)" if "j \<in> set (invites db)" for j
    using create_invite_Inr [OF c] imageI [OF that, of "\<lambda>j. (i_session j, i_name j)"] by metis
  then have "List.find (\<lambda>j. i_session j = session_id s \<and> i_name j = co_name r \<and> revoked_at j = None)
      (invites db') = Some i"
    unfolding inv using i eq by (subst find_snoc) auto
  moreover have "passcode_matches check_password (PStr (co_passcode r)) (i_passcode i)"
    using hasher long i(4) by (auto simp: passcode_matches_def Let_def)
  ultimately have "redeem_cohost check_password event_id (PStr (co_name r)) (PStr (co_passcode r)) db' = Inr (Some i, None)"
    by (simp add: redeem_cohost_def public normalize_plain [OF plain])
  then show ?thesis using i eq by blast
qed

text \<open>
  Two unnamed links whose identifiers are drawn in the same \<open>2^30\<close> ms (12.4 days) get the same
  name, so the second call fails, and fails inside the transaction.
\<close>

lemma unnamed_collision:
  assumes s: "qna_session event_id db = Inr (e, s)" and st: "state s \<noteq> Archived"
    and nm: "normalize_cohost_name name = []"
    and pass: "6 \<le> length (normalize_passcode (PStr (if is_blank passcode then new_passcode choices
        else py_strip (py_str passcode))))"
    and ids: "\<And>k :: nat. k < 2 \<Longrightarrow> ids k = opaque_id (ms k) (rnd k) \<and> ms k div 2 ^ 30 = w \<and> rnd k < 2 ^ 80"
    and taken: "i \<in> set (invites db)" "i_session i = session_id s"
      "i_name i = generated_name (opaque_id a ra) (opaque_id b rb)" "a div 2 ^ 30 = w" "b div 2 ^ 30 = w"
      "ra < 2 ^ 80" "rb < 2 ^ 80"
  shows "create_cohost now make_password ids choices event_id name passcode actor ctx db
    = Inl TransactionManagementError"
proof -
  define row where "row = (\<lambda>nm. \<lparr>invite_id = [], i_session = session_id s, i_name = nm,
      i_passcode = make_password (normalize_passcode (PStr (if is_blank passcode then new_passcode choices
        else py_strip (py_str passcode)))), created_by_ref = actor, i_created_at = now, revoked_at = None\<rparr>)"
  have same: "generated_name (ids 0) (ids 1) = i_name i"
    using generated_name_window [of "rnd 0" ra "ms 0" a] generated_name_window [of "rnd (Suc 0)" rb "ms (Suc 0)" b]
      ids [of 0] ids [of "Suc 0"] taken by (simp add: generated_name_def)
  have clash: "create_invite False ((row (i_name i))\<lparr>invite_id := ids 2\<rparr>) db = Inl IntegrityError"
    using taken(1,2) by (force simp: create_invite_def row_def)
  have broken: "create_invite True x db = Inl TransactionManagementError" for x
    by (simp add: create_invite_def)
  have five: "(5 :: nat) = Suc (Suc 3)" by simp
  have "invite_loop 5 [] row ids [] 0 False db = Inl TransactionManagementError"
  proof -
    have first: "invite_loop (Suc n) [] row ids [] 0 False db = invite_loop n [] row ids [] 3 True db" for n
      using same clash by (simp add: Let_def numeral_2_eq_2 numeral_3_eq_3)
    have second: "invite_loop (Suc n) [] row ids [] k True db = Inl TransactionManagementError" for n k
      using broken by (simp add: Let_def)
    show ?thesis unfolding five first second ..
  qed
  then show ?thesis
    using s st nm pass by (simp add: create_cohost_def Let_def row_def)
qed

lemma redeem_Some:
  assumes "redeem_cohost check_password h name passcode db = Inr (Some j, m)"
  shows "j \<in> set (invites db) \<and> revoked_at j = None
    \<and> passcode_matches check_password passcode (i_passcode j) \<and> i_name j = normalize_cohost_name name"
proof (cases "public_session h db")
  case (Inl err)
  then show ?thesis using assms by (cases err) (simp_all add: redeem_cohost_def)
next
  case (Inr es)
  then show ?thesis
    using assms by (cases es) (auto simp: redeem_cohost_def split: option.splits if_splits dest!: find_Some)
qed

lemma cohost_for_request_Some:
  assumes "cohost_for_request unsign sid token db = Some j"
  shows "j \<in> set (invites db) \<and> revoked_at j = None \<and> i_session j = sid"
proof (cases "cohost_claim unsign token")
  case (Some c)
  then show ?thesis
    using assms by (cases c) (auto simp: cohost_for_request_def split: if_splits dest!: find_Some)
qed (use assms in \<open>simp add: cohost_for_request_def\<close>)

lemma redeem_revoked:
  assumes revoke: "revoke_cohost now event_id iid ctx db = Inr ((), db')" and ok: "invites_ok db"
  shows "redeem_cohost check_password h name passcode db' = Inr (Some j, None) \<Longrightarrow> invite_id j \<noteq> iid"
    and "cohost_for_request unsign sid token db' = Some j \<Longrightarrow> invite_id j \<noteq> iid"
    and "invites_ok db'"
proof -
  from revoke obtain e s where s: "qna_session event_id db = Inr (e, s)"
    by (auto simp: revoke_cohost_def bind_res_Inr_iff)
  obtain i where i: "List.find (\<lambda>i. i_session i = session_id s \<and> invite_id i = iid
        \<and> revoked_at i = None) (invites db) = Some i"
    using revoke by (auto simp: revoke_cohost_def s split: option.splits)
  have inv: "invites db' = update_where (\<lambda>r. invite_id r = invite_id i) (\<lambda>r. r\<lparr>revoked_at := Some now\<rparr>) (invites db)"
    using revoke by (auto simp: revoke_cohost_def s i)
  have iid: "invite_id i = iid" using find_Some [OF i] by simp
  have dead: "revoked_at j \<noteq> None" if "j \<in> set (invites db')" "invite_id j = iid" for j
  proof -
    from that(1) have "j \<in> (\<lambda>r. if invite_id r = iid then r\<lparr>revoked_at := Some now\<rparr> else r) ` set (invites db)"
      by (simp only: inv update_where_def iid set_map)
    then obtain x where j: "j = (if invite_id x = iid then x\<lparr>revoked_at := Some now\<rparr> else x)" by (rule imageE)
    then show ?thesis using that(2) by (cases "invite_id x = iid") simp_all
  qed
  show "redeem_cohost check_password h name passcode db' = Inr (Some j, None) \<Longrightarrow> invite_id j \<noteq> iid"
    using dead redeem_Some [of check_password h name passcode db' j] by blast
  show "cohost_for_request unsign sid token db' = Some j \<Longrightarrow> invite_id j \<noteq> iid"
    using dead cohost_for_request_Some [of unsign sid token db' j] by blast
  have "map invite_id (invites db') = map invite_id (invites db)"
    "map (\<lambda>i. (i_session i, i_name i)) (invites db') = map (\<lambda>i. (i_session i, i_name i)) (invites db)"
    by (simp_all add: inv update_where_def)
  then show "invites_ok db'" using ok by (simp add: invites_ok_def)
qed

lemma same_rows_ok:
  assumes "sessions db' = sessions db" "questions db' = questions db" "votes db' = votes db"
  shows "db_ok db' = db_ok db" and "advances db db'"
  using assms by (auto simp: db_ok_def advances_def questions_of_def)

lemma create_cohost_ok:
  assumes "create_cohost now make_password ids choices event_id name passcode actor ctx db = Inr (r, db')"
  shows "invites_ok db \<Longrightarrow> invites_ok db'" and "db_ok db' = db_ok db" and "advances db db'"
proof -
  obtain i where c: "create_invite False i db = Inr (db\<lparr>invites := invites db @ [i]\<rparr>)"
    and inv: "invites db' = invites db @ [i]"
    and same: "sessions db' = sessions db" "questions db' = questions db" "votes db' = votes db"
    by (rule create_cohost_Inr [OF assms])
  show "db_ok db' = db_ok db" "advances db db'" using same_rows_ok [OF same] by simp_all
  show "invites_ok db \<Longrightarrow> invites_ok db'"
    using create_invite_Inr [OF c] by (auto simp: invites_ok_def inv)
qed

lemma revoke_cohost_keeps:
  assumes "revoke_cohost now event_id iid ctx db = Inr (u, db')"
  shows "db_ok db' = db_ok db" and "advances db db'"
proof -
  have "sessions db' = sessions db \<and> questions db' = questions db \<and> votes db' = votes db"
    using assms by (auto simp: revoke_cohost_def bind_res_Inr_iff split: option.splits)
  then show "db_ok db' = db_ok db" "advances db db'" using same_rows_ok [of db' db] by simp_all
qed

end
