(* ===== verification/Qna_Rate.thy ===== *)
theory Qna_Rate
  imports Qna_Moderation
begin

text \<open>
  Fixed-window admission, the pruning of elapsed windows and the retention inventory
  (\<open>admit_rate\<close>, \<open>prune_expired_rate_buckets\<close>, \<open>retention_inventory\<close>). \<open>scope_hash\<close> is the keyed
  SHA-256 of the scope. The branch that handles a concurrent insert of the same bucket re-reads
  the row and then does what the sequential branch does.
\<close>

subsection \<open>Admission\<close>

definition epoch_of :: "datetime \<Rightarrow> int" where
  "epoch_of now = now div 1000000"

definition bucket_of :: "datetime \<Rightarrow> int \<Rightarrow> datetime" where
  "bucket_of now window = seconds (epoch_of now - epoch_of now mod window)"

definition next_rate_id :: "rate_bucket list \<Rightarrow> nat" where
  "next_rate_id rows = Suc (fold max (map rate_id rows) 0)"

definition same_bucket :: "string \<Rightarrow> int \<Rightarrow> datetime \<Rightarrow> rate_bucket \<Rightarrow> bool" where
  "same_bucket scope window start r \<longleftrightarrow>
     scope_digest r = scope \<and> window_seconds r = window \<and> window_started_at r = start"

text \<open>The row of the bucket, created with no hits when it is missing.\<close>

definition get_bucket :: "string \<Rightarrow> int \<Rightarrow> datetime \<Rightarrow> rate_bucket list \<Rightarrow> rate_bucket \<times> rate_bucket list" where
  "get_bucket scope window start rows = (case List.find (same_bucket scope window start) rows of
     Some r \<Rightarrow> (r, rows)
   | None \<Rightarrow>
       let r = \<lparr>rate_id = next_rate_id rows, scope_digest = scope, window_seconds = window,
                window_started_at = start, hits = 0\<rparr>
       in (r, rows @ [r]))"

definition admit_rate ::
    "datetime \<Rightarrow> (string \<Rightarrow> string) \<Rightarrow> string \<Rightarrow> int \<Rightarrow> int \<Rightarrow> db \<Rightarrow> (qna_err, int option \<times> db) res" where
  "admit_rate now scope_hash scope window limit db =
     (if scope = [] \<or> window < 1 \<or> limit < 1
      then Inl (ValueError ''invalid Q&A rate-limit arguments'')
      else
        let epoch = epoch_of now;
            retry = max 1 (window - epoch mod window);
            (row, rows) = get_bucket (scope_hash scope) window (bucket_of now window) (rates db)
        in if hits row \<ge> limit then Inr (Some retry, db\<lparr>rates := rows\<rparr>)
           else
             let matched = (\<lambda>r. rate_id r = rate_id row \<and> hits r < limit)
             in if count_where matched rows = 0 then Inr (Some retry, db\<lparr>rates := rows\<rparr>)
                else Inr (None, db\<lparr>rates := update_where matched (\<lambda>r. r\<lparr>hits := hits r + 1\<rparr>) rows\<rparr>))"

subsection \<open>Pruning\<close>

definition expired :: "datetime \<Rightarrow> int \<Rightarrow> rate_bucket \<Rightarrow> bool" where
  "expired current secs r \<longleftrightarrow> window_seconds r = secs \<and> window_started_at r \<le> current - seconds secs"

text \<open>The loop over the distinct window lengths (the database returns them in some order).\<close>

fun prune_windows :: "datetime \<Rightarrow> int \<Rightarrow> int list \<Rightarrow> int \<Rightarrow> rate_bucket list \<Rightarrow> int \<times> rate_bucket list" where
  "prune_windows current batch [] deleted_so_far rows = (deleted_so_far, rows)"
| "prune_windows current batch (secs # windows) deleted_so_far rows =
     (if deleted_so_far \<ge> batch then (deleted_so_far, rows)
      else let stale_ids = map rate_id (take (nat (batch - deleted_so_far)) (filter (expired current secs) rows))
           in if stale_ids = [] then prune_windows current batch windows deleted_so_far rows
              else let deleted = count_where (\<lambda>r. rate_id r \<in> set stale_ids) rows
                   in prune_windows current batch windows (deleted_so_far + deleted)
                        (filter (\<lambda>r. rate_id r \<notin> set stale_ids) rows))"

definition prune_expired_rate_buckets :: "datetime \<Rightarrow> int \<Rightarrow> db \<Rightarrow> int \<times> db" where
  "prune_expired_rate_buckets current batch db =
     (case prune_windows current batch (remdups (map window_seconds (rates db))) 0 (rates db) of
        (deleted_so_far, rows) \<Rightarrow> (deleted_so_far, db\<lparr>rates := rows\<rparr>))"

definition expired_rate_bucket_count :: "datetime \<Rightarrow> db \<Rightarrow> int" where
  "expired_rate_bucket_count now db =
     sum_list (map (\<lambda>secs. count_where (expired now secs) (rates db)) (remdups (map window_seconds (rates db))))"

record inventory =
  archived_with_delete_deadline :: int
  archived_past_delete_deadline :: int
  indefinite_retention_sessions :: int
  expired_rate_buckets :: int

definition retention_inventory :: "datetime \<Rightarrow> db \<Rightarrow> inventory" where
  "retention_inventory current db =
     \<lparr>archived_with_delete_deadline =
        count_where (\<lambda>s. state s = Archived \<and> archive_delete_at s \<noteq> None) (sessions db),
      archived_past_delete_deadline =
        count_where (\<lambda>s. state s = Archived \<and> (case archive_delete_at s of None \<Rightarrow> False | Some t \<Rightarrow> t \<le> current))
          (sessions db),
      indefinite_retention_sessions = count_where (\<lambda>s. retention_days s = None) (sessions db),
      expired_rate_buckets = expired_rate_bucket_count current db\<rparr>"

subsection \<open>The budget of a bucket\<close>

definition rates_ok :: "rate_bucket list \<Rightarrow> bool" where
  "rates_ok rows \<longleftrightarrow> distinct (map rate_id rows)
     \<and> distinct (map (\<lambda>r. (scope_digest r, window_seconds r, window_started_at r)) rows)
     \<and> (\<forall>r \<in> set rows. 0 \<le> hits r \<and> 1 \<le> window_seconds r)"

text \<open>Admissions a bucket has granted so far.\<close>

definition used :: "string \<Rightarrow> int \<Rightarrow> datetime \<Rightarrow> rate_bucket list \<Rightarrow> int" where
  "used scope window start rows =
     (case List.find (same_bucket scope window start) rows of None \<Rightarrow> 0 | Some r \<Rightarrow> hits r)"

lemma next_rate_id_fresh: "r \<in> set rows \<Longrightarrow> rate_id r < next_rate_id rows"
proof -
  have "x \<in> set xs \<Longrightarrow> x \<le> fold max xs a" and "a \<le> fold max xs a" for x a :: nat and xs
    by (induction xs arbitrary: a) (auto intro: le_trans [OF max.cobounded1] le_trans [OF max.cobounded2])
  moreover assume "r \<in> set rows"
  ultimately have "rate_id r \<le> fold max (map rate_id rows) 0" by simp
  then show ?thesis by (simp add: next_rate_id_def)
qed

lemma get_bucket_ok:
  assumes "rates_ok rows" "1 \<le> window" "get_bucket scope window start rows = (row, rows')"
  shows "rates_ok rows'" and "row \<in> set rows'" and "same_bucket scope window start row"
    and "hits row = used scope window start rows" and "used s w t rows' = used s w t rows"
    and "List.find (same_bucket scope window start) rows' = Some row"
proof -
  have "rates_ok rows' \<and> row \<in> set rows' \<and> same_bucket scope window start row
      \<and> hits row = used scope window start rows \<and> used s w t rows' = used s w t rows
      \<and> List.find (same_bucket scope window start) rows' = Some row"
  proof (cases "List.find (same_bucket scope window start) rows")
    case (Some r)
    then show ?thesis using assms find_Some [OF Some] by (simp add: get_bucket_def used_def)
  next
    case None
    let ?r = "\<lparr>rate_id = next_rate_id rows, scope_digest = scope, window_seconds = window,
                window_started_at = start, hits = 0\<rparr>"
    from None assms(3) have eq: "row = ?r" "rows' = rows @ [?r]" by (auto simp: get_bucket_def Let_def)
    from None have new: "\<not> same_bucket scope window start r" if "r \<in> set rows" for r
      using that by (auto simp: find_None_iff)
    have "rates_ok (rows @ [?r])"
      using assms(1,2) new next_rate_id_fresh [of _ rows]
      by (fastforce simp: rates_ok_def same_bucket_def)
    moreover have find: "List.find P (rows @ [x]) = (case List.find P rows of Some y \<Rightarrow> Some y | None \<Rightarrow> if P x then Some x else None)"
      for P x by (induction rows) auto
    ultimately show ?thesis
      using None by (auto simp: eq used_def same_bucket_def split: option.splits)
  qed
  then show "rates_ok rows'" and "row \<in> set rows'" and "same_bucket scope window start row"
    and "hits row = used scope window start rows" and "used s w t rows' = used s w t rows"
    and "List.find (same_bucket scope window start) rows' = Some row"
    by auto
qed

lemma used_update:
  assumes "rates_ok rows" and "row \<in> set rows" and "same_bucket scope window start row" and "hits row < limit"
  shows "used s w t (update_where (\<lambda>r. rate_id r = rate_id row \<and> hits r < limit) (\<lambda>r. r\<lparr>hits := hits r + 1\<rparr>) rows)
    = used s w t rows + (if (s, w, t) = (scope, window, start) then 1 else 0)"
proof -
  let ?P = "\<lambda>r. rate_id r = rate_id row \<and> hits r < limit" and ?f = "\<lambda>r :: rate_bucket. r\<lparr>hits := hits r + 1\<rparr>"
  let ?key = "\<lambda>r. (scope_digest r, window_seconds r, window_started_at r)"
  have d: "distinct (map rate_id rows)" "distinct (map ?key rows)" using assms(1) by (simp_all add: rates_ok_def)
  have only: "?P r \<longleftrightarrow> r = row" if "r \<in> set rows" for r
    using distinct_key_eq [OF d(1) that assms(2)] assms(4) by auto
  have bucket: "r = row \<longleftrightarrow> same_bucket scope window start r" if "r \<in> set rows" for r
    using distinct_key_eq [OF d(2) that assms(2)] assms(3) by (auto simp: same_bucket_def)
  have find: "List.find (same_bucket s w t) (update_where ?P ?f xs)
      = map_option (\<lambda>r. if ?P r then ?f r else r) (List.find (same_bucket s w t) xs)" for xs
    by (induction xs) (auto simp: update_where_def same_bucket_def)
  show ?thesis
  proof (cases "List.find (same_bucket s w t) rows")
    case None
    then have "(s, w, t) \<noteq> (scope, window, start)" using assms(2,3) by (auto simp: find_None_iff)
    then show ?thesis using None by (auto simp: used_def find)
  next
    case (Some r)
    then have r: "r \<in> set rows" "same_bucket s w t r" using find_Some [OF Some] by simp_all
    then have "r = row \<longleftrightarrow> (s, w, t) = (scope, window, start)"
      using bucket [OF r(1)] by (auto simp: same_bucket_def)
    then show ?thesis using Some only [OF r(1)] by (auto simp: used_def find)
  qed
qed

lemma rates_ok_update:
  assumes "rates_ok rows"
  shows "rates_ok (update_where P (\<lambda>r. r\<lparr>hits := hits r + 1\<rparr>) rows)"
proof -
  have "map rate_id (update_where P (\<lambda>r. r\<lparr>hits := hits r + 1\<rparr>) rows) = map rate_id rows"
    "map (\<lambda>r. (scope_digest r, window_seconds r, window_started_at r)) (update_where P (\<lambda>r. r\<lparr>hits := hits r + 1\<rparr>) rows)
      = map (\<lambda>r. (scope_digest r, window_seconds r, window_started_at r)) rows"
    by (simp_all add: update_where_def)
  moreover have "\<forall>r \<in> set (update_where P (\<lambda>r. r\<lparr>hits := hits r + 1\<rparr>) rows). 0 \<le> hits r \<and> 1 \<le> window_seconds r"
    using assms by (auto simp: rates_ok_def update_where_def)
  ultimately show ?thesis using assms unfolding rates_ok_def by (simp only: simp_thms)
qed

lemma admit_rate_ok:
  assumes ok: "rates_ok (rates db)" and run: "admit_rate now scope_hash scope window limit db = Inr (res, db')"
  defines "h \<equiv> scope_hash scope" and "b \<equiv> bucket_of now window"
  shows "rates_ok (rates db')" and "1 \<le> window" and "1 \<le> limit"
    and "res = None \<longleftrightarrow> used h window b (rates db) < limit"
    and "used s w t (rates db') = used s w t (rates db)
      + (if res = None \<and> (s, w, t) = (h, window, b) then 1 else 0)"
    and "res = Some r \<Longrightarrow> 1 \<le> r \<and> r \<le> window \<and> seconds (epoch_of now + r) = b + seconds window"
    and "db' = db\<lparr>rates := rates db'\<rparr>"
proof -
  from run have args: "scope \<noteq> []" "1 \<le> window" "1 \<le> limit"
    by (auto simp: admit_rate_def split: if_splits)
  obtain row rows where get: "get_bucket h window b (rates db) = (row, rows)"
    by (cases "get_bucket h window b (rates db)")
  note g = get_bucket_ok [OF ok args(2) get]
  let ?matched = "\<lambda>r. rate_id r = rate_id row \<and> hits r < limit"
  have one: "count_where ?matched rows \<noteq> 0" if "hits row < limit"
    using count_where_pos [OF g(2), of ?matched] that by simp
  have result: "(res, db') = (if hits row \<ge> limit then (Some (max 1 (window - epoch_of now mod window)), db\<lparr>rates := rows\<rparr>)
      else (None, db\<lparr>rates := update_where ?matched (\<lambda>r. r\<lparr>hits := hits r + 1\<rparr>) rows\<rparr>))"
    using run args get one unfolding admit_rate_def Let_def h_def b_def by (auto split: if_splits)
  show "1 \<le> window" "1 \<le> limit" by (rule args)+
  show "rates_ok (rates db')" "db' = db\<lparr>rates := rates db'\<rparr>"
    using result g(1) rates_ok_update by (auto split: if_splits)
  show "res = None \<longleftrightarrow> used h window b (rates db) < limit"
    using result g(4) by (auto split: if_splits)
  show "used s w t (rates db') = used s w t (rates db) + (if res = None \<and> (s, w, t) = (h, window, b) then 1 else 0)"
    using result g(5) used_update [OF g(1,2,3), of limit s w t] by (auto split: if_splits)
  show "1 \<le> r \<and> r \<le> window \<and> seconds (epoch_of now + r) = b + seconds window" if "res = Some r"
  proof -
    from that result have r: "r = max 1 (window - epoch_of now mod window)" by (auto split: if_splits)
    have m: "0 \<le> epoch_of now mod window" "epoch_of now mod window < window" using args(2) by simp_all
    then have "r = window - epoch_of now mod window" using r by linarith
    then show ?thesis using m by (simp add: b_def bucket_of_def seconds_def)
  qed
qed

text \<open>A run of calls for one scope, all in one window.\<close>

fun admissions ::
    "(string \<Rightarrow> string) \<Rightarrow> string \<Rightarrow> int \<Rightarrow> int \<Rightarrow> datetime list \<Rightarrow> db \<Rightarrow> (qna_err, nat \<times> db) res" where
  "admissions scope_hash scope window limit [] db = Inr (0, db)"
| "admissions scope_hash scope window limit (now # nows) db =
     bind_res (admit_rate now scope_hash scope window limit db) (\<lambda>(res, db).
     bind_res (admissions scope_hash scope window limit nows db) (\<lambda>(n, db).
       Inr (if res = None then n + 1 else n, db)))"

lemma admissions_count:
  assumes "rates_ok (rates db)" and "scope \<noteq> []" "1 \<le> window" "1 \<le> limit"
    and "\<forall>now \<in> set nows. bucket_of now window = b"
    and "used (scope_hash scope) window b (rates db) \<le> limit"
  shows "\<exists>db'. admissions scope_hash scope window limit nows db
    = Inr (min (length nows) (nat (limit - used (scope_hash scope) window b (rates db))), db')"
  using assms(1,5,6)
proof (induction nows arbitrary: db)
  case (Cons now nows)
  have "\<exists>res db1. admit_rate now scope_hash scope window limit db = Inr (res, db1)"
    using assms(2-4) by (simp add: admit_rate_def Let_def split: prod.splits)
  then obtain res db1 where run: "admit_rate now scope_hash scope window limit db = Inr (res, db1)" by blast
  note a = admit_rate_ok [OF Cons.prems(1) run]
  have b: "bucket_of now window = b" using Cons.prems(2) by simp
  let ?u = "used (scope_hash scope) window b (rates db)"
  have u1: "used (scope_hash scope) window b (rates db1) = ?u + (if res = None then 1 else 0)"
    and res: "res = None \<longleftrightarrow> ?u < limit"
    using a(4) a(5) [of "scope_hash scope" window b] by (simp_all add: b)
  then have "used (scope_hash scope) window b (rates db1) \<le> limit" using Cons.prems(3) by auto
  then obtain db' where "admissions scope_hash scope window limit nows db1
      = Inr (min (length nows) (nat (limit - used (scope_hash scope) window b (rates db1))), db')"
    using Cons.IH [OF a(1)] Cons.prems(2) by auto
  then show ?case using run u1 res Cons.prems(3) by (auto simp: nat_diff_distrib' min_def)
qed simp

subsection \<open>What pruning removes\<close>

lemma prune_windows_ok:
  assumes "distinct (map rate_id rows)" and "n \<le> batch"
    and "prune_windows current batch windows n rows = (m, rows')"
  shows "n \<le> m \<and> m \<le> batch \<and> m - n = int (length rows) - int (length rows')
    \<and> set rows' \<subseteq> set rows \<and> distinct (map rate_id rows')
    \<and> (\<forall>r \<in> set rows - set rows'. \<exists>secs \<in> set windows. expired current secs r)
    \<and> (m < batch \<longrightarrow> (\<forall>secs \<in> set windows. \<forall>r \<in> set rows'. \<not> expired current secs r))"
  using assms
proof (induction windows arbitrary: n rows)
  case (Cons secs windows)
  show ?case
  proof (cases "batch \<le> n")
    case True
    then show ?thesis using Cons.prems by auto
  next
    case False
    define stale where "stale = take (nat (batch - n)) (filter (expired current secs) rows)"
    let ?ids = "set (map rate_id stale)"
    let ?rows = "filter (\<lambda>r. rate_id r \<notin> ?ids) rows"
    have sub: "r \<in> set rows \<and> expired current secs r" if "r \<in> set stale" for r
      using that by (auto simp: stale_def dest: in_set_takeD)
    have mem: "rate_id r \<in> ?ids \<longleftrightarrow> r \<in> set stale" if "r \<in> set rows" for r
      using that sub distinct_key_eq [OF Cons.prems(1)] by (auto simp: image_iff)
    have dst: "distinct rows" using Cons.prems(1) by (simp add: distinct_map)
    then have dstale: "distinct stale" by (simp add: stale_def distinct_take)
    have "count_where (\<lambda>r. rate_id r \<in> ?ids) rows = count_where (\<lambda>r. r \<in> set stale) rows"
      by (rule count_where_cong) (rule mem)
    also have "\<dots> = int (card (set (filter (\<lambda>r. r \<in> set stale) rows)))"
      unfolding count_where_def using distinct_card [OF distinct_filter [OF dst]] by metis
    also have "set (filter (\<lambda>r. r \<in> set stale) rows) = set stale" using sub by auto
    also have "int (card (set stale)) = int (length stale)" using dstale by (simp add: distinct_card)
    finally have count: "count_where (\<lambda>r. rate_id r \<in> ?ids) rows = int (length stale)" .
    have len: "int (length rows) - int (length ?rows) = int (length stale)"
      using count sum_length_filter_compl [of "\<lambda>r. rate_id r \<in> ?ids" rows] by (simp add: count_where_def)
    have le: "n + int (length stale) \<le> batch" using False by (simp add: stale_def)
    have gone: "n + int (length stale) < batch \<Longrightarrow> r \<in> set ?rows \<Longrightarrow> \<not> expired current secs r" for r
    proof
      assume "n + int (length stale) < batch" "r \<in> set ?rows" "expired current secs r"
      then have "stale = filter (expired current secs) rows" by (simp add: stale_def)
      with \<open>r \<in> set ?rows\<close> \<open>expired current secs r\<close> show False using mem by auto
    qed
    have step: "prune_windows current batch windows (n + int (length stale)) ?rows = (m, rows')"
    proof (cases "stale = []")
      case True
      then show ?thesis using Cons.prems(3) False by (simp add: stale_def [symmetric])
    next
      case False': False
      then show ?thesis using Cons.prems(3) False count by (simp add: stale_def [symmetric] Let_def)
    qed
    have IH: "n + int (length stale) \<le> m \<and> m \<le> batch \<and> m - (n + int (length stale)) = int (length ?rows) - int (length rows')
      \<and> set rows' \<subseteq> set ?rows \<and> distinct (map rate_id rows')
      \<and> (\<forall>r \<in> set ?rows - set rows'. \<exists>secs \<in> set windows. expired current secs r)
      \<and> (m < batch \<longrightarrow> (\<forall>secs \<in> set windows. \<forall>r \<in> set rows'. \<not> expired current secs r))"
      using Cons.prems(1) by (intro Cons.IH [OF _ le step]) (simp add: distinct_map inj_on_def)
    have removed: "\<exists>t \<in> set (secs # windows). expired current t r" if "r \<in> set rows - set rows'" for r
    proof (cases "r \<in> set ?rows")
      case True
      then show ?thesis using IH that by auto
    next
      case False
      then show ?thesis using that mem sub by auto
    qed
    have kept: "m < batch \<longrightarrow> (\<forall>t \<in> set (secs # windows). \<forall>r \<in> set rows'. \<not> expired current t r)"
    proof (intro impI ballI)
      fix t r assume "m < batch" "t \<in> set (secs # windows)" "r \<in> set rows'"
      then show "\<not> expired current t r" using IH gone [of r] by auto
    qed
    show ?thesis using IH len removed kept by auto
  qed
qed simp

end
