(* ===== verification/Py_Number.thy ===== *)
theory Py_Number
  imports Prelude
begin

text \<open>
  Python's \<open>int(str)\<close> and \<open>float(str)\<close> and the double arithmetic the sources use. A finite double is
  \<open>Fin m e\<close>, the number \<open>m * 2^e\<close>; every operation computes the exact result and rounds it once, to
  nearest with ties to even, as IEEE 754 prescribes. Zeros carry no sign, which no operation of the
  sources can see.
\<close>

subsection \<open>int(str)\<close>

text \<open>The whitespace \<open>int\<close> and \<open>float\<close> strip, on code points below 256.\<close>

definition number_space :: "char \<Rightarrow> bool" where
  "number_space c \<longleftrightarrow> (let n = (of_char c :: nat) in (9 \<le> n \<and> n \<le> 13) \<or> n = 32 \<or> n = 133 \<or> n = 160)"

definition number_strip :: "string \<Rightarrow> string" where
  "number_strip s = rev (dropWhile number_space (rev (dropWhile number_space s)))"

definition digit :: "char \<Rightarrow> bool" where
  "digit c \<longleftrightarrow> (let n = (of_char c :: nat) in 48 \<le> n \<and> n \<le> 57)"

definition digits_value :: "string \<Rightarrow> int" where
  "digits_value ds = foldl (\<lambda>acc c. 10 * acc + (of_char c - 48)) 0 ds"

text \<open>\<open>True\<close> for a minus sign.\<close>

fun split_sign :: "string \<Rightarrow> bool \<times> string" where
  "split_sign [] = (False, [])"
| "split_sign (c # cs) =
     (if c = CHR ''-'' then (True, cs) else if c = CHR ''+'' then (False, cs) else (False, c # cs))"

definition signed :: "bool \<Rightarrow> int \<Rightarrow> int" where
  "signed neg n = (if neg then - n else n)"

text \<open>Single underscores may separate digits; more than 4300 digits are refused.\<close>

definition py_int :: "string \<Rightarrow> int option" where
  "py_int s =
     (let (neg, body) = split_sign (number_strip s);
          parts = py_split (CHR ''_'') body
      in if list_all (\<lambda>p. p \<noteq> [] \<and> list_all digit p) parts \<and> length (concat parts) \<le> 4300
         then Some (signed neg (digits_value (concat parts))) else None)"

subsection \<open>Doubles\<close>

datatype pyfloat = Nan | Inf bool | Fin int int

text \<open>\<open>n / d\<close> to the nearest integer, ties to even.\<close>

definition div_even :: "int \<Rightarrow> int \<Rightarrow> int" where
  "div_even n d = (let q = n div d; r = n mod d in
     if 2 * r < d then q else if d < 2 * r then q + 1 else if even q then q else q + 1)"

text \<open>The double nearest to \<open>a / b\<close>, for \<open>0 \<le> a\<close> and \<open>0 < b\<close>, with the sign put back.\<close>

definition round_ratio :: "bool \<Rightarrow> int \<Rightarrow> int \<Rightarrow> pyfloat" where
  "round_ratio neg a b =
     (if a = 0 then Fin 0 0
      else
        let e = int (bit_length a) - int (bit_length b) - 53;
            e = (if 2 ^ 53 * (b * 2 ^ nat e) \<le> a * 2 ^ nat (- e) then e + 1 else e);
            e = max (- 1074) e;
            m = div_even (a * 2 ^ nat (- e)) (b * 2 ^ nat e)
        in if 971 < e \<or> e = 971 \<and> m = 2 ^ 53 then Inf neg else Fin (signed neg m) e)"

text \<open>The double nearest to \<open>d * 2^k\<close>.\<close>

definition round_dyadic :: "int \<Rightarrow> int \<Rightarrow> pyfloat" where
  "round_dyadic d k = round_ratio (d < 0) (\<bar>d\<bar> * 2 ^ nat k) (2 ^ nat (- k))"

fun fl_neg :: "pyfloat \<Rightarrow> pyfloat" where
  "fl_neg Nan = Nan" | "fl_neg (Inf s) = Inf (\<not> s)" | "fl_neg (Fin m e) = Fin (- m) e"

fun fl_add :: "pyfloat \<Rightarrow> pyfloat \<Rightarrow> pyfloat" where
  "fl_add (Fin m e) (Fin n f) =
     (let k = min e f in round_dyadic (m * 2 ^ nat (e - k) + n * 2 ^ nat (f - k)) k)"
| "fl_add (Inf s) (Inf t) = (if s = t then Inf s else Nan)"
| "fl_add (Inf s) (Fin n f) = Inf s"
| "fl_add (Fin m e) (Inf t) = Inf t"
| "fl_add _ _ = Nan"

definition fl_sub :: "pyfloat \<Rightarrow> pyfloat \<Rightarrow> pyfloat" where
  "fl_sub x y = fl_add x (fl_neg y)"

fun fl_abs :: "pyfloat \<Rightarrow> pyfloat" where
  "fl_abs Nan = Nan" | "fl_abs (Inf s) = Inf False" | "fl_abs (Fin m e) = Fin \<bar>m\<bar> e"

fun fl_le :: "pyfloat \<Rightarrow> pyfloat \<Rightarrow> bool" where
  "fl_le (Fin m e) (Fin n f) = (let k = min e f in m * 2 ^ nat (e - k) \<le> n * 2 ^ nat (f - k))"
| "fl_le (Inf s) (Inf t) = (s \<or> \<not> t)"
| "fl_le (Inf s) (Fin n f) = s"
| "fl_le (Fin m e) (Inf t) = (\<not> t)"
| "fl_le _ _ = False"

subsection \<open>float(str)\<close>

text \<open>Underscores may stand between two digits only; they are dropped.\<close>

fun drop_underscores :: "char \<Rightarrow> string \<Rightarrow> string option" where
  "drop_underscores prev [] = (if prev = CHR ''_'' then None else Some [])"
| "drop_underscores prev (c # cs) =
     (if c = CHR ''_'' then if digit prev then drop_underscores c cs else None
      else if prev = CHR ''_'' \<and> \<not> digit c then None
      else map_option (Cons c) (drop_underscores c cs))"

text \<open>The exponent part, empty when there is none.\<close>

definition parse_exponent :: "string \<Rightarrow> int option" where
  "parse_exponent s = (case s of
     [] \<Rightarrow> Some 0
   | c # cs \<Rightarrow>
       if c \<noteq> CHR ''e'' \<and> c \<noteq> CHR ''E'' then None
       else let (neg, ds) = split_sign cs
            in if ds \<noteq> [] \<and> list_all digit ds then Some (signed neg (digits_value ds)) else None)"

text \<open>\<open>float\<close> of \<open>whole . fraction * 10^ex\<close>.\<close>

definition decimal_float :: "bool \<Rightarrow> string \<Rightarrow> string \<Rightarrow> int \<Rightarrow> pyfloat" where
  "decimal_float neg whole fraction ex =
     (let e = ex - int (length fraction)
      in round_ratio neg (digits_value (whole @ fraction) * 10 ^ nat e) (10 ^ nat (- e)))"

definition py_float :: "string \<Rightarrow> pyfloat option" where
  "py_float s = (case drop_underscores (CHR '' '') (number_strip s) of
     None \<Rightarrow> None
   | Some t \<Rightarrow>
       let (neg, body) = split_sign t
       in if py_lower body = ''inf'' \<or> py_lower body = ''infinity'' then Some (Inf neg)
          else if py_lower body = ''nan'' then Some Nan
          else
            let whole = takeWhile digit body; rest = dropWhile digit body;
                point = (rest \<noteq> [] \<and> hd rest = CHR ''.'');
                fraction = (if point then takeWhile digit (tl rest) else []);
                rest = (if point then dropWhile digit (tl rest) else rest)
            in if whole = [] \<and> fraction = [] then None
               else map_option (decimal_float neg whole fraction) (parse_exponent rest))"

subsection \<open>Integers are exact\<close>

lemma digits_value_snoc: "digits_value (ds @ [c]) = 10 * digits_value ds + (of_char c - 48)"
  by (simp add: digits_value_def)

lemma nat_digits_shape:
  "nat_digits n \<noteq> [] \<and> list_all digit (nat_digits n) \<and> digits_value (nat_digits n) = int n"
proof (induction n rule: nat_digits.induct)
  case (1 n)
  have d: "digit (char_of (48 + k))" "of_char (char_of (48 + k) :: char) = (48 + int k :: int)" if "k < 10" for k :: nat
  proof -
    have nat: "(of_char (char_of (48 + k) :: char) :: nat) = 48 + k" using that by simp
    then show "digit (char_of (48 + k))" using that by (simp add: digit_def)
    show "of_char (char_of (48 + k) :: char) = (48 + int k :: int)"
      using arg_cong [OF nat, of int] by (simp only: of_nat_of_char of_nat_add of_nat_numeral)
  qed
  show ?case
  proof (cases "n < 10")
    case True
    then show ?thesis using d [of n] by (simp add: nat_digits.simps [of n] digits_value_def)
  next
    case False
    then show ?thesis
      using 1 d [of "n mod 10"]
      by (simp add: nat_digits.simps [of n] digits_value_snoc zdiv_int zmod_int)
  qed
qed

lemma bit_length_scaled: "0 < n \<Longrightarrow> bit_length (n * 2 ^ j) = bit_length n + j"
proof (induction j)
  case (Suc j)
  have "0 < n * 2 ^ j" using Suc.prems by simp
  then have "bit_length (n * 2 ^ Suc j) = Suc (bit_length (n * 2 ^ j))"
    by (simp add: bit_length.simps [of "n * (2 * 2 ^ j)"] drop_bit_eq_div linorder_not_le)
  then show ?case using Suc by simp
qed simp

lemma round_ratio_int:
  assumes "0 \<le> n" and "n < 2 ^ 53"
  shows "\<exists>m e. round_ratio neg (n * 2 ^ j) (2 ^ j) = Fin (signed neg m) e \<and> e \<le> 0 \<and> m = n * 2 ^ nat (- e)"
proof (cases "n = 0")
  case True
  then show ?thesis by (auto simp: round_ratio_def signed_def intro!: exI [of _ 0])
next
  case False
  then have pos: "0 < n" using assms by simp
  let ?a = "n * 2 ^ j" and ?b = "2 ^ j :: int"
  let ?e0 = "int (bit_length ?a) - int (bit_length ?b) - 53"
  have one: "bit_length 1 = 1" by (simp add: bit_length.simps [of 1])
  have "bit_length n \<le> 53" using assms bit_length_le_iff [of n 53] by simp
  then have e0: "?e0 \<le> - 1" using bit_length_scaled [OF pos, of j] bit_length_scaled [of 1 j] by (simp add: one)
  define e where "e = max (- 1074) (if 2 ^ 53 * (?b * 2 ^ nat ?e0) \<le> ?a * 2 ^ nat (- ?e0) then ?e0 + 1 else ?e0)"
  have e: "e \<le> 0" using e0 by (auto simp: e_def)
  have "?a * 2 ^ nat (- e) = (n * 2 ^ nat (- e)) * ?b" by simp
  then have "div_even (?a * 2 ^ nat (- e)) (?b * 2 ^ nat e) = n * 2 ^ nat (- e)"
    using e by (simp add: div_even_def)
  then have "round_ratio neg ?a ?b = Fin (signed neg (n * 2 ^ nat (- e))) e"
    using pos e unfolding round_ratio_def Let_def e_def [symmetric] by simp
  then show ?thesis using e by blast
qed

text \<open>A double that is the integer \<open>n\<close>.\<close>

definition is_integer :: "int \<Rightarrow> pyfloat \<Rightarrow> bool" where
  "is_integer n x \<longleftrightarrow> (\<exists>e \<le> 0. x = Fin (n * 2 ^ nat (- e)) e)"

lemma round_ratio_is_integer:
  "0 \<le> n \<Longrightarrow> n < 2 ^ 53 \<Longrightarrow> is_integer (signed neg n) (round_ratio neg (n * 2 ^ j) (2 ^ j))"
  using round_ratio_int [of n neg j] by (auto simp: is_integer_def signed_def)

lemma is_integer_neg: "is_integer n x \<Longrightarrow> is_integer (- n) (fl_neg x)"
  by (auto simp: is_integer_def)

lemma is_integer_abs: "is_integer n x \<Longrightarrow> is_integer \<bar>n\<bar> (fl_abs x)"
  by (auto simp: is_integer_def abs_mult)

lemma is_integer_add:
  assumes "is_integer a x" and "is_integer b y" and "\<bar>a + b\<bar> < 2 ^ 53"
  shows "is_integer (a + b) (fl_add x y)"
proof -
  obtain e f where x: "x = Fin (a * 2 ^ nat (- e)) e" "e \<le> 0" and y: "y = Fin (b * 2 ^ nat (- f)) f" "f \<le> 0"
    using assms by (auto simp: is_integer_def)
  define k where "k = min e f"
  have k: "k \<le> 0" "nat (- e) + nat (e - k) = nat (- k)" "nat (- f) + nat (f - k) = nat (- k)"
    using x(2) y(2) by (auto simp: k_def)
  have d: "a * 2 ^ nat (- e) * 2 ^ nat (e - k) + b * 2 ^ nat (- f) * 2 ^ nat (f - k) = (a + b) * 2 ^ nat (- k)"
    by (simp add: mult.assoc k(2,3) algebra_simps flip: power_add)
  have "fl_add x y = round_dyadic ((a + b) * 2 ^ nat (- k)) k"
    unfolding x(1) y(1) fl_add.simps Let_def k_def [symmetric] d ..
  also have "\<dots> = round_ratio (a + b < 0) (\<bar>a + b\<bar> * 2 ^ nat (- k)) (2 ^ nat (- k))"
    using k(1) by (simp add: round_dyadic_def abs_mult mult_less_0_iff)
  finally show ?thesis
    using round_ratio_is_integer [of "\<bar>a + b\<bar>" "a + b < 0" "nat (- k)"] assms(3)
    by (auto simp: signed_def add.commute split: if_splits)
qed

lemma py_float_int:
  assumes "\<bar>n\<bar> < 2 ^ 53"
  shows "\<exists>x. py_float (py_str_int n) = Some x \<and> is_integer n x"
proof -
  define ds where "ds = nat_digits (nat \<bar>n\<bar>)"
  have ds: "ds \<noteq> []" "list_all digit ds" "digits_value ds = \<bar>n\<bar>"
    using nat_digits_shape [of "nat \<bar>n\<bar>"] by (simp_all add: ds_def)
  have str: "py_str_int n = (if n < 0 then CHR ''-'' # ds else ds)" by (auto simp: py_str_int_def ds_def)
  have notspace: "\<not> number_space c" if "digit c" for c using that by (auto simp: digit_def number_space_def Let_def)
  have plain: "\<not> number_space (hd ds)" "\<not> number_space (last ds)"
    using ds(1,2) notspace by (auto simp: list_all_iff)
  have strip: "number_strip (py_str_int n) = py_str_int n"
  proof -
    have keep: "dropWhile number_space xs = xs" if "xs \<noteq> []" "\<not> number_space (hd xs)" for xs
      using that by (cases xs) auto
    have "hd (py_str_int n) = CHR ''-'' \<or> hd (py_str_int n) = hd ds" "py_str_int n \<noteq> []"
      "hd (rev (py_str_int n)) = last ds"
      using ds(1) by (auto simp: str hd_rev)
    then show ?thesis using plain keep [of "py_str_int n"] keep [of "rev (py_str_int n)"]
      by (auto simp: number_strip_def number_space_def)
  qed
  have under: "c \<noteq> CHR ''_'' \<and> c \<noteq> CHR ''-'' \<and> c \<noteq> CHR ''+'' \<and> py_lower_char c = c \<and> c \<noteq> CHR ''i'' \<and> c \<noteq> CHR ''n''"
    if "digit c" for c
    using that by (auto simp: digit_def py_lower_char_def Let_def)
  have drop: "drop_underscores p xs = Some xs" if "list_all (\<lambda>c. c \<noteq> CHR ''_'') xs" "p \<noteq> CHR ''_''" for p xs
    using that by (induction xs arbitrary: p) auto
  have clean: "drop_underscores (CHR '' '') (py_str_int n) = Some (py_str_int n)"
    using ds(2) under by (intro drop) (auto simp: str list_all_iff)
  obtain d dt where cons: "ds = d # dt" "digit d" using ds(1,2) by (cases ds) auto
  have sign: "split_sign (py_str_int n) = (n < 0, ds)"
    using under [OF cons(2)] by (simp add: str cons(1))
  have body: "py_lower ds \<noteq> ''inf''" "py_lower ds \<noteq> ''infinity''" "py_lower ds \<noteq> ''nan''"
    using under [OF cons(2)] by (auto simp: py_lower_def cons(1))
  have whole: "takeWhile digit ds = ds" "dropWhile digit ds = []"
    using ds(2) by (auto simp: list_all_iff)
  have "py_float (py_str_int n) = Some (decimal_float (n < 0) ds [] 0)"
    using ds(1) by (simp add: py_float_def strip clean sign body whole parse_exponent_def Let_def)
  moreover have "is_integer n (decimal_float (n < 0) ds [] 0)"
    using round_ratio_is_integer [of "\<bar>n\<bar>" "n < 0" 0] assms
    by (auto simp: decimal_float_def ds(3) signed_def split: if_splits)
  ultimately show ?thesis by blast
qed

subsection \<open>int(str(n))\<close>

lemma digit_chars:
  "digit c \<Longrightarrow> c \<noteq> CHR ''_'' \<and> c \<noteq> CHR ''-'' \<and> c \<noteq> CHR ''+'' \<and> c \<noteq> CHR '','' \<and> \<not> py_space c \<and> \<not> number_space c"
  by (auto simp: digit_def py_space_def number_space_def Let_def)

lemma leading_digit: "1 \<le> n \<Longrightarrow> hd (nat_digits n) \<noteq> CHR ''0''"
proof (induction n rule: nat_digits.induct)
  case (1 n)
  show ?case
  proof (cases "n < 10")
    case True
    have "char_of (48 + n) \<noteq> (CHR ''0'' :: char)"
    proof
      assume "char_of (48 + n) = (CHR ''0'' :: char)"
      then have "of_char (char_of (48 + n) :: char) = (of_char (CHR ''0'') :: nat)" by simp
      then show False using True 1(2) by simp
    qed
    then show ?thesis using True by (simp add: nat_digits.simps [of n])
  next
    case False
    then have "hd (nat_digits n) = hd (nat_digits (n div 10))"
      using nat_digits_shape [of "n div 10"] by (simp add: nat_digits.simps [of n])
    then show ?thesis using 1 False by simp
  qed
qed

lemma length_nat_digits: "n < 10 ^ Suc k \<Longrightarrow> length (nat_digits n) \<le> Suc k"
proof (induction k arbitrary: n)
  case 0
  then show ?case by (simp add: nat_digits.simps [of n])
next
  case (Suc k)
  then have "n div 10 < 10 ^ Suc k" by (simp add: less_mult_imp_div_less mult.commute)
  with Suc.IH show ?case by (simp add: nat_digits.simps [of n])
qed

text \<open>The text of an integer: an optional minus sign and digits.\<close>

lemma py_str_int_shape:
  obtains ds where "py_str_int n = (if n < 0 then CHR ''-'' # ds else ds)" "ds = nat_digits (nat \<bar>n\<bar>)"
    "ds \<noteq> []" "list_all digit ds" "digits_value ds = \<bar>n\<bar>"
  using that [of "nat_digits (nat \<bar>n\<bar>)"] nat_digits_shape [of "nat \<bar>n\<bar>"] by (auto simp: py_str_int_def)

lemma py_str_int_plain:
  "py_str_int n \<noteq> []" "c \<in> set (py_str_int n) \<Longrightarrow> c \<noteq> CHR '','' \<and> \<not> py_space c \<and> \<not> number_space c"
proof -
  obtain ds where ds: "py_str_int n = (if n < 0 then CHR ''-'' # ds else ds)" "ds \<noteq> []" "list_all digit ds"
    by (rule py_str_int_shape)
  show "py_str_int n \<noteq> []" using ds by simp
  have "c = CHR ''-'' \<or> digit c" if "c \<in> set (py_str_int n)"
    using that ds by (auto simp: list_all_iff split: if_splits)
  then show "c \<in> set (py_str_int n) \<Longrightarrow> c \<noteq> CHR '','' \<and> \<not> py_space c \<and> \<not> number_space c"
    using digit_chars [of c] by (auto simp: py_space_def number_space_def)
qed

lemma dropWhile_none: "(\<And>x. x \<in> set xs \<Longrightarrow> \<not> P x) \<Longrightarrow> dropWhile P xs = xs"
  by (cases xs) auto

lemma number_strip_none: "(\<And>c. c \<in> set s \<Longrightarrow> \<not> number_space c) \<Longrightarrow> number_strip s = s"
proof -
  assume plain: "\<And>c. c \<in> set s \<Longrightarrow> \<not> number_space c"
  then have "dropWhile number_space s = s" by (rule dropWhile_none)
  moreover have "dropWhile number_space (rev s) = rev s" using plain by (intro dropWhile_none) simp
  ultimately show ?thesis by (simp add: number_strip_def)
qed

lemma py_split_none: "c \<notin> set s \<Longrightarrow> py_split c s = [s]"
  by (induction s) auto

lemma py_int_str:
  assumes "\<bar>n\<bar> < 10 ^ 18"
  shows "py_int (py_str_int n) = Some n"
proof -
  obtain ds where ds: "py_str_int n = (if n < 0 then CHR ''-'' # ds else ds)" "ds = nat_digits (nat \<bar>n\<bar>)"
    "ds \<noteq> []" "list_all digit ds" "digits_value ds = \<bar>n\<bar>" by (rule py_str_int_shape)
  have strip: "number_strip (py_str_int n) = py_str_int n"
    by (rule number_strip_none) (use py_str_int_plain(2) in blast)
  obtain d dt where cons: "ds = d # dt" "digit d" using ds(3,4) by (cases ds) auto
  have sign: "split_sign (py_str_int n) = (n < 0, ds)"
    using digit_chars [OF cons(2)] by (simp add: ds(1) cons(1))
  have parts: "py_split (CHR ''_'') ds = [ds]"
    using ds(4) digit_chars by (intro py_split_none) (auto simp: list_all_iff)
  have "nat \<bar>n\<bar> < 10 ^ Suc 17" using assms by (simp add: nat_less_iff)
  then have "length ds \<le> 4300" using length_nat_digits [of "nat \<bar>n\<bar>" 17] by (simp add: ds(2))
  then show ?thesis
    using ds(3-5) by (simp add: py_int_def strip sign parts signed_def)
qed

lemma py_split_join:
  "ps \<noteq> [] \<Longrightarrow> (\<And>p. p \<in> set ps \<Longrightarrow> c \<notin> set p) \<Longrightarrow> py_split c (py_join [c] ps) = ps"
proof (induction "[c]" ps rule: py_join.induct)
  case (2 p)
  then show ?case by (simp add: py_split_none)
next
  case (3 p q ps)
  have "py_split c (p @ c # s) = p # py_split c s" if "c \<notin> set p" for p s
    using that by (induction p) auto
  with 3 show ?case by simp
qed simp

end
