(* ===== verification/Qna_Http.thy ===== *)
theory Qna_Http
  imports Qna_Listing Qna_Cohost Qna_Rate Qna_Moderation Py_Number Qr_Render
begin

text \<open>
  The HTTP adapters of the Event Q&A rooms (\<open>event_qna/views.py\<close>), the participant identity of
  \<open>security.py\<close> and the two serialisers of \<open>services.py\<close>. A view runs several transactions: each
  service call commits on its own, so a view is a function from the store to its outcome and the
  store left behind, also when it fails. A request reads the clock once. The Studio authorisation of
  the accounts component is the parameter \<open>staff\<close> of a request; signing, hashing, \<open>zlib\<close> and the
  random identifiers are parameters of the environment. Template rendering is left out: a page is
  the data its template gets.
\<close>

subsection \<open>Outcomes\<close>

text \<open>\<open>RateRefused\<close> is the error of \<open>_refuse\<close>, which carries the seconds to wait.\<close>

datatype http_err = RateRefused int | ServiceError qna_err

type_synonym 'a act = "db \<Rightarrow> (http_err, 'a) res \<times> db"

definition done_with :: "'a \<Rightarrow> 'a act" where
  "done_with x = (\<lambda>db. (Inr x, db))"

definition raise_with :: "qna_err \<Rightarrow> 'a act" where
  "raise_with e = (\<lambda>db. (Inl (ServiceError e), db))"

definition and_then :: "'a act \<Rightarrow> ('a \<Rightarrow> 'b act) \<Rightarrow> 'b act" where
  "and_then m f = (\<lambda>db. case m db of (Inl e, db) \<Rightarrow> (Inl e, db) | (Inr x, db) \<Rightarrow> f x db)"

text \<open>A service call in its own transaction; a pure computation on the store; a call that commits even when it fails.\<close>

definition transact :: "(db \<Rightarrow> (qna_err, 'a \<times> db) res) \<Rightarrow> 'a act" where
  "transact m = (\<lambda>db. case m db of Inl e \<Rightarrow> (Inl (ServiceError e), db) | Inr (x, db') \<Rightarrow> (Inr x, db'))"

definition look_up :: "(db \<Rightarrow> (qna_err, 'a) res) \<Rightarrow> 'a act" where
  "look_up m = (\<lambda>db. (case m db of Inl e \<Rightarrow> Inl (ServiceError e) | Inr x \<Rightarrow> Inr x, db))"

definition commit :: "(db \<Rightarrow> (qna_err, 'a) res \<times> db) \<Rightarrow> 'a act" where
  "commit m = (\<lambda>db. case m db of (r, db') \<Rightarrow> (case r of Inl e \<Rightarrow> Inl (ServiceError e) | Inr x \<Rightarrow> Inr x, db'))"

subsection \<open>Requests and responses\<close>

text \<open>\<open>request.body\<close>: absent, not JSON text, or the decoded value.\<close>

datatype body = NoBody | BadBody | JsonBody pyval

record request =
  rq_method :: string
  rq_addr :: string
  rq_body :: body
  rq_query :: "(string \<times> string) list"
  rq_form :: "(string \<times> string) list"
  rq_participant :: pyval
  rq_cohost :: pyval
  rq_if_none_match :: "string option"
  rq_staff :: "string \<Rightarrow> string option"

record http_env =
  he_now :: datetime
  he_digest :: "string \<Rightarrow> string"
  he_sha256 :: "string \<Rightarrow> string"
  he_scope_hash :: "string \<Rightarrow> string"
  he_unsign_participant :: "string \<Rightarrow> string option"
  he_sign_participant :: "string \<Rightarrow> string"
  he_unsign_cohost :: "string \<Rightarrow> string option"
  he_sign_cohost :: "string \<Rightarrow> string"
  he_new_participant :: string
  he_fresh :: string
  he_check_password :: "string \<Rightarrow> string \<Rightarrow> bool"
  he_compress :: "int list \<Rightarrow> int list"
  he_origin :: string

text \<open>A cookie is its name, value and lifetime; all are set secure, HTTP-only, \<open>SameSite=Lax\<close>, on \<open>/\<close>.\<close>

datatype content =
    JsonContent pyval
  | ListingContent listing bool
  | QuestionContent question_dto
  | PublicPage payload bool string string string
  | GatePage string string
  | HostPage bool payload
  | TextContent string
  | BytesContent "int list"
  | NoContent

record response =
  rs_status :: int
  rs_headers :: "(string \<times> string) list"
  rs_content :: content
  rs_cookies :: "(string \<times> string \<times> int) list"

definition reply :: "int \<Rightarrow> content \<Rightarrow> response" where
  "reply st body = \<lparr>rs_status = st, rs_headers = [], rs_content = body, rs_cookies = []\<rparr>"

definition header :: "string \<Rightarrow> string \<Rightarrow> response \<Rightarrow> response" where
  "header k v r = r\<lparr>rs_headers := rs_headers r @ [(k, v)]\<rparr>"

definition private_response :: "response \<Rightarrow> response" where
  "private_response r = header ''X-Robots-Tag'' ''noindex, nofollow'' (header ''Cache-Control'' ''private, no-store'' r)"

definition error_content :: "string \<Rightarrow> string \<Rightarrow> content" where
  "error_content code message = JsonContent (PDict [(''error'', PDict [(''code'', PStr code), (''message'', PStr message)])])"

text \<open>\<open>QueryDict.get\<close> takes the last value of a key.\<close>

definition query_value :: "string \<Rightarrow> (string \<times> string) list \<Rightarrow> string option" where
  "query_value k q = map_of (rev q) k"

text \<open>The errors the views catch; every other exception leaves the view.\<close>

definition json_error :: "http_err \<Rightarrow> (qna_err, response) res" where
  "json_error e = (case e of
     RateRefused retry_after \<Rightarrow>
       Inr (private_response (header ''Retry-After'' (py_str_int retry_after)
         (reply 429 (error_content ''rate_limited'' ''Too many requests. Wait a moment and try again.''))))
   | ServiceError (RevisionConflict expected actual) \<Rightarrow>
       Inr (private_response (header ''Retry-After'' ''1''
         (reply 409 (error_content ''revision_conflict'' ''The session just changed; refresh and try again.''))))
   | ServiceError (QnaError st code message) \<Rightarrow>
       Inr (private_response ((if st = 429 then header ''Retry-After'' ''60'' else id)
         (reply st (error_content code message))))
   | ServiceError e \<Rightarrow> Inl e)"

definition view :: "response act \<Rightarrow> db \<Rightarrow> (qna_err, response) res \<times> db" where
  "view m db = (case m db of (Inl e, db) \<Rightarrow> (json_error e, db) | (Inr r, db) \<Rightarrow> (Inr r, db))"

definition not_allowed :: "string \<Rightarrow> response" where
  "not_allowed allow = private_response (header ''Allow'' allow (reply 405 (TextContent ''Method not allowed'')))"

definition request_body :: "request \<Rightarrow> (qna_err, payload) res" where
  "request_body rq = (case rq_body rq of
     NoBody \<Rightarrow> Inr []
   | JsonBody (PDict d) \<Rightarrow> Inr d
   | _ \<Rightarrow> Inl (QnaError 400 ''invalid_json'' ''The request body must be a JSON object.''))"

subsection \<open>Public configuration\<close>

definition event_qna_share_url :: "string \<Rightarrow> event \<Rightarrow> (qna_err, string) res" where
  "event_qna_share_url origin e = bind_res (event_qna_path e) (\<lambda>path. Inr (origin @ path @ ''/''))"

definition settings_json :: "session \<Rightarrow> pyval" where
  "settings_json s = PDict [(''listed'', PBool (listed s)), (''allow_names'', PBool (allow_names s)),
     (''require_names'', PBool (require_names s)), (''answered_placement'', PStr (placement_value (answered_placement s))),
     (''default_sort'', PStr (sorting_value (default_sorting s)))]"

definition host_links :: "event \<Rightarrow> string \<Rightarrow> pyval" where
  "host_links e path = PDict [(''studio'', PStr (''/studio/events/'' @ py_str_int (ev_pk e) @ ''/qna/'')),
     (''api'', PStr (path @ ''/api/questions/''))]"

definition serialize_public_config :: "string \<Rightarrow> event \<Rightarrow> session \<Rightarrow> bool \<Rightarrow> (qna_err, payload) res" where
  "serialize_public_config origin e s moderator =
     bind_res (event_qna_path e) (\<lambda>path.
     bind_res (event_qna_share_url origin e) (\<lambda>share.
     let open_now = (state s = Open) in
     Inr ([(''contract'', PStr ''qna.v1''), (''api_base'', PStr (path @ ''/api'')), (''share_url'', PStr share),
           (''qr_url'', PStr (path @ ''/qr.svg'')), (''state'', PStr (lifecycle_value (state s))),
           (''settings'', settings_json s), (''max_length'', PInt (int max_question_length)),
           (''can_ask'', PBool open_now), (''can_vote'', PBool open_now),
           (''banner'', PStr (if open_now then [] else ''Questions are closed for this session.''))]
          @ (if moderator then [(''host_links'', host_links e path)] else []))))"

definition serialize_session :: "string \<Rightarrow> event \<Rightarrow> session \<Rightarrow> bool \<Rightarrow> (qna_err, payload) res" where
  "serialize_session origin e s moderator =
     bind_res (event_qna_path e) (\<lambda>path.
     bind_res (event_qna_share_url origin e) (\<lambda>share.
     let open_now = (state s = Open) in
     Inr ([(''contract'', PStr ''qna.v1''), (''api_base'', PStr (path @ ''/api'')),
           (''max_length'', PInt (int max_question_length)), (''session_id'', PStr (uuid_str (session_id s))),
           (''event_id'', PStr (uuid_str (content_id e))), (''state'', PStr (lifecycle_value (state s))),
           (''settings'', settings_json s), (''share_url'', PStr share), (''qr_url'', PStr (path @ ''/qr.svg'')),
           (''present_url'', PStr (path @ ''/present/'')),
           (''expires_at'', case expires_at s of None \<Rightarrow> PNone | Some t \<Rightarrow> PStr (iso_z t)),
           (''retention_days'', case retention_days s of None \<Rightarrow> PNone | Some d \<Rightarrow> PInt d),
           (''counts'', PDict [(''questions'', PInt (q_total s)), (''answered'', PInt (q_answered s))]),
           (''revision'', PInt (revision s))]
          @ (if moderator then [(''can_ask'', PBool open_now), (''can_vote'', PBool open_now),
                                (''host_links'', host_links e path)] else []))))"

text \<open>\<open>admin_event_qna\<close>: the session as it was read, its questions from the listing.\<close>

definition admin_event_qna :: "http_env \<Rightarrow> event_handle \<Rightarrow> (payload \<times> listing) act" where
  "admin_event_qna he event_id =
     and_then (look_up (qna_session event_id)) (\<lambda>(e, s).
     and_then (look_up (\<lambda>db. serialize_session (he_origin he) e s True)) (\<lambda>dto.
     and_then (commit (list_questions (he_now he) (he_digest he) (he_sha256 he) (HInt (ev_pk e)) None True
                 (Some (sorting_value (default_sorting s))) None)) (\<lambda>l.
     done_with (dto, l))))"

subsection \<open>Identity\<close>

definition participant_ttl :: int where
  "participant_ttl = 400 * 24 * 60 * 60"

definition cohost_ttl :: int where
  "cohost_ttl = 30 * 24 * 60 * 60"

definition participant_from_token :: "(string \<Rightarrow> string option) \<Rightarrow> pyval \<Rightarrow> string option" where
  "participant_from_token unsign token = (case token of
     PStr t \<Rightarrow>
       if t = [] then None
       else (case unsign t of
           None \<Rightarrow> None
         | Some v \<Rightarrow> if 16 \<le> length v \<and> length v \<le> 64 then Some v else None)
   | _ \<Rightarrow> None)"

definition participant_of :: "http_env \<Rightarrow> request \<Rightarrow> string \<times> string option" where
  "participant_of he rq = (case participant_from_token (he_unsign_participant he) (rq_participant rq) of
     Some p \<Rightarrow> (p, None)
   | None \<Rightarrow> (he_new_participant he, Some (he_sign_participant he (he_new_participant he))))"

definition with_participant :: "string option \<Rightarrow> response \<Rightarrow> response" where
  "with_participant token r = (case token of
     None \<Rightarrow> r
   | Some t \<Rightarrow> if t = [] then r
              else r\<lparr>rs_cookies := rs_cookies r @ [(''event_qna_participant'', t, participant_ttl)]\<rparr>)"

text \<open>A privileged actor: a staff user or the invite of a redeemed grant.\<close>

datatype moderation_actor = StaffActor string | CohostActor string

fun actor_context :: "moderation_actor \<Rightarrow> string" where
  "actor_context (StaffActor u) = ''user:'' @ u"
| "actor_context (CohostActor i) = ''cohost:'' @ i"

definition moderation_actor_of :: "http_env \<Rightarrow> request \<Rightarrow> session \<Rightarrow> string \<Rightarrow> db \<Rightarrow> moderation_actor option" where
  "moderation_actor_of he rq s capability db = (case rq_staff rq capability of
     Some u \<Rightarrow> Some (StaffActor u)
   | None \<Rightarrow> map_option (\<lambda>i. CohostActor (invite_id i))
               (cohost_for_request (he_unsign_cohost he) (session_id s) (rq_cohost rq) db))"

subsection \<open>Rate limits\<close>

definition rate_identity :: "http_env \<Rightarrow> string \<Rightarrow> string \<Rightarrow> int \<Rightarrow> int \<Rightarrow> unit act" where
  "rate_identity he scope identity window limit =
     and_then (transact (admit_rate (he_now he) (he_scope_hash he) (scope @ '':'' @ identity) window limit))
       (\<lambda>result db. case result of None \<Rightarrow> (Inr (), db) | Some retry_after \<Rightarrow> (Inl (RateRefused retry_after), db))"

definition rate_ip :: "http_env \<Rightarrow> request \<Rightarrow> string \<Rightarrow> int \<Rightarrow> int \<Rightarrow> unit act" where
  "rate_ip he rq scope window limit = rate_identity he scope (rq_addr rq) window limit"

definition question_rates :: "http_env \<Rightarrow> request \<Rightarrow> session \<Rightarrow> string \<Rightarrow> unit act" where
  "question_rates he rq s participant =
     and_then (rate_identity he (''question:'' @ uuid_str (session_id s)) participant 10 1) (\<lambda>_.
     and_then (rate_identity he (''question-hour:'' @ uuid_str (session_id s)) participant 3600 20) (\<lambda>_.
     rate_ip he rq ''question-ip'' 3600 300))"

subsection \<open>Routing\<close>

text \<open>The event of a path, or the redirect to its canonical path.\<close>

definition path_event :: "string \<Rightarrow> string \<Rightarrow> bool \<Rightarrow> db \<Rightarrow> (qna_err, event \<times> response option) res" where
  "path_event event_id path_slug redirect db = (case py_int event_id of
     None \<Rightarrow> Inl QnaNotFound
   | Some n \<Rightarrow> (case List.find (\<lambda>e. public_id e = Some n) (events db) of
       None \<Rightarrow> Inl QnaNotFound
     | Some e \<Rightarrow>
         if py_str_int n \<noteq> event_id then Inl QnaNotFound
         else if path_slug \<noteq> slug e
         then if redirect then bind_res (event_qna_path e) (\<lambda>path.
                                Inr (e, Some (header ''Location'' (path @ ''/'') (reply 302 NoContent))))
              else Inl (QnaError 404 ''not_found'' ''The Q&A resource was not found.'')
         else Inr (e, None)))"

definition route_session ::
    "http_env \<Rightarrow> request \<Rightarrow> event \<Rightarrow> string \<Rightarrow> db \<Rightarrow> (qna_err, session \<times> moderation_actor option) res" where
  "route_session he rq e capability db =
     bind_res (qna_session (HInt (ev_pk e)) db) (\<lambda>(_, s).
     case moderation_actor_of he rq s capability db of
       Some actor \<Rightarrow> Inr (s, Some actor)
     | None \<Rightarrow>
         if ev_status e \<notin> set public_event_lifecycles then Inl QnaNotFound
         else if state s = Archived then Inl QnaArchived
         else if state s = Draft then Inl QnaNotFound
         else Inr (s, None))"

definition api_context ::
    "http_env \<Rightarrow> request \<Rightarrow> string \<Rightarrow> string \<Rightarrow> string \<Rightarrow> (event \<times> session \<times> moderation_actor option) act" where
  "api_context he rq event_id path_slug capability =
     and_then (rate_ip he rq ''public'' 300 2000) (\<lambda>_.
     and_then (look_up (path_event event_id path_slug False)) (\<lambda>(e, _).
     and_then (look_up (route_session he rq e capability)) (\<lambda>(s, actor).
     done_with (e, s, actor))))"

subsection \<open>The question endpoints\<close>

definition list_view ::
    "http_env \<Rightarrow> request \<Rightarrow> event \<Rightarrow> moderation_actor option \<Rightarrow> response act" where
  "list_view he rq e actor =
     (if \<not> set (map fst (rq_query rq)) \<subseteq> {''sort'', ''status''}
      then raise_with (QnaError 400 ''invalid_query'' ''Only sort and status are supported.'')
      else
        let srt = query_value ''sort'' (rq_query rq);
            raw = (case query_value ''status'' (rq_query rq) of None \<Rightarrow> [] | Some v \<Rightarrow> v);
            wanted = filter (\<lambda>item. item \<noteq> []) (py_split (CHR '','') raw);
            (participant, token) = participant_of he rq
        in and_then (commit (list_questions (he_now he) (he_digest he) (he_sha256 he) (HInt (ev_pk e))
                      (Some participant) (actor \<noteq> None)
                      (if srt = Some [] then None else srt) (if wanted = [] then None else Some wanted))) (\<lambda>l.
           done_with (with_participant token (private_response (header ''ETag'' (etag l)
             (if rq_if_none_match rq = Some (etag l) then reply 304 NoContent
              else reply 200 (ListingContent l (state (current l) = Open))))))))"

definition submit_view :: "http_env \<Rightarrow> request \<Rightarrow> event \<Rightarrow> session \<Rightarrow> response act" where
  "submit_view he rq e s =
     (let (participant, token) = participant_of he rq
      in and_then (question_rates he rq s participant) (\<lambda>_.
         and_then (look_up (\<lambda>db. request_body rq)) (\<lambda>payload.
         and_then (transact (submit_question (he_now he) (he_digest he) (he_fresh he) (HInt (ev_pk e))
                     (get_key ''text'' payload) (get_key ''author_name'' payload) participant)) (\<lambda>q.
         done_with (with_participant token (private_response
           (reply 201 (QuestionContent (serialize_question (he_now he) (he_digest he) q (Some participant) True)))))))))"

definition qna_questions :: "http_env \<Rightarrow> string \<Rightarrow> string \<Rightarrow> request \<Rightarrow> db \<Rightarrow> (qna_err, response) res \<times> db" where
  "qna_questions he event_id path_slug rq = view (
     and_then (api_context he rq event_id path_slug ''events.qna.read'') (\<lambda>(e, s, actor).
     if rq_method rq \<in> {''GET'', ''HEAD''} then list_view he rq e actor
     else if rq_method rq = ''POST'' then submit_view he rq e s
     else done_with (not_allowed ''GET, HEAD, POST'')))"

text \<open>A refused staff actor is also audited by the accounts component, which is not part of this store.\<close>

definition qna_question :: "http_env \<Rightarrow> string \<Rightarrow> string \<Rightarrow> string \<Rightarrow> request \<Rightarrow> db \<Rightarrow> (qna_err, response) res \<times> db" where
  "qna_question he event_id path_slug qid rq = view (
     and_then (api_context he rq event_id path_slug ''events.qna.moderate'') (\<lambda>(e, s, actor).
     if rq_method rq \<noteq> ''PATCH'' then done_with (not_allowed ''PATCH'')
     else
       let participant = participant_from_token (he_unsign_participant he) (rq_participant rq)
       in and_then (look_up (\<lambda>db. request_body rq)) (\<lambda>payload.
          and_then (transact (update_question (he_now he) (he_digest he) (HInt (ev_pk e)) qid payload participant
                      (actor \<noteq> None) (map_option actor_context actor) None)) (\<lambda>q.
          done_with (private_response
            (reply 200 (QuestionContent (serialize_question (he_now he) (he_digest he) q participant False))))))))"

definition qna_vote :: "http_env \<Rightarrow> string \<Rightarrow> string \<Rightarrow> string \<Rightarrow> request \<Rightarrow> db \<Rightarrow> (qna_err, response) res \<times> db" where
  "qna_vote he event_id path_slug qid rq = view (
     and_then (api_context he rq event_id path_slug ''events.qna.read'') (\<lambda>(e, s, actor).
     if rq_method rq \<notin> {''POST'', ''DELETE''} then done_with (not_allowed ''POST, DELETE'')
     else
       let (participant, token) = participant_of he rq
       in and_then (rate_identity he (''vote:'' @ uuid_str (session_id s)) participant 3600 120) (\<lambda>_.
          and_then (transact (vote_question (he_now he) (he_digest he) (HInt (ev_pk e)) qid participant
                      (rq_method rq = ''POST''))) (\<lambda>(total, voted).
          done_with (with_participant token (private_response
            (reply 200 (JsonContent (PDict [(''score'', PInt total), (''voted'', PBool voted)])))))))))"

subsection \<open>Pages\<close>

definition render_public :: "http_env \<Rightarrow> event \<Rightarrow> session \<Rightarrow> moderation_actor option \<Rightarrow> int \<Rightarrow> string \<Rightarrow> string \<Rightarrow> string
     \<Rightarrow> (qna_err, response) res" where
  "render_public he e s actor st form_error form_text form_name =
     bind_res (serialize_public_config (he_origin he) e s (actor \<noteq> None)) (\<lambda>config.
     Inr (private_response (reply st (PublicPage config (actor \<noteq> None) form_error form_text form_name))))"

text \<open>The form without scripts: a failed submission renders the page again with the authored text.\<close>

definition submit_form ::
    "http_env \<Rightarrow> request \<Rightarrow> event \<Rightarrow> session \<Rightarrow> moderation_actor option \<Rightarrow> response act" where
  "submit_form he rq e s actor db =
     (let (participant, token) = participant_of he rq;
          form = (\<lambda>k. case query_value k (rq_form rq) of None \<Rightarrow> [] | Some v \<Rightarrow> v);
          again = (\<lambda>st message db. and_then (look_up (\<lambda>db.
              render_public he e s actor st message (form ''text'') (form ''author_name'')))
              (\<lambda>r. done_with (with_participant token r)) db)
      in case and_then (question_rates he rq s participant) (\<lambda>_.
              transact (submit_question (he_now he) (he_digest he) (he_fresh he) (HInt (ev_pk e))
                (PStr (form ''text'')) (PStr (form ''author_name'')) participant)) db of
           (Inl (RateRefused n), db) \<Rightarrow> again 429 ''Too many requests. Wait a moment and try again.'' db
         | (Inl (ServiceError (QnaError st code message)), db) \<Rightarrow> again st message db
         | (Inl (ServiceError (RevisionConflict expected actual)), db) \<Rightarrow>
             again 409 ''The session just changed; refresh and try again.'' db
         | (Inl (ServiceError err), db) \<Rightarrow> (Inl (ServiceError err), db)
         | (Inr q, db) \<Rightarrow> and_then (look_up (\<lambda>db. event_qna_path e)) (\<lambda>path.
             done_with (with_participant token
               (private_response (header ''Location'' (path @ ''/'') (reply 303 NoContent))))) db)"

definition public_qna :: "http_env \<Rightarrow> string \<Rightarrow> string \<Rightarrow> request \<Rightarrow> db \<Rightarrow> (qna_err, response) res \<times> db" where
  "public_qna he event_id path_slug rq = view (
     and_then (rate_ip he rq ''public'' 300 2000) (\<lambda>_.
     and_then (look_up (path_event event_id path_slug (rq_method rq \<in> {''GET'', ''HEAD''}))) (\<lambda>(e, redirect).
     case redirect of
       Some r \<Rightarrow> done_with r
     | None \<Rightarrow>
         and_then (look_up (route_session he rq e ''events.qna.read'')) (\<lambda>(s, actor).
         if rq_method rq = ''POST'' then submit_form he rq e s actor
         else if rq_method rq \<notin> {''GET'', ''HEAD''}
         then done_with (private_response (reply 405 (TextContent ''Method not allowed'')))
         else and_then (look_up (\<lambda>db. render_public he e s actor 200 [] [] [])) (\<lambda>r.
              done_with (with_participant (snd (participant_of he rq)) r))))))"

definition qna_cohost_gate :: "http_env \<Rightarrow> string \<Rightarrow> string \<Rightarrow> string \<Rightarrow> request \<Rightarrow> db \<Rightarrow> (qna_err, response) res \<times> db" where
  "qna_cohost_gate he event_id path_slug gate_name rq = view (
     and_then (rate_ip he rq ''public'' 300 2000) (\<lambda>_.
     and_then (look_up (path_event event_id path_slug False)) (\<lambda>(e, _).
     if rq_method rq = ''GET'' then
       and_then (look_up (public_session (HInt (ev_pk e)))) (\<lambda>_.
       done_with (private_response (reply 200 (GatePage gate_name []))))
     else if rq_method rq \<noteq> ''POST'' then done_with (not_allowed ''GET, POST'')
     else
       and_then (rate_ip he rq ''cohost'' 300 10) (\<lambda>_.
       and_then (look_up (redeem_cohost (he_check_password he) (HInt (ev_pk e)) (PStr gate_name)
                   (PStr (case query_value ''passcode'' (rq_form rq) of None \<Rightarrow> [] | Some v \<Rightarrow> v)))) (\<lambda>(invite, problem).
       case invite of
         None \<Rightarrow> and_then (look_up (qna_session (HInt (ev_pk e)))) (\<lambda>_.
                 done_with (private_response (reply 403 (GatePage gate_name (case problem of None \<Rightarrow> [] | Some m \<Rightarrow> m)))))
       | Some i \<Rightarrow> and_then (look_up (\<lambda>db. event_qna_path e)) (\<lambda>path.
                 done_with ((header ''Location'' (path @ ''/host/'') (reply 302 NoContent))
                   \<lparr>rs_cookies := [(''event_qna_cohost'',
                      he_sign_cohost he (uuid_str (i_session i) @ '':'' @ invite_id i), cohost_ttl)]\<rparr>)))))))"

definition host_page :: "http_env \<Rightarrow> bool \<Rightarrow> string \<Rightarrow> string \<Rightarrow> request \<Rightarrow> db \<Rightarrow> (qna_err, response) res \<times> db" where
  "host_page he presentation event_id path_slug rq = view (
     and_then (look_up (path_event event_id path_slug False)) (\<lambda>(e, _).
     and_then (look_up (qna_session (HInt (ev_pk e)))) (\<lambda>(_, s).
     and_then (look_up (\<lambda>db. case moderation_actor_of he rq s ''events.qna.read'' db of
         None \<Rightarrow> Inl (QnaError 403 ''forbidden'' ''A co-host grant or Studio authorization is required.'')
       | Some actor \<Rightarrow> serialize_public_config (he_origin he) e s True)) (\<lambda>config.
     done_with (private_response (reply 200 (HostPage presentation config)))))))"

definition qr_image :: "http_env \<Rightarrow> string \<Rightarrow> string \<Rightarrow> request \<Rightarrow> (qna_err, (qr_error, content) res) res" where
  "qr_image he share kind rq =
     (if kind = ''svg'' then Inr (map_sum id TextContent (svg share))
      else if kind = ''png'' then
        (case py_int (case query_value ''size'' (rq_query rq) of None \<Rightarrow> ''512'' | Some v \<Rightarrow> v) of
           None \<Rightarrow> Inl (QnaError 400 ''invalid_size'' ''The QR size is invalid.'')
         | Some size_px \<Rightarrow>
             if size_px < 64 \<or> 2048 < size_px
             then Inl (QnaError 400 ''invalid_size'' ''The QR size must be between 64 and 2048.'')
             else Inr (map_sum id BytesContent (png (he_compress he) share size_px)))
      else Inl (QnaError 404 ''not_found'' ''The QR resource was not found.''))"

definition qna_qr :: "http_env \<Rightarrow> string \<Rightarrow> string \<Rightarrow> string \<Rightarrow> request \<Rightarrow> db \<Rightarrow> (qna_err, response) res \<times> db" where
  "qna_qr he event_id path_slug kind rq = view (
     and_then (look_up (path_event event_id path_slug False)) (\<lambda>(e, _).
     and_then (look_up (public_session (HInt (ev_pk e)))) (\<lambda>_.
     and_then (look_up (\<lambda>db. bind_res (event_qna_share_url (he_origin he) e) (\<lambda>share. qr_image he share kind rq))) (\<lambda>image.
     done_with (case image of
         Inr body \<Rightarrow> header ''Cache-Control'' ''public, max-age=300'' (reply 200 body)
       | Inl unavailable \<Rightarrow> header ''Cache-Control'' ''no-store''
           (reply 503 (TextContent ''The Q&A share code is temporarily unavailable.'')))))))"

subsection \<open>Lemmas\<close>

lemma and_then_apply:
  "m db = (Inl e, db') \<Longrightarrow> and_then m f db = (Inl e, db')"
  "m db = (Inr x, db') \<Longrightarrow> and_then m f db = f x db'"
  by (simp_all add: and_then_def)

lemma look_up_apply:
  "m db = Inl e \<Longrightarrow> look_up m db = (Inl (ServiceError e), db)"
  "m db = Inr x \<Longrightarrow> look_up m db = (Inr x, db)"
  by (simp_all add: look_up_def)

text \<open>Admission touches the rate table only.\<close>

lemma admit_rate_frame:
  "admit_rate now h scope window limit db = Inr (r, db') \<Longrightarrow> db' = db\<lparr>rates := rates db'\<rparr>"
  by (auto simp: admit_rate_def Let_def split: if_splits prod.splits)

lemma rate_identity_cases [consumes 2]:
  assumes "1 \<le> window" and "1 \<le> limit"
  obtains (refused) n db' where "rate_identity he scope identity window limit db = (Inl (RateRefused n), db')" "db' = db\<lparr>rates := rates db'\<rparr>"
    | (admitted) db' where "rate_identity he scope identity window limit db = (Inr (), db')" "db' = db\<lparr>rates := rates db'\<rparr>"
proof -
  have "\<exists>r db'. admit_rate now h sc window limit db = Inr (r, db')" if "sc \<noteq> []" for now h sc
  proof -
    obtain row rows where "get_bucket (h sc) window (bucket_of now window) (rates db) = (row, rows)" by fastforce
    then show ?thesis using assms that by (simp add: admit_rate_def Let_def)
  qed
  then obtain r db' where "admit_rate (he_now he) (he_scope_hash he) (scope @ '':'' @ identity) window limit db = Inr (r, db')"
    by fastforce
  then show thesis using refused admitted admit_rate_frame [of "he_now he" "he_scope_hash he"]
    by (cases r) (auto simp: rate_identity_def and_then_def transact_def)
qed

text \<open>Nobody but a host gets past the routing of a hidden room.\<close>

definition not_a_host :: "http_env \<Rightarrow> request \<Rightarrow> session \<Rightarrow> db \<Rightarrow> bool" where
  "not_a_host he rq s db \<longleftrightarrow> (\<forall>capability. rq_staff rq capability = None)
     \<and> cohost_for_request (he_unsign_cohost he) (session_id s) (rq_cohost rq) db = None"

definition hidden_error :: "event \<Rightarrow> session \<Rightarrow> qna_err" where
  "hidden_error e s = (if ev_status e \<in> set public_event_lifecycles \<and> state s = Archived then QnaArchived else QnaNotFound)"

definition hidden_room :: "event \<Rightarrow> session \<Rightarrow> bool" where
  "hidden_room e s \<longleftrightarrow> ev_status e \<notin> set public_event_lifecycles \<or> state s = Archived \<or> state s = Draft"

lemma route_hidden:
  assumes "qna_session (HInt (ev_pk e)) db = Inr (e', s)" and "hidden_room e s" and "not_a_host he rq s db"
  shows "route_session he rq e capability db = Inl (hidden_error e s)"
  using assms by (auto simp: route_session_def hidden_room_def hidden_error_def not_a_host_def moderation_actor_of_def)

lemma qna_session_rates [simp]: "qna_session h (db\<lparr>rates := r\<rparr>) = qna_session h db"
  by (simp add: qna_session_def event_row_def coerce_event_id_def split: event_handle.splits)

lemma path_event_rates [simp]: "path_event i p redirect (db\<lparr>rates := r\<rparr>) = path_event i p redirect db"
  by (simp add: path_event_def cong: option.case_cong)

lemma not_a_host_rates [simp]: "not_a_host he rq s (db\<lparr>rates := r\<rparr>) = not_a_host he rq s db"
  by (auto simp: not_a_host_def cohost_for_request_def split: option.splits)

lemma api_context_hidden:
  assumes "path_event event_id path_slug False db = Inr (e, None)"
    and "qna_session (HInt (ev_pk e)) db = Inr (e', s)" and "hidden_room e s" and "not_a_host he rq s db"
  shows "\<exists>error db'. api_context he rq event_id path_slug capability db = (Inl error, db') \<and> db' = db\<lparr>rates := rates db'\<rparr>
    \<and> (error = ServiceError (hidden_error e s) \<or> (\<exists>n. error = RateRefused n))"
proof -
  have "1 \<le> (300 :: int)" "1 \<le> (2000 :: int)" by simp_all
  then show ?thesis
  proof (cases rule: rate_identity_cases [where scope = "''public''" and identity = "rq_addr rq" and window = 300 and limit = 2000 and he = he and db = db])
  case (refused n db')
  then show ?thesis by (auto simp: api_context_def rate_ip_def and_then_apply)
next
  case (admitted db')
  have "route_session he rq e capability db' = Inl (hidden_error e s)"
    by (subst admitted(2), rule route_hidden) (use assms(2-4) in simp_all)
  moreover have "path_event event_id path_slug False db' = Inr (e, None)"
    by (subst admitted(2)) (use assms(1) in simp)
  ultimately show ?thesis using admitted
    by (auto simp: api_context_def rate_ip_def and_then_apply look_up_apply)
  qed
qed

end
