(* ===== verification/Qna_Provision.thy ===== *)
theory Qna_Provision
  imports Qna_Cohost
begin

text \<open>
  Provisioning a room for an event: \<open>ensure_event_qna\<close>, \<open>ensure_native_event_qna\<close>,
  \<open>retry_event_qna_provision\<close> and the durable handler \<open>provision_event_qna\<close> (\<open>jobs.py\<close>), with the
  backend registry of \<open>backend.py\<close>. \<open>dispatch\<close> is \<open>community_base.jobs.dispatch.dispatch_after_commit\<close>,
  a function on the job table; \<open>new_id\<close> is the UUID a new session row gets.
\<close>

subsection \<open>Keys and backends\<close>

definition provisioning_deduplication_key :: "event_handle \<Rightarrow> db \<Rightarrow> (qna_err, string) res" where
  "provisioning_deduplication_key event_id db = bind_res (coerce_event_id event_id db) (\<lambda>u.
     Inr (''event-qna-provision:'' @ uuid_str u @ '':v1''))"

definition provisioning_payload :: "event_handle \<Rightarrow> db \<Rightarrow> (qna_err, payload) res" where
  "provisioning_payload event_id db = bind_res (coerce_event_id event_id db) (\<lambda>u.
     Inr [(''event_id'', PStr (uuid_str u)), (''version'', PInt 1)])"

text \<open>The registry holds the native backend only, whose \<open>ensure_session\<close> returns an empty reference.\<close>

definition get_qna_backend :: "string \<Rightarrow> (qna_err, uuid \<Rightarrow> uuid \<Rightarrow> string \<Rightarrow> string) res" where
  "get_qna_backend key =
     (if key = ''native'' then Inr (\<lambda>event_id sid idempotency_key. [])
      else Inl (ValueError ''qna_backend_unavailable''))"

definition default_session :: "datetime \<Rightarrow> uuid \<Rightarrow> int \<Rightarrow> session" where
  "default_session now new_id pk =
     \<lparr>session_id = new_id, session_event = pk, state = Draft, listed = True, allow_names = True,
      require_names = False, answered_placement = Separate, default_sorting = Popular,
      expires_at = None, retention_days = Some 365, state_changed_at = now, archive_delete_at = None,
      q_total = 0, q_answered = 0, backend_key = ''native'', backend_reference = [], revision = 1,
      provisioning_job = None, updated_at = now\<rparr>"

definition get_or_create_session ::
    "datetime \<Rightarrow> uuid \<Rightarrow> event \<Rightarrow> db \<Rightarrow> (qna_err, (session \<times> bool) \<times> db) res" where
  "get_or_create_session now new_id e db =
     bind_res (case List.find (\<lambda>s. session_event s = ev_pk e) (sessions db) of
         Some s \<Rightarrow> Inr ((s, False), db)
       | None \<Rightarrow>
           let s = default_session now new_id (ev_pk e)
           in if new_id \<in> session_id ` set (sessions db) then Inl IntegrityError
              else Inr ((s, True), db\<lparr>sessions := sessions db @ [s]\<rparr>)) (\<lambda>((s, created), db).
     if backend_key s = [] then Inl (EventQnaError ''qna_backend_missing'')
     else bind_res (get_qna_backend (backend_key s)) (\<lambda>_. Inr ((s, created), db)))"

subsection \<open>ensure_event_qna\<close>

record provisioning =
  p_session :: session
  p_job :: job
  session_created :: bool
  job_created :: bool

definition event_by_content :: "uuid \<Rightarrow> db \<Rightarrow> (qna_err, event) res" where
  "event_by_content u db = (case List.find (\<lambda>e. content_id e = u) (events db) of
     Some e \<Rightarrow> Inr e | None \<Rightarrow> Inl (EventQnaNotFound ''event_not_found''))"

text \<open>The conditional write of the job reference; the column is unique over the sessions.\<close>

definition link_job :: "datetime \<Rightarrow> job \<Rightarrow> session \<Rightarrow> db \<Rightarrow> (qna_err, session \<times> db) res" where
  "link_job now j s db =
     (if provisioning_job s \<noteq> None \<and> provisioning_job s \<noteq> Some (job_id j)
      then Inl (EventQnaError ''qna_provisioning_intent_conflict'')
      else if provisioning_job s = None then
        let matches = (\<lambda>r. session_id r = session_id s \<and> provisioning_job r = None)
        in if list_ex (\<lambda>r. provisioning_job r = Some (job_id j)) (sessions db) \<and> list_ex matches (sessions db)
           then Inl IntegrityError
           else
             let db = db\<lparr>sessions := update_where matches
                   (\<lambda>r. r\<lparr>provisioning_job := Some (job_id j), updated_at := now\<rparr>) (sessions db)\<rparr>
             in (case get_session (session_id s) db of
                   None \<Rightarrow> Inl DoesNotExist
                 | Some r \<Rightarrow>
                     if provisioning_job r \<noteq> Some (job_id j)
                     then Inl (EventQnaError ''qna_provisioning_intent_conflict'')
                     else Inr (s\<lparr>provisioning_job := Some (job_id j)\<rparr>, db))
      else Inr (s, db))"

definition ensure_event_qna ::
    "datetime \<Rightarrow> uuid \<Rightarrow> qna_err dispatcher \<Rightarrow> event_handle \<Rightarrow> db \<Rightarrow> (qna_err, provisioning \<times> db) res" where
  "ensure_event_qna now new_id dispatch event_id db =
     bind_res (coerce_event_id event_id db) (\<lambda>u.
     bind_res (event_by_content u db) (\<lambda>e.
     bind_res (get_or_create_session now new_id e db) (\<lambda>((s, s_new), db).
     bind_res (provisioning_deduplication_key (HUuid (content_id e)) db) (\<lambda>key.
     bind_res (provisioning_payload (HUuid (content_id e)) db) (\<lambda>payload.
     bind_res (dispatch ''events.qna.provision'' key payload (jobs db)) (\<lambda>((j, j_new), js).
     bind_res (link_job now j s (db\<lparr>jobs := js\<rparr>)) (\<lambda>(s, db).
       Inr (\<lparr>p_session = s, p_job = j, session_created = s_new, job_created = j_new\<rparr>, db))))))))"

subsection \<open>The worker side\<close>

definition ensure_native_event_qna ::
    "datetime \<Rightarrow> uuid \<Rightarrow> event_handle \<Rightarrow> db \<Rightarrow> (qna_err, session \<times> db) res" where
  "ensure_native_event_qna now new_id event_id db =
     bind_res (coerce_event_id event_id db) (\<lambda>u.
     bind_res (event_by_content u db) (\<lambda>e.
     bind_res (get_or_create_session now new_id e db) (\<lambda>((s, s_new), db).
     bind_res (get_qna_backend (backend_key s)) (\<lambda>ensure_session.
     bind_res (provisioning_deduplication_key (HUuid u) db) (\<lambda>key.
       let reference = ensure_session u (session_id s) key
       in if backend_reference s \<noteq> reference
          then Inr (s\<lparr>backend_reference := reference, updated_at := now\<rparr>,
                    db\<lparr>sessions := update_where (\<lambda>r. session_id r = session_id s)
                      (\<lambda>r. r\<lparr>backend_reference := reference, updated_at := now\<rparr>) (sessions db)\<rparr>)
          else Inr (s, db))))))"

datatype job_outcome = Done | Permanent string | Raised qna_err

text \<open>\<open>payload.get("version") != 1\<close>; \<open>True\<close> and \<open>1.0\<close> compare equal to 1.\<close>

definition version_one :: "pyval \<Rightarrow> bool" where
  "version_one v \<longleftrightarrow> v = PInt 1 \<or> v = PBool True \<or> v = PFloat ''1.0''"

definition provision_event_qna :: "datetime \<Rightarrow> uuid \<Rightarrow> payload \<Rightarrow> db \<Rightarrow> job_outcome \<times> db" where
  "provision_event_qna now new_id payload db =
     (let invalid = (Permanent ''invalid_qna_provisioning_payload'', db)
      in if \<not> version_one (get_key ''version'' payload) then invalid
         else case get_key ''event_id'' payload of
             PStr s \<Rightarrow> (case canonical_uuid s of
                 None \<Rightarrow> invalid
               | Some u \<Rightarrow>
                   if \<not> rfc4122 u then invalid
                   else case ensure_native_event_qna now new_id (HUuid u) db of
                       Inr (s, db) \<Rightarrow> (Done, db)
                     | Inl (EventQnaNotFound m) \<Rightarrow> (Permanent ''event_not_found'', db)
                     | Inl err \<Rightarrow> (Raised err, db))
           | _ \<Rightarrow> invalid)"

subsection \<open>retry_event_qna_provision\<close>

text \<open>\<open>status_text\<close> gives the stored text of a status.\<close>

definition revive_job :: "datetime \<Rightarrow> job \<Rightarrow> job list \<Rightarrow> job list" where
  "revive_job now j js = (if job_status j = Dead
     then update_where (\<lambda>r. job_id r = job_id j \<and> job_status r = Dead)
            (\<lambda>r. r\<lparr>job_status := Pending, attempts := 0, available_at := now, lease_token := None,
                   lease_expires_at := None, last_error := []\<rparr>) js
     else js)"

definition retry_event_qna_provision ::
    "datetime \<Rightarrow> uuid \<Rightarrow> qna_err dispatcher \<Rightarrow> (job_status \<Rightarrow> string) \<Rightarrow> event_handle \<Rightarrow> string option \<Rightarrow> db
       \<Rightarrow> (qna_err, provisioning \<times> db) res" where
  "retry_event_qna_provision now new_id dispatch status_text event_id audit_context db =
     bind_res (coerce_event_id event_id db) (\<lambda>u.
     bind_res (ensure_event_qna now new_id dispatch (HUuid u) db) (\<lambda>(p, db).
       let db = db\<lparr>jobs := revive_job now (p_job p) (jobs db)\<rparr>
       in case List.find (\<lambda>r. job_id r = job_id (p_job p)) (jobs db) of
            None \<Rightarrow> Inl DoesNotExist
          | Some j \<Rightarrow> Inr (p\<lparr>p_job := j\<rparr>,
              audit_if audit_context ''events.qna.provision_retry_requested'' (p_session p)
                [(''job_id'', PStr (uuid_str (job_id j))), (''status'', PStr (status_text (job_status j)))] db)))"

subsection \<open>The invariant and idempotence\<close>

lemma default_session_ok: "session_ok (default_session now new_id pk)"
  by (simp add: session_ok_def default_session_def)

lemma get_or_create_session_ok:
  assumes ok: "db_ok db" and run: "get_or_create_session now new_id e db = Inr ((s, created), db')"
  shows "db_ok db'" and "advances db db'" and "s \<in> set (sessions db')" and "session_event s = ev_pk e"
    and "List.find (\<lambda>s. session_event s = ev_pk e) (sessions db') = Some s" and "events db' = events db"
    and "backend_key s = ''native''" and "jobs db' = jobs db"
    and "created \<longleftrightarrow> List.find (\<lambda>s. session_event s = ev_pk e) (sessions db) = None"
proof -
  have "db_ok db' \<and> advances db db' \<and> s \<in> set (sessions db') \<and> session_event s = ev_pk e
    \<and> List.find (\<lambda>s. session_event s = ev_pk e) (sessions db') = Some s \<and> events db' = events db
    \<and> backend_key s = ''native'' \<and> jobs db' = jobs db
    \<and> (created \<longleftrightarrow> List.find (\<lambda>s. session_event s = ev_pk e) (sessions db) = None)"
  proof (cases "List.find (\<lambda>s. session_event s = ev_pk e) (sessions db)")
    case (Some r)
    then show ?thesis
      using run ok find_Some [OF Some]
      by (auto simp: get_or_create_session_def get_qna_backend_def bind_res_Inr_iff split: if_splits)
  next
    case None
    let ?s = "default_session now new_id (ev_pk e)"
    from run None have eq: "s = ?s" "created" "db' = db\<lparr>sessions := sessions db @ [?s]\<rparr>"
      and new: "new_id \<notin> session_id ` set (sessions db)"
      by (auto simp: get_or_create_session_def get_qna_backend_def bind_res_Inr_iff Let_def split: if_splits)
    have none: "q_session q \<noteq> new_id" if "q \<in> set (questions db)" for q
      using db_ok_dest(7) [OF ok that] new by auto
    have "count_where (\<lambda>q. q_session q = new_id \<and> P q) (questions db) = 0" for P
      using none by (intro count_where_none) auto
    then have "counters_ok ?s (questions db)"
      by (simp add: counters_ok_def default_session_def)
    then have "db_ok db'"
      using ok new default_session_ok [of now new_id "ev_pk e"]
      by (auto simp: eq db_ok_def default_session_def)
    moreover have "advances db db'" by (auto simp: eq advances_def questions_of_def)
    moreover have find: "List.find P (xs @ [x]) = (case List.find P xs of Some y \<Rightarrow> Some y | None \<Rightarrow> if P x then Some x else None)"
      for P :: "session \<Rightarrow> bool" and xs x by (induction xs) auto
    ultimately show ?thesis using None eq by (simp add: find) (simp add: default_session_def)
  qed
  then show "db_ok db'" and "advances db db'" and "s \<in> set (sessions db')" and "session_event s = ev_pk e"
    and "List.find (\<lambda>s. session_event s = ev_pk e) (sessions db') = Some s" and "events db' = events db"
    and "backend_key s = ''native''" and "jobs db' = jobs db"
    and "created \<longleftrightarrow> List.find (\<lambda>s. session_event s = ev_pk e) (sessions db) = None"
    by blast+
qed

text \<open>Writing the provisioning columns of one row keeps the invariant and advances the store.\<close>

lemma same_content_ok:
  assumes ok: "db_ok db" and same: "\<And>r. content (f r) = content r"
  shows "db_ok (db\<lparr>sessions := update_where P f (sessions db)\<rparr>)"
    and "advances db (db\<lparr>sessions := update_where P f (sessions db)\<rparr>)"
proof -
  have cols: "session_id (f r) = session_id r" "revision (f r) = revision r"
    "session_ok (f r) = session_ok r" "counters_ok (f r) qs = counters_ok r qs" for r qs
    using arg_cong [OF same [of r], of session_id] arg_cong [OF same [of r], of revision]
      arg_cong [OF same [of r], of session_ok] arg_cong [OF same [of r], of "\<lambda>s. counters_ok s qs"]
    by (simp_all add: content_def session_ok_def counters_ok_def)
  have ids: "map session_id (update_where P f (sessions db)) = map session_id (sessions db)"
    by (simp add: update_where_def cols)
  then have ids': "session_id ` set (update_where P f (sessions db)) = session_id ` set (sessions db)"
    by (metis list.set_map)
  have rows: "session_ok r \<and> counters_ok r (questions db)" if "r \<in> set (update_where P f (sessions db))" for r
    using that ok by (auto simp: update_where_def cols db_ok_def)
  show "db_ok (db\<lparr>sessions := update_where P f (sessions db)\<rparr>)"
    using ok rows unfolding db_ok_def by (simp add: ids ids')
  show "advances db (db\<lparr>sessions := update_where P f (sessions db)\<rparr>)"
    unfolding advances_def
  proof (intro conjI ballI)
    fix s assume s: "s \<in> set (sessions db)"
    let ?s = "if P s then f s else s"
    have "?s \<in> set (sessions (db\<lparr>sessions := update_where P f (sessions db)\<rparr>))"
      using s by (auto simp: update_where_def)
    then show "\<exists>s' \<in> set (sessions (db\<lparr>sessions := update_where P f (sessions db)\<rparr>)). session_id s' = session_id s
        \<and> (content s' = content s \<and> questions_of (session_id s) (db\<lparr>sessions := update_where P f (sessions db)\<rparr>)
           = questions_of (session_id s) db \<or> revision s < revision s')"
      by (rule bexI [rotated]) (simp add: same cols questions_of_def)
  qed simp
qed

lemma jobs_audit_ok [simp]:
  "db_ok (db\<lparr>jobs := js\<rparr>) = db_ok db" "advances d (db\<lparr>jobs := js\<rparr>) = advances d db"
  by (simp_all add: db_ok_def advances_def questions_of_def)

lemma link_job_ok:
  assumes ok: "db_ok db" and s: "s \<in> set (sessions db)" and run: "link_job now j s db = Inr (s', db')"
  shows "db_ok db'" and "advances db db'" and "provisioning_job s' = Some (job_id j)"
    and "session_id s' = session_id s" and "jobs db' = jobs db" and "events db' = events db"
    and "s' = s\<lparr>provisioning_job := Some (job_id j)\<rparr>"
    and "(if provisioning_job s = None then db' = db\<lparr>sessions := update_where
        (\<lambda>r. session_id r = session_id s \<and> provisioning_job r = None)
        (\<lambda>r. r\<lparr>provisioning_job := Some (job_id j), updated_at := now\<rparr>) (sessions db)\<rparr> else db' = db)"
proof -
  have shape: "s' = s\<lparr>provisioning_job := Some (job_id j)\<rparr> \<and>
      (if provisioning_job s = None then db' = db\<lparr>sessions := update_where
        (\<lambda>r. session_id r = session_id s \<and> provisioning_job r = None)
        (\<lambda>r. r\<lparr>provisioning_job := Some (job_id j), updated_at := now\<rparr>) (sessions db)\<rparr> else db' = db)"
  proof (cases "provisioning_job s")
    case None
    then show ?thesis using run by (auto simp: link_job_def Let_def split: if_splits option.splits)
  next
    case (Some k)
    then have "s' = s \<and> db' = db \<and> k = job_id j" using run by (auto simp: link_job_def split: if_splits)
    then show ?thesis using Some by simp
  qed
  then show "s' = s\<lparr>provisioning_job := Some (job_id j)\<rparr>" "provisioning_job s' = Some (job_id j)"
    "session_id s' = session_id s" "jobs db' = jobs db" "events db' = events db"
    "(if provisioning_job s = None then db' = db\<lparr>sessions := update_where
        (\<lambda>r. session_id r = session_id s \<and> provisioning_job r = None)
        (\<lambda>r. r\<lparr>provisioning_job := Some (job_id j), updated_at := now\<rparr>) (sessions db)\<rparr> else db' = db)"
    by (auto split: if_splits)
  have "content (r\<lparr>provisioning_job := Some (job_id j), updated_at := now\<rparr>) = content r" for r
    by (simp add: content_def)
  note keep = same_content_ok [OF ok this]
  show "db_ok db'" "advances db db'" using shape keep ok by (auto split: if_splits)
qed

lemma ensure_event_qna_Inr:
  assumes "ensure_event_qna now new_id dispatch event_id db = Inr (p, db')"
  obtains u e s d1 key payload js s' where "coerce_event_id event_id db = Inr u"
    and "event_by_content u db = Inr e"
    and "get_or_create_session now new_id e db = Inr ((s, session_created p), d1)"
    and "provisioning_deduplication_key (HUuid (content_id e)) d1 = Inr key"
    and "provisioning_payload (HUuid (content_id e)) d1 = Inr payload"
    and "dispatch ''events.qna.provision'' key payload (jobs d1) = Inr ((p_job p, job_created p), js)"
    and "link_job now (p_job p) s (d1\<lparr>jobs := js\<rparr>) = Inr (p_session p, db')"
proof -
  obtain u where u: "coerce_event_id event_id db = Inr u"
    using assms by (auto simp: ensure_event_qna_def)
  obtain e where e: "event_by_content u db = Inr e"
    using assms by (auto simp: ensure_event_qna_def u)
  obtain s c d1 where g: "get_or_create_session now new_id e db = Inr ((s, c), d1)"
    using assms by (auto simp: ensure_event_qna_def u e)
  obtain key where k: "provisioning_deduplication_key (HUuid (content_id e)) d1 = Inr key"
    using assms by (auto simp: ensure_event_qna_def u e g)
  obtain payload where pl: "provisioning_payload (HUuid (content_id e)) d1 = Inr payload"
    using assms by (auto simp: ensure_event_qna_def u e g k)
  obtain j n js where d: "dispatch ''events.qna.provision'' key payload (jobs d1) = Inr ((j, n), js)"
    using assms by (auto simp: ensure_event_qna_def u e g k pl)
  obtain s' where l: "link_job now j s (d1\<lparr>jobs := js\<rparr>) = Inr (s', db')"
    and p: "p = \<lparr>p_session = s', p_job = j, session_created = c, job_created = n\<rparr>"
    using assms by (auto simp: ensure_event_qna_def u e g k pl d)
  show ?thesis by (rule that [OF u e _ k pl]) (use g d l p in simp_all)
qed

lemma ensure_event_qna_ok:
  assumes ok: "db_ok db" and run: "ensure_event_qna now new_id dispatch event_id db = Inr (p, db')"
  shows "db_ok db'" and "advances db db'"
    and "provisioning_job (p_session p) = Some (job_id (p_job p))"
    and "\<exists>e. p_session p \<in> {s. session_event s = ev_pk e} \<and> event_row event_id db = Inr e"
proof -
  obtain u e s d1 key payload js where u: "coerce_event_id event_id db = Inr u"
    and e: "event_by_content u db = Inr e"
    and g: "get_or_create_session now new_id e db = Inr ((s, session_created p), d1)"
    and l: "link_job now (p_job p) s (d1\<lparr>jobs := js\<rparr>) = Inr (p_session p, db')"
    by (rule ensure_event_qna_Inr [OF run])
  note g' = get_or_create_session_ok [OF ok g]
  have "db_ok (d1\<lparr>jobs := js\<rparr>)" "s \<in> set (sessions (d1\<lparr>jobs := js\<rparr>))" using g'(1,3) by simp_all
  note l' = link_job_ok [OF this l]
  show "db_ok db'" "provisioning_job (p_session p) = Some (job_id (p_job p))" by (rule l')+
  show "advances db db'"
    using l'(2) g'(2) advances_trans [of db "d1\<lparr>jobs := js\<rparr>" db'] by simp
  have "event_row event_id db = Inr e"
    using u e by (auto simp: event_row_def event_by_content_def split: option.splits)
  then show "\<exists>e. p_session p \<in> {s. session_event s = ev_pk e} \<and> event_row event_id db = Inr e"
    using l'(7) g'(4) by auto
qed

lemma coerce_event_id_cong: "events d = events db \<Longrightarrow> coerce_event_id h d = coerce_event_id h db"
  by (cases h) (simp_all add: coerce_event_id_def)

text \<open>
  Provisioning again finds the same session and the same job, creates nothing and leaves the
  store as it is (the jobs table included), whatever clock and identifiers the second call has.
\<close>

lemma ensure_event_qna_again:
  assumes ok: "db_ok db" and law: "dispatch_law dispatch"
    and run: "ensure_event_qna now new_id dispatch event_id db = Inr (p, db')"
  shows "\<exists>p'. ensure_event_qna now' new_id' dispatch event_id db' = Inr (p', db')
    \<and> p_job p' = p_job p \<and> \<not> session_created p' \<and> \<not> job_created p'
    \<and> session_id (p_session p') = session_id (p_session p)"
proof -
  obtain u e s d1 key payload js where u: "coerce_event_id event_id db = Inr u"
    and e: "event_by_content u db = Inr e"
    and g: "get_or_create_session now new_id e db = Inr ((s, session_created p), d1)"
    and k: "provisioning_deduplication_key (HUuid (content_id e)) d1 = Inr key"
    and pl: "provisioning_payload (HUuid (content_id e)) d1 = Inr payload"
    and d: "dispatch ''events.qna.provision'' key payload (jobs d1) = Inr ((p_job p, job_created p), js)"
    and l: "link_job now (p_job p) s (d1\<lparr>jobs := js\<rparr>) = Inr (p_session p, db')"
    by (rule ensure_event_qna_Inr [OF run])
  note g' = get_or_create_session_ok [OF ok g]
  have "db_ok (d1\<lparr>jobs := js\<rparr>)" "s \<in> set (sessions (d1\<lparr>jobs := js\<rparr>))" using g'(1,3) by simp_all
  note l' = link_job_ok [OF this l]
  have ev: "events db' = events db" using l'(6) g'(6) by simp
  have "\<exists>r. List.find (\<lambda>s. session_event s = ev_pk e) (sessions db') = Some r
      \<and> provisioning_job r = Some (job_id (p_job p)) \<and> session_id r = session_id s \<and> backend_key r = ''native''"
  proof (cases "provisioning_job s")
    case None
    then have "sessions db' = update_where (\<lambda>r. session_id r = session_id s \<and> provisioning_job r = None)
        (\<lambda>r. r\<lparr>provisioning_job := Some (job_id (p_job p)), updated_at := now\<rparr>) (sessions d1)"
      using l'(8) by simp
    then show ?thesis
      using None g'(5,7) by (simp add: find_update_where)
  next
    case (Some k)
    then have "db' = d1\<lparr>jobs := js\<rparr>" "p_session p = s\<lparr>provisioning_job := Some (job_id (p_job p))\<rparr>"
      and "k = job_id (p_job p)"
      using l'(7,8) l by (auto simp: link_job_def split: if_splits)
    then show ?thesis using Some g'(5,7) by simp
  qed
  then obtain r where r: "List.find (\<lambda>s. session_event s = ev_pk e) (sessions db') = Some r"
    "provisioning_job r = Some (job_id (p_job p))" "session_id r = session_id s" "backend_key r = ''native''"
    by blast
  have jobs': "jobs db' = js" using l'(5) by simp
  have g2: "get_or_create_session now' new_id' e db' = Inr ((r, False), db')"
    by (simp add: get_or_create_session_def r get_qna_backend_def)
  have k2: "provisioning_deduplication_key (HUuid (content_id e)) db' = Inr key"
    "provisioning_payload (HUuid (content_id e)) db' = Inr payload"
    "coerce_event_id event_id db' = Inr u" "event_by_content u db' = Inr e"
    using k pl u e ev g'(6) coerce_event_id_cong [of db' d1] coerce_event_id_cong [of db' db]
    by (simp_all add: provisioning_deduplication_key_def provisioning_payload_def event_by_content_def)
  have d2: "dispatch ''events.qna.provision'' key payload (jobs db') = Inr ((p_job p, False), jobs db')"
    using dispatch_twice [OF law d] by (simp add: jobs')
  have l2: "link_job now' (p_job p) r db' = Inr (r, db')" by (simp add: link_job_def r)
  have "ensure_event_qna now' new_id' dispatch event_id db'
      = Inr (\<lparr>p_session = r, p_job = p_job p, session_created = False, job_created = False\<rparr>, db')"
    by (simp add: ensure_event_qna_def k2 g2 d2 l2)
  then show ?thesis using r(3) l'(4) by auto
qed

lemma ensure_native_ok:
  assumes ok: "db_ok db" and run: "ensure_native_event_qna now new_id event_id db = Inr (s', db')"
  shows "db_ok db' \<and> advances db db'"
proof -
  obtain u where u: "coerce_event_id event_id db = Inr u"
    using run by (auto simp: ensure_native_event_qna_def)
  obtain e where e: "event_by_content u db = Inr e"
    using run by (auto simp: ensure_native_event_qna_def u)
  obtain s c d1 where g: "get_or_create_session now new_id e db = Inr ((s, c), d1)"
    using run by (auto simp: ensure_native_event_qna_def u e)
  note g' = get_or_create_session_ok [OF ok g]
  have "content (r\<lparr>backend_reference := x, updated_at := now\<rparr>) = content r" for r x
    by (simp add: content_def)
  note keep = same_content_ok [OF g'(1) this]
  have "db_ok db' \<and> advances d1 db'"
    using run keep g'(1)
    by (auto simp: ensure_native_event_qna_def u e g get_qna_backend_def Let_def bind_res_Inr_iff split: if_splits)
  then show ?thesis using advances_trans [OF g'(2)] by blast
qed

lemma retry_ok:
  assumes ok: "db_ok db" and law: "dispatch_law dispatch" and dj: "distinct (map job_id (jobs db))"
    and run: "retry_event_qna_provision now new_id dispatch status_text event_id ctx db = Inr (p, db')"
  shows "db_ok db'" and "advances db db'" and "job_status (p_job p) \<noteq> Dead"
    and "p_job p \<in> set (jobs db')"
proof -
  obtain u where u: "coerce_event_id event_id db = Inr u"
    using run by (auto simp: retry_event_qna_provision_def)
  obtain p0 d1 where e: "ensure_event_qna now new_id dispatch (HUuid u) db = Inr (p0, d1)"
    using run by (auto simp: retry_event_qna_provision_def u)
  let ?js = "revive_job now (p_job p0) (jobs d1)"
  obtain j where j: "List.find (\<lambda>r. job_id r = job_id (p_job p0)) ?js = Some j"
    and p: "p = p0\<lparr>p_job := j\<rparr>"
    and db': "db' = audit_if ctx ''events.qna.provision_retry_requested'' (p_session p0)
                [(''job_id'', PStr (uuid_str (job_id j))), (''status'', PStr (status_text (job_status j)))] (d1\<lparr>jobs := ?js\<rparr>)"
    using run by (auto simp: retry_event_qna_provision_def u e Let_def split: option.splits)
  show "db_ok db'" "advances db db'" using ensure_event_qna_ok(1,2) [OF ok e] by (simp_all add: db')
  show "p_job p \<in> set (jobs db')" using find_Some [OF j] by (simp add: p db')
  obtain u' e' s d0 key payload js where g: "get_or_create_session now new_id e' db = Inr ((s, session_created p0), d0)"
    and d: "dispatch ''events.qna.provision'' key payload (jobs d0) = Inr ((p_job p0, job_created p0), js)"
    and l: "link_job now (p_job p0) s (d0\<lparr>jobs := js\<rparr>) = Inr (p_session p0, d1)"
    by (rule ensure_event_qna_Inr [OF e])
  have "jobs d0 = jobs db" by (rule get_or_create_session_ok(8) [OF ok g])
  then have dist: "distinct (map job_id js)" and mem: "p_job p0 \<in> set js"
    using dispatch_lawD(3,7) [OF law d] dj by simp_all
  have "jobs d1 = js"
    using link_job_ok(5) [OF _ _ l] get_or_create_session_ok(1,3) [OF ok g] by simp
  then have found: "List.find (\<lambda>r. job_id r = job_id (p_job p0)) (jobs d1) = Some (p_job p0)"
    using find_key [OF dist mem] by simp
  show "job_status (p_job p) \<noteq> Dead"
    using j found by (cases "job_status (p_job p0) = Dead") (auto simp: p revive_job_def find_update_where)
qed

end
