(* ===== verification/Qna_Room.thy ===== *)
theory Qna_Room
  imports Qna_Listing Qna_Rate Qna_Provision
begin

text \<open>
  The operations of a room as one system. The locale \<open>room_operation\<close> is the contract every
  operation of the services meets (it keeps the invariant and only advances the store); its facts
  about repeated and failing calls are proved once and used through an interpretation per
  operation. The step relation puts all operations side by side; its reachable stores are good.
\<close>

subsection \<open>The contract\<close>

text \<open>A call whose error rolls the transaction back.\<close>

definition attempt :: "('a \<Rightarrow> db \<Rightarrow> (qna_err, 'r \<times> db) res) \<Rightarrow> 'a \<Rightarrow> db \<Rightarrow> db" where
  "attempt run a db = (case run a db of Inl e \<Rightarrow> db | Inr (x, db') \<Rightarrow> db')"

locale room_operation =
  fixes run :: "'a \<Rightarrow> db \<Rightarrow> (qna_err, 'r \<times> db) res"
  assumes keeps: "db_ok db \<Longrightarrow> run a db = Inr (x, db') \<Longrightarrow> db_ok db' \<and> advances db db'"
begin

lemma attempt_ok: "db_ok db \<Longrightarrow> db_ok (attempt run a db) \<and> advances db (attempt run a db)"
  using keeps by (auto simp: attempt_def split: sum.splits)

lemma attempts_ok: "db_ok db \<Longrightarrow> db_ok (fold (attempt run) as db) \<and> advances db (fold (attempt run) as db)"
proof (induction as arbitrary: db)
  case (Cons a as)
  then show ?case using attempt_ok [of db a] advances_trans by fastforce
qed simp

end

text \<open>What the surroundings of the services supply.\<close>

record env =
  e_parse :: "string \<Rightarrow> parsed_datetime"
  e_digest :: "string \<Rightarrow> string"
  e_sha256 :: "string \<Rightarrow> string"
  e_scope_hash :: "string \<Rightarrow> string"
  e_make_password :: "string \<Rightarrow> string"
  e_dispatch :: "qna_err dispatcher"
  e_status_text :: "job_status \<Rightarrow> string"

datatype command =
    Ensure uuid event_handle
  | Converge uuid event_handle
  | Retry uuid event_handle "string option"
  | Transition event_handle string "string option"
  | Update_session event_handle payload string "int option" "string option"
  | Submit string event_handle pyval pyval string
  | Update_question event_handle string payload "string option" bool "string option" "int option"
  | Vote event_handle string string bool
  | Create_cohost "nat \<Rightarrow> string" "nat \<Rightarrow> nat" event_handle pyval pyval string "string option"
  | Revoke_cohost event_handle string "string option"
  | Admit string int int

definition drop_value :: "(qna_err, 'r \<times> db) res \<Rightarrow> (qna_err, unit \<times> db) res" where
  "drop_value r = bind_res r (\<lambda>(x, db). Inr ((), db))"

fun run_command :: "env \<Rightarrow> datetime \<times> command \<Rightarrow> db \<Rightarrow> (qna_err, unit \<times> db) res" where
  "run_command env (now, Ensure new_id h) db = drop_value (ensure_event_qna now new_id (e_dispatch env) h db)"
| "run_command env (now, Converge new_id h) db = drop_value (ensure_native_event_qna now new_id h db)"
| "run_command env (now, Retry new_id h ctx) db =
     drop_value (retry_event_qna_provision now new_id (e_dispatch env) (e_status_text env) h ctx db)"
| "run_command env (now, Transition h target ctx) db = drop_value (transition_session now h target ctx db)"
| "run_command env (now, Update_session h payload role expected ctx) db =
     drop_value (update_session now (e_parse env) h payload role expected ctx db)"
| "run_command env (now, Submit fresh h body author participant) db =
     drop_value (submit_question now (e_digest env) fresh h body author participant db)"
| "run_command env (now, Update_question h qid payload participant moderator ctx expected) db =
     drop_value (update_question now (e_digest env) h qid payload participant moderator ctx expected db)"
| "run_command env (now, Vote h qid participant add) db =
     drop_value (vote_question now (e_digest env) h qid participant add db)"
| "run_command env (now, Create_cohost ids choices h name passcode actor ctx) db =
     drop_value (create_cohost now (e_make_password env) ids choices h name passcode actor ctx db)"
| "run_command env (now, Revoke_cohost h iid ctx) db = drop_value (revoke_cohost now h iid ctx db)"
| "run_command env (now, Admit scope window limit) db =
     drop_value (admit_rate now (e_scope_hash env) scope window limit db)"

lemma drop_value_Inr: "drop_value r = Inr (u, db') \<longleftrightarrow> (\<exists>x. r = Inr (x, db'))"
  by (auto simp: drop_value_def bind_res_Inr_iff)

lemma admit_rate_rows:
  "admit_rate now h scope window limit db = Inr (x, db') \<Longrightarrow>
     sessions db' = sessions db \<and> questions db' = questions db \<and> votes db' = votes db"
  by (auto simp: admit_rate_def Let_def split: if_splits prod.splits)

lemma retry_keeps:
  assumes ok: "db_ok db"
    and run: "retry_event_qna_provision now new_id dispatch status_text event_id ctx db = Inr (p, db')"
  shows "db_ok db' \<and> advances db db'"
proof -
  obtain u where u: "coerce_event_id event_id db = Inr u"
    using run by (auto simp: retry_event_qna_provision_def)
  obtain p0 d1 where e: "ensure_event_qna now new_id dispatch (HUuid u) db = Inr (p0, d1)"
    using run by (auto simp: retry_event_qna_provision_def u)
  then show ?thesis
    using run ensure_event_qna_ok(1,2) [OF ok e]
    by (auto simp: retry_event_qna_provision_def u Let_def split: option.splits)
qed

text \<open>The contract, operation by operation.\<close>

interpretation transitions: room_operation "\<lambda>(now, h, target, ctx). transition_session now h target ctx"
  by unfold_locales (auto simp: transition_session_ok split: prod.splits)

interpretation session_updates:
  room_operation "\<lambda>(now, parse, h, payload, role, expected, ctx). update_session now parse h payload role expected ctx"
  by unfold_locales (auto simp: update_session_ok split: prod.splits)

interpretation submissions:
  room_operation "\<lambda>(now, digest, fresh, h, body, author, participant). submit_question now digest fresh h body author participant"
  by unfold_locales (auto elim!: submit_question_ok [rotated] split: prod.splits)

interpretation question_updates:
  room_operation "\<lambda>(now, digest, h, qid, payload, participant, moderator, ctx, expected).
    update_question now digest h qid payload participant moderator ctx expected"
  by unfold_locales (auto elim!: update_question_ok [rotated] split: prod.splits)

interpretation voting:
  room_operation "\<lambda>(now, digest, h, qid, participant, add). vote_question now digest h qid participant add"
proof unfold_locales
  fix db db' :: db and a x
  assume "db_ok db" "(case a of (now, digest, h, qid, participant, add) \<Rightarrow>
      vote_question now digest h qid participant add) db = Inr (x, db')"
  then show "db_ok db' \<and> advances db db'"
    by (cases a; cases x) (auto elim!: vote_question_ok [rotated])
qed

interpretation ensuring: room_operation "\<lambda>(now, new_id, dispatch, h). ensure_event_qna now new_id dispatch h"
  by unfold_locales (auto simp: ensure_event_qna_ok(1,2) split: prod.splits)

interpretation converging: room_operation "\<lambda>(now, new_id, h). ensure_native_event_qna now new_id h"
  by unfold_locales (auto simp: ensure_native_ok split: prod.splits)

interpretation cohosts: room_operation "\<lambda>(now, mp, ids, choices, h, name, passcode, actor, ctx).
    create_cohost now mp ids choices h name passcode actor ctx"
  by unfold_locales (auto simp: create_cohost_ok split: prod.splits)

interpretation revocations: room_operation "\<lambda>(now, h, iid, ctx). revoke_cohost now h iid ctx"
  by unfold_locales (auto simp: revoke_cohost_keeps split: prod.splits)

text \<open>All commands together meet the contract.\<close>

interpretation commands: room_operation "run_command env" for env
proof unfold_locales
  fix db db' and a x
  assume ok: "db_ok db" and run: "run_command env a db = Inr (x, db')"
  obtain now c where a: "a = (now, c)" by (cases a)
  show "db_ok db' \<and> advances db db'"
  proof (cases c)
    case (Ensure new_id h)
    then show ?thesis using run ok ensuring.keeps [of db "(now, new_id, e_dispatch env, h)"]
      by (auto simp: a drop_value_Inr)
  next
    case (Converge new_id h)
    then show ?thesis using run ok ensure_native_ok by (auto simp: a drop_value_Inr)
  next
    case (Retry new_id h ctx)
    then show ?thesis using run retry_keeps [OF ok] by (auto simp: a drop_value_Inr)
  next
    case (Transition h target ctx)
    then show ?thesis using run ok transition_session_ok by (auto simp: a drop_value_Inr)
  next
    case (Update_session h payload role expected ctx)
    then show ?thesis using run ok update_session_ok by (auto simp: a drop_value_Inr)
  next
    case (Submit fresh h body author participant)
    then show ?thesis
      using run ok submissions.keeps [of db "(now, e_digest env, fresh, h, body, author, participant)"]
      by (auto simp: a drop_value_Inr)
  next
    case (Update_question h qid payload participant moderator ctx expected)
    then show ?thesis
      using run ok question_updates.keeps [of db "(now, e_digest env, h, qid, payload, participant, moderator, ctx, expected)"]
      by (auto simp: a drop_value_Inr)
  next
    case (Vote h qid participant add)
    then show ?thesis
      using run ok voting.keeps [of db "(now, e_digest env, h, qid, participant, add)"]
      by (auto simp: a drop_value_Inr)
  next
    case (Create_cohost ids choices h name passcode actor ctx)
    then show ?thesis using run ok create_cohost_ok(2,3) by (auto simp: a drop_value_Inr)
  next
    case (Revoke_cohost h iid ctx)
    then show ?thesis using run ok revoke_cohost_keeps by (auto simp: a drop_value_Inr)
  next
    case (Admit scope window limit)
    then obtain y where "admit_rate now (e_scope_hash env) scope window limit db = Inr (y, db')"
      using run by (auto simp: a drop_value_Inr)
    from admit_rate_rows [OF this] show ?thesis using same_rows_ok [of db' db] ok by simp
  qed
qed

subsection \<open>Reachable stores\<close>

text \<open>
  A step is a command (an error changes nothing), a listing, which may close an expired room, the
  durable provisioning job, or a pruning run.
\<close>

inductive room_step :: "env \<Rightarrow> db \<Rightarrow> db \<Rightarrow> bool" for env where
  command: "room_step env db (attempt (run_command env) c db)"
| listing: "list_questions now (e_digest env) (e_sha256 env) h participant moderator srt statuses db = (r, db')
     \<Longrightarrow> room_step env db db'"
| job: "provision_event_qna now new_id payload db = (r, db') \<Longrightarrow> room_step env db db'"
| prune: "prune_expired_rate_buckets now batch db = (n, db') \<Longrightarrow> room_step env db db'"

inductive reachable :: "env \<Rightarrow> db \<Rightarrow> db \<Rightarrow> bool" for env where
  start: "reachable env db db"
| step: "reachable env db db1 \<Longrightarrow> room_step env db1 db2 \<Longrightarrow> reachable env db db2"

inductive_cases room_stepE: "room_step env db db'"

lemma provision_keeps:
  assumes "db_ok db" and "provision_event_qna now new_id payload db = (r, db')"
  shows "db_ok db' \<and> advances db db'"
proof (cases "\<exists>u s. ensure_native_event_qna now new_id (HUuid u) db = Inr (s, db')")
  case True
  then show ?thesis using ensure_native_ok [OF assms(1)] by blast
next
  case False
  have "db' = db"
    using assms(2) False
    by (auto simp: provision_event_qna_def Let_def split: if_splits pyval.splits option.splits sum.splits
        qna_err.splits)
  then show ?thesis using assms(1) by simp
qed

lemma room_step_ok: "room_step env db db' \<Longrightarrow> db_ok db \<Longrightarrow> db_ok db' \<and> advances db db'"
proof (erule room_stepE)
  assume "db_ok db"
  then show "db' = attempt (run_command env) c db \<Longrightarrow> db_ok db' \<and> advances db db'" for c
    using commands.attempt_ok by simp
next
  assume "db_ok db"
  then show "list_questions now (e_digest env) (e_sha256 env) h participant moderator srt statuses db = (r, db')
      \<Longrightarrow> db_ok db' \<and> advances db db'" for now h participant moderator srt statuses r
    using list_questions_ok by blast
next
  assume "db_ok db"
  then show "provision_event_qna now new_id payload db = (r, db') \<Longrightarrow> db_ok db' \<and> advances db db'"
    for now new_id payload r
    using provision_keeps by blast
next
  assume "db_ok db"
  then show "prune_expired_rate_buckets now batch db = (n, db') \<Longrightarrow> db_ok db' \<and> advances db db'"
    for now batch n
    using same_rows_ok [of db' db] by (auto simp: prune_expired_rate_buckets_def split: prod.splits)
qed

lemma reachable_ok: "reachable env db db' \<Longrightarrow> db_ok db \<Longrightarrow> db_ok db' \<and> advances db db'"
proof (induction rule: reachable.induct)
  case (step db db1 db2)
  then show ?case using room_step_ok [OF step.hyps(2)] advances_trans by blast
qed simp

definition empty_db :: "event list \<Rightarrow> db" where
  "empty_db es = \<lparr>events = es, sessions = [], questions = [], votes = [], invites = [], rates = [],
     jobs = [], audits = []\<rparr>"

lemma empty_db_ok: "db_ok (empty_db es)"
  by (simp add: empty_db_def db_ok_def)

end
