(* ===== verification/Qna_Properties.thy ===== *)
theory Qna_Properties
  imports Qna_Room
begin

text \<open>
  The promises of the Event Q&A services, each over the operations as the code has them, and a
  sample store (one event, one open room) on which the hypotheses are met.
\<close>

subsection \<open>A sample store\<close>

definition sample_event :: event where
  "sample_event = \<lparr>ev_pk = 1, content_id = 9223372036854775808, ev_status = ''upcoming'', public_id = Some 12,
     slug = ''demo''\<rparr>"

definition sample_session :: session where
  "sample_session = (default_session 0 7 1)\<lparr>state := Open\<rparr>"

definition sample_db :: db where
  "sample_db = (empty_db [sample_event])\<lparr>sessions := [sample_session]\<rparr>"

definition sample_question :: question where
  "sample_question = submitted 0 ''Q1'' 7 ''why'' '''' ''bob''"

text \<open>The sample store after one question.\<close>

definition asked_db :: db where
  "asked_db = sample_db\<lparr>sessions := [bumped 0 (sample_session\<lparr>q_total := 1\<rparr>)],
     questions := [sample_question], votes := [\<lparr>v_question = ''Q1'', v_digest = ''bob''\<rparr>]\<rparr>"

lemma sample_db_ok: "db_ok sample_db"
  by (simp add: sample_db_def empty_db_def db_ok_def sample_session_def default_session_def
      session_ok_def counters_ok_def count_where_def)

lemma asked_db_ok: "db_ok asked_db"
  by (simp add: asked_db_def sample_db_def empty_db_def db_ok_def sample_session_def default_session_def
      session_ok_def counters_ok_def count_where_def sample_question_def submitted_def question_ok_def
      max_question_length_def max_name_length_def)

lemma sample_submit:
  "submit_question 0 (\<lambda>p. p) ''Q1'' (HInt 1) (PStr ''why'') PNone ''bob'' sample_db = Inr (sample_question, asked_db)"
  by (simp add: submit_question_def qna_session_def event_row_def coerce_event_id_def sample_db_def empty_db_def
      sample_event_def sample_session_def default_session_def refresh_expiry_def validate_text_def py_strip_def
      py_space_def max_question_length_def validate_name_def max_name_length_def create_question_def create_vote_def
      save_question_def update_where_def bump_session_def count_where_def session_check_def copy_field_def
      setters_def asked_db_def sample_question_def submitted_def Let_def)

lemma sample_session_simps:
  "state sample_session = Open" "session_id sample_session = 7" "expires_at sample_session = None"
  "session_event sample_session = 1" "revision sample_session = 1" "q_answered sample_session = 0"
  "backend_key sample_session = ''native''" "retention_days sample_session = Some 365"
  by (simp_all add: sample_session_def default_session_def)

lemma sample_question_simps:
  "question_id sample_question = ''Q1''" "q_session sample_question = 7" "status sample_question = Visible"
  "score sample_question = 1" "participant_digest sample_question = ''bob''" "created_at sample_question = 0"
  by (simp_all add: sample_question_def submitted_def)

lemma asked_rows:
  "questions asked_db = [sample_question]" "votes asked_db = [\<lparr>v_question = ''Q1'', v_digest = ''bob''\<rparr>]"
  "sessions asked_db = [bumped 0 (sample_session\<lparr>q_total := 1\<rparr>)]" "events asked_db = [sample_event]"
  by (simp_all add: asked_db_def sample_db_def empty_db_def)

lemmas sample_rows = sample_session_simps sample_question_simps asked_rows

definition plain_env :: env where
  "plain_env = \<lparr>e_parse = (\<lambda>s. ParseNone), e_digest = (\<lambda>p. p), e_sha256 = (\<lambda>s. s), e_scope_hash = (\<lambda>s. s),
     e_make_password = (\<lambda>p. p),
     e_dispatch = table_dispatch IntegrityError,
     e_status_text = (\<lambda>s. case s of Pending \<Rightarrow> ''pending'' | Dead \<Rightarrow> ''dead'' | Other_status t \<Rightarrow> t)\<rparr>"

lemma plain_dispatch_law: "dispatch_law (e_dispatch plain_env)"
  by (simp add: plain_env_def table_dispatch_law)

subsection \<open>The state of a room\<close>

text \<open>
  C1 In every store reachable from an empty one by any sequence of operations (failing calls, the
  durable job and listings included), each room's counters are the numbers of its undeleted and
  answered questions, at most one question is pinned and none that is deleted, every score is the
  number of vote rows, an archive deadline is set exactly for archived rooms, and names are never
  required while they are disallowed.
\<close>

theorem room_invariant:
  assumes "reachable env (empty_db es) db"
  shows "(\<forall>s \<in> set (sessions db).
       q_total s = count_where (\<lambda>q. q_session q = session_id s \<and> status q \<noteq> Deleted) (questions db)
     \<and> q_answered s = count_where (\<lambda>q. q_session q = session_id s \<and> status q = Answered) (questions db)
     \<and> count_where (\<lambda>q. q_session q = session_id s \<and> pinned q) (questions db) \<le> 1
     \<and> (archive_delete_at s \<noteq> None \<longleftrightarrow> state s = Archived) \<and> (require_names s \<longrightarrow> allow_names s))
   \<and> (\<forall>q \<in> set (questions db). score q = count_where (\<lambda>v. v_question v = question_id q) (votes db)
     \<and> (status q = Deleted \<longrightarrow> \<not> pinned q) \<and> 1 \<le> length (q_text q) \<and> length (q_text q) \<le> 315)"
proof -
  have "db_ok db" using reachable_ok [OF assms empty_db_ok] by blast
  then show ?thesis
    by (auto simp: db_ok_def session_ok_def counters_ok_def question_ok_def max_question_length_def)
qed

lemma room_invariant_witness:
  "list_all (\<lambda>q. length (q_text q) \<le> 315) (questions (attempt (run_command plain_env) (0, Submit ''Q1'' (HInt 1) (PStr ''a'') PNone ''bob'')
     (attempt (run_command plain_env) (0, Ensure 7 (HInt 1)) (empty_db [sample_event]))))"
proof -
  let ?db = "attempt (run_command plain_env) (0, Submit ''Q1'' (HInt 1) (PStr ''a'') PNone ''bob'')
     (attempt (run_command plain_env) (0, Ensure 7 (HInt 1)) (empty_db [sample_event]))"
  have "reachable plain_env (empty_db [sample_event]) ?db"
    by (rule reachable.step [OF reachable.step [OF reachable.start room_step.command] room_step.command])
  from room_invariant [OF this] show ?thesis by (auto simp: list_all_iff)
qed

text \<open>
  C29 Deletion is terminal: once a question is deleted, no later operation changes its row.
\<close>

theorem deleted_is_terminal:
  assumes "reachable env db db'" and "db_ok db" and "q \<in> set (questions db)" and "status q = Deleted"
  shows "q \<in> set (questions db')"
  using reachable_ok [OF assms(1,2)] assms(3,4) by (auto simp: advances_def)

lemma deleted_is_terminal_witness:
  "sample_question\<lparr>status := Deleted\<rparr> \<in> set (questions (attempt (run_command plain_env)
     (0, Update_question (HInt 1) ''Q1'' [(''status'', PStr ''visible'')] None True None None)
     (asked_db\<lparr>questions := [sample_question\<lparr>status := Deleted\<rparr>],
        sessions := [bumped 0 sample_session]\<rparr>)))"
proof (rule deleted_is_terminal [OF reachable.step [OF reachable.start room_step.command]])
  show "db_ok (asked_db\<lparr>questions := [sample_question\<lparr>status := Deleted\<rparr>], sessions := [bumped 0 sample_session]\<rparr>)"
    by (simp add: asked_db_def sample_db_def empty_db_def db_ok_def sample_session_def default_session_def
      session_ok_def counters_ok_def count_where_def sample_question_def submitted_def question_ok_def
      max_question_length_def max_name_length_def)
qed simp_all

text \<open>
  The session revision is a sound precondition: if a later store shows the same revision of a
  room, then nothing but its provisioning columns changed, neither the room nor its questions.
\<close>

theorem same_revision_same_room:
  assumes "reachable env db db'" and "db_ok db"
    and "s \<in> set (sessions db)" and "s' \<in> set (sessions db')" and "session_id s' = session_id s"
    and "revision s' = revision s"
  shows "content s' = content s \<and> questions_of (session_id s) db' = questions_of (session_id s) db"
proof -
  have r: "db_ok db'" "advances db db'" using reachable_ok [OF assms(1,2)] by auto
  then obtain t where t: "t \<in> set (sessions db')" "session_id t = session_id s"
    "content t = content s \<and> questions_of (session_id s) db' = questions_of (session_id s) db \<or> revision s < revision t"
    using assms(3) by (auto simp: advances_def)
  have "t = s'" using distinct_key_eq [OF db_ok_dest(1) [OF r(1)] t(1) assms(4)] t(2) assms(5) by simp
  then show ?thesis using t(3) assms(6) by auto
qed

lemma same_revision_same_room_witness:
  "content sample_session = content sample_session \<and> questions_of 7 sample_db = questions_of 7 sample_db"
proof -
  have "sample_session \<in> set (sessions sample_db)" by (simp add: sample_db_def)
  moreover have "session_id sample_session = 7" by (simp add: sample_session_def default_session_def)
  ultimately show ?thesis
    using same_revision_same_room [OF reachable.start sample_db_ok, of sample_session sample_session] by simp
qed

text \<open>
  The optimistic write loses against a concurrent one: when the stored row has moved past the
  revision the instance was read with, nothing is written and \<open>RevisionConflict\<close> is raised. The
  \<open>actual\<close> it reports is the revision the write wanted to store, not the stored one.
\<close>

theorem stale_write_conflicts:
  assumes "\<forall>r \<in> set (sessions db). session_id r = session_id s \<longrightarrow> revision r \<noteq> revision s"
  shows "bump_session now names s db = Inl (RevisionConflict (revision s) (revision s + 1))"
  using assms by (auto simp: bump_session_def Let_def list_all_iff count_where_def filter_empty_conv)

lemma stale_write_conflicts_witness:
  "bump_session 5 [''state''] (sample_session\<lparr>revision := 3\<rparr>)
     (sample_db\<lparr>sessions := [sample_session\<lparr>revision := 9\<rparr>]\<rparr>) = Inl (RevisionConflict 3 4)"
  using stale_write_conflicts [of "sample_db\<lparr>sessions := [sample_session\<lparr>revision := 9\<rparr>]\<rparr>"
      "sample_session\<lparr>revision := 3\<rparr>" 5 "[''state'']"]
  by (simp add: sample_session_def)

subsection \<open>Lifecycle and settings\<close>

lemma sample_room: "qna_session (HInt 1) sample_db = Inr (sample_event, sample_session)"
  by (simp add: qna_session_def event_row_def coerce_event_id_def sample_db_def empty_db_def
      sample_event_def sample_session_def default_session_def)

lemma asked_room: "qna_session (HInt 1) asked_db = Inr (sample_event, bumped 0 (sample_session\<lparr>q_total := 1\<rparr>))"
  by (simp add: qna_session_def event_row_def coerce_event_id_def asked_db_def sample_db_def empty_db_def
      sample_event_def sample_session_def default_session_def)

text \<open>
  C30 A lifecycle change in a good store: moving to the state the room has is a no-op, moving along
  an edge of the table stores the new state with a higher revision, stamps the change and sets the
  deletion deadline seven days ahead exactly when archiving, and every other target is refused
  with \<open>invalid_transition\<close>.
\<close>

theorem lifecycle_transition:
  assumes "db_ok db" and "qna_session h db = Inr (e, s)"
  shows "transition_session now h target None db =
    (if target = lifecycle_value (state s) then Inr (s, db)
     else case lifecycle_of target of
         None \<Rightarrow> Inl (invalid_transition (state s) (PStr target))
       | Some t \<Rightarrow>
           if t \<notin> set (transitions (state s)) then Inl (invalid_transition (state s) (PStr target))
           else let s' = s\<lparr>state := t, state_changed_at := now,
                     archive_delete_at := if t = Archived then Some (now + days 7) else None,
                     revision := revision s + 1, updated_at := now\<rparr>
                in Inr (s', db\<lparr>sessions := put_row session_id s' (sessions db)\<rparr>))"
proof (cases "lifecycle_of target")
  case (Some t)
  obtain d where "bump_session now [''state'', ''state_changed_at'', ''archive_delete_at''] (moved now t s) db
      = Inr (bumped now (moved now t s), d)" "d = put_session (bumped now (moved now t s)) db"
    by (rule move_session [OF assms(1) qna_session_row(1) [OF assms(2)], of now t])
  note w = this [unfolded moved_def archive_delete_days_def]
  show ?thesis
    using Some w by (cases "t = Archived") (simp_all add: transition_session_def assms(2) transition_locked_def
        target_of_def Let_def audit_if_def archive_delete_days_def)
qed (simp add: transition_session_def assms(2) transition_locked_def target_of_def audit_if_def)

lemma lifecycle_transition_witness:
  "transition_session 0 (HInt 1) ''draft'' None sample_db = Inl (invalid_transition Open (PStr ''draft''))"
  using lifecycle_transition [OF sample_db_ok sample_room, of 0 "''draft''"]
  by (simp add: sample_session_def default_session_def lifecycle_of_def)

text \<open>
  Client values that are not what the code tests for escape its error envelope: a list or a
  dictionary as a choice setting or as the target state raises \<open>TypeError\<close>, and a well-formed but
  impossible timestamp raises \<open>ValueError\<close>.
\<close>

theorem unhashable_values_escape:
  assumes "val = PList vs \<or> val = PDict d" and "key = ''answered_placement'' \<or> key = ''default_sort''"
    and "parse (replace_z stamp) = ParseRaises" and "stamp \<noteq> []"
  shows "clean_settings (PDict [(key, val)]) base = Inl TypeError
     \<and> transition_locked now val s db = Inl TypeError
     \<and> parse_expiry parse (PStr stamp) = Inl (ValueError ''parse_datetime'')"
proof -
  have val: "\<not> hashable val" "val \<noteq> PStr t" for t using assms(1) by auto
  show ?thesis
    using assms(2-4) val by (auto simp: clean_settings_def clean_setting_def default_settings_def
        has_key_def transition_locked_def parse_expiry_def)
qed

lemma unhashable_values_escape_witness:
  "clean_settings (PDict [(''default_sort'', PList [])]) [] = Inl TypeError"
  using unhashable_values_escape [of "PList []" "[]" "[]" "''default_sort''" "\<lambda>s. ParseRaises" "''x''" "[]"
      0 sample_session sample_db] by simp

subsection \<open>Questions and votes\<close>

text \<open>
  In a good store every valid submission to an open room succeeds: the new row is the stripped
  text under the validated name, visible and with the author's own vote, the room counts one more
  question, its revision goes up by one and nothing else changes.
\<close>

theorem submit_effect:
  assumes ok: "db_ok db" and s: "qna_session h db = Inr (e, s)" and op: "state s = Open"
    and unexpired: "case expires_at s of None \<Rightarrow> True | Some t \<Rightarrow> now < t"
    and body: "validate_text text = Inr body" and name: "validate_name author s = Inr name"
    and fresh: "qid \<notin> question_id ` set (questions db)"
    and participant: "participant \<noteq> []" "digest participant \<noteq> []"
  shows "submit_question now digest qid h text author participant db =
    (let q = \<lparr>question_id = qid, q_session = session_id s, q_text = body, author_name = name,
              participant_digest = digest participant, status = Visible, score = 1, pinned = False,
              created_at = now, answered_at = None\<rparr>;
         s' = s\<lparr>q_total := q_total s + 1, revision := revision s + 1, updated_at := now\<rparr>
     in Inr (q, db\<lparr>sessions := put_row session_id s' (sessions db), questions := questions db @ [q],
                   votes := votes db @ [\<lparr>v_question = qid, v_digest = digest participant\<rparr>]\<rparr>))"
proof -
  have refresh: "refresh_expiry now s db = Inr (s, db)"
    using op unexpired by (auto simp: refresh_expiry_def split: option.splits)
  let ?q0 = "(submitted now qid (session_id s) body name (digest participant))\<lparr>score := 0\<rparr>"
  have body': "1 \<le> length body" "length body \<le> max_question_length" using validate_text_Inr [OF body] by auto
  have "create_question ?q0 db = Inr (db\<lparr>questions := questions db @ [?q0]\<rparr>)"
    using fresh body' participant by (auto simp: create_question_def submitted_def)
  moreover have "create_vote qid (digest participant) (db\<lparr>questions := questions db @ [?q0]\<rparr>)
      = Inr (db\<lparr>questions := questions db @ [?q0], votes := votes db @ [\<lparr>v_question = qid, v_digest = digest participant\<rparr>]\<rparr>)"
    using db_ok_dest(6) [OF ok, of "\<lparr>v_question = qid, v_digest = digest participant\<rparr>"] fresh
    by (auto simp: create_vote_def)
  ultimately have rows: "create_question ?q0 db = Inr (db\<lparr>questions := questions db @ [?q0]\<rparr>)"
    "create_vote qid (digest participant) (db\<lparr>questions := questions db @ [?q0]\<rparr>)
      = Inr (db\<lparr>questions := questions db @ [?q0], votes := votes db @ [\<lparr>v_question = qid, v_digest = digest participant\<rparr>]\<rparr>)" .
  obtain d where d: "bump_session now [''q_total''] (s\<lparr>q_total := q_total s + 1\<rparr>)
      (db\<lparr>questions := questions db @ [submitted now qid (session_id s) body name (digest participant)],
          votes := votes db @ [\<lparr>v_question = qid, v_digest = digest participant\<rparr>]\<rparr>)
        = Inr (bumped now (s\<lparr>q_total := q_total s + 1\<rparr>), d)"
    "d = db\<lparr>sessions := put_row session_id (bumped now (s\<lparr>q_total := q_total s + 1\<rparr>)) (sessions db),
          questions := questions db @ [submitted now qid (session_id s) body name (digest participant)],
          votes := votes db @ [\<lparr>v_question = qid, v_digest = digest participant\<rparr>]\<rparr>"
    by (rule write_submission [OF ok qna_session_row(1) [OF s] fresh body' validate_name_Inr [OF name] participant(2)])
  note rows' = rows [unfolded submitted_def, simplified] and saved = submit_rows(4) [OF rows, unfolded submitted_def, simplified]
  show ?thesis
    using participant op d
    by (simp add: submit_question_def s refresh body name rows' saved submitted_def Let_def)
qed

lemma submit_effect_witness:
  "\<exists>d. submit_question 0 (\<lambda>p. p) ''Q1'' (HInt 1) (PStr '' why '') PNone ''bob'' sample_db = Inr (sample_question, d)
     \<and> d \<noteq> sample_db"
proof -
  have body: "validate_text (PStr '' why '') = Inr ''why''"
    by (simp add: validate_text_def py_strip_def py_space_def max_question_length_def)
  have name: "validate_name PNone sample_session = Inr []"
    by (simp add: validate_name_def sample_session_def default_session_def max_name_length_def)
  have room: "state sample_session = Open" "expires_at sample_session = None" "session_id sample_session = 7"
    by (simp_all add: sample_session_def default_session_def)
  show ?thesis
    using submit_effect [OF sample_db_ok sample_room room(1) _ body name, of 0 "''Q1''" "''bob''" "\<lambda>p. p"]
    by (simp add: room sample_question_def submitted_def sample_db_def empty_db_def Let_def)
qed

text \<open>
  A vote counts a participant once: after a successful vote or withdrawal the score is the
  number of vote rows of the question and the caller has a vote exactly if one was asked for;
  repeating the call changes nothing and returns the same score.
\<close>

theorem vote_effect:
  assumes ok: "db_ok db" and run: "vote_question now digest h qid participant add db = Inr ((sc, has), db1)"
    and again: "vote_question now' digest h qid participant add db1 = Inr ((sc2, has2), db2)"
  shows "has = add \<and> (\<lparr>v_question = qid, v_digest = digest participant\<rparr> \<in> set (votes db1)) = add
    \<and> sc = count_where (\<lambda>v. v_question v = qid) (votes db1) \<and> (sc2, has2, db2) = (sc, has, db1)"
proof (rule vote_question_ok [OF ok run])
  let ?d = "digest participant"
  fix e s q
  assume s: "qna_session h db = Inr (e, s)" and q: "get_question qid (session_id s) db = Some q"
    and has: "has = add" and ok1: "db_ok db1"
    and same: "add = (the_vote q ?d \<in> set (votes db)) \<Longrightarrow> db1 = db \<and> sc = score q"
    and change: "add \<noteq> (the_vote q ?d \<in> set (votes db)) \<Longrightarrow>
      votes db1 = revote add ?d q db \<and> sc = (if add then score q + 1 else score q - 1)"
  have sync: "synced s q db" using ok qna_session_row(1) [OF s] get_question_Some [OF q] by (simp add: synced_def)
  have ids: "question_id q = qid" "q \<in> set (questions db)" using get_question_Some [OF q] by auto
  have first: "(the_vote q ?d \<in> set (votes db1)) = add \<and> sc = count_where (\<lambda>v. v_question v = qid) (votes db1)"
  proof (cases "add = (the_vote q ?d \<in> set (votes db))")
    case True
    then show ?thesis using same [OF True] db_ok_dest(5) [OF ok ids(2)] ids by simp
  next
    case False
    then have "add \<longleftrightarrow> the_vote q ?d \<notin> set (votes db)" by simp
    then show ?thesis
      using change [OF False] revote_ok(3) [OF sync, of add ?d] ids by (auto simp: revote_def)
  qed
  show ?thesis
  proof (rule vote_question_ok [OF ok1 again])
    fix s' q'
    assume q': "get_question qid (session_id s') db1 = Some q'" and has': "has2 = add"
      and same': "add = (the_vote q' ?d \<in> set (votes db1)) \<Longrightarrow> db2 = db1 \<and> sc2 = score q'"
    have "question_id q' = qid" "q' \<in> set (questions db1)" using get_question_Some [OF q'] by auto
    then show ?thesis using same' first has has' ids db_ok_dest(5) [OF ok1] by simp
  qed
qed

lemma vote_effect_witness:
  "\<exists>d sc. vote_question 0 (\<lambda>p. p) (HInt 1) ''Q1'' ''eve'' True asked_db = Inr ((sc, True), d)
     \<and> sc = count_where (\<lambda>v. v_question v = ''Q1'') (votes d)"
proof -
  let ?vote = "vote_question 0 (\<lambda>p. p) (HInt 1) ''Q1'' ''eve'' True"
  let ?s = "bumped 0 (sample_session\<lparr>q_total := 1\<rparr>)"
  let ?d = "asked_db\<lparr>sessions := [bumped 0 ?s], questions := [sample_question\<lparr>score := 2\<rparr>],
      votes := [\<lparr>v_question = ''Q1'', v_digest = ''bob''\<rparr>, \<lparr>v_question = ''Q1'', v_digest = ''eve''\<rparr>]\<rparr>"
  have room: "qna_session (HInt 1) ?d = Inr (sample_event, bumped 0 ?s)"
    by (simp add: qna_session_def event_row_def coerce_event_id_def sample_rows sample_event_def)
  have bump: "bump_session 0 [] ?s (asked_db\<lparr>votes := vs, questions := qs\<rparr>)
      = Inr (bumped 0 ?s, asked_db\<lparr>sessions := [bumped 0 ?s], questions := qs, votes := vs\<rparr>)" for qs vs
    by (simp add: bump_session_def Let_def sample_rows session_check_def count_where_def update_where_def)
  have one: "?vote asked_db = Inr ((2, True), ?d)"
    using bump [simplified] by (simp add: vote_question_def asked_room refresh_expiry_def sample_rows get_question_def
        public_statuses_def change_vote_def create_vote_def save_question_def update_where_def Let_def)
  have "?vote ?d = Inr ((2, True), ?d)"
    using room [simplified] by (simp add: vote_question_def refresh_expiry_def sample_rows get_question_def
        public_statuses_def change_vote_def Let_def)
  from vote_effect [OF asked_db_ok one this] one show ?thesis by blast
qed

lemma checks_passed:
  "(if a then Inl w else if b then Inl x else if c then Inl y else if d then Inl z else rest) = Inr u \<Longrightarrow> \<not> c \<and> \<not> d"
  by (simp split: if_splits)

lemma check_update_author:
  assumes "check_update now digest payload participant False q = Inr ()"
  shows "can_author_edit now digest q participant" and "\<not> extra_keys payload [''text'', ''status'']"
    and "get_key ''status'' payload \<in> {PNone, PStr ''deleted''}"
  using checks_passed [OF assms [unfolded check_update_def Let_def]] by blast+

lemma can_author_editE:
  assumes "can_author_edit now digest q participant"
  obtains p where "participant = Some p" "p \<noteq> []" "participant_digest q = digest p" "status q = Visible"
      "score q \<le> 1" "now < created_at q + seconds question_edit_window"
  using assms by (cases participant) (simp_all add: can_author_edit_def split: if_split_asm)

lemma extra_keys_subset: "\<not> extra_keys payload ks \<Longrightarrow> fst ` set payload \<subseteq> set ks"
  by (auto simp: extra_keys_def list_ex_iff)

text \<open>
  What an author may change: an update that is not the moderator's succeeds only for the
  participant who asked, within five minutes, while the question is visible and has no other vote,
  and may touch nothing but the text and the withdrawal.
\<close>

theorem author_edit_limits:
  assumes "db_ok db"
    and "update_question now digest h qid payload participant False ctx expected db = Inr (q', db')"
  shows "\<exists>e s q p. qna_session h db = Inr (e, s) \<and> get_question qid (session_id s) db = Some q
    \<and> participant = Some p \<and> p \<noteq> [] \<and> participant_digest q = digest p \<and> status q = Visible \<and> score q \<le> 1
    \<and> now < created_at q + 300000000 \<and> fst ` set payload \<subseteq> {''text'', ''status''}
    \<and> get_key ''status'' payload \<in> {PNone, PStr ''deleted''}"
proof (rule update_question_ok [OF assms])
  fix e s q
  assume sq: "qna_session h db = Inr (e, s)" "get_question qid (session_id s) db = Some q"
    and check: "check_update now digest payload participant False q = Inr ()"
  note c = check_update_author [OF check]
  obtain p where "participant = Some p" "p \<noteq> []" "participant_digest q = digest p" "status q = Visible"
      "score q \<le> 1" "now < created_at q + seconds question_edit_window"
    by (rule can_author_editE [OF c(1)])
  moreover have "seconds question_edit_window = 300000000"
    by (simp add: question_edit_window_def seconds_def)
  moreover have "fst ` set payload \<subseteq> {''text'', ''status''}" using extra_keys_subset [OF c(2)] by simp
  ultimately show ?thesis using sq c(3) by metis
qed

lemma author_edit_limits_witness:
  "\<exists>q. update_question 5 (\<lambda>p. p) (HInt 1) ''Q1'' [(''status'', PStr ''deleted'')] (Some ''bob'') False None None asked_db
      = Inr q \<and> (5 :: int) < 0 + 300000000"
proof -
  let ?payload = "[(''status'', PStr ''deleted'')]"
  let ?run = "update_question 5 (\<lambda>p. p) (HInt 1) ''Q1'' ?payload (Some ''bob'') False None None asked_db"
  have check: "check_update 5 (\<lambda>p. p) ?payload (Some ''bob'') False sample_question = Inr ()"
    by (simp add: check_update_def has_key_def get_key_def qstatus_of_def can_author_edit_def sample_rows
        question_edit_window_def seconds_def extra_keys_def Let_def)
  have bump: "bump_session 5 [''q_total'', ''q_answered''] (sample_session\<lparr>revision := 2, updated_at := 0, q_total := 0\<rparr>)
      (asked_db\<lparr>questions := qs\<rparr>)
    = Inr (sample_session\<lparr>q_total := 0, revision := 3, updated_at := 5\<rparr>, asked_db\<lparr>questions := qs,
        sessions := [sample_session\<lparr>q_total := 0, q_answered := 0, revision := 3, updated_at := 5\<rparr>]\<rparr>)" for qs
    by (simp add: bump_session_def Let_def sample_rows session_check_def count_where_def update_where_def
        copy_field_def setters_def)
  have status: "apply_status 5 ?payload (sample_session\<lparr>q_total := 1, revision := 2, updated_at := 0\<rparr>) sample_question asked_db
    = Inr (sample_session\<lparr>q_total := 0, revision := 3, updated_at := 5\<rparr>,
        sample_question\<lparr>status := Deleted, answered_at := None, pinned := False\<rparr>,
        asked_db\<lparr>questions := [sample_question\<lparr>status := Deleted, answered_at := None, pinned := False\<rparr>],
        sessions := [sample_session\<lparr>q_total := 0, q_answered := 0, revision := 3, updated_at := 5\<rparr>]\<rparr>)"
    by (simp add: apply_status_def get_key_def set_status_locked_def qstatus_of_def sample_rows
        save_question_def update_where_def bump Let_def)
  have "\<exists>q. ?run = Inr q"
    by (simp add: update_question_def asked_room sample_rows update_question_body_def get_question_def check
        apply_text_def apply_pin_def has_key_def status)
  then obtain q' d where run: "?run = Inr (q', d)" by auto
  from author_edit_limits [OF asked_db_ok run] run show ?thesis
    by (auto simp: asked_room get_question_def sample_rows)
qed

subsection \<open>Listings\<close>

text \<open>
  C23 A listing is complete and shows no deleted question: its items are, each once, the room's
  questions of the requested statuses (the public ones by default), which never include the deleted
  one, and its two counts add up to the number of items.
\<close>

theorem listing_complete:
  assumes "list_questions now digest sha256 h participant moderator srt statuses db = (Inr out, db')"
  shows "selected_statuses moderator statuses \<subseteq> {''visible'', ''answered''}
    \<and> mset (map dto_id (items out)) = mset (map question_id (filter (\<lambda>q. q_session q = session_id (current out)
        \<and> qstatus_value (status q) \<in> selected_statuses moderator statuses) (questions db')))
    \<and> visible_count out + answered_count out = int (length (items out))"
proof -
  obtain s where "list_room now digest sha256 participant moderator srt statuses s db' = Inr out"
    using assms by (auto simp: list_questions_def split: sum.splits if_splits prod.splits)
  from list_room_Inr [OF this] show ?thesis by simp
qed

lemma asked_listing:
  "\<exists>out. list_questions 5 (\<lambda>p. p) (\<lambda>s. s) (HInt 1) None False None None asked_db = (Inr out, asked_db)"
  by (simp add: list_questions_def asked_room sample_rows refresh_expiry_def list_room_def public_statuses_def
      rank_questions_def Let_def)

lemma listing_complete_witness:
  "\<exists>out. list_questions 5 (\<lambda>p. p) (\<lambda>s. s) (HInt 1) None False None None asked_db = (Inr out, asked_db)
     \<and> visible_count out + answered_count out = int (length (items out))"
  using asked_listing listing_complete by blast



subsection \<open>Co-host links\<close>

text \<open>
  A created link works: while the room is public, its name and the passcode shown to the host
  redeem it, whatever the hasher, as long as the hasher accepts what it hashed.
\<close>

theorem created_link_redeems:
  assumes "create_cohost now make_password ids choices h name passcode actor ctx db = Inr (r, db')"
    and "\<forall>k. \<exists>ms rnd. ids k = opaque_id ms rnd" and "\<forall>p. check_password p (make_password p)"
    and "public_session h db' = Inr (e, s)"
  shows "\<exists>i. redeem_cohost check_password h (PStr (co_name r)) (PStr (co_passcode r)) db' = Inr (Some i, None)
     \<and> invite_id i = co_invite_id r \<and> i_session i = session_id s"
  by (rule redeem_created [OF assms(1) _ _ assms(4)]) (use assms in auto)

abbreviation plain_create :: "db \<Rightarrow> (qna_err, cohost_result \<times> db) res" where
  "plain_create \<equiv> create_cohost 0 (\<lambda>p. p) (\<lambda>k. opaque_id k 0) (\<lambda>k. k) (HInt 1) (PStr ''host-1'') PNone ''admin'' None"

lemma plain_passcode: "normalize_passcode (PStr (new_passcode (\<lambda>k. k))) = ''23456789ABCD''"
  by (simp add: new_passcode_def passcode_alphabet_def normalize_passcode_def py_upper_def py_strip_def py_space_def
      upt_rec)

lemma plain_name: "normalize_cohost_name (PStr ''host-1'') = ''host-1''" "cohost_name_ok ''host-1''"
  by (simp_all add: normalize_cohost_name_def py_lower_def py_lower_char_def py_strip_def py_space_def
      cohost_name_ok_def name_char_def)

lemma named_loop:
  assumes "nm \<noteq> []" and "create_invite False ((row nm)\<lparr>invite_id := ids 0\<rparr>) db = Inr db'"
  shows "invite_loop 5 nm row ids nm 0 False db = Inr ((row nm)\<lparr>invite_id := ids 0\<rparr>, db')"
proof -
  have "(5 :: nat) = Suc 4" by simp
  then have "invite_loop 5 nm row ids nm 0 False db = invite_loop (Suc 4) nm row ids nm 0 False db" by (rule arg_cong)
  also have "\<dots> = Inr ((row nm)\<lparr>invite_id := ids 0\<rparr>, db')"
    unfolding invite_loop.simps(2) using assms by simp
  finally show ?thesis .
qed

lemma plain_created: "\<exists>r d. plain_create sample_db = Inr (r, d) \<and> sessions d = sessions sample_db
    \<and> events d = events sample_db \<and> invites_ok d \<and> i_session (hd (invites d)) = 7"
proof -
  have rows: "invites sample_db = []" "public_id sample_event = Some 12"
    by (simp_all add: sample_db_def empty_db_def sample_event_def)
  have create: "create_invite False i sample_db = Inr (sample_db\<lparr>invites := [i]\<rparr>)" for i
    by (simp add: create_invite_def rows)
  show ?thesis
    by (simp add: create_cohost_def plain_name plain_passcode sample_room sample_rows
        named_loop [OF _ create] event_qna_path_def rows audit_if_def invites_ok_def Let_def)
qed

lemma created_link_redeems_witness:
  "\<exists>r d i. plain_create sample_db = Inr (r, d)
     \<and> redeem_cohost (=) (HInt 1) (PStr (co_name r)) (PStr (co_passcode r)) d = Inr (Some i, None)"
proof -
  obtain r d where run: "plain_create sample_db = Inr (r, d)" "sessions d = sessions sample_db" "events d = events sample_db"
    using plain_created by blast
  have "qna_session (HInt 1) d = Inr (sample_event, sample_session)"
    using qna_session_cong [OF run(3,2)] sample_room by simp
  then have public: "public_session (HInt 1) d = Inr (sample_event, sample_session)"
    by (simp add: public_session_def sample_rows public_event_lifecycles_def sample_event_def)
  show ?thesis
    using created_link_redeems [OF run(1) _ _ public, of "(=)"] run(1) by blast
qed

text \<open>
  Unnamed links run out: when a room already has a link whose generated name comes from the
  same 2^30 ms (12.4 days), the next unnamed link fails, and fails with the error of a broken
  transaction instead of the intended retry.
\<close>

theorem unnamed_links_collide:
  assumes "qna_session h db = Inr (e, s)" and "state s \<noteq> Archived" and "normalize_cohost_name name = []"
    and "6 \<le> length (normalize_passcode (PStr (if is_blank passcode then new_passcode choices
        else py_strip (py_str passcode))))"
    and "\<forall>k < 2. ids k = opaque_id (ms k) (rnd k) \<and> ms k div 2 ^ 30 = w \<and> rnd k < 2 ^ 80"
    and "i \<in> set (invites db)" and "i_session i = session_id s"
    and "i_name i = generated_name (opaque_id a ra) (opaque_id b rb)"
    and "a div 2 ^ 30 = w" and "b div 2 ^ 30 = w" and "ra < 2 ^ 80" and "rb < 2 ^ 80"
  shows "create_cohost now make_password ids choices h name passcode actor ctx db = Inl TransactionManagementError"
  by (rule unnamed_collision [OF assms(1-4) _ assms(6-12)]) (use assms(5) in auto)

lemma unnamed_links_collide_witness:
  "create_cohost 0 (\<lambda>p. p) (\<lambda>k. opaque_id 0 0) (\<lambda>k. k) (HInt 1) PNone PNone ''admin'' None
     (sample_db\<lparr>invites := [\<lparr>invite_id = ''I1'', i_session = 7, i_name = generated_name (opaque_id 1 0) (opaque_id 2 0),
        i_passcode = [], created_by_ref = [], i_created_at = 0, revoked_at = None\<rparr>]\<rparr>) = Inl TransactionManagementError"
proof (rule unnamed_links_collide [where ms = "\<lambda>k. 0" and rnd = "\<lambda>k. 0" and w = 0 and a = 1 and b = 2
      and ra = 0 and rb = 0 and i = "\<lparr>invite_id = ''I1'', i_session = 7, i_name = generated_name (opaque_id 1 0) (opaque_id 2 0),
        i_passcode = [], created_by_ref = [], i_created_at = 0, revoked_at = None\<rparr>"])
  show "qna_session (HInt 1) (sample_db\<lparr>invites := is\<rparr>) = Inr (sample_event, sample_session)" for "is"
    using qna_session_cong [of "sample_db\<lparr>invites := is\<rparr>" sample_db] sample_room by simp
qed (simp_all add: sample_rows plain_passcode normalize_cohost_name_def)

text \<open>
  C25 Revocation is immediate and complete: once a link is revoked neither its name and passcode nor
  a token signed for it gives access, for any name, passcode, token, room or hasher.
\<close>

theorem revoked_link_is_dead:
  assumes "revoke_cohost now h iid ctx db = Inr ((), db')" and "invites_ok db"
  shows "(\<forall>h' name passcode j. redeem_cohost check_password h' name passcode db' = Inr (Some j, None) \<longrightarrow> invite_id j \<noteq> iid)
    \<and> (\<forall>sid token j. cohost_for_request unsign sid token db' = Some j \<longrightarrow> invite_id j \<noteq> iid)"
  using redeem_revoked [OF assms] by blast

lemma revoked_link_is_dead_witness:
  "\<exists>d. revoke_cohost 9 (HInt 1) ''I1'' None (sample_db\<lparr>invites := [\<lparr>invite_id = ''I1'', i_session = 7, i_name = ''host'',
        i_passcode = ''x'', created_by_ref = [], i_created_at = 0, revoked_at = None\<rparr>]\<rparr>) = Inr ((), d)
     \<and> (\<forall>sid token. map_option invite_id (cohost_for_request Some sid token d) \<noteq> Some ''I1'')"
proof -
  let ?i = "\<lparr>invite_id = ''I1'', i_session = 7, i_name = ''host'', i_passcode = ''x'', created_by_ref = [],
      i_created_at = 0, revoked_at = None\<rparr>"
  have "qna_session (HInt 1) (sample_db\<lparr>invites := [?i]\<rparr>) = Inr (sample_event, sample_session)"
    using qna_session_cong [of "sample_db\<lparr>invites := [?i]\<rparr>" sample_db] sample_room by simp
  then have "\<exists>d. revoke_cohost 9 (HInt 1) ''I1'' None (sample_db\<lparr>invites := [?i]\<rparr>) = Inr ((), d)"
    by (simp add: revoke_cohost_def sample_rows)
  moreover have "invites_ok (sample_db\<lparr>invites := [?i]\<rparr>)" by (simp add: invites_ok_def)
  ultimately show ?thesis
    using revoked_link_is_dead [of 9 "HInt 1" "''I1''" None "sample_db\<lparr>invites := [?i]\<rparr>" _ _ Some] by fastforce
qed

subsection \<open>Rate limits\<close>

text \<open>
  C27 The budget of a window is exact: of any sequence of calls for one scope within one window,
  exactly as many are admitted as the limit still allows, in whatever order the clock is read.
\<close>

theorem window_budget:
  assumes "rates_ok (rates db)" and "scope \<noteq> []" and "1 \<le> window" and "1 \<le> limit"
    and "\<forall>now \<in> set nows. bucket_of now window = b"
    and "used (scope_hash scope) window b (rates db) \<le> limit"
  shows "\<exists>db'. admissions scope_hash scope window limit nows db
    = Inr (min (length nows) (nat (limit - used (scope_hash scope) window b (rates db))), db')"
  using assms by (rule admissions_count)

lemma window_budget_witness:
  "\<exists>db'. admissions (\<lambda>s. s) ''ip:1'' 60 2 [0, 1000000, 59999999] sample_db = Inr (2, db')"
proof -
  have rows: "rates sample_db = []" by (simp add: sample_db_def empty_db_def)
  have "\<forall>now \<in> set [0, 1000000, 59999999 :: int]. bucket_of now 60 = 0"
    by (simp add: bucket_of_def epoch_of_def seconds_def)
  from window_budget [OF _ _ _ _ this, of sample_db "''ip:1''" 2 "\<lambda>s. s"]
  show ?thesis by (simp add: rows rates_ok_def used_def numeral_2_eq_2 del: admissions.simps)
qed

text \<open>
  Pruning deletes only elapsed windows, at most \<open>batch\<close> of them, reports how many, and leaves no
  elapsed window behind unless the batch is full.
\<close>

theorem pruning_exact:
  assumes "rates_ok (rates db)" and "0 \<le> batch" and "prune_expired_rate_buckets now batch db = (n, db')"
  shows "0 \<le> n \<and> n \<le> batch \<and> n = int (length (rates db)) - int (length (rates db'))
    \<and> set (rates db') \<subseteq> set (rates db)
    \<and> (\<forall>r \<in> set (rates db) - set (rates db'). window_started_at r + seconds (window_seconds r) \<le> now)
    \<and> (n < batch \<longrightarrow> (\<forall>r \<in> set (rates db'). now < window_started_at r + seconds (window_seconds r)))"
proof -
  let ?ws = "remdups (map window_seconds (rates db))"
  from assms(3) have run: "prune_windows now batch ?ws 0 (rates db) = (n, rates db')"
    by (auto simp: prune_expired_rate_buckets_def split: prod.splits)
  have "distinct (map rate_id (rates db))" using assms(1) by (simp add: rates_ok_def)
  note p = prune_windows_ok [OF this assms(2) run]
  have gone: "window_started_at r + seconds (window_seconds r) \<le> now" if "r \<in> set (rates db) - set (rates db')" for r
  proof -
    obtain secs where "expired now secs r" using p \<open>r \<in> set (rates db) - set (rates db')\<close> by blast
    then show ?thesis by (simp add: expired_def)
  qed
  have kept: "now < window_started_at r + seconds (window_seconds r)" if "n < batch" "r \<in> set (rates db')" for r
  proof -
    have "window_seconds r \<in> set ?ws" using p that(2) by auto
    then have "\<not> expired now (window_seconds r) r" using p that by blast
    then show ?thesis by (simp add: expired_def)
  qed
  show ?thesis using p gone kept by auto
qed

lemma pruning_exact_witness:
  "\<exists>n d. prune_expired_rate_buckets 60000000 5
      (sample_db\<lparr>rates := [\<lparr>rate_id = 1, scope_digest = ''a'', window_seconds = 60, window_started_at = 0, hits = 3\<rparr>]\<rparr>)
    = (n, d) \<and> n \<le> 5"
proof -
  let ?db = "sample_db\<lparr>rates := [\<lparr>rate_id = 1, scope_digest = ''a'', window_seconds = 60, window_started_at = 0, hits = 3\<rparr>]\<rparr>"
  obtain n d where run: "prune_expired_rate_buckets 60000000 5 ?db = (n, d)"
    by (cases "prune_expired_rate_buckets 60000000 5 ?db")
  have "rates_ok (rates ?db)" by (simp add: rates_ok_def)
  from pruning_exact [OF this _ run] have "n \<le> 5" by simp
  with run show ?thesis by blast
qed

subsection \<open>Provisioning and identifiers\<close>

text \<open>
  C22 Provisioning is idempotent: repeating a successful \<open>ensure_event_qna\<close>, at any later time,
  returns the same room and the same durable intent and leaves the store as it is.
\<close>

theorem provisioning_idempotent:
  assumes "db_ok db" and "dispatch_law dispatch" and "ensure_event_qna now new_id dispatch h db = Inr (p, db')"
  shows "\<exists>p'. ensure_event_qna now' new_id' dispatch h db' = Inr (p', db') \<and> p_job p' = p_job p
    \<and> \<not> session_created p' \<and> \<not> job_created p' \<and> session_id (p_session p') = session_id (p_session p)"
  by (rule ensure_event_qna_again [OF assms])

lemma provisioning_idempotent_witness:
  "\<exists>p d p'. ensure_event_qna 0 7 (e_dispatch plain_env) (HInt 1) (empty_db [sample_event]) = Inr (p, d)
     \<and> ensure_event_qna 5 8 (e_dispatch plain_env) (HInt 1) d = Inr (p', d) \<and> \<not> session_created p'"
proof -
  have rfc: "rfc4122 9223372036854775808"
  proof -
    have "(9223372036854775808 :: nat) = 2 ^ 63" by simp
    then show ?thesis unfolding rfc4122_def by (simp only: bit_exp_iff) simp
  qed
  have "\<exists>p d. ensure_event_qna 0 7 (e_dispatch plain_env) (HInt 1) (empty_db [sample_event]) = Inr (p, d)"
    by (simp add: ensure_event_qna_def coerce_event_id_def empty_db_def sample_event_def event_by_content_def
        get_or_create_session_def default_session_def get_qna_backend_def provisioning_deduplication_key_def
        provisioning_payload_def rfc plain_env_def table_dispatch_def link_job_def get_session_def update_where_def Let_def)
  then obtain p d where run: "ensure_event_qna 0 7 (e_dispatch plain_env) (HInt 1) (empty_db [sample_event]) = Inr (p, d)"
    by blast
  then show ?thesis using provisioning_idempotent [OF empty_db_ok plain_dispatch_law run] by blast
qed

text \<open>
  Row identifiers sort by creation: of two identifiers drawn in different milliseconds before the
  year 10889, the later one is the larger string, whatever the random bits.
\<close>

theorem opaque_ids_sort:
  assumes "a < b" and "b < 2 ^ 48" and "r < 2 ^ 80" and "r' < 2 ^ 80"
  shows "opaque_id a r < opaque_id b r'"
  using assms by (rule opaque_id_less)

lemma opaque_ids_sort_witness: "opaque_id 1700000000000 5 < opaque_id 1700000000001 3"
  by (rule opaque_ids_sort) simp_all

end
