(* ===== verification/Qna_Http_Properties.thy ===== *)
theory Qna_Http_Properties
  imports Qna_Http Qna_Properties
begin











end
