(* ===== verification/Cw_Answers.thy ===== *)
theory Cw_Answers
  imports Py_Value Py_Number
begin

text \<open>
  Homework questions and the checking of answers (\<open>courses/models/homework.py\<close>,
  \<open>homework_answer_resolution.py\<close>, \<open>homework_answer_checks.py\<close>). The decryption of source-managed
  answers is \<open>community_base.coursework.answer_crypto\<close>; it is the parameter \<open>answer_keys\<close>, over a type
  \<open>'k\<close> of keyrings.
\<close>

subsection \<open>Data\<close>

datatype cw_err =
    HomeworkAnswerCryptoError string
  | CwValueError string
  | CwTypeError
  | CwIndexError
  | CwAttributeError
  | CwZeroDivisionError
  | CwDoesNotExist
  | InvalidCriteriaAnswerError int int string

record hw_question =
  hq_id :: int
  hq_homework :: int
  hq_text :: string
  question_type :: string
  answer_type :: "string option"
  possible_answers :: "string option"
  correct_answer :: "string option"
  source_question_id :: "string option"
  source_option_ids :: pyval
  answer_envelope :: pyval
  scores_for_correct_answer :: int

text \<open>The slugs of the question's course and homework bind a decrypted answer to its place.\<close>

record 'k answer_keys =
  keyring_setting :: string
  parse_keyring :: "string \<Rightarrow> (cw_err, 'k) res"
  decrypt_answer :: "pyval \<Rightarrow> string \<Rightarrow> string \<Rightarrow> string \<Rightarrow> 'k \<Rightarrow> (cw_err, payload) res"
  course_slug :: string
  homework_slug :: string

definition has_choice_answers :: "hw_question \<Rightarrow> bool" where
  "has_choice_answers q \<longleftrightarrow> question_type q \<in> {''CB'', ''MC''}"

definition get_possible_answers :: "hw_question \<Rightarrow> string list" where
  "get_possible_answers q = (case possible_answers q of
     None \<Rightarrow> [] | Some s \<Rightarrow> if s = [] then [] else map py_strip (py_split (char_of (10 :: nat)) s))"

subsection \<open>Resolving the correct answer\<close>

definition configured_keyring :: "'k answer_keys \<Rightarrow> (cw_err, 'k) res" where
  "configured_keyring keys =
     (if keyring_setting keys = []
      then Inl (HomeworkAnswerCryptoError ''homework answer key is unavailable'')
      else parse_keyring keys (keyring_setting keys))"

text \<open>
  Python looks a dictionary key up by \<open>==\<close>, which identifies \<open>True\<close> with 1 and an integral float
  with its integer.
\<close>

definition dict_key :: "pyval \<Rightarrow> pyval" where
  "dict_key v = (case v of
     PBool b \<Rightarrow> PInt (if b then 1 else 0)
   | PFloat s \<Rightarrow> (case py_split (CHR ''.'') s of
         [whole, zero] \<Rightarrow> (case py_int whole of Some n \<Rightarrow> if zero = ''0'' then PInt n else v | None \<Rightarrow> v)
       | _ \<Rightarrow> v)
   | _ \<Rightarrow> v)"

text \<open>\<open>positions[option_id]\<close>: the last index of an equal element, from one.\<close>

fun last_position :: "nat \<Rightarrow> pyval \<Rightarrow> pyval list \<Rightarrow> nat option" where
  "last_position index v [] = None"
| "last_position index v (x # xs) = (case last_position (Suc index) v xs of
     Some i \<Rightarrow> Some i | None \<Rightarrow> if dict_key x = dict_key v then Some index else None)"

definition source_choice_error :: cw_err where
  "source_choice_error = HomeworkAnswerCryptoError ''source choice answer is invalid''"

definition choice_answer_indices :: "hw_question \<Rightarrow> payload \<Rightarrow> (cw_err, string) res" where
  "choice_answer_indices q payload = (case (get_key ''option_ids'' payload, source_option_ids q) of
     (PList option_ids, PList source_ids) \<Rightarrow>
       if option_ids = [] then Inl source_choice_error
       else if \<not> list_all hashable source_ids then Inl CwTypeError
       else bind_res (map_res (\<lambda>v. if \<not> hashable v then Inl source_choice_error
                                   else (case last_position 1 v source_ids of
                                           None \<Rightarrow> Inl source_choice_error | Some i \<Rightarrow> Inr i)) option_ids)
              (\<lambda>indices. if \<not> distinct indices then Inl source_choice_error
                         else Inr (py_join '','' (map nat_digits indices)))
   | _ \<Rightarrow> Inl source_choice_error)"

definition free_form_answer :: "payload \<Rightarrow> (cw_err, string) res" where
  "free_form_answer payload =
     (if fst ` set payload \<noteq> {''value''}
      then Inl (HomeworkAnswerCryptoError ''source free-form answer is invalid'')
      else Inr (case get_key ''value'' payload of
                  PNone \<Rightarrow> [] | PBool b \<Rightarrow> (if b then ''true'' else ''false'') | v \<Rightarrow> py_str v))"

definition resolve_correct_answer :: "'k answer_keys \<Rightarrow> hw_question \<Rightarrow> (cw_err, string) res" where
  "resolve_correct_answer keys q =
     (if answer_envelope q = PNone then Inr (case correct_answer q of None \<Rightarrow> [] | Some s \<Rightarrow> s)
      else case source_question_id q of
          None \<Rightarrow> Inl (HomeworkAnswerCryptoError ''source question identity is missing'')
        | Some sid \<Rightarrow>
            if sid = [] then Inl (HomeworkAnswerCryptoError ''source question identity is missing'')
            else
              bind_res (configured_keyring keys) (\<lambda>keyring.
              bind_res (decrypt_answer keys (answer_envelope q) (course_slug keys) (homework_slug keys) sid keyring)
                (\<lambda>payload. if has_choice_answers q then choice_answer_indices q payload
                           else free_form_answer payload)))"

definition int_res :: "string \<Rightarrow> (cw_err, int) res" where
  "int_res s = (case py_int s of Some n \<Rightarrow> Inr n | None \<Rightarrow> Inl (CwValueError ''int''))"

text \<open>\<open>get_correct_answer_indices\<close> (a set) and \<open>zero_based_correct_answer_indices\<close> (a list).\<close>

definition get_correct_answer_indices :: "'k answer_keys \<Rightarrow> hw_question \<Rightarrow> (cw_err, int set) res" where
  "get_correct_answer_indices keys q = bind_res (resolve_correct_answer keys q) (\<lambda>correct.
     if correct = [] then Inr {} else map_sum id set (map_res int_res (py_split (CHR '','') correct)))"

definition zero_based_correct_answer_indices :: "'k answer_keys \<Rightarrow> hw_question \<Rightarrow> (cw_err, int list) res" where
  "zero_based_correct_answer_indices keys q = bind_res (resolve_correct_answer keys q) (\<lambda>correct.
     if correct = [] then Inr []
     else map_sum id (map (\<lambda>i. i - 1)) (map_res int_res (py_split (CHR '','') correct)))"

text \<open>\<open>xs[i]\<close>: a negative index counts from the end.\<close>

definition py_index :: "'a list \<Rightarrow> int \<Rightarrow> (cw_err, 'a) res" where
  "py_index xs i =
     (if 0 \<le> i \<and> i < int (length xs) then Inr (xs ! nat i)
      else if i < 0 \<and> - int (length xs) \<le> i then Inr (xs ! nat (int (length xs) + i))
      else Inl CwIndexError)"

definition get_choice_correct_answer :: "'k answer_keys \<Rightarrow> hw_question \<Rightarrow> (cw_err, string set) res" where
  "get_choice_correct_answer keys q = bind_res (zero_based_correct_answer_indices keys q) (\<lambda>indices.
     map_sum id set (map_res (py_index (get_possible_answers q)) indices))"

subsection \<open>Checking an answer\<close>

definition float_tolerance :: pyfloat where
  "float_tolerance = round_ratio False 1 100"

definition is_float_equal :: "string \<Rightarrow> string \<Rightarrow> bool" where
  "is_float_equal value1 value2 = (case (py_float value1, py_float value2) of
     (Some number1, Some number2) \<Rightarrow> fl_le (fl_abs (fl_sub number1 number2)) float_tolerance
   | _ \<Rightarrow> False)"

definition is_integer_equal :: "string \<Rightarrow> string \<Rightarrow> bool" where
  "is_integer_equal value1 value2 = (case (py_int value1, py_int value2) of
     (Some number1, Some number2) \<Rightarrow> number1 = number2 | _ \<Rightarrow> False)"

definition safe_split :: "string option \<Rightarrow> string list" where
  "safe_split v = (case v of None \<Rightarrow> [] | Some s \<Rightarrow> if s = [] then [] else py_split (CHR '','') (py_strip s))"

definition safe_split_to_int :: "string option \<Rightarrow> (cw_err, int list) res" where
  "safe_split_to_int v = map_res int_res (safe_split v)"

definition is_multiple_choice_answer_correct ::
    "'k answer_keys \<Rightarrow> hw_question \<Rightarrow> string option \<Rightarrow> (cw_err, bool) res" where
  "is_multiple_choice_answer_correct keys q user_answer = (case user_answer of
     None \<Rightarrow> Inr False
   | Some s \<Rightarrow>
       if s = [] then Inr False
       else bind_res (int_res s) (\<lambda>selected_option.
            bind_res (get_correct_answer_indices keys q) (\<lambda>correct. Inr (selected_option \<in> correct))))"

definition is_checkbox_answer_correct ::
    "'k answer_keys \<Rightarrow> hw_question \<Rightarrow> string option \<Rightarrow> (cw_err, bool) res" where
  "is_checkbox_answer_correct keys q user_answer =
     bind_res (safe_split_to_int user_answer) (\<lambda>selected.
     bind_res (get_correct_answer_indices keys q) (\<lambda>correct. Inr (set selected = correct)))"

definition normalized_free_form_answer :: "string option \<Rightarrow> string" where
  "normalized_free_form_answer v = (case v of None \<Rightarrow> [] | Some s \<Rightarrow> py_strip s)"

definition free_form_check :: "string \<Rightarrow> (string \<Rightarrow> string \<Rightarrow> bool) option" where
  "free_form_check kind =
     (if kind = ''ANY'' then Some (\<lambda>user correct. 0 < length user)
      else if kind = ''EXS'' then Some (\<lambda>user correct. py_lower user = py_lower correct)
      else if kind = ''CTS'' then Some (\<lambda>user correct. py_contains (py_lower correct) (py_lower user))
      else if kind = ''FLT'' then Some is_float_equal
      else if kind = ''INT'' then Some is_integer_equal
      else None)"

text \<open>
  For a choice question \<open>get_correct_answer\<close> is a set, and a nonempty one has no \<open>strip\<close>; the table of
  checks below never sends a choice question here.
\<close>

definition is_free_form_answer_correct ::
    "'k answer_keys \<Rightarrow> hw_question \<Rightarrow> string option \<Rightarrow> (cw_err, bool) res" where
  "is_free_form_answer_correct keys q answer_text =
     (case Option.bind (answer_type q) free_form_check of
        None \<Rightarrow> Inr False
      | Some answer_check \<Rightarrow>
          let user_answer = normalized_free_form_answer answer_text
          in if has_choice_answers q
             then bind_res (get_choice_correct_answer keys q) (\<lambda>c.
                    if c = {} then Inr (answer_check user_answer []) else Inl CwAttributeError)
             else bind_res (resolve_correct_answer keys q) (\<lambda>correct.
                    Inr (answer_check user_answer (normalized_free_form_answer (Some correct)))))"

definition answer_check ::
    "'k answer_keys \<Rightarrow> hw_question \<Rightarrow> string option \<Rightarrow> (cw_err, bool) res" where
  "answer_check keys q answer_text =
     (if question_type q = ''MC'' then is_multiple_choice_answer_correct keys q answer_text
      else if question_type q = ''CB'' then is_checkbox_answer_correct keys q answer_text
      else if question_type q = ''FF'' \<or> question_type q = ''FL''
      then is_free_form_answer_correct keys q answer_text
      else Inr False)"

definition is_answer_correct ::
    "'k answer_keys \<Rightarrow> hw_question \<Rightarrow> string option \<Rightarrow> (cw_err, bool) res" where
  "is_answer_correct keys q answer_text =
     (if answer_type q = Some ''ANY'' then Inr True
      else case answer_check keys q answer_text of
          Inl (HomeworkAnswerCryptoError reason) \<Rightarrow> Inr False
        | r \<Rightarrow> r)"

end
