(* ===== verification/Cw_Data.thy ===== *)
theory Cw_Data
  imports Cw_Answers Py_Time
begin

text \<open>
  The rows of the coursework store the scoring code reads and writes (\<open>courses/models/homework.py\<close>,
  \<open>project.py\<close>, \<open>cohort.py\<close>). A table is the list of its rows in primary-key order; a foreign key
  is the key of the row it points to. The page cache the leaderboard invalidates is part of the
  store.
\<close>

subsection \<open>Rows\<close>

record cohort =
  co_id :: int
  co_slug :: string
  co_course_slug :: string
  curriculum_format :: string
  project_passing_score :: int
  first_homework_scored :: bool

record enrollment =
  en_id :: int
  en_course :: int
  disable_learning_in_public :: bool
  en_total_score :: int
  position_on_leaderboard :: "int option"

record homework =
  hw_id :: int
  hw_course :: int
  hw_slug :: string
  due_date :: datetime
  hw_state :: string

record hw_submission =
  hs_id :: int
  hs_homework :: int
  hs_enrollment :: int
  learning_in_public_links :: "string list option"
  faq_contribution_url :: "string option"
  time_spent_lectures :: "pyfloat option"
  time_spent_homework :: "pyfloat option"
  questions_score :: int
  faq_score :: int
  learning_in_public_score :: int
  total_score :: int

record hw_answer =
  ha_id :: int
  ha_submission :: int
  ha_question :: int
  answer_text :: "string option"
  is_correct :: bool

record project =
  pr_id :: int
  pr_course :: int
  pr_state :: string
  submission_due_date :: datetime
  peer_review_due_date :: datetime
  learning_in_public_cap_project :: int
  learning_in_public_cap_review :: int
  number_of_peers_to_evaluate :: int
  points_for_peer_review :: int

record project_submission =
  ps_id :: int
  ps_project :: int
  ps_enrollment :: int
  ps_links :: "string list option"
  ps_faq_url :: "string option"
  ps_time_spent :: "pyfloat option"
  project_score :: int
  project_faq_score :: int
  project_learning_in_public_score :: int
  peer_review_score :: int
  peer_review_learning_in_public_score :: int
  ps_total_score :: int
  reviewed_enough_peers :: bool
  passed :: bool
  volunteer_review_only :: bool

text \<open>An option of a criterion: its text and its score.\<close>

record criteria =
  cr_id :: int
  cr_course :: "int option"
  cr_options :: "(string \<times> int) list"
  review_criteria_type :: string

record criteria_assignment =
  ca_id :: int
  ca_project :: int
  ca_criteria :: int
  ca_position :: int

record peer_review =
  rv_id :: int
  rv_submission :: int
  rv_reviewer :: int
  rv_links :: "string list option"
  optional :: bool
  rv_state :: string

record criteria_response =
  rs_id :: int
  rs_review :: int
  rs_criteria :: int
  rs_answer :: "string option"

record evaluation_score =
  es_submission :: int
  es_criteria :: int
  es_score :: int

record project_vote =
  pv_submission :: int
  pv_voter :: int

text \<open>A number column of a statistics row.\<close>

datatype pynum = PyI int | PyF pyfloat

record distribution =
  d_min :: "pynum option"
  d_max :: "pynum option"
  d_avg :: "pynum option"
  d_q1 :: "pynum option"
  d_median :: "pynum option"
  d_q3 :: "pynum option"

record statistics_row =
  st_owner :: int
  total_submissions :: int
  st_fields :: "(string \<times> distribution) list"

record cw_db =
  cohorts :: "cohort list"
  enrollments :: "enrollment list"
  homeworks :: "homework list"
  hw_questions :: "hw_question list"
  hw_submissions :: "hw_submission list"
  hw_answers :: "hw_answer list"
  hw_statistics :: "statistics_row list"
  projects :: "project list"
  project_submissions :: "project_submission list"
  criterias :: "criteria list"
  criteria_assignments :: "criteria_assignment list"
  peer_reviews :: "peer_review list"
  criteria_responses :: "criteria_response list"
  evaluation_scores :: "evaluation_score list"
  project_votes :: "project_vote list"
  project_statistics :: "statistics_row list"
  cached_pages :: "string list"
  cache_versions :: "(string \<times> int) list"

subsection \<open>Query sets\<close>

text \<open>\<open>objects.get(pk=...)\<close> and \<open>bulk_update\<close>: each given row replaces the stored one with its key.\<close>

definition get_row :: "('r \<Rightarrow> int) \<Rightarrow> int \<Rightarrow> 'r list \<Rightarrow> (cw_err, 'r) res" where
  "get_row key k rows = (case List.find (\<lambda>r. key r = k) rows of
     Some r \<Rightarrow> Inr r | None \<Rightarrow> Inl CwDoesNotExist)"

definition bulk_update :: "('r \<Rightarrow> int) \<Rightarrow> 'r list \<Rightarrow> 'r list \<Rightarrow> 'r list" where
  "bulk_update key changed rows = map (\<lambda>r. case List.find (\<lambda>c. key c = key r) changed of
     Some c \<Rightarrow> c | None \<Rightarrow> r) rows"

lemma get_row_Inr: "get_row key k rows = Inr r \<Longrightarrow> r \<in> set rows \<and> key r = k"
  by (auto simp: get_row_def find_Some_iff split: option.splits)

lemma length_bulk_update [simp]: "length (bulk_update key changed rows) = length rows"
  by (simp add: bulk_update_def)

lemma find_keyed:
  "distinct (map key rows) \<Longrightarrow> x \<in> set rows \<Longrightarrow> List.find (\<lambda>y. key y = key x) rows = Some x"
  by (induction rows) (auto simp: image_iff)

text \<open>Writing back the image of the rows that satisfy \<open>P\<close> updates these rows in place.\<close>

lemma bulk_update_image:
  assumes keys: "distinct (map key rows)"
    and changed: "set changed = f ` {r \<in> set rows. P r}"
    and same: "\<And>r. r \<in> set rows \<Longrightarrow> P r \<Longrightarrow> key (f r) = key r"
  shows "bulk_update key changed rows = map (\<lambda>r. if P r then f r else r) rows"
  unfolding bulk_update_def
proof (rule map_cong [OF refl])
  fix r assume r: "r \<in> set rows"
  have origin: "P r \<and> c = f r" if "c \<in> set changed" "key c = key r" for c
  proof -
    have "c \<in> f ` {r \<in> set rows. P r}" using that(1) changed by simp
    then obtain q where q: "q \<in> set rows" "P q" "c = f q" by blast
    then have "key q = key r" using same \<open>key c = key r\<close> by simp
    then have "q = r" using keys q(1) r by (auto simp: distinct_map dest: inj_onD)
    then show ?thesis using q by simp
  qed
  show "(case List.find (\<lambda>c. key c = key r) changed of None \<Rightarrow> r | Some c \<Rightarrow> c) = (if P r then f r else r)"
  proof (cases "List.find (\<lambda>c. key c = key r) changed")
    case None
    then have "\<not> P r" using r changed same by (auto simp: find_None_iff)
    then show ?thesis using None by simp
  next
    case (Some c)
    then have "c \<in> set changed" "key c = key r" by (auto simp: find_Some_iff)
    then show ?thesis using Some origin by simp
  qed
qed

lemma keys_bulk_update: "map key (bulk_update key changed rows) = map key rows"
  by (auto simp: bulk_update_def find_Some_iff split: option.splits intro!: map_cong)


subsection \<open>Changing one row\<close>

lemma get_row_map:
  assumes "\<And>r. key (f r) = key r"
  shows "get_row key k (map f rows) = map_sum id f (get_row key k rows)"
proof -
  have "List.find (\<lambda>r. key r = k) (map f rows) = map_option f (List.find (\<lambda>r. key r = k) rows)"
    using assms by (induction rows) auto
  then show ?thesis by (simp add: get_row_def split: option.splits)
qed

text \<open>
  The contract of \<open>instance.save()\<close>: a change that keeps the primary key. Saving the changed instance
  of a stored row changes this row alone, and a lookup by key sees the change and nothing else.
\<close>

locale row_update =
  fixes key :: "'r \<Rightarrow> int" and change :: "'r \<Rightarrow> 'r"
  assumes same_key: "key (change r) = key r"
begin

lemma get_row_changed:
  "get_row key k (map (\<lambda>r. if P r then change r else r) rows)
     = map_sum id (\<lambda>r. if P r then change r else r) (get_row key k rows)"
  by (rule get_row_map) (simp add: same_key)

lemma bulk_update_row:
  assumes "distinct (map key rows)" and "get_row key k rows = Inr r"
  shows "bulk_update key [change r] rows = map (\<lambda>x. if key x = k then change x else x) rows"
proof (rule bulk_update_image [OF assms(1)])
  have "{x \<in> set rows. key x = k} = {r}"
    using get_row_Inr [OF assms(2)] assms(1) by (auto simp: distinct_map dest: inj_onD)
  then show "set [change r] = change ` {x \<in> set rows. key x = k}" by simp
qed (rule same_key)

lemma changed_row_stored: "r \<in> set rows \<Longrightarrow> change r \<in> set (bulk_update key [change r] rows)"
  by (auto simp: bulk_update_def image_iff same_key intro!: bexI [of _ r])

end

end
