(* ===== verification/Cw_Leaderboard.thy ===== *)
theory Cw_Leaderboard
  imports Cw_Data "HOL-Library.Product_Lexorder"
begin

text \<open>
  The leaderboard of a course (\<open>courses/leaderboard.py\<close>): totals over homework and project
  submissions, ranks, and the invalidation of the cached pages.
\<close>

subsection \<open>Operations\<close>

text \<open>\<open>values("enrollment").annotate(Sum("total_score"))\<close> as a dictionary.\<close>

definition scores_by_enrollment :: "('r \<Rightarrow> int) \<Rightarrow> ('r \<Rightarrow> int) \<Rightarrow> 'r list \<Rightarrow> (int \<times> int) list" where
  "scores_by_enrollment owner points rows =
     map (\<lambda>e. (e, sum_list (map points (filter (\<lambda>r. owner r = e) rows)))) (remdups (map owner rows))"

definition score_of :: "(int \<times> int) list \<Rightarrow> int \<Rightarrow> int" where
  "score_of scores e = (case map_of scores e of Some n \<Rightarrow> n | None \<Rightarrow> 0)"

definition leaderboard_key :: "enrollment \<Rightarrow> int \<times> int" where
  "leaderboard_key e = (- en_total_score e, en_id e)"

definition rank_enrollments :: "enrollment list \<Rightarrow> enrollment list" where
  "rank_enrollments es =
     map (\<lambda>(rank, e). e\<lparr>position_on_leaderboard := Some (int rank)\<rparr>)
       (List.enumerate 1 (sort_key leaderboard_key es))"

definition course_hw_submissions :: "int \<Rightarrow> cw_db \<Rightarrow> hw_submission list" where
  "course_hw_submissions course db =
     filter (\<lambda>s. list_ex (\<lambda>h. hw_id h = hs_homework s \<and> hw_course h = course) (homeworks db)) (hw_submissions db)"

definition course_project_submissions :: "int \<Rightarrow> cw_db \<Rightarrow> project_submission list" where
  "course_project_submissions course db =
     filter (\<lambda>s. list_ex (\<lambda>p. pr_id p = ps_project s \<and> pr_course p = course) (projects db)
                \<and> \<not> volunteer_review_only s) (project_submissions db)"

definition update_enrollment_totals :: "int \<Rightarrow> cw_db \<Rightarrow> cw_db" where
  "update_enrollment_totals course db =
     (let homework_scores = scores_by_enrollment hs_enrollment total_score (course_hw_submissions course db);
          project_scores = scores_by_enrollment ps_enrollment ps_total_score (course_project_submissions course db);
          es = map (\<lambda>e. e\<lparr>en_total_score := score_of homework_scores (en_id e) + score_of project_scores (en_id e)\<rparr>)
                 (filter (\<lambda>e. en_course e = course) (enrollments db))
      in db\<lparr>enrollments := bulk_update en_id (rank_enrollments es) (enrollments db)\<rparr>)"

definition leaderboard_pages :: "int \<Rightarrow> string list" where
  "leaderboard_pages course = map (\<lambda>p. p @ py_str_int course)
     [''leaderboard:'', ''leaderboard_data:'', ''leaderboard_yaml:'']"

definition invalidate_leaderboard_caches :: "int \<Rightarrow> cw_db \<Rightarrow> cw_db" where
  "invalidate_leaderboard_caches course db =
     (let version_key = ''leaderboard_cache_version:'' @ py_str_int course;
          version = (case map_of (cache_versions db) version_key of Some n \<Rightarrow> n | None \<Rightarrow> 1)
      in db\<lparr>cached_pages := filter (\<lambda>p. p \<notin> set (leaderboard_pages course)) (cached_pages db),
            cache_versions := (version_key, version + 1) # filter (\<lambda>(k, n). k \<noteq> version_key) (cache_versions db)\<rparr>)"

definition update_leaderboard :: "int \<Rightarrow> cw_db \<Rightarrow> cw_db" where
  "update_leaderboard course db = invalidate_leaderboard_caches course (update_enrollment_totals course db)"

subsection \<open>What the leaderboard shows\<close>

lemma sum_filter_none: "k \<notin> set (map owner rows) \<Longrightarrow> filter (\<lambda>r. owner r = k) rows = []"
  by (auto simp: filter_empty_conv)

lemma score_of_scores:
  "score_of (scores_by_enrollment owner points rows) e = sum_list (map points (filter (\<lambda>r. owner r = e) rows))"
proof (cases "e \<in> set (map owner rows)")
  case True
  have "map_of (map (\<lambda>x. (x, f x)) xs) e = Some (f e)" if "e \<in> set xs" for f :: "int \<Rightarrow> int" and xs
    using that by (induction xs) auto
  then show ?thesis using True by (simp add: score_of_def scores_by_enrollment_def)
next
  case False
  have "map_of (map (\<lambda>x. (x, f x)) xs) e = None" if "e \<notin> set xs" for f :: "int \<Rightarrow> int" and xs
    using that by (induction xs) auto
  then show ?thesis using False sum_filter_none [OF False]
    by (simp add: score_of_def scores_by_enrollment_def)
qed

text \<open>In a strictly sorted list the index counts the smaller keys.\<close>

lemma index_counts_smaller:
  assumes "sorted_wrt (<) (map key ys)" and "i < length ys"
  shows "card {y \<in> set ys. key y < (key (ys ! i) :: 'k :: linorder)} = i"
proof -
  have less: "key (ys ! j) < key (ys ! k) \<longleftrightarrow> j < k" if "j < length ys" "k < length ys" for j k
    using that assms(1) sorted_wrt_nth_less [OF assms(1), of j k] sorted_wrt_nth_less [OF assms(1), of k j]
    by (cases j k rule: linorder_cases) auto
  have "{y \<in> set ys. key y < key (ys ! i)} = nth ys ` {0..<i}"
  proof (intro equalityI subsetI)
    fix y assume "y \<in> {y \<in> set ys. key y < key (ys ! i)}"
    then obtain j where j: "j < length ys" "ys ! j = y" "key y < key (ys ! i)"
      by (auto simp: in_set_conv_nth)
    then have "j < i" using less [OF j(1) assms(2)] by simp
    then show "y \<in> nth ys ` {0..<i}" using j(2) by auto
  next
    fix y assume "y \<in> nth ys ` {0..<i}"
    then obtain j where j: "j < i" "y = ys ! j" by auto
    then have "j < length ys" using assms(2) by simp
    then show "y \<in> {y \<in> set ys. key y < key (ys ! i)}"
      using j less [OF \<open>j < length ys\<close> assms(2)] by simp
  qed
  then have "{y \<in> set ys. key y < key (ys ! i)} = set (take i ys)"
    using assms(2) by (simp add: nth_image)
  moreover have "distinct ys"
    using assms(1) less by (fastforce simp: distinct_conv_nth neq_iff)
  ultimately show ?thesis using assms(2) by (simp add: distinct_card)
qed

lemma rank_enrollments_nth:
  "i < length es \<Longrightarrow> rank_enrollments es ! i
     = (sort_key leaderboard_key es ! i)\<lparr>position_on_leaderboard := Some (int (Suc i))\<rparr>"
  by (simp add: rank_enrollments_def nth_enumerate_eq)

lemma length_rank_enrollments [simp]: "length (rank_enrollments es) = length es"
  by (simp add: rank_enrollments_def)

text \<open>Each row keeps its identity and gets its rank: one more than the rows ahead of it.\<close>

definition ahead :: "enrollment \<Rightarrow> enrollment \<Rightarrow> bool" where
  "ahead a b \<longleftrightarrow> leaderboard_key a < leaderboard_key b"

lemma leaderboard_sorted:
  assumes "distinct (map en_id es)"
  shows "sorted_wrt (<) (map leaderboard_key (sort_key leaderboard_key es))"
proof -
  let ?ys = "sort_key leaderboard_key es"
  have "distinct (map en_id ?ys)"
    using assms by (simp add: distinct_map)
  then have "distinct (map leaderboard_key ?ys)"
    by (auto simp: distinct_map inj_on_def leaderboard_key_def)
  then show ?thesis by (simp add: strict_sorted_iff del: distinct_map)
qed

lemma rank_enrollments_eq:
  assumes "distinct (map en_id es)"
  shows "rank_enrollments es
    = map (\<lambda>e. e\<lparr>position_on_leaderboard := Some (1 + int (card {a \<in> set es. ahead a e}))\<rparr>)
        (sort_key leaderboard_key es)" (is "_ = map ?ranked ?ys")
proof (rule nth_equalityI)
  fix i assume "i < length (rank_enrollments es)"
  then have i: "i < length es" by simp
  have "card {a \<in> set ?ys. leaderboard_key a < leaderboard_key (?ys ! i)} = i"
    by (rule index_counts_smaller [OF leaderboard_sorted [OF assms]]) (simp add: i)
  then show "rank_enrollments es ! i = map ?ranked ?ys ! i"
    using i rank_enrollments_nth [OF i] by (simp add: ahead_def)
qed simp

subsection \<open>The updated store\<close>

definition enrollment_total :: "int \<Rightarrow> cw_db \<Rightarrow> int \<Rightarrow> int" where
  "enrollment_total course db e =
     sum_list (map total_score (filter (\<lambda>s. hs_enrollment s = e) (course_hw_submissions course db)))
     + sum_list (map ps_total_score (filter (\<lambda>s. ps_enrollment s = e) (course_project_submissions course db)))"

definition with_total :: "int \<Rightarrow> cw_db \<Rightarrow> enrollment \<Rightarrow> enrollment" where
  "with_total course db e = e\<lparr>en_total_score := enrollment_total course db (en_id e)\<rparr>"

definition totals :: "int \<Rightarrow> cw_db \<Rightarrow> enrollment list" where
  "totals course db = map (with_total course db) (filter (\<lambda>e. en_course e = course) (enrollments db))"

lemma with_total_simps [simp]:
  "en_id (with_total course db e) = en_id e"
  "en_course (with_total course db e) = en_course e"
  "en_total_score (with_total course db e) = enrollment_total course db (en_id e)"
  "disable_learning_in_public (with_total course db e) = disable_learning_in_public e"
  by (simp_all add: with_total_def)

lemma update_enrollment_totals_alt:
  "update_enrollment_totals course db
     = db\<lparr>enrollments := bulk_update en_id (rank_enrollments (totals course db)) (enrollments db)\<rparr>"
  by (simp add: update_enrollment_totals_def totals_def with_total_def [abs_def] score_of_scores
      enrollment_total_def Let_def)

definition ranked :: "int \<Rightarrow> cw_db \<Rightarrow> enrollment \<Rightarrow> enrollment" where
  "ranked course db e = (with_total course db e)\<lparr>position_on_leaderboard :=
     Some (1 + int (card {a \<in> set (totals course db). ahead a (with_total course db e)}))\<rparr>"

lemma enrollments_update_leaderboard:
  assumes "distinct (map en_id (enrollments db))"
  shows "enrollments (update_leaderboard course db)
    = map (\<lambda>e. if en_course e = course then ranked course db e else e) (enrollments db)"
proof -
  have "distinct (map en_id (totals course db))"
    using assms by (simp add: totals_def comp_def distinct_map_filter)
  then have "set (rank_enrollments (totals course db))
      = ranked course db ` {e \<in> set (enrollments db). en_course e = course}"
    by (auto simp: rank_enrollments_eq totals_def ranked_def)
  then have "bulk_update en_id (rank_enrollments (totals course db)) (enrollments db)
      = map (\<lambda>e. if en_course e = course then ranked course db e else e) (enrollments db)"
    by (rule bulk_update_image [OF assms]) (simp add: ranked_def)
  then show ?thesis
    by (simp add: update_leaderboard_def invalidate_leaderboard_caches_def update_enrollment_totals_alt Let_def)
qed

lemma update_leaderboard_frame [simp]:
  "hw_submissions (update_leaderboard course db) = hw_submissions db"
  "hw_answers (update_leaderboard course db) = hw_answers db"
  "hw_questions (update_leaderboard course db) = hw_questions db"
  "homeworks (update_leaderboard course db) = homeworks db"
  "cohorts (update_leaderboard course db) = cohorts db"
  "hw_statistics (update_leaderboard course db) = hw_statistics db"
  "projects (update_leaderboard course db) = projects db"
  "project_submissions (update_leaderboard course db) = project_submissions db"
  "peer_reviews (update_leaderboard course db) = peer_reviews db"
  "evaluation_scores (update_leaderboard course db) = evaluation_scores db"
  "project_votes (update_leaderboard course db) = project_votes db"
  by (simp_all add: update_leaderboard_def invalidate_leaderboard_caches_def update_enrollment_totals_def Let_def)

text \<open>The rank counts the stored rows of the course that are ahead.\<close>

lemma ranked_position:
  assumes "distinct (map en_id (enrollments db))"
  shows "card {a \<in> set (totals course db). ahead a e}
    = card {a \<in> set (enrollments (update_leaderboard course db)). en_course a = course \<and> ahead a e}"
    (is "card ?A = card ?B")
proof -
  have key: "leaderboard_key (ranked course db a) = leaderboard_key (with_total course db a)" for a
    by (simp add: ranked_def leaderboard_key_def)
  have rid: "en_id (ranked course db a) = en_id a" "en_course (ranked course db a) = en_course a" for a
    by (simp_all add: ranked_def)
  let ?R = "{a \<in> set (enrollments db). en_course a = course \<and> ahead (with_total course db a) e}"
  have inj: "inj_on en_id ?R" using assms by (auto simp: distinct_map inj_on_def)
  have "?A = with_total course db ` ?R" unfolding totals_def set_map set_filter by blast
  moreover have "inj_on (with_total course db) ?R"
    using inj by (intro inj_on_imageI2 [of en_id]) (simp add: comp_def)
  ultimately have a: "card ?A = card ?R" by (simp add: card_image)
  have ahead_ranked: "ahead (ranked course db a) e \<longleftrightarrow> ahead (with_total course db a) e" for a
    by (simp add: ahead_def key)
  have "?B = ranked course db ` ?R"
  proof (intro equalityI subsetI)
    fix b assume "b \<in> ?B"
    then obtain a where "a \<in> set (enrollments db)" "b = (if en_course a = course then ranked course db a else a)"
      "en_course b = course" "ahead b e"
      unfolding enrollments_update_leaderboard [OF assms] by auto
    then show "b \<in> ranked course db ` ?R" by (cases "en_course a = course") (auto simp: ahead_ranked)
  next
    fix b assume "b \<in> ranked course db ` ?R"
    then obtain a where "a \<in> set (enrollments db)" "en_course a = course" "b = ranked course db a"
      "ahead (with_total course db a) e" by auto
    then show "b \<in> ?B" unfolding enrollments_update_leaderboard [OF assms]
      by (auto simp: ahead_ranked rid image_iff intro!: bexI [of _ a])
  qed
  moreover have "inj_on (ranked course db) ?R"
    using inj by (intro inj_on_imageI2 [of en_id]) (simp add: comp_def rid)
  ultimately show ?thesis using a by (simp add: card_image)
qed

end
