(* ===== verification/Cw_Statistics.thy ===== *)
theory Cw_Statistics
  imports Cw_Data
begin

text \<open>
  The distributions of \<open>courses/assignment_statistics.py\<close>. The functions \<open>statistics.quantiles\<close>
  (four groups, inclusive) and \<open>statistics.mean\<close> are modelled on integer columns and on float columns:
  integers are combined exactly and divided once, floats round after every operation except in
  the mean, which sums exactly. A stored float is finite: the forms reject every other value.
\<close>

subsection \<open>The numbers of a column\<close>

datatype column = IntColumn "int list" | FloatColumn "pyfloat list"

definition true_div :: "int \<Rightarrow> int \<Rightarrow> pyfloat" where
  "true_div a b = round_ratio (a < 0) \<bar>a\<bar> b"

fun fl_scale :: "pyfloat \<Rightarrow> int \<Rightarrow> pyfloat" where
  "fl_scale (Fin m e) k = round_dyadic (m * k) e"
| "fl_scale (Inf s) k = (if k = 0 then Nan else Inf (s \<noteq> (k < 0)))"
| "fl_scale Nan k = Nan"

fun fl_quarter :: "pyfloat \<Rightarrow> pyfloat" where
  "fl_quarter (Fin m e) = round_dyadic m (e - 2)"
| "fl_quarter x = x"

text \<open>Insertion by \<open>\<le>\<close>: \<open>sorted\<close> is stable.\<close>

fun fl_insort :: "pyfloat \<Rightarrow> pyfloat list \<Rightarrow> pyfloat list" where
  "fl_insort x [] = [x]"
| "fl_insort x (y # ys) = (if fl_le x y then x # y # ys else y # fl_insort x ys)"

definition fl_sort :: "pyfloat list \<Rightarrow> pyfloat list" where
  "fl_sort xs = foldr fl_insort xs []"

text \<open>The \<open>i\<close>-th cut point of the sorted data.\<close>

definition int_quantile :: "int list \<Rightarrow> nat \<Rightarrow> pyfloat" where
  "int_quantile xs i = (let m = length xs - 1; j = i * m div 4; delta = int (i * m mod 4) in
     true_div (xs ! j * (4 - delta) + xs ! (j + 1) * delta) 4)"

definition float_quantile :: "pyfloat list \<Rightarrow> nat \<Rightarrow> pyfloat" where
  "float_quantile xs i = (let m = length xs - 1; j = i * m div 4; delta = int (i * m mod 4) in
     fl_quarter (fl_add (fl_scale (xs ! j) (4 - delta)) (fl_scale (xs ! (j + 1)) delta)))"

definition int_mean :: "int list \<Rightarrow> pynum" where
  "int_mean xs = (let s = sum_list xs; n = int (length xs) in
     if s mod n = 0 then PyI (s div n) else PyF (true_div s n))"

text \<open>The exact sum over a common exponent, rounded once.\<close>

fun fin_parts :: "pyfloat \<Rightarrow> int \<times> int" where
  "fin_parts (Fin m e) = (m, e)" | "fin_parts x = (0, 0)"

definition float_mean :: "pyfloat list \<Rightarrow> pyfloat" where
  "float_mean xs =
     (let parts = map fin_parts xs;
          k = fold min (map snd parts) 0;
          s = sum_list (map (\<lambda>(m, e). m * 2 ^ nat (e - k)) parts)
      in round_ratio (s < 0) \<bar>s\<bar> (int (length xs) * 2 ^ nat (- k)))"

subsection \<open>A field's distribution\<close>

definition no_distribution :: distribution where
  "no_distribution = \<lparr>d_min = None, d_max = None, d_avg = None, d_q1 = None, d_median = None, d_q3 = None\<rparr>"

definition field_distribution :: "column \<Rightarrow> distribution" where
  "field_distribution c = (case c of
     IntColumn values \<Rightarrow>
       if length values < 3 then no_distribution
       else let quantiles = map (int_quantile (sort values)) [1..<4]
            in \<lparr>d_min = Some (PyI (Min (set values))), d_max = Some (PyI (Max (set values))),
                d_avg = Some (int_mean values),
                d_q1 = Some (PyF (quantiles ! 0)), d_median = Some (PyF (quantiles ! 1)), d_q3 = Some (PyF (quantiles ! 2))\<rparr>
   | FloatColumn values \<Rightarrow>
       if length values < 3 then no_distribution
       else let ordered = fl_sort values; quantiles = map (float_quantile ordered) [1..<4]
            in \<lparr>d_min = Some (PyF (hd ordered)), d_max = Some (PyF (last ordered)),
                d_avg = Some (PyF (float_mean values)),
                d_q1 = Some (PyF (quantiles ! 0)), d_median = Some (PyF (quantiles ! 1)), d_q3 = Some (PyF (quantiles ! 2))\<rparr>)"

text \<open>\<open>_field_values\<close>: a missing value is skipped.\<close>

definition field_values :: "('r \<Rightarrow> 'v option) \<Rightarrow> 'r list \<Rightarrow> 'v list" where
  "field_values field rows = List.map_filter field rows"

text \<open>A row of the statistics table keeps an average in a float column.\<close>

definition stored_distribution :: "distribution \<Rightarrow> distribution" where
  "stored_distribution d = d\<lparr>d_avg := map_option (\<lambda>v. case v of
     PyI n \<Rightarrow> PyF (true_div n 1) | PyF x \<Rightarrow> PyF x) (d_avg d)\<rparr>"

definition homework_stat_fields :: "(string \<times> (hw_submission list \<Rightarrow> column)) list" where
  "homework_stat_fields =
     [(''questions_score'', \<lambda>rows. IntColumn (field_values (\<lambda>s. Some (questions_score s)) rows)),
      (''learning_in_public_score'', \<lambda>rows. IntColumn (field_values (\<lambda>s. Some (learning_in_public_score s)) rows)),
      (''total_score'', \<lambda>rows. IntColumn (field_values (\<lambda>s. Some (total_score s)) rows)),
      (''time_spent_lectures'', \<lambda>rows. FloatColumn (field_values time_spent_lectures rows)),
      (''time_spent_homework'', \<lambda>rows. FloatColumn (field_values time_spent_homework rows))]"

definition project_stat_fields :: "(string \<times> (project_submission list \<Rightarrow> column)) list" where
  "project_stat_fields =
     [(''project_score'', \<lambda>rows. IntColumn (field_values (\<lambda>s. Some (project_score s)) rows)),
      (''project_learning_in_public_score'', \<lambda>rows. IntColumn (field_values (\<lambda>s. Some (project_learning_in_public_score s)) rows)),
      (''peer_review_score'', \<lambda>rows. IntColumn (field_values (\<lambda>s. Some (peer_review_score s)) rows)),
      (''peer_review_learning_in_public_score'',
         \<lambda>rows. IntColumn (field_values (\<lambda>s. Some (peer_review_learning_in_public_score s)) rows)),
      (''total_score'', \<lambda>rows. IntColumn (field_values (\<lambda>s. Some (ps_total_score s)) rows)),
      (''time_spent'', \<lambda>rows. FloatColumn (field_values ps_time_spent rows))]"

definition calculate_field_distributions ::
    "int \<Rightarrow> (string \<times> ('r list \<Rightarrow> column)) list \<Rightarrow> 'r list \<Rightarrow> statistics_row" where
  "calculate_field_distributions owner columns rows =
     \<lparr>st_owner = owner, total_submissions = int (length rows),
      st_fields = map (\<lambda>(field, values_of). (field, field_distribution (values_of rows))) columns\<rparr>"

definition persist_field_stats :: "statistics_row \<Rightarrow> statistics_row \<Rightarrow> statistics_row" where
  "persist_field_stats row calculated =
     row\<lparr>total_submissions := total_submissions calculated,
         st_fields := map (\<lambda>(field, d). (field, stored_distribution d)) (st_fields calculated)\<rparr>"

subsection \<open>Statistics rows\<close>

definition empty_statistics :: "int \<Rightarrow> statistics_row" where
  "empty_statistics owner = \<lparr>st_owner = owner, total_submissions = 0, st_fields = []\<rparr>"

text \<open>\<open>get_or_create\<close>, then the recalculation when the row is new or \<open>force\<close> is given.\<close>

definition refresh_statistics ::
    "bool \<Rightarrow> int \<Rightarrow> statistics_row \<Rightarrow> statistics_row list \<Rightarrow> statistics_row list" where
  "refresh_statistics force owner calculated rows =
     (case List.find (\<lambda>r. st_owner r = owner) rows of
        None \<Rightarrow> rows @ [persist_field_stats (empty_statistics owner) calculated]
      | Some row \<Rightarrow>
          if force then map (\<lambda>r. if st_owner r = owner then persist_field_stats row calculated else r) rows
          else rows)"

definition calculate_raw_homework_statistics :: "homework \<Rightarrow> cw_db \<Rightarrow> statistics_row" where
  "calculate_raw_homework_statistics h db =
     calculate_field_distributions (hw_id h) homework_stat_fields
       (filter (\<lambda>s. hs_homework s = hw_id h) (hw_submissions db))"

definition calculate_homework_statistics :: "bool \<Rightarrow> homework \<Rightarrow> cw_db \<Rightarrow> (cw_err, cw_db) res" where
  "calculate_homework_statistics force h db =
     (if hw_state h \<noteq> ''SC'' then Inl (CwValueError ''Cannot calculate statistics for unscored homework'')
      else Inr (db\<lparr>hw_statistics :=
             refresh_statistics force (hw_id h) (calculate_raw_homework_statistics h db) (hw_statistics db)\<rparr>))"

definition calculate_raw_project_statistics :: "project \<Rightarrow> cw_db \<Rightarrow> statistics_row" where
  "calculate_raw_project_statistics p db =
     calculate_field_distributions (pr_id p) project_stat_fields
       (filter (\<lambda>s. ps_project s = pr_id p) (project_submissions db))"

definition calculate_project_statistics :: "bool \<Rightarrow> project \<Rightarrow> cw_db \<Rightarrow> (cw_err, cw_db) res" where
  "calculate_project_statistics force p db =
     (if pr_state p \<noteq> ''CO'' then Inl (CwValueError ''Cannot calculate statistics for uncompleted project'')
      else Inr (db\<lparr>project_statistics :=
             refresh_statistics force (pr_id p) (calculate_raw_project_statistics p db) (project_statistics db)\<rparr>))"

subsection \<open>Lemmas\<close>

lemma owner_persist [simp]: "st_owner (persist_field_stats row calc) = st_owner row"
  by (simp add: persist_field_stats_def)

lemma persist_twice: "persist_field_stats (persist_field_stats row calc) calc = persist_field_stats row calc"
  by (simp add: persist_field_stats_def)

lemma persist_same_owner: "st_owner r = st_owner row \<Longrightarrow> persist_field_stats r calc = persist_field_stats row calc"
  by (simp add: persist_field_stats_def)

lemma refresh_statistics_row:
  "refresh_statistics True owner calc rows
     = (if owner \<in> st_owner ` set rows
        then map (\<lambda>r. if st_owner r = owner then persist_field_stats r calc else r) rows
        else rows @ [persist_field_stats (empty_statistics owner) calc])"
  by (auto simp: refresh_statistics_def find_None_iff find_Some_iff split: option.splits
      intro: persist_same_owner)

lemma refresh_statistics_idem:
  "refresh_statistics True owner calc (refresh_statistics True owner calc rows) = refresh_statistics True owner calc rows"
proof (cases "owner \<in> st_owner ` set rows")
  case True
  let ?upd = "\<lambda>r. if st_owner r = owner then persist_field_stats r calc else r"
  have "map st_owner (map ?upd rows) = map st_owner rows" by simp
  then have "owner \<in> st_owner ` set (map ?upd rows)" using True by (metis list.set_map)
  moreover have "?upd (?upd r) = ?upd r" for r by (simp add: persist_twice)
  ultimately show ?thesis using True unfolding refresh_statistics_row by (simp only: if_True map_map comp_def)
next
  case False
  let ?new = "persist_field_stats (empty_statistics owner) calc"
  have new: "st_owner ?new = owner" by (simp add: empty_statistics_def)
  have old: "map (\<lambda>r. if st_owner r = owner then persist_field_stats r calc else r) rows = rows"
    using False by (intro map_idI) auto
  have "owner \<in> st_owner ` set (rows @ [?new])" using new by simp
  then show ?thesis using False old new unfolding refresh_statistics_row
    by (simp only: if_True if_False map_append old) (simp add: new persist_twice)
qed

end
