(* ===== verification/Cw_Homework.thy ===== *)
theory Cw_Homework
  imports Cw_Leaderboard Cw_Statistics
begin

text \<open>
  Homework scoring (\<open>courses/homework_score_calculation.py\<close>, \<open>courses/scoring.py\<close>): one transaction
  that checks the homework, scores every submission, writes the scores, and refreshes the
  leaderboard and the statistics. An exception rolls the transaction back, so the result type
  carries the new store only on the right. The emitted observability events are left out.
\<close>

subsection \<open>One submission\<close>

text \<open>\<open>update_learning_in_public_score\<close> returns the score and changes the submission in place.\<close>

definition update_learning_in_public_score :: "bool \<Rightarrow> hw_submission \<Rightarrow> int \<times> hw_submission" where
  "update_learning_in_public_score disabled s =
     (if disabled then (0, s\<lparr>learning_in_public_score := 0\<rparr>)
      else case learning_in_public_links s of
          None \<Rightarrow> (0, s)
        | Some links \<Rightarrow>
            if links = [] then (0, s)
            else (int (length links), s\<lparr>learning_in_public_score := int (length links)\<rparr>))"

definition update_faq_score :: "hw_submission \<Rightarrow> int \<times> hw_submission" where
  "update_faq_score s = (case faq_contribution_url s of
     None \<Rightarrow> (0, s)
   | Some url \<Rightarrow> if url \<noteq> [] \<and> 5 \<le> length url then (1, s\<lparr>faq_score := 1\<rparr>) else (0, s))"

text \<open>The slugs of the question's own course and homework select its answer key.\<close>

definition question_keys :: "cw_db \<Rightarrow> 'k answer_keys \<Rightarrow> hw_question \<Rightarrow> (cw_err, 'k answer_keys) res" where
  "question_keys db keys q =
     bind_res (get_row hw_id (hq_homework q) (homeworks db)) (\<lambda>h.
     bind_res (get_row co_id (hw_course h) (cohorts db)) (\<lambda>c.
     Inr (keys\<lparr>course_slug := co_course_slug c, homework_slug := hw_slug h\<rparr>)))"

definition score_answer :: "cw_db \<Rightarrow> 'k answer_keys \<Rightarrow> hw_answer \<Rightarrow> (cw_err, int \<times> hw_answer) res" where
  "score_answer db keys a =
     bind_res (get_row hq_id (ha_question a) (hw_questions db)) (\<lambda>q.
     bind_res (question_keys db keys q) (\<lambda>k.
     bind_res (is_answer_correct k q (answer_text a)) (\<lambda>correct.
     Inr (if correct then scores_for_correct_answer q else 0, a\<lparr>is_correct := correct\<rparr>))))"

definition score_answers ::
    "cw_db \<Rightarrow> 'k answer_keys \<Rightarrow> hw_answer list \<Rightarrow> (cw_err, int \<times> hw_answer list) res" where
  "score_answers db keys answers =
     map_sum id (\<lambda>scored. (sum_list (map fst scored), map snd scored)) (map_res (score_answer db keys) answers)"

definition submission_total_score :: "bool \<Rightarrow> hw_submission \<Rightarrow> int \<Rightarrow> int \<times> hw_submission" where
  "submission_total_score disabled s score =
     (let (lip_score, s) = update_learning_in_public_score disabled s;
          (faq, s) = update_faq_score s
      in (score + lip_score + faq, s))"

definition update_score ::
    "cw_db \<Rightarrow> 'k answer_keys \<Rightarrow> hw_submission \<Rightarrow> hw_answer list \<Rightarrow> (cw_err, hw_submission \<times> hw_answer list) res" where
  "update_score db keys s answers =
     bind_res (score_answers db keys answers) (\<lambda>(score, answers).
     bind_res (get_row en_id (hs_enrollment s) (enrollments db)) (\<lambda>e.
       (let s = s\<lparr>questions_score := score\<rparr>;
            (total, s) = submission_total_score (disable_learning_in_public e) s score
        in Inr (s\<lparr>total_score := total\<rparr>, answers))))"

subsection \<open>The batch\<close>

definition answers_by_submission :: "hw_answer list \<Rightarrow> int \<Rightarrow> hw_answer list" where
  "answers_by_submission answers sid = filter (\<lambda>a. ha_submission a = sid) answers"

definition homework_submissions :: "int \<Rightarrow> cw_db \<Rightarrow> hw_submission list" where
  "homework_submissions hid db = filter (\<lambda>s. hs_homework s = hid) (hw_submissions db)"

definition score_submission_batch ::
    "cw_db \<Rightarrow> 'k answer_keys \<Rightarrow> hw_submission list \<Rightarrow> (cw_err, (hw_submission \<times> hw_answer list) list) res" where
  "score_submission_batch db keys submissions =
     map_res (\<lambda>s. update_score db keys s (answers_by_submission (hw_answers db) (hs_id s))) submissions"

definition persist_scored_submissions ::
    "(hw_submission \<times> hw_answer list) list \<Rightarrow> cw_db \<Rightarrow> cw_db" where
  "persist_scored_submissions scored db =
     db\<lparr>hw_submissions := bulk_update hs_id (map fst scored) (hw_submissions db),
        hw_answers := bulk_update ha_id (concat (map snd scored)) (hw_answers db)\<rparr>"

definition score_and_persist :: "'k answer_keys \<Rightarrow> int \<Rightarrow> cw_db \<Rightarrow> (cw_err, cw_db) res" where
  "score_and_persist keys hid db =
     bind_res (score_submission_batch db keys (homework_submissions hid db)) (\<lambda>scored.
     Inr (persist_scored_submissions scored db))"

definition mark_homework_scored :: "homework \<Rightarrow> cw_db \<Rightarrow> (cw_err, cw_db) res" where
  "mark_homework_scored h db =
     (let h = h\<lparr>hw_state := ''SC''\<rparr>;
          db = db\<lparr>homeworks := bulk_update hw_id [h] (homeworks db)\<rparr>
      in bind_res (get_row co_id (hw_course h) (cohorts db)) (\<lambda>c.
           let db = update_leaderboard (co_id c) db;
               db = db\<lparr>cohorts := bulk_update co_id [c\<lparr>first_homework_scored := True\<rparr>] (cohorts db)\<rparr>
           in calculate_homework_statistics True h db))"

subsection \<open>The operation\<close>

definition question_missing_answer :: "cw_db \<Rightarrow> 'k answer_keys \<Rightarrow> hw_question \<Rightarrow> (cw_err, bool) res" where
  "question_missing_answer db keys q =
     (if answer_type q = Some ''ANY'' then Inr False
      else bind_res (question_keys db keys q) (\<lambda>k.
           bind_res (resolve_correct_answer k q) (\<lambda>correct. Inr (py_strip correct = []))))"

definition questions_missing_correct_answer ::
    "cw_db \<Rightarrow> 'k answer_keys \<Rightarrow> homework \<Rightarrow> (cw_err, hw_question list) res" where
  "questions_missing_correct_answer db keys h =
     (let questions = sort_key hq_id (filter (\<lambda>q. hq_homework q = hw_id h) (hw_questions db))
      in map_sum id (\<lambda>missing. map fst (filter snd (zip questions missing)))
           (map_res (question_missing_answer db keys) questions))"

definition homework_scoring_error ::
    "datetime \<Rightarrow> 'k answer_keys \<Rightarrow> homework \<Rightarrow> bool \<Rightarrow> cw_db \<Rightarrow> (cw_err, string option) res" where
  "homework_scoring_error now keys h force db =
     (let name = py_str_int (hw_id h)
      in if now < due_date h
         then Inr (Some (''The due date for '' @ name @ '' is in the future. Update the due date to score.''))
         else if hw_state h = ''CL''
         then Inr (Some (''Homework '' @ name @ '' is closed. Update the state to OPEN to score.''))
         else if hw_state h = ''SC'' \<and> \<not> force
         then Inr (Some (''Homework '' @ name @ '' is already scored.''))
         else bind_res (questions_missing_correct_answer db keys h) (\<lambda>missing.
              Inr (if missing = [] then None
                   else Some (''Homework '' @ name @ '' has questions with no correct answer: ''
                              @ py_join ''; '' (map hq_text missing)
                              @ ''. Set the correct answers (or use answer type Any) before scoring.''))))"

datatype action_status = StatusOK | StatusFail

definition score_homework_submissions ::
    "datetime \<Rightarrow> 'k answer_keys \<Rightarrow> int \<Rightarrow> bool \<Rightarrow> cw_db \<Rightarrow> (cw_err, (action_status \<times> string) \<times> cw_db) res" where
  "score_homework_submissions now keys hid force db =
     bind_res (get_row hw_id hid (homeworks db)) (\<lambda>h.
     bind_res (homework_scoring_error now keys h force db) (\<lambda>failure.
     case failure of
       Some message \<Rightarrow> Inr ((StatusFail, message), db)
     | None \<Rightarrow>
         bind_res (score_and_persist keys hid db) (\<lambda>db.
         bind_res (mark_homework_scored h db) (\<lambda>db.
         Inr ((StatusOK, ''Homework '' @ py_str_int hid @ '' is scored''), db)))))"

interpretation scored_state: row_update hw_id "\<lambda>h. h\<lparr>hw_state := ''SC''\<rparr>"
  by unfold_locales simp

interpretation first_scored: row_update co_id "\<lambda>c. c\<lparr>first_homework_scored := True\<rparr>"
  by unfold_locales simp

subsection \<open>What scoring writes\<close>

definition lip_points :: "bool \<Rightarrow> hw_submission \<Rightarrow> int" where
  "lip_points disabled s = (if disabled then 0
     else case learning_in_public_links s of None \<Rightarrow> 0 | Some links \<Rightarrow> int (length links))"

definition faq_points :: "hw_submission \<Rightarrow> int" where
  "faq_points s = (case faq_contribution_url s of None \<Rightarrow> 0 | Some url \<Rightarrow> if 5 \<le> length url then 1 else 0)"

text \<open>The two stored parts are only overwritten by the branches that set them.\<close>

definition stored_lip :: "bool \<Rightarrow> hw_submission \<Rightarrow> int" where
  "stored_lip disabled s =
     (if disabled \<or> 0 < lip_points disabled s then lip_points disabled s else learning_in_public_score s)"

definition stored_faq :: "hw_submission \<Rightarrow> int" where
  "stored_faq s = (if faq_points s = 1 then 1 else faq_score s)"

lemma lip_parts:
  "update_learning_in_public_score disabled s
     = (lip_points disabled s, s\<lparr>learning_in_public_score := stored_lip disabled s\<rparr>)"
  by (auto simp: update_learning_in_public_score_def lip_points_def stored_lip_def split: option.splits)

lemma faq_parts: "update_faq_score s = (faq_points s, s\<lparr>faq_score := stored_faq s\<rparr>)"
  by (auto simp: update_faq_score_def faq_points_def stored_faq_def split: option.splits)

definition scored_submission :: "bool \<Rightarrow> int \<Rightarrow> hw_submission \<Rightarrow> hw_submission" where
  "scored_submission disabled score s =
     s\<lparr>questions_score := score, learning_in_public_score := stored_lip disabled s,
       faq_score := stored_faq s, total_score := score + lip_points disabled s + faq_points s\<rparr>"

lemma submission_total_score_parts:
  "submission_total_score disabled (s\<lparr>questions_score := q\<rparr>) score
     = (score + lip_points disabled s + faq_points s,
        s\<lparr>questions_score := q, learning_in_public_score := stored_lip disabled s, faq_score := stored_faq s\<rparr>)"
proof -
  have "lip_points disabled (s\<lparr>questions_score := q\<rparr>) = lip_points disabled s"
    "stored_lip disabled (s\<lparr>questions_score := q\<rparr>) = stored_lip disabled s"
    "faq_points (s\<lparr>questions_score := q, learning_in_public_score := l\<rparr>) = faq_points s"
    "stored_faq (s\<lparr>questions_score := q, learning_in_public_score := l\<rparr>) = stored_faq s" for l
    by (simp_all add: lip_points_def stored_lip_def faq_points_def stored_faq_def)
  then show ?thesis by (simp add: submission_total_score_def lip_parts faq_parts)
qed

text \<open>An answer's verdict and its question's points.\<close>

definition verdict :: "cw_db \<Rightarrow> 'k answer_keys \<Rightarrow> hw_answer \<Rightarrow> (cw_err, bool) res" where
  "verdict db keys a =
     bind_res (get_row hq_id (ha_question a) (hw_questions db)) (\<lambda>q.
     bind_res (question_keys db keys q) (\<lambda>k. is_answer_correct k q (answer_text a)))"

definition question_points :: "cw_db \<Rightarrow> int \<Rightarrow> int" where
  "question_points db qid = (case get_row hq_id qid (hw_questions db) of
     Inl e \<Rightarrow> 0 | Inr q \<Rightarrow> scores_for_correct_answer q)"

lemma score_answer_verdict:
  "score_answer db keys a = map_sum id (\<lambda>c. (if c then question_points db (ha_question a) else 0, a\<lparr>is_correct := c\<rparr>))
     (verdict db keys a)"
  by (cases "get_row hq_id (ha_question a) (hw_questions db)")
    (auto simp: score_answer_def verdict_def question_points_def bind_res_def split: sum.splits)

definition is_right :: "cw_db \<Rightarrow> 'k answer_keys \<Rightarrow> hw_answer \<Rightarrow> bool" where
  "is_right db keys a \<longleftrightarrow> verdict db keys a = Inr True"

definition marked :: "cw_db \<Rightarrow> 'k answer_keys \<Rightarrow> hw_answer \<Rightarrow> hw_answer" where
  "marked db keys a = a\<lparr>is_correct := is_right db keys a\<rparr>"

definition answer_points :: "cw_db \<Rightarrow> 'k answer_keys \<Rightarrow> hw_answer list \<Rightarrow> int" where
  "answer_points db keys answers =
     sum_list (map (\<lambda>a. if is_right db keys a then question_points db (ha_question a) else 0) answers)"

lemma map_res_image:
  assumes "map_res f xs = Inr ys" and "\<And>x y. x \<in> set xs \<Longrightarrow> f x = Inr y \<Longrightarrow> y = g x"
  shows "ys = map g xs"
proof -
  have "list_all2 (\<lambda>x y. f x = Inr y) xs ys" using assms(1) by (simp add: map_res_Inr_iff)
  then show ?thesis using assms(2) by (induction rule: list_all2_induct) auto
qed

lemma map_res_each: "map_res f xs = Inr ys \<Longrightarrow> x \<in> set xs \<Longrightarrow> \<exists>y. f x = Inr y"
  by (induction xs arbitrary: ys) (auto simp: bind_res_Inr_iff)

lemma score_answers_Inr:
  assumes "score_answers db keys answers = Inr (score, scored)"
  shows "score = answer_points db keys answers" and "scored = map (marked db keys) answers"
    and "\<forall>a \<in> set answers. \<exists>c. verdict db keys a = Inr c"
proof -
  obtain pairs where pairs: "map_res (score_answer db keys) answers = Inr pairs"
    "score = sum_list (map fst pairs)" "scored = map snd pairs"
    using assms by (cases "map_res (score_answer db keys) answers") (auto simp: score_answers_def)
  have "pairs = map (\<lambda>a. (if is_right db keys a then question_points db (ha_question a) else 0, marked db keys a)) answers"
    by (rule map_res_image [OF pairs(1)])
      (cases rule: sum.exhaust, auto simp: score_answer_verdict marked_def is_right_def map_sum_def split: sum.splits)
  then show "score = answer_points db keys answers" "scored = map (marked db keys) answers"
    using pairs by (simp_all add: answer_points_def comp_def)
  show "\<forall>a \<in> set answers. \<exists>c. verdict db keys a = Inr c"
    using map_res_each [OF pairs(1)] by (fastforce simp: score_answer_verdict map_sum_def split: sum.splits)
qed

definition opted_out :: "cw_db \<Rightarrow> hw_submission \<Rightarrow> bool" where
  "opted_out db s = (case get_row en_id (hs_enrollment s) (enrollments db) of
     Inl e \<Rightarrow> False | Inr e \<Rightarrow> disable_learning_in_public e)"

definition answers_of :: "cw_db \<Rightarrow> hw_submission \<Rightarrow> hw_answer list" where
  "answers_of db s = answers_by_submission (hw_answers db) (hs_id s)"

definition rescored :: "cw_db \<Rightarrow> 'k answer_keys \<Rightarrow> hw_submission \<Rightarrow> hw_submission" where
  "rescored db keys s = scored_submission (opted_out db s) (answer_points db keys (answers_of db s)) s"

lemma update_score_Inr:
  assumes "update_score db keys s (answers_of db s) = Inr (s', answers')"
  shows "s' = rescored db keys s" and "answers' = map (marked db keys) (answers_of db s)"
    and "\<forall>a \<in> set (answers_of db s). \<exists>c. verdict db keys a = Inr c"
proof -
  obtain score scored e where *: "score_answers db keys (answers_of db s) = Inr (score, scored)"
    "get_row en_id (hs_enrollment s) (enrollments db) = Inr e" "answers' = scored"
    "s' = scored_submission (disable_learning_in_public e) score s"
    using assms by (auto simp: update_score_def submission_total_score_parts scored_submission_def
        Let_def elim!: bind_res_InrE)
  then show "s' = rescored db keys s" "answers' = map (marked db keys) (answers_of db s)"
    "\<forall>a \<in> set (answers_of db s). \<exists>c. verdict db keys a = Inr c"
    using score_answers_Inr [OF *(1)] by (simp_all add: rescored_def opted_out_def)
qed

lemma rescored_keys [simp]:
  "hs_id (rescored db keys s) = hs_id s"
  "hs_homework (rescored db keys s) = hs_homework s"
  "hs_enrollment (rescored db keys s) = hs_enrollment s"
  by (simp_all add: rescored_def scored_submission_def)

lemma marked_keys [simp]:
  "ha_id (marked db keys a) = ha_id a"
  "ha_submission (marked db keys a) = ha_submission a"
  "ha_question (marked db keys a) = ha_question a"
  "answer_text (marked db keys a) = answer_text a"
  by (simp_all add: marked_def)

text \<open>The primary keys of the tables that scoring writes are unique.\<close>

definition homework_keys :: "cw_db \<Rightarrow> bool" where
  "homework_keys db \<longleftrightarrow> distinct (map hs_id (hw_submissions db)) \<and> distinct (map ha_id (hw_answers db))
     \<and> distinct (map hw_id (homeworks db)) \<and> distinct (map en_id (enrollments db))
     \<and> distinct (map co_id (cohorts db))"

definition answers_homework :: "cw_db \<Rightarrow> int \<Rightarrow> hw_answer \<Rightarrow> bool" where
  "answers_homework db hid a \<longleftrightarrow> (\<exists>s \<in> set (homework_submissions hid db). ha_submission a = hs_id s)"

lemma score_and_persist_effect:
  assumes "score_and_persist keys hid db = Inr db'" and "homework_keys db"
  shows "db' = db\<lparr>hw_submissions := map (\<lambda>s. if hs_homework s = hid then rescored db keys s else s) (hw_submissions db),
      hw_answers := map (\<lambda>a. if answers_homework db hid a then marked db keys a else a) (hw_answers db)\<rparr>"
    and "\<forall>s \<in> set (homework_submissions hid db). \<forall>a \<in> set (answers_of db s). \<exists>c. verdict db keys a = Inr c"
proof -
  obtain scored where batch: "score_submission_batch db keys (homework_submissions hid db) = Inr scored"
    and db': "db' = persist_scored_submissions scored db"
    using assms(1) by (auto simp: score_and_persist_def elim!: bind_res_InrE)
  have each: "scored = map (\<lambda>s. (rescored db keys s, map (marked db keys) (answers_of db s))) (homework_submissions hid db)"
    by (rule map_res_image [OF batch [unfolded score_submission_batch_def]])
      (metis answers_of_def prod.collapse update_score_Inr(1,2))
  have "bulk_update hs_id (map fst scored) (hw_submissions db)
      = map (\<lambda>s. if hs_homework s = hid then rescored db keys s else s) (hw_submissions db)"
    using assms(2) unfolding homework_keys_def
    by (intro bulk_update_image) (auto simp: each homework_submissions_def)
  moreover have "bulk_update ha_id (concat (map snd scored)) (hw_answers db)
      = map (\<lambda>a. if answers_homework db hid a then marked db keys a else a) (hw_answers db)"
    using assms(2) unfolding homework_keys_def
    by (intro bulk_update_image)
      (auto simp: each answers_of_def answers_by_submission_def answers_homework_def)
  ultimately show "db' = db\<lparr>hw_submissions := map (\<lambda>s. if hs_homework s = hid then rescored db keys s else s) (hw_submissions db),
      hw_answers := map (\<lambda>a. if answers_homework db hid a then marked db keys a else a) (hw_answers db)\<rparr>"
    by (simp add: db' persist_scored_submissions_def)
  show "\<forall>s \<in> set (homework_submissions hid db). \<forall>a \<in> set (answers_of db s). \<exists>c. verdict db keys a = Inr c"
  proof (intro ballI)
    fix s a assume "s \<in> set (homework_submissions hid db)" "a \<in> set (answers_of db s)"
    then show "\<exists>c. verdict db keys a = Inr c"
      using map_res_each [OF batch [unfolded score_submission_batch_def], of s]
        update_score_Inr(3) [of db keys s] by (auto simp: answers_of_def [symmetric])
  qed
qed

lemma mark_homework_scored_frame:
  assumes "mark_homework_scored h db = Inr db'"
  shows "hw_submissions db' = hw_submissions db" "hw_answers db' = hw_answers db"
    "hw_questions db' = hw_questions db"
    "homeworks db' = bulk_update hw_id [h\<lparr>hw_state := ''SC''\<rparr>] (homeworks db)"
    "enrollments db' = enrollments (update_leaderboard (hw_course h)
       (db\<lparr>homeworks := bulk_update hw_id [h\<lparr>hw_state := ''SC''\<rparr>] (homeworks db)\<rparr>))"
  using assms by (auto simp: mark_homework_scored_def calculate_homework_statistics_def Let_def
      dest: get_row_Inr elim!: bind_res_InrE)

end
