(* ===== verification/Cw_Review.thy ===== *)
theory Cw_Review
  imports Cw_Homework
begin

text \<open>
  Review criteria and the answers of peer reviews (\<open>courses/validators/criteria_validators.py\<close> and the
  methods of \<open>ReviewCriteria\<close> and \<open>CriteriaResponse\<close> in \<open>courses/models/project.py\<close>). A stored
  options list is read as the list of its texts and integer scores, which is what the validator
  admits.
\<close>

subsection \<open>Validating the options of a criterion\<close>

fun type_name :: "pyval \<Rightarrow> string" where
  "type_name PNone = ''NoneType''"
| "type_name (PBool b) = ''bool''"
| "type_name (PInt i) = ''int''"
| "type_name (PFloat s) = ''float''"
| "type_name (PStr s) = ''str''"
| "type_name (PList xs) = ''list''"
| "type_name (PDict d) = ''dict''"

definition quoted :: "string \<Rightarrow> string" where
  "quoted s = [char_of (39 :: nat)] @ s @ [char_of (39 :: nat)]"

definition validate_options_is_list :: "pyval \<Rightarrow> (string, pyval list) res" where
  "validate_options_is_list v = (case v of
     PList xs \<Rightarrow> if xs = [] then Inl ''Options list cannot be empty.'' else Inr xs
   | _ \<Rightarrow> Inl (''Options must be a list of dictionaries, not '' @ type_name v
              @ ''. Expected format: [{'' @ quoted ''criteria'' @ '': '' @ quoted ''text'' @ '', '' @ quoted ''score''
              @ '': 0}, ...]''))"

definition option_at :: "nat \<Rightarrow> string" where
  "option_at idx = ''Option at index '' @ py_str_int (int idx)"

definition validate_option_is_dict :: "pyval \<Rightarrow> nat \<Rightarrow> (string, payload) res" where
  "validate_option_is_dict v idx = (case v of
     PDict d \<Rightarrow> Inr d
   | _ \<Rightarrow> Inl (option_at idx @ '' must be a dictionary, not '' @ type_name v @ ''.''))"

definition validate_option_keys :: "payload \<Rightarrow> nat \<Rightarrow> (string, unit) res" where
  "validate_option_keys d idx =
     bind_res (guard_res (has_key ''criteria'' d) (option_at idx @ '' is missing required key '' @ quoted ''criteria'' @ ''.''))
       (\<lambda>_. guard_res (has_key ''score'' d) (option_at idx @ '' is missing required key '' @ quoted ''score'' @ ''.''))"

text \<open>\<open>isinstance(value, int)\<close> also holds of a bool.\<close>

fun as_int :: "pyval \<Rightarrow> int option" where
  "as_int (PInt i) = Some i" | "as_int (PBool b) = Some (if b then 1 else 0)" | "as_int v = None"

definition validate_option_types :: "payload \<Rightarrow> nat \<Rightarrow> (string, unit) res" where
  "validate_option_types d idx =
     bind_res (guard_res (is_str (get_key ''criteria'' d))
        (option_at idx @ '': '' @ quoted ''criteria'' @ '' must be a string, not '' @ type_name (get_key ''criteria'' d) @ ''.''))
       (\<lambda>_. guard_res (as_int (get_key ''score'' d) \<noteq> None)
        (option_at idx @ '': '' @ quoted ''score'' @ '' must be an integer, not '' @ type_name (get_key ''score'' d) @ ''.''))"

definition validate_option_content :: "payload \<Rightarrow> nat \<Rightarrow> (string, unit) res" where
  "validate_option_content d idx =
     guard_res (py_strip (py_str (get_key ''criteria'' d)) \<noteq> [])
       (option_at idx @ '': '' @ quoted ''criteria'' @ '' cannot be empty.'')"

definition validate_review_criteria_option :: "pyval \<Rightarrow> nat \<Rightarrow> (string, unit) res" where
  "validate_review_criteria_option v idx =
     bind_res (validate_option_is_dict v idx) (\<lambda>d.
     bind_res (validate_option_keys d idx) (\<lambda>_.
     bind_res (validate_option_types d idx) (\<lambda>_.
     validate_option_content d idx)))"

definition validate_review_criteria_options :: "pyval \<Rightarrow> (string, unit) res" where
  "validate_review_criteria_options v =
     bind_res (validate_options_is_list v) (\<lambda>xs.
     bind_res (map_res (\<lambda>(idx, x). validate_review_criteria_option x idx) (List.enumerate 0 xs)) (\<lambda>_. Inr ()))"

text \<open>The scores a stored options value yields, \<open>option["score"]\<close> for each option.\<close>

definition read_option :: "pyval \<Rightarrow> (string \<times> int) option" where
  "read_option v = (case v of
     PDict d \<Rightarrow> (case (get_key ''criteria'' d, as_int (get_key ''score'' d)) of
         (PStr s, Some n) \<Rightarrow> Some (s, n) | _ \<Rightarrow> None)
   | _ \<Rightarrow> None)"

subsection \<open>Medians\<close>

text \<open>Twice the median: half of an odd number is exact in a double below \<open>2^53\<close>.\<close>

definition twice_median :: "int list \<Rightarrow> (cw_err, int) res" where
  "twice_median scores = (let data = sort scores; n = length data in
     if n = 0 then Inl (CwValueError ''no median for empty data'')
     else if odd n then Inr (2 * data ! (n div 2))
     else Inr (data ! (n div 2 - 1) + data ! (n div 2)))"

text \<open>\<open>math.ceil(x / 2)\<close>.\<close>

definition ceil_half :: "int \<Rightarrow> int" where
  "ceil_half x = (x + 1) div 2"

definition median_score :: "criteria \<Rightarrow> (cw_err, int) res" where
  "median_score c = (let scores = map snd (cr_options c) in
     map_sum id ceil_half
       (if review_criteria_type c = ''RB'' then twice_median scores
        else if review_criteria_type c = ''CB'' then Inr (sum_list scores)
        else Inr 0))"

subsection \<open>Stored answers\<close>

definition invalid_answer :: "criteria_response \<Rightarrow> string \<Rightarrow> cw_err" where
  "invalid_answer r reason = InvalidCriteriaAnswerError (rs_review r) (rs_criteria r)
     (''Criteria response '' @ py_str_int (rs_id r) @ '' for review '' @ py_str_int (rs_review r)
      @ '' and criterion '' @ py_str_int (rs_criteria r) @ '' cannot be scored: '' @ reason)"

definition answer_index :: "criteria_response \<Rightarrow> criteria \<Rightarrow> string \<Rightarrow> (cw_err, nat) res" where
  "answer_index r c token =
     (if token = [] \<or> \<not> list_all digit token
      then Inl (invalid_answer r (''invalid choice '' @ py_repr_str token))
      else let index = digits_value token
           in if 1 \<le> index \<and> index \<le> int (length (cr_options c)) then Inr (nat index)
              else Inl (invalid_answer r (''choice '' @ py_str_int index
                          @ '' is outside the criterion'' @ [char_of (39 :: nat)] @ ''s options'')))"

definition parse_answer_indexes :: "criteria_response \<Rightarrow> criteria \<Rightarrow> (cw_err, nat list) res" where
  "parse_answer_indexes r c = (case rs_answer r of
     None \<Rightarrow> Inr []
   | Some s \<Rightarrow> if s = [] then Inr [] else map_res (answer_index r c) (py_split (CHR '','') s))"

definition get_scores :: "criteria_response \<Rightarrow> criteria \<Rightarrow> (cw_err, int list) res" where
  "get_scores r c = map_sum id (\<lambda>indexes.
     let scores = map (\<lambda>i. snd (cr_options c ! (i - 1))) indexes
     in if scores = [] then [0] else scores) (parse_answer_indexes r c)"

definition get_score :: "criteria_response \<Rightarrow> criteria \<Rightarrow> (cw_err, int) res" where
  "get_score r c = map_sum id sum_list (get_scores r c)"

subsection \<open>The criteria of a project\<close>

definition criteria_for_project :: "project \<Rightarrow> cw_db \<Rightarrow> (cw_err, criteria list) res" where
  "criteria_for_project p db =
     (let assigned = sort_key (\<lambda>a. (ca_position a, ca_id a))
            (filter (\<lambda>a. ca_project a = pr_id p) (criteria_assignments db))
      in if assigned \<noteq> [] then map_res (\<lambda>a. get_row cr_id (ca_criteria a) (criterias db)) assigned
         else bind_res (get_row co_id (pr_course p) (cohorts db)) (\<lambda>course.
              Inr (if curriculum_format course \<noteq> ''legacy'' then []
                   else sort_key cr_id (filter (\<lambda>c. cr_course c = Some (pr_course p)) (criterias db)))))"

subsection \<open>Lemmas\<close>

lemma validated_option:
  "validate_review_criteria_option v idx = Inr u \<Longrightarrow> \<exists>s n. read_option v = Some (s, n) \<and> py_strip s \<noteq> []"
  by (cases v)
    (auto simp: validate_review_criteria_option_def validate_option_is_dict_def validate_option_types_def
      validate_option_content_def read_option_def py_str_def elim!: bind_res_InrE is_str.elims split: option.splits)

lemma twice_median_bounds:
  assumes "twice_median scores = Inr m"
  shows "\<exists>a \<in> set scores. \<exists>b \<in> set scores. a \<le> b \<and> m = a + b"
proof -
  define data where "data = sort scores"
  have "scores \<noteq> []" using assms by (auto simp: twice_median_def)
  then have "0 < length scores" by simp
  then have n: "0 < length data" "length data div 2 < length data" "length data div 2 - 1 < length data"
    "set data = set scores" "sorted data"
    by (auto simp: data_def intro: le_less_trans [OF diff_le_self] simp del: length_greater_0_conv)
  then show ?thesis
    using assms nth_mem [of "length data div 2" data] nth_mem [of "length data div 2 - 1" data]
      sorted_nth_mono [of data "length data div 2 - 1" "length data div 2"]
    by (fastforce simp: twice_median_def data_def [symmetric] Let_def split: if_splits)
qed

lemma ceil_half_between: "a \<le> b \<Longrightarrow> a \<le> ceil_half (a + b) \<and> ceil_half (a + b) \<le> b"
  by (auto simp: ceil_half_def)

lemma answer_index_range:
  "answer_index r c token = Inr i \<Longrightarrow> 1 \<le> i \<and> i \<le> length (cr_options c)"
  by (auto simp: answer_index_def Let_def split: if_splits)

lemma answer_index_error:
  "answer_index r c token = Inl e \<Longrightarrow> \<exists>reason. e = invalid_answer r reason"
  by (auto simp: answer_index_def Let_def split: if_splits)

end
