(* ===== verification/Cw_Project.thy ===== *)
theory Cw_Project
  imports Cw_Review
begin

text \<open>
  Project scoring (\<open>courses/project_score_groups.py\<close>, \<open>project_review_scores.py\<close>,
  \<open>project_submission_scoring.py\<close>, \<open>project_score_calculation.py\<close>, \<open>project_scoring.py\<close>). A dictionary
  keeps the order in which its keys first appear; it is the list of its keys and a function.
  A cohort-wide lookup that finds no row raises \<open>DoesNotExist\<close>.
\<close>

subsection \<open>Grouping the peer reviews\<close>

definition project_reviews :: "project \<Rightarrow> cw_db \<Rightarrow> peer_review list" where
  "project_reviews p db = filter (\<lambda>r. list_ex (\<lambda>s. ps_id s = rv_submission r \<and> ps_project s = pr_id p)
     (project_submissions db)) (peer_reviews db)"

definition responses_of :: "cw_db \<Rightarrow> peer_review \<Rightarrow> criteria_response list" where
  "responses_of db r = filter (\<lambda>x. rs_review x = rv_id r) (criteria_responses db)"

text \<open>Keys in the order of their first appearance.\<close>

definition first_seen :: "'a list \<Rightarrow> 'a list" where
  "first_seen xs = rev (remdups (rev xs))"

record review_groups =
  reviewed_ids :: "int list"
  reviews_by_submission :: "int \<Rightarrow> peer_review list"
  reviews_by_reviewer :: "int \<Rightarrow> peer_review list"

definition group_peer_reviews :: "peer_review list \<Rightarrow> review_groups" where
  "group_peer_reviews reviews =
     (let submitted = filter (\<lambda>r. rv_state r = ''SU'') reviews
      in \<lparr>reviewed_ids = first_seen (map rv_submission reviews),
          reviews_by_submission = (\<lambda>sid. filter (\<lambda>r. rv_submission r = sid) submitted),
          reviews_by_reviewer = (\<lambda>sid. filter (\<lambda>r. rv_reviewer r = sid) submitted)\<rparr>)"

subsection \<open>The score of the work\<close>

definition evaluation :: "int \<Rightarrow> int \<Rightarrow> int \<Rightarrow> evaluation_score" where
  "evaluation sid cid score = \<lparr>es_submission = sid, es_criteria = cid, es_score = score\<rparr>"

text \<open>Without a submitted review every criterion counts its middle score.\<close>

definition calculate_median_score :: "int \<Rightarrow> criteria list \<Rightarrow> (cw_err, int \<times> evaluation_score list) res" where
  "calculate_median_score sid criteria =
     map_sum id (\<lambda>scores. (sum_list scores, map (\<lambda>(c, score). evaluation sid (cr_id c) score) (zip criteria scores)))
       (map_res median_score criteria)"

definition score_project_criteria ::
    "cw_db \<Rightarrow> int \<Rightarrow> int \<Rightarrow> criteria_response list \<Rightarrow> (cw_err, int \<times> evaluation_score) res" where
  "score_project_criteria db sid cid responses =
     bind_res (get_row cr_id cid (criterias db)) (\<lambda>c.
     bind_res (map_res (\<lambda>r. get_score r c) responses) (\<lambda>scores.
     bind_res (twice_median scores) (\<lambda>m.
     Inr (ceil_half m, evaluation sid cid (ceil_half m)))))"

definition calculate_project_score ::
    "cw_db \<Rightarrow> int \<Rightarrow> criteria list \<Rightarrow> peer_review list \<Rightarrow> (cw_err, int \<times> evaluation_score list) res" where
  "calculate_project_score db sid criteria reviews =
     (if reviews = [] then calculate_median_score sid criteria
      else let responses = concat (map (responses_of db) reviews)
           in map_sum id (\<lambda>scored. (sum_list (map fst scored), map snd scored))
                (map_res (\<lambda>cid. score_project_criteria db sid cid (filter (\<lambda>r. rs_criteria r = cid) responses))
                  (first_seen (map rs_criteria responses))))"

subsection \<open>The parts of a submission's score\<close>

definition link_count :: "string list option \<Rightarrow> int" where
  "link_count links = (case links of None \<Rightarrow> 0 | Some xs \<Rightarrow> int (length xs))"

definition project_lip_score :: "bool \<Rightarrow> project_submission \<Rightarrow> project \<Rightarrow> int" where
  "project_lip_score disabled s p =
     (if disabled then 0 else if link_count (ps_links s) = 0 then 0
      else min (link_count (ps_links s)) (learning_in_public_cap_project p))"

definition peer_review_lip_score :: "bool \<Rightarrow> project \<Rightarrow> peer_review list \<Rightarrow> int" where
  "peer_review_lip_score disabled p reviewed =
     (if disabled then 0
      else sum_list (map (\<lambda>r. min (link_count (rv_links r)) (learning_in_public_cap_review p))
             (filter (\<lambda>r. link_count (rv_links r) \<noteq> 0) reviewed)))"

definition mandatory_reviews_count :: "peer_review list \<Rightarrow> int" where
  "mandatory_reviews_count reviewed = int (length (filter (\<lambda>r. \<not> optional r) reviewed))"

definition faq_points_of :: "project_submission \<Rightarrow> int" where
  "faq_points_of s = (case ps_faq_url s of None \<Rightarrow> 0 | Some url \<Rightarrow> if url \<noteq> [] \<and> 5 \<le> length url then 1 else 0)"

definition project_total_score :: "project_submission \<Rightarrow> int" where
  "project_total_score s = project_score s + project_faq_score s + project_learning_in_public_score s
     + peer_review_score s + peer_review_learning_in_public_score s"

definition assign_peer_review_scores ::
    "bool \<Rightarrow> project \<Rightarrow> peer_review list \<Rightarrow> project_submission \<Rightarrow> project_submission" where
  "assign_peer_review_scores disabled p reviewed s =
     (let mandatory_count = mandatory_reviews_count reviewed
      in s\<lparr>peer_review_score := mandatory_count * points_for_peer_review p,
           peer_review_learning_in_public_score := peer_review_lip_score disabled p reviewed,
           reviewed_enough_peers := number_of_peers_to_evaluate p \<le> mandatory_count\<rparr>)"

definition score_submission ::
    "cw_db \<Rightarrow> project \<Rightarrow> int \<Rightarrow> criteria list \<Rightarrow> peer_review list \<Rightarrow> peer_review list \<Rightarrow> project_submission
     \<Rightarrow> (cw_err, project_submission \<times> evaluation_score list) res" where
  "score_submission db p points_to_pass criteria reviews reviewed s =
     bind_res (calculate_project_score db (ps_id s) criteria reviews) (\<lambda>(score, scores).
     bind_res (get_row en_id (ps_enrollment s) (enrollments db)) (\<lambda>e.
       let disabled = disable_learning_in_public e;
           s = assign_peer_review_scores disabled p reviewed (s\<lparr>project_score := score\<rparr>);
           s = s\<lparr>project_learning_in_public_score := project_lip_score disabled s p\<rparr>;
           s = s\<lparr>project_faq_score := faq_points_of s\<rparr>;
           s = s\<lparr>ps_total_score := project_total_score s\<rparr>
       in Inr (s\<lparr>passed := points_to_pass \<le> project_score s \<and> reviewed_enough_peers s\<rparr>, scores)))"

subsection \<open>The project\<close>

record scoring_calculation =
  submissions_to_update :: "project_submission list"
  new_evaluations :: "evaluation_score list"
  passed_count :: nat

definition calculate_project_scoring ::
    "cw_db \<Rightarrow> project \<Rightarrow> int \<Rightarrow> peer_review list \<Rightarrow> (cw_err, scoring_calculation) res" where
  "calculate_project_scoring db p points_to_pass reviews =
     (let groups = group_peer_reviews reviews
      in bind_res (criteria_for_project p db) (\<lambda>criteria.
         bind_res (map_res (\<lambda>sid.
             bind_res (get_row ps_id sid (project_submissions db)) (\<lambda>s.
             score_submission db p points_to_pass criteria (reviews_by_submission groups sid)
               (reviews_by_reviewer groups sid) s)) (reviewed_ids groups)) (\<lambda>scored.
         Inr \<lparr>submissions_to_update = map fst scored, new_evaluations = concat (map snd scored),
              passed_count = length (filter passed (map fst scored))\<rparr>)))"

definition validate_project_scoreable :: "datetime \<Rightarrow> project \<Rightarrow> int \<Rightarrow> string option" where
  "validate_project_scoreable now p points_to_pass =
     (if points_to_pass = 0
      then Some (''Project has no points to pass. Update the course'' @ [char_of (39 :: nat)] @ ''s `project_passing_score` field to greater than zero value'')
      else if pr_state p \<noteq> ''PR'' then Some (''Project is not in '' @ quoted ''PEER_REVIEWING'' @ '' state'')
      else if now < peer_review_due_date p
      then Some ''The peer review due date is in the future. Update the due date to score the project.''
      else None)"

text \<open>\<open>f"{passed / n:.2f}"\<close>.\<close>

definition ratio_text :: "int \<Rightarrow> int \<Rightarrow> string" where
  "ratio_text a b = (case true_div a b of
     Fin m e \<Rightarrow> (let hundredths = div_even (m * 100 * 2 ^ nat e) (2 ^ nat (- e))
                 in py_str_int (hundredths div 100) @ ''.'' @ pad_int 2 (hundredths mod 100))
   | _ \<Rightarrow> ''inf'')"

definition replace_evaluation_scores ::
    "int list \<Rightarrow> evaluation_score list \<Rightarrow> evaluation_score list \<Rightarrow> evaluation_score list" where
  "replace_evaluation_scores sids new rows = filter (\<lambda>x. es_submission x \<notin> set sids) rows @ new"

definition complete_scored_project :: "project \<Rightarrow> int list \<Rightarrow> scoring_calculation \<Rightarrow> cw_db \<Rightarrow> cw_db" where
  "complete_scored_project p sids calculation db =
     update_leaderboard (pr_course p)
       (db\<lparr>project_submissions := bulk_update ps_id (submissions_to_update calculation) (project_submissions db),
           evaluation_scores := replace_evaluation_scores sids (new_evaluations calculation) (evaluation_scores db),
           projects := bulk_update pr_id [p\<lparr>pr_state := ''CO''\<rparr>] (projects db)\<rparr>)"

definition scoring_message :: "project \<Rightarrow> nat \<Rightarrow> nat \<Rightarrow> string" where
  "scoring_message p passes n =
     ''Project '' @ py_str_int (pr_id p) @ '' scored and state updated to '' @ quoted ''COMPLETED'' @ ''. ''
     @ py_str_int (int passes) @ '' passed ('' @ ratio_text (int passes) (int n) @ '').''"

definition score_project ::
    "datetime \<Rightarrow> int \<Rightarrow> cw_db \<Rightarrow> (cw_err, (action_status \<times> string) \<times> cw_db) res" where
  "score_project now pid db =
     bind_res (get_row pr_id pid (projects db)) (\<lambda>p.
     bind_res (get_row co_id (pr_course p) (cohorts db)) (\<lambda>course.
       let points_to_pass = project_passing_score course;
           reviews = project_reviews p db;
           sids = reviewed_ids (group_peer_reviews reviews)
       in case validate_project_scoreable now p points_to_pass of
            Some message \<Rightarrow> Inr ((StatusFail, message), db)
          | None \<Rightarrow>
              if reviews = [] then Inr ((StatusFail, ''No peer reviews found for the project.''), db)
              else (case calculate_project_scoring db p points_to_pass reviews of
                  Inl (InvalidCriteriaAnswerError rid cid message) \<Rightarrow> Inr ((StatusFail, message), db)
                | Inl e \<Rightarrow> Inl e
                | Inr calculation \<Rightarrow>
                    Inr ((StatusOK, scoring_message p (passed_count calculation) (length sids)),
                         complete_scored_project p sids calculation db))))"

interpretation completed: row_update pr_id "\<lambda>p. p\<lparr>pr_state := ''CO''\<rparr>"
  by unfold_locales simp

subsection \<open>What scoring writes\<close>

lemma map_sum_InrE: "map_sum id f m = Inr y \<Longrightarrow> (\<And>x. m = Inr x \<Longrightarrow> y = f x \<Longrightarrow> P) \<Longrightarrow> P"
  by (cases m) auto

lemma set_first_seen [simp]: "set (first_seen xs) = set xs" and distinct_first_seen [simp]: "distinct (first_seen xs)"
  by (simp_all add: first_seen_def)

lemma score_project_criteria_Inr:
  assumes "score_project_criteria db sid cid responses = Inr (score, ev)"
  shows "es_submission ev = sid \<and> es_criteria ev = cid \<and> es_score ev = score
    \<and> (\<exists>c scores. get_row cr_id cid (criterias db) = Inr c \<and> map_res (\<lambda>r. get_score r c) responses = Inr scores
        \<and> (\<exists>m. twice_median scores = Inr m \<and> score = ceil_half m))"
  using assms by (auto simp: score_project_criteria_def evaluation_def elim!: bind_res_InrE)

lemma calculate_project_score_Inr:
  assumes "calculate_project_score db sid criteria reviews = Inr (score, evs)"
  shows "score = sum_list (map es_score evs) \<and> (\<forall>x \<in> set evs. es_submission x = sid)"
proof (cases "reviews = []")
  case True
  with assms obtain scores where *: "map_res median_score criteria = Inr scores" "score = sum_list scores"
    "evs = map (\<lambda>(c, score). evaluation sid (cr_id c) score) (zip criteria scores)"
    by (auto simp: calculate_project_score_def calculate_median_score_def elim!: map_sum_InrE)
  have "map es_score evs = map snd (zip criteria scores)" by (auto simp: *(3) evaluation_def)
  then show ?thesis using map_res_length [OF *(1)] by (auto simp: * evaluation_def)
next
  case False
  define responses where "responses = concat (map (responses_of db) reviews)"
  obtain scored where *: "map_res (\<lambda>cid. score_project_criteria db sid cid (filter (\<lambda>r. rs_criteria r = cid) responses))
      (first_seen (map rs_criteria responses)) = Inr scored" "score = sum_list (map fst scored)" "evs = map snd scored"
    using assms False by (auto simp: calculate_project_score_def Let_def responses_def elim!: map_sum_InrE)
  have "\<forall>x \<in> set scored. es_score (snd x) = fst x \<and> es_submission (snd x) = sid"
    using *(1) score_project_criteria_Inr by (fastforce simp: map_res_Inr_iff list_all2_conv_all_nth in_set_conv_nth)
  then show ?thesis by (auto simp: *(2,3) intro!: arg_cong [of _ _ sum_list])
qed

text \<open>A submission with its score parts, given the score of the work.\<close>

definition graded :: "project \<Rightarrow> int \<Rightarrow> bool \<Rightarrow> peer_review list \<Rightarrow> int \<Rightarrow> project_submission \<Rightarrow> project_submission" where
  "graded p points_to_pass disabled reviewed work s =
     s\<lparr>project_score := work, project_faq_score := faq_points_of s,
       project_learning_in_public_score := project_lip_score disabled s p,
       peer_review_score := mandatory_reviews_count reviewed * points_for_peer_review p,
       peer_review_learning_in_public_score := peer_review_lip_score disabled p reviewed,
       ps_total_score := work + faq_points_of s + project_lip_score disabled s p
         + mandatory_reviews_count reviewed * points_for_peer_review p + peer_review_lip_score disabled p reviewed,
       reviewed_enough_peers := number_of_peers_to_evaluate p \<le> mandatory_reviews_count reviewed,
       passed := points_to_pass \<le> work \<and> number_of_peers_to_evaluate p \<le> mandatory_reviews_count reviewed\<rparr>"

definition project_opted_out :: "cw_db \<Rightarrow> project_submission \<Rightarrow> bool" where
  "project_opted_out db s = (case get_row en_id (ps_enrollment s) (enrollments db) of
     Inl e \<Rightarrow> False | Inr e \<Rightarrow> disable_learning_in_public e)"

lemma score_submission_Inr:
  assumes "score_submission db p pts criteria reviews reviewed s = Inr (s', evs)"
  shows "s' = graded p pts (project_opted_out db s) reviewed (sum_list (map es_score evs)) s"
    and "\<forall>x \<in> set evs. es_submission x = ps_id s"
proof -
  obtain work e where *: "calculate_project_score db (ps_id s) criteria reviews = Inr (work, evs)"
    "get_row en_id (ps_enrollment s) (enrollments db) = Inr e"
    "s' = graded p pts (disable_learning_in_public e) reviewed work s"
    using assms by (auto simp: score_submission_def assign_peer_review_scores_def project_total_score_def graded_def
        project_lip_score_def faq_points_of_def Let_def elim!: bind_res_InrE)
  then show "s' = graded p pts (project_opted_out db s) reviewed (sum_list (map es_score evs)) s"
    "\<forall>x \<in> set evs. es_submission x = ps_id s"
    using calculate_project_score_Inr [OF *(1)] by (simp_all add: project_opted_out_def)
qed

lemma filter_concat_own:
  "distinct ids \<Longrightarrow> sid \<in> set ids \<Longrightarrow> (\<And>t x. t \<in> set ids \<Longrightarrow> x \<in> set (E t) \<Longrightarrow> k x = t) \<Longrightarrow>
     filter (\<lambda>x. k x = sid) (concat (map E ids)) = E sid"
proof (induction ids)
  case (Cons t ids)
  have own: "filter (\<lambda>x. k x = sid) (E t) = (if t = sid then E t else [])"
    using Cons.prems(3) [of t] by (auto simp: filter_id_conv filter_empty_conv)
  show ?case
  proof (cases "t = sid")
    case True
    then have "k x \<noteq> sid" if "u \<in> set ids" "x \<in> set (E u)" for u x
      using that Cons.prems(1) Cons.prems(3) [of u x] by auto
    then have "filter (\<lambda>x. k x = sid) (concat (map E ids)) = []" by (auto simp: filter_empty_conv)
    then show ?thesis using own True by simp
  next
    case False
    then show ?thesis using own Cons by auto
  qed
qed simp

lemma get_row_found: "distinct (map key rows) \<Longrightarrow> r \<in> set rows \<Longrightarrow> get_row key (key r) rows = Inr r"
  by (simp add: get_row_def find_keyed)

text \<open>The grade of a stored submission in a run.\<close>

definition run_grade ::
    "cw_db \<Rightarrow> project \<Rightarrow> int \<Rightarrow> peer_review list \<Rightarrow> criteria list \<Rightarrow> project_submission \<Rightarrow> project_submission \<times> evaluation_score list" where
  "run_grade db p pts reviews criteria s =
     (let groups = group_peer_reviews reviews
      in projr (score_submission db p pts criteria (reviews_by_submission groups (ps_id s))
           (reviews_by_reviewer groups (ps_id s)) s))"

lemma calculate_project_scoring_Inr:
  assumes run: "calculate_project_scoring db p pts reviews = Inr calculation"
    and keys: "distinct (map ps_id (project_submissions db))"
  obtains criteria rows where "map ps_id rows = first_seen (map rv_submission reviews)"
    "set rows \<subseteq> set (project_submissions db)"
    "submissions_to_update calculation = map (fst \<circ> run_grade db p pts reviews criteria) rows"
    "new_evaluations calculation = concat (map (snd \<circ> run_grade db p pts reviews criteria) rows)"
    "passed_count calculation = length (filter passed (submissions_to_update calculation))"
    "\<forall>s \<in> set rows. \<exists>r. score_submission db p pts criteria (reviews_by_submission (group_peer_reviews reviews) (ps_id s))
       (reviews_by_reviewer (group_peer_reviews reviews) (ps_id s)) s = Inr r"
proof -
  define groups where "groups = group_peer_reviews reviews"
  define step where "step criteria sid = bind_res (get_row ps_id sid (project_submissions db)) (\<lambda>s.
     score_submission db p pts criteria (reviews_by_submission groups sid) (reviews_by_reviewer groups sid) s)" for criteria sid
  obtain criteria scored where scored: "map_res (step criteria) (reviewed_ids groups) = Inr scored"
    "calculation = \<lparr>submissions_to_update = map fst scored, new_evaluations = concat (map snd scored),
       passed_count = length (filter passed (map fst scored))\<rparr>"
    using run unfolding calculate_project_scoring_def step_def groups_def Let_def by (elim bind_res_InrE) simp
  define row where "row sid = projr (get_row ps_id sid (project_submissions db))" for sid
  have each: "row sid \<in> set (project_submissions db) \<and> ps_id (row sid) = sid
      \<and> (\<exists>r. step criteria sid = Inr r \<and> r = run_grade db p pts reviews criteria (row sid)
           \<and> score_submission db p pts criteria (reviews_by_submission groups sid) (reviews_by_reviewer groups sid) (row sid) = Inr r)"
    if sid: "sid \<in> set (reviewed_ids groups)" for sid
  proof -
    obtain r where r: "step criteria sid = Inr r" using map_res_each [OF scored(1) sid] by blast
    then obtain s where s: "get_row ps_id sid (project_submissions db) = Inr s"
      "score_submission db p pts criteria (reviews_by_submission groups sid) (reviews_by_reviewer groups sid) s = Inr r"
      unfolding step_def by (elim bind_res_InrE)
    then have "row sid = s" "ps_id s = sid" "s \<in> set (project_submissions db)"
      using get_row_Inr [OF s(1)] by (simp_all add: row_def)
    then show ?thesis using r s(2) by (simp add: run_grade_def groups_def Let_def)
  qed
  have list: "scored = map (\<lambda>sid. run_grade db p pts reviews criteria (row sid)) (reviewed_ids groups)"
    by (rule map_res_image [OF scored(1)]) (use each in fastforce)
  show thesis
  proof (rule that [of "map row (reviewed_ids groups)" criteria])
    show "map ps_id (map row (reviewed_ids groups)) = first_seen (map rv_submission reviews)"
    proof -
      have "reviewed_ids groups = first_seen (map rv_submission reviews)"
        by (simp add: groups_def group_peer_reviews_def Let_def)
      moreover have "map ps_id (map row (reviewed_ids groups)) = reviewed_ids groups"
        unfolding map_map by (rule map_idI) (use each in simp)
      ultimately show ?thesis by simp
    qed
    show "\<forall>s \<in> set (map row (reviewed_ids groups)). \<exists>r. score_submission db p pts criteria
        (reviews_by_submission (group_peer_reviews reviews) (ps_id s)) (reviews_by_reviewer (group_peer_reviews reviews) (ps_id s)) s = Inr r"
    proof
      fix s assume "s \<in> set (map row (reviewed_ids groups))"
      then obtain sid where sid: "sid \<in> set (reviewed_ids groups)" "s = row sid" by auto
      from each [OF sid(1)] show "\<exists>r. score_submission db p pts criteria
          (reviews_by_submission (group_peer_reviews reviews) (ps_id s)) (reviews_by_reviewer (group_peer_reviews reviews) (ps_id s)) s = Inr r"
        unfolding sid(2) groups_def [symmetric] by metis
    qed
  qed (use each in \<open>auto simp: scored(2) list comp_def\<close>)
qed

end
