(* ===== verification/Cw_Assignment.thy ===== *)
theory Cw_Assignment
  imports Cw_Project
begin

text \<open>
  The assignment of peer reviews (\<open>courses/project_assignment_selection.py\<close>, \<open>project_assignment.py\<close>,
  \<open>course_management/deadlines.py\<close>). \<open>random.choice\<close> draws from the generator seeded with 42; the
  draws are the parameter \<open>draw\<close>: the \<open>c\<close>-th draw from \<open>n\<close> elements is the index \<open>draw c n\<close>, which
  lies below \<open>n\<close>. The list of slot pools is shared by the reviewers, so it is threaded through
  them together with the number of draws.
\<close>

subsection \<open>Selection\<close>

definition project_pool :: "nat \<Rightarrow> nat list" where
  "project_pool num_submissions = [0..<num_submissions]"

definition review_slot_project_pools :: "nat \<Rightarrow> nat \<Rightarrow> nat list list" where
  "review_slot_project_pools num_submissions num_projects_to_review =
     replicate num_projects_to_review (project_pool num_submissions)"

definition available_review_projects :: "nat list \<Rightarrow> nat set \<Rightarrow> nat list" where
  "available_review_projects pool selected = filter (\<lambda>i. i \<notin> selected) pool"

definition fallback_review_projects :: "nat set \<Rightarrow> nat \<Rightarrow> nat list" where
  "fallback_review_projects selected n = filter (\<lambda>i. i \<notin> selected) [0..<n]"

text \<open>\<open>random.choice\<close> of an empty list raises.\<close>

definition select_project_for_review ::
    "(nat \<Rightarrow> nat \<Rightarrow> nat) \<Rightarrow> nat list \<Rightarrow> nat set \<Rightarrow> nat \<Rightarrow> nat \<Rightarrow> (cw_err, nat) res" where
  "select_project_for_review draw pool selected n c =
     (let available = available_review_projects pool selected;
          available = (if available = [] then fallback_review_projects selected n else available)
      in if available = [] then Inl CwIndexError else Inr (available ! draw c (length available)))"

definition remove_project_from_slot_pool :: "nat \<Rightarrow> nat list \<Rightarrow> nat list" where
  "remove_project_from_slot_pool i pool = remove1 i pool"

text \<open>One reviewer: the pick of every slot, the pools left and the number of draws made.\<close>

fun select_reviewer_assignments ::
    "(nat \<Rightarrow> nat \<Rightarrow> nat) \<Rightarrow> nat \<Rightarrow> nat set \<Rightarrow> nat list list \<Rightarrow> nat \<Rightarrow> (cw_err, nat list \<times> nat list list \<times> nat) res" where
  "select_reviewer_assignments draw n selected [] c = Inr ([], [], c)"
| "select_reviewer_assignments draw n selected (pool # pools) c =
     bind_res (select_project_for_review draw pool selected n c) (\<lambda>i.
     bind_res (select_reviewer_assignments draw n (insert i selected) pools (Suc c)) (\<lambda>(picks, pools, c).
     Inr (i # picks, remove_project_from_slot_pool i pool # pools, c)))"

text \<open>The reviewers in order; the result lists the pairs of reviewer and reviewed.\<close>

fun select_all_reviewer_assignments ::
    "(nat \<Rightarrow> nat \<Rightarrow> nat) \<Rightarrow> nat \<Rightarrow> nat list \<Rightarrow> nat list list \<Rightarrow> nat \<Rightarrow> (cw_err, (nat \<times> nat) list) res" where
  "select_all_reviewer_assignments draw n [] pools c = Inr []"
| "select_all_reviewer_assignments draw n (reviewer # reviewers) pools c =
     bind_res (select_reviewer_assignments draw n {reviewer} pools c) (\<lambda>(picks, pools, c).
     bind_res (select_all_reviewer_assignments draw n reviewers pools c) (\<lambda>rest.
     Inr (map (Pair reviewer) picks @ rest)))"

definition review_assignment :: "project_submission \<Rightarrow> project_submission \<Rightarrow> int \<Rightarrow> peer_review" where
  "review_assignment reviewer submission pk =
     \<lparr>rv_id = pk, rv_submission = ps_id submission, rv_reviewer = ps_id reviewer, rv_links = None,
      optional = False, rv_state = ''TR''\<rparr>"

definition select_random_assignment ::
    "(nat \<Rightarrow> nat \<Rightarrow> nat) \<Rightarrow> project_submission list \<Rightarrow> int \<Rightarrow> (cw_err, (nat \<times> nat) list) res" where
  "select_random_assignment draw submissions num_projects_to_review =
     (let n = length submissions
      in if int n \<le> num_projects_to_review
         then Inl (CwValueError (''The number of projects to review should be greater than the number of submissions. ''
               @ ''Number of projects to review: '' @ py_str_int num_projects_to_review
               @ '', Number of submissions: '' @ py_str_int (int n)))
         else select_all_reviewer_assignments draw n [0..<n]
                (review_slot_project_pools n (nat num_projects_to_review)) 0)"

subsection \<open>Opening the review window\<close>

definition hours :: "int \<Rightarrow> int" where
  "hours h = seconds (3600 * h)"

definition ceil_to_next_hour :: "datetime \<Rightarrow> datetime" where
  "ceil_to_next_hour t = (if t mod hours 1 = 0 then t else t - t mod hours 1 + hours 1)"

definition peer_review_window :: int where
  "peer_review_window = days 7"

definition open_peer_review_window :: "datetime \<Rightarrow> project \<Rightarrow> project" where
  "open_peer_review_window now p =
     p\<lparr>peer_review_due_date := ceil_to_next_hour (now + peer_review_window), pr_state := ''PR''\<rparr>"

definition assignment_precondition_failure :: "datetime \<Rightarrow> project \<Rightarrow> int \<Rightarrow> int \<Rightarrow> string option" where
  "assignment_precondition_failure now p submissions_count num_evaluations =
     (if pr_state p \<noteq> ''CS''
      then Some (''Project is not in '' @ quoted ''COLLECTING_SUBMISSIONS'' @ '' state to assign peer reviews.'')
      else if now < submission_due_date p
      then Some ''The submission due date is in the future. Update the due date to assign peer reviews.''
      else if submissions_count \<le> num_evaluations
      then Some (''Not enough submissions to assign '' @ py_str_int num_evaluations @ '' peer reviews each.'')
      else None)"

text \<open>
  The clock is read for the check (\<open>now\<close>) and again for the window (\<open>later\<close>); \<open>new_id\<close> gives the
  primary keys of the created rows in order.
\<close>

definition assign_peer_reviews_for_project ::
    "(nat \<Rightarrow> nat \<Rightarrow> nat) \<Rightarrow> (nat \<Rightarrow> int) \<Rightarrow> datetime \<Rightarrow> datetime \<Rightarrow> project \<Rightarrow> cw_db
     \<Rightarrow> (cw_err, (action_status \<times> string) \<times> cw_db) res" where
  "assign_peer_reviews_for_project draw new_id now later p db =
     (let submissions = filter (\<lambda>s. ps_project s = pr_id p) (project_submissions db)
      in case assignment_precondition_failure now p (int (length submissions)) (number_of_peers_to_evaluate p) of
           Some message \<Rightarrow> Inr ((StatusFail, message), db)
         | None \<Rightarrow>
             bind_res (select_random_assignment draw submissions (number_of_peers_to_evaluate p)) (\<lambda>pairs.
             Inr ((StatusOK, ''Peer reviews assigned for project '' @ py_str_int (pr_id p)
                     @ '' and state updated to '' @ quoted ''PEER_REVIEWING'' @ ''.''),
                  db\<lparr>peer_reviews := peer_reviews db
                        @ map (\<lambda>(k, reviewer, i). review_assignment (submissions ! reviewer) (submissions ! i) (new_id k))
                            (List.enumerate 0 pairs),
                     projects := bulk_update pr_id [open_peer_review_window later p] (projects db)\<rparr>)))"

interpretation review_window: row_update pr_id "open_peer_review_window now" for now
  by unfold_locales (simp add: open_peer_review_window_def)

subsection \<open>Every reviewer gets distinct work that is not their own\<close>

definition fair_draws :: "(nat \<Rightarrow> nat \<Rightarrow> nat) \<Rightarrow> bool" where
  "fair_draws draw \<longleftrightarrow> (\<forall>c n. 0 < n \<longrightarrow> draw c n < n)"

lemma select_project_for_review_Inr:
  assumes "fair_draws draw" and "finite selected" and "card selected < n"
    and "set pool \<subseteq> {..<n}"
  shows "\<exists>i. select_project_for_review draw pool selected n c = Inr i \<and> i < n \<and> i \<notin> selected"
proof -
  have "\<exists>i < n. i \<notin> selected"
    using assms(2,3) card_mono [of selected "{..<n}"] by (auto simp: subset_iff linorder_not_le)
  then have fallback: "fallback_review_projects selected n \<noteq> []"
    by (auto simp: fallback_review_projects_def filter_empty_conv)
  define available where "available = (if available_review_projects pool selected = []
     then fallback_review_projects selected n else available_review_projects pool selected)"
  have "available \<noteq> []" using fallback by (simp add: available_def)
  then have "available ! draw c (length available) \<in> set available"
    using assms(1) by (simp add: fair_draws_def)
  moreover have "set available \<subseteq> {..<n} - selected"
    using assms(4) by (auto simp: available_def available_review_projects_def fallback_review_projects_def)
  ultimately show ?thesis using \<open>available \<noteq> []\<close>
    by (auto simp: select_project_for_review_def Let_def available_def [symmetric])
qed

lemma select_reviewer_assignments_Inr:
  assumes "fair_draws draw" and "finite selected" and "card selected + length pools \<le> n"
    and "\<forall>pool \<in> set pools. set pool \<subseteq> {..<n}"
  shows "\<exists>picks pools' c'. select_reviewer_assignments draw n selected pools c = Inr (picks, pools', c')
    \<and> length picks = length pools \<and> length pools' = length pools \<and> (\<forall>pool \<in> set pools'. set pool \<subseteq> {..<n})
    \<and> distinct picks \<and> set picks \<subseteq> {..<n} - selected"
  using assms(2-4)
proof (induction pools arbitrary: selected c)
  case (Cons pool pools)
  have card: "card selected < n" and pool: "set pool \<subseteq> {..<n}" using Cons.prems by auto
  obtain i where i: "select_project_for_review draw pool selected n c = Inr i" "i < n" "i \<notin> selected"
    using select_project_for_review_Inr [OF assms(1) Cons.prems(1) card pool] by blast
  have "finite (insert i selected)" "card (insert i selected) + length pools \<le> n"
    "\<forall>pool \<in> set pools. set pool \<subseteq> {..<n}"
    using Cons.prems i(3) by auto
  from Cons.IH [OF this, of "Suc c"] obtain picks pools' c' where
    "select_reviewer_assignments draw n (insert i selected) pools (Suc c) = Inr (picks, pools', c')"
    "length picks = length pools" "length pools' = length pools" "\<forall>pool \<in> set pools'. set pool \<subseteq> {..<n}"
    "distinct picks" "set picks \<subseteq> {..<n} - insert i selected" by blast
  moreover have "set (remove_project_from_slot_pool i pool) \<subseteq> {..<n}"
    using pool set_remove1_subset [of i pool] by (auto simp: remove_project_from_slot_pool_def)
  ultimately show ?case using i by auto
qed simp

lemma select_all_Inr:
  assumes "fair_draws draw" and "length pools < n" and "\<forall>pool \<in> set pools. set pool \<subseteq> {..<n}"
    and "distinct reviewers"
  shows "\<exists>pairs. select_all_reviewer_assignments draw n reviewers pools c = Inr pairs
    \<and> (\<forall>(r, i) \<in> set pairs. r \<in> set reviewers \<and> i < n \<and> i \<noteq> r)
    \<and> distinct pairs \<and> (\<forall>r \<in> set reviewers. length (filter (\<lambda>q. fst q = r) pairs) = length pools)"
  using assms(2-)
proof (induction reviewers arbitrary: pools c)
  case (Cons r rs)
  have "finite {r}" "card {r} + length pools \<le> n" using Cons.prems by auto
  from select_reviewer_assignments_Inr [OF assms(1) this Cons.prems(2), of c]
  obtain picks pools' c' where picks:
    "select_reviewer_assignments draw n {r} pools c = Inr (picks, pools', c')"
    "length picks = length pools" "length pools' = length pools" "\<forall>pool \<in> set pools'. set pool \<subseteq> {..<n}"
    "distinct picks" "set picks \<subseteq> {..<n} - {r}" by blast
  from Cons.IH [of pools' c'] Cons.prems picks(3,4) obtain rest where rest:
    "select_all_reviewer_assignments draw n rs pools' c' = Inr rest"
    "\<forall>(r, i) \<in> set rest. r \<in> set rs \<and> i < n \<and> i \<noteq> r" "distinct rest"
    "\<forall>r \<in> set rs. length (filter (\<lambda>q. fst q = r) rest) = length pools'" by auto
  have "select_all_reviewer_assignments draw n (r # rs) pools c = Inr (map (Pair r) picks @ rest)"
    using picks(1) rest(1) by simp
  moreover have fresh: "filter (\<lambda>q. fst q = r) rest = []" "filter (\<lambda>q. fst q = t) (map (Pair r) picks) = []"
    if "t \<noteq> r" for t
    using rest(2) Cons.prems(3) that by (auto simp: filter_empty_conv)
  moreover have "filter (\<lambda>q. fst q = r) rest = []"
    using rest(2) Cons.prems(3) by (auto simp: filter_empty_conv)
  moreover have "distinct (map (Pair r) picks @ rest)"
    using picks(5) rest(2,3) Cons.prems(3) by (auto simp: distinct_map inj_on_def)
  moreover have "\<forall>(t, i) \<in> set (map (Pair r) picks @ rest). t \<in> set (r # rs) \<and> i < n \<and> i \<noteq> t"
    using picks(6) rest(2) by auto
  moreover have "length (filter (\<lambda>q. fst q = t) (map (Pair r) picks @ rest)) = length pools"
    if "t \<in> set (r # rs)" for t
    using that picks(2,3) rest(4) fresh(2) [of t] Cons.prems(3) \<open>filter (\<lambda>q. fst q = r) rest = []\<close>
    by (cases "t = r") (auto simp: comp_def)
  ultimately show ?case by blast
qed simp

end
