(* ===== verification/Cw_Votes.thy ===== *)
theory Cw_Votes
  imports Cw_Data
begin

text \<open>
  Votes for projects (\<open>courses/votes.py\<close>): a voter has three votes per project. One call is one
  transaction on the locked project row, so calls are sequential.
\<close>

definition votes_per_project :: nat where
  "votes_per_project = 3"

definition votes_in_project :: "int \<Rightarrow> int \<Rightarrow> cw_db \<Rightarrow> project_vote list" where
  "votes_in_project user pid db = filter (\<lambda>v. pv_voter v = user
     \<and> list_ex (\<lambda>s. ps_id s = pv_submission v \<and> ps_project s = pid) (project_submissions db)) (project_votes db)"

definition update_project_vote :: "int \<Rightarrow> project_submission \<Rightarrow> string \<Rightarrow> cw_db \<Rightarrow> (cw_err, cw_db) res" where
  "update_project_vote user s action db =
     bind_res (get_row pr_id (ps_project s) (projects db)) (\<lambda>p.
     let vote = \<lparr>pv_submission = ps_id s, pv_voter = user\<rparr>
     in if action = ''remove'' then Inr (db\<lparr>project_votes := filter (\<lambda>v. v \<noteq> vote) (project_votes db)\<rparr>)
        else if vote \<in> set (project_votes db) then Inr db
        else if votes_per_project \<le> length (votes_in_project user (ps_project s) db) then Inr db
        else Inr (db\<lparr>project_votes := project_votes db @ [vote]\<rparr>))"

text \<open>An anonymous user is \<open>None\<close>.\<close>

definition course_votes :: "int \<Rightarrow> int \<Rightarrow> cw_db \<Rightarrow> project_vote list" where
  "course_votes user course db = filter (\<lambda>v. pv_voter v = user
     \<and> list_ex (\<lambda>s. ps_id s = pv_submission v
          \<and> list_ex (\<lambda>p. pr_id p = ps_project s \<and> pr_course p = course) (projects db)) (project_submissions db))
     (project_votes db)"

definition get_voted_submission_ids :: "int option \<Rightarrow> int \<Rightarrow> cw_db \<Rightarrow> int set" where
  "get_voted_submission_ids user course db = (case user of
     None \<Rightarrow> {} | Some u \<Rightarrow> set (map pv_submission (course_votes u course db)))"

definition get_project_vote_counts :: "int option \<Rightarrow> int \<Rightarrow> cw_db \<Rightarrow> (int \<times> nat) list" where
  "get_project_vote_counts user course db = (case user of
     None \<Rightarrow> []
   | Some u \<Rightarrow> map (\<lambda>pid. (pid, length (votes_in_project u pid db)))
       (filter (\<lambda>pid. votes_in_project u pid db \<noteq> [])
         (map pr_id (filter (\<lambda>p. pr_course p = course) (projects db)))))"

subsection \<open>The budget\<close>

definition vote_budget :: "cw_db \<Rightarrow> bool" where
  "vote_budget db \<longleftrightarrow> distinct (project_votes db)
     \<and> (\<forall>user pid. length (votes_in_project user pid db) \<le> votes_per_project)"

lemma votes_in_project_add:
  "votes_in_project u pid (db\<lparr>project_votes := project_votes db @ [v]\<rparr>)
     = votes_in_project u pid db
       @ (if pv_voter v = u \<and> list_ex (\<lambda>s. ps_id s = pv_submission v \<and> ps_project s = pid) (project_submissions db)
          then [v] else [])"
  by (simp add: votes_in_project_def)

lemma votes_in_project_remove:
  "votes_in_project u pid (db\<lparr>project_votes := filter P (project_votes db)\<rparr>) = filter P (votes_in_project u pid db)"
proof -
  have swap: "filter A (filter P xs) = filter P (filter A xs)" for A and xs :: "project_vote list"
    by (induction xs) auto
  show ?thesis unfolding votes_in_project_def by (simp add: swap del: filter_filter)
qed

text \<open>What one call does to the votes.\<close>

lemma update_project_vote_cases:
  assumes "update_project_vote user s action db = Inr db'"
  obtains (remove) "action = ''remove''"
      "db' = db\<lparr>project_votes := filter (\<lambda>v. v \<noteq> \<lparr>pv_submission = ps_id s, pv_voter = user\<rparr>) (project_votes db)\<rparr>"
    | (same) "db' = db"
    | (add) "db' = db\<lparr>project_votes := project_votes db @ [\<lparr>pv_submission = ps_id s, pv_voter = user\<rparr>]\<rparr>"
        "\<lparr>pv_submission = ps_id s, pv_voter = user\<rparr> \<notin> set (project_votes db)"
        "length (votes_in_project user (ps_project s) db) < votes_per_project"
proof -
  let ?v = "\<lparr>pv_submission = ps_id s, pv_voter = user\<rparr>"
  have *: "Inr db' = (if action = ''remove'' then Inr (db\<lparr>project_votes := filter (\<lambda>v. v \<noteq> ?v) (project_votes db)\<rparr>)
      else if ?v \<in> set (project_votes db) then Inr db
      else if votes_per_project \<le> length (votes_in_project user (ps_project s) db) then Inr db
      else (Inr (db\<lparr>project_votes := project_votes db @ [?v]\<rparr>) :: (cw_err, cw_db) res))"
    using assms unfolding update_project_vote_def Let_def by (elim bind_res_InrE) (rule sym)
  show thesis
  proof (cases "action = ''remove''")
    case True
    with * have "db' = db\<lparr>project_votes := filter (\<lambda>v. v \<noteq> ?v) (project_votes db)\<rparr>" by simp
    with True show thesis by (rule remove)
  next
    case False
    show thesis
    proof (cases "?v \<in> set (project_votes db) \<or> votes_per_project \<le> length (votes_in_project user (ps_project s) db)")
      case True
      then have "db' = db" using * \<open>action \<noteq> ''remove''\<close> by (auto split: if_splits)
      then show thesis by (rule same)
    next
      case new: False
      then have "db' = db\<lparr>project_votes := project_votes db @ [?v]\<rparr>" using * False by simp
      then show thesis using new by (intro add) simp_all
    qed
  qed
qed

lemma update_project_vote_budget:
  assumes "vote_budget db" and "distinct (map ps_id (project_submissions db))" and "s \<in> set (project_submissions db)"
    and "update_project_vote user s action db = Inr db'"
  shows "vote_budget db'"
  using assms(4)
proof (cases rule: update_project_vote_cases)
  case remove
  have "length (votes_in_project u pid db') \<le> votes_per_project" for u pid
    using assms(1) unfolding remove(2) votes_in_project_remove vote_budget_def
    by (meson le_trans length_filter_le)
  then show ?thesis using assms(1) by (simp add: vote_budget_def remove(2))
next
  case same
  then show ?thesis using assms(1) by simp
next
  case add
  have home: "list_ex (\<lambda>t. ps_id t = ps_id s \<and> ps_project t = pid) (project_submissions db) \<longleftrightarrow> pid = ps_project s" for pid
    using assms(2,3) by (auto simp: list_ex_iff distinct_map dest: inj_onD)
  have "length (votes_in_project u pid db') \<le> votes_per_project" for u pid
    using assms(1) add(3) unfolding add(1) votes_in_project_add vote_budget_def
    by (cases "user = u \<and> pid = ps_project s") (auto simp: home)
  moreover have "distinct (project_votes db')" using assms(1) add(2) by (simp add: add(1) vote_budget_def)
  ultimately show ?thesis by (simp add: vote_budget_def)
qed

end
