(* ===== verification/Cw_Samples.thy ===== *)
theory Cw_Samples
  imports Cw_Assignment Cw_Votes
begin

text \<open>
  A small cohort on which the coursework operations are evaluated: one homework with a checkbox and
  an integer question, one project with three submissions and their peer reviews.
\<close>

definition sample_keys :: "unit answer_keys" where
  "sample_keys = \<lparr>keyring_setting = [], parse_keyring = (\<lambda>s. Inl CwTypeError),
     decrypt_answer = (\<lambda>e c h q k. Inl CwTypeError), course_slug = [], homework_slug = []\<rparr>"

definition sample_hw_question :: "int \<Rightarrow> string \<Rightarrow> string \<Rightarrow> string \<Rightarrow> hw_question" where
  "sample_hw_question k kind check answer = \<lparr>hq_id = k, hq_homework = 1, hq_text = ''Q'', question_type = kind,
     answer_type = Some check, possible_answers = Some ''a'', correct_answer = Some answer,
     source_question_id = None, source_option_ids = PNone, answer_envelope = PNone,
     scores_for_correct_answer = k\<rparr>"

definition sample_hw_submission :: "int \<Rightarrow> int \<Rightarrow> hw_submission" where
  "sample_hw_submission k e = \<lparr>hs_id = k, hs_homework = 1, hs_enrollment = e,
     learning_in_public_links = Some [''l'', ''m''], faq_contribution_url = None,
     time_spent_lectures = None, time_spent_homework = None, questions_score = 0, faq_score = 0,
     learning_in_public_score = 0, total_score = 0\<rparr>"

definition sample_answer :: "int \<Rightarrow> int \<Rightarrow> int \<Rightarrow> string \<Rightarrow> hw_answer" where
  "sample_answer k s q t = \<lparr>ha_id = k, ha_submission = s, ha_question = q, answer_text = Some t, is_correct = False\<rparr>"

definition sample_enrollment :: "int \<Rightarrow> bool \<Rightarrow> enrollment" where
  "sample_enrollment k off = \<lparr>en_id = k, en_course = 1, disable_learning_in_public = off, en_total_score = 0,
     position_on_leaderboard = None\<rparr>"

definition sample_cw :: cw_db where
  "sample_cw = \<lparr>cohorts = [\<lparr>co_id = 1, co_slug = ''ml'', co_course_slug = ''ml'', curriculum_format = ''legacy'',
       project_passing_score = 2, first_homework_scored = False\<rparr>],
     enrollments = [sample_enrollment 1 False, sample_enrollment 2 True],
     homeworks = [\<lparr>hw_id = 1, hw_course = 1, hw_slug = ''hw'', due_date = 3, hw_state = ''OP''\<rparr>],
     hw_questions = [sample_hw_question 1 ''CB'' ''INT'' ''1,2'', sample_hw_question 2 ''FF'' ''INT'' ''42''],
     hw_submissions = [sample_hw_submission 1 1, sample_hw_submission 2 2],
     hw_answers = [sample_answer 1 1 1 ''2,1'', sample_answer 2 1 2 '' 42 '', sample_answer 3 2 2 ''41''],
     hw_statistics = [], projects = [], project_submissions = [], criterias = [], criteria_assignments = [],
     peer_reviews = [], criteria_responses = [], evaluation_scores = [], project_votes = [],
     project_statistics = [], cached_pages = [''leaderboard:1''], cache_versions = []\<rparr>"


definition sample_work :: "int \<Rightarrow> int \<Rightarrow> project_submission" where
  "sample_work k e = \<lparr>ps_id = k, ps_project = 1, ps_enrollment = e, ps_links = Some [''l'', ''m'', ''n''],
     ps_faq_url = Some ''https://a'', ps_time_spent = None, project_score = 0, project_faq_score = 0,
     project_learning_in_public_score = 0, peer_review_score = 0, peer_review_learning_in_public_score = 0,
     ps_total_score = 0, reviewed_enough_peers = False, passed = False, volunteer_review_only = False\<rparr>"

definition sample_project :: "string \<Rightarrow> project" where
  "sample_project state = \<lparr>pr_id = 1, pr_course = 1, pr_state = state, submission_due_date = 3, peer_review_due_date = 4,
     learning_in_public_cap_project = 2, learning_in_public_cap_review = 1, number_of_peers_to_evaluate = 1,
     points_for_peer_review = 3\<rparr>"

definition sample_review :: "int \<Rightarrow> int \<Rightarrow> int \<Rightarrow> peer_review" where
  "sample_review k s r = \<lparr>rv_id = k, rv_submission = s, rv_reviewer = r, rv_links = Some [''l'', ''m''],
     optional = False, rv_state = ''SU''\<rparr>"

definition sample_criteria :: "int \<Rightarrow> string \<Rightarrow> criteria" where
  "sample_criteria k kind = \<lparr>cr_id = k, cr_course = Some 1, cr_options = [(''Poor'', 0), (''Fair'', 1), (''Good'', 2)],
     review_criteria_type = kind\<rparr>"

definition sample_response :: "int \<Rightarrow> int \<Rightarrow> int \<Rightarrow> string \<Rightarrow> criteria_response" where
  "sample_response k r c t = \<lparr>rs_id = k, rs_review = r, rs_criteria = c, rs_answer = Some t\<rparr>"

definition sample_reviewed :: "string \<Rightarrow> cw_db" where
  "sample_reviewed state = sample_cw\<lparr>
     enrollments := enrollments sample_cw @ [sample_enrollment 3 False],
     projects := [sample_project state],
     project_submissions := [sample_work 1 1, sample_work 2 2, sample_work 3 3],
     criterias := [sample_criteria 1 ''RB'', sample_criteria 2 ''CB'']\<rparr>"

definition sample_graded :: "string \<Rightarrow> cw_db" where
  "sample_graded last_answer = (sample_reviewed ''PR'')\<lparr>
     peer_reviews := [sample_review 1 2 1, sample_review 2 1 2, sample_review 3 1 3],
     criteria_responses := [sample_response 1 1 1 ''3'', sample_response 2 1 2 ''2,3'',
       sample_response 3 2 1 ''2'', sample_response 4 3 1 last_answer]\<rparr>"

definition sample_scored :: cw_db where
  "sample_scored = (case score_homework_submissions 5 sample_keys 1 False sample_cw of
     Inr (result, db) \<Rightarrow> db | Inl e \<Rightarrow> sample_cw)"

lemma sample_scoring:
  "score_homework_submissions 5 sample_keys 1 False sample_cw = Inr ((StatusOK, ''Homework 1 is scored''), sample_scored)"
proof -
  have "map_sum id fst (score_homework_submissions 5 sample_keys 1 False sample_cw)
      = Inr (StatusOK, ''Homework 1 is scored'')"
    by code_simp
  then show ?thesis unfolding sample_scored_def
    by (cases "score_homework_submissions 5 sample_keys 1 False sample_cw") (auto split: prod.splits)
qed

lemma sample_homework_keys: "homework_keys sample_cw"
  by (simp add: homework_keys_def sample_cw_def sample_hw_submission_def sample_answer_def sample_enrollment_def)

definition sample_completed :: cw_db where
  "sample_completed = (case score_project 5 1 (sample_graded ''3'') of
     Inr (result, db) \<Rightarrow> db | Inl e \<Rightarrow> sample_cw)"

definition sample_message :: string where
  "sample_message = scoring_message (sample_project ''PR'') 2 2"

lemma sample_project_scoring:
  "score_project 5 1 (sample_graded ''3'') = Inr ((StatusOK, sample_message), sample_completed)"
proof -
  have "map_sum id fst (score_project 5 1 (sample_graded ''3'')) = Inr (StatusOK, sample_message)"
    by code_simp
  then show ?thesis unfolding sample_completed_def
    by (cases "score_project 5 1 (sample_graded ''3'')") (auto split: prod.splits)
qed

end
