(* ===== verification/Cw_Properties.thy ===== *)
theory Cw_Properties
  imports Cw_Samples
begin

text \<open>
  The properties of the coursework components: answer checking, homework scoring, the leaderboard,
  peer-review assignment, project scoring and votes.
\<close>

subsection \<open>Lemmas on a scoring run\<close>

lemma scoring_run_OK:
  assumes "score_homework_submissions now keys hid force db = Inr ((StatusOK, message), db')"
  obtains h db1 where "get_row hw_id hid (homeworks db) = Inr h"
    "homework_scoring_error now keys h force db = Inr None"
    "score_and_persist keys hid db = Inr db1" "mark_homework_scored h db1 = Inr db'"
  using assms unfolding score_homework_submissions_def
  by (elim bind_res_InrE) (auto split: option.splits elim!: bind_res_InrE)

lemma answers_of_marked:
  assumes "s \<in> set (hw_submissions db)" and "hs_homework s = hid"
    and "hw_answers db' = map (\<lambda>a. if answers_homework db hid a then marked db keys a else a) (hw_answers db)"
    and "hs_id s' = hs_id s"
  shows "answers_of db' s' = map (marked db keys) (answers_of db s)"
proof -
  have mine: "answers_homework db hid a" if "ha_submission a = hs_id s" for a
    using that assms(1,2) by (auto simp: answers_homework_def homework_submissions_def)
  have "filter (\<lambda>a. ha_submission a = hs_id s) (map (\<lambda>a. if answers_homework db hid a then marked db keys a else a) xs)
      = map (marked db keys) (filter (\<lambda>a. ha_submission a = hs_id s) xs)" for xs
    using mine by (induction xs) auto
  then show ?thesis by (simp add: answers_of_def answers_by_submission_def assms(3,4))
qed






lemma py_str_one: "py_str_int 1 = ''1''"
  by code_simp


text \<open>
  A run that does not report success leaves the store as it was, and it refuses exactly when
  the due date is ahead, the homework is closed, it is already scored and the run is not forced, or
  a question that needs an answer resolves to a blank one.
\<close>

theorem homework_scoring_refused:
  assumes "score_homework_submissions now keys hid force db = Inr ((status, message), db')"
  shows "(status = StatusFail \<longrightarrow> db' = db)
    \<and> (\<exists>h \<in> set (homeworks db). hw_id h = hid
        \<and> (status = StatusFail \<longleftrightarrow> now < due_date h \<or> hw_state h = ''CL'' \<or> hw_state h = ''SC'' \<and> \<not> force
            \<or> (\<exists>q \<in> set (hw_questions db). hq_homework q = hid \<and> question_missing_answer db keys q = Inr True)))"
proof -
  obtain h failure where h: "get_row hw_id hid (homeworks db) = Inr h"
    and failure: "homework_scoring_error now keys h force db = Inr failure"
    using assms by (auto simp: score_homework_submissions_def elim!: bind_res_InrE)
  have result: "status = (case failure of None \<Rightarrow> StatusOK | Some m \<Rightarrow> StatusFail) \<and> (failure \<noteq> None \<longrightarrow> db' = db)"
    using assms h failure by (auto simp: score_homework_submissions_def split: option.splits elim!: bind_res_InrE)
  have hin: "h \<in> set (homeworks db)" "hw_id h = hid" using get_row_Inr [OF h] by auto
  have missing: "(missing \<noteq> []) \<longleftrightarrow> (\<exists>q \<in> set (hw_questions db). hq_homework q = hid \<and> question_missing_answer db keys q = Inr True)"
    if found: "questions_missing_correct_answer db keys h = Inr missing" for missing
  proof -
    let ?qs = "sort_key hq_id (filter (\<lambda>q. hq_homework q = hid) (hw_questions db))"
    obtain flags where flags: "map_res (question_missing_answer db keys) ?qs = Inr flags"
      "missing = map fst (filter snd (zip ?qs flags))"
      using found hin(2) by (cases "map_res (question_missing_answer db keys) ?qs")
        (auto simp: questions_missing_correct_answer_def Let_def)
    have each: "list_all2 (\<lambda>q b. question_missing_answer db keys q = Inr b) ?qs flags"
      using flags(1) by (simp add: map_res_Inr_iff)
    have "map fst (filter snd (zip qs bs)) \<noteq> [] \<longleftrightarrow> (\<exists>q \<in> set qs. question_missing_answer db keys q = Inr True)"
      if "list_all2 (\<lambda>q b. question_missing_answer db keys q = Inr b) qs bs" for qs bs
      using that by (induction rule: list_all2_induct) auto
    then show ?thesis using each flags(2) by auto
  qed
  have "failure \<noteq> None \<longleftrightarrow> now < due_date h \<or> hw_state h = ''CL'' \<or> hw_state h = ''SC'' \<and> \<not> force
      \<or> (\<exists>q \<in> set (hw_questions db). hq_homework q = hid \<and> question_missing_answer db keys q = Inr True)"
  proof (cases "now < due_date h \<or> hw_state h = ''CL'' \<or> hw_state h = ''SC'' \<and> \<not> force")
    case True
    then show ?thesis using failure by (auto simp: homework_scoring_error_def Let_def split: if_splits)
  next
    case False
    then have no: "\<not> now < due_date h" "hw_state h \<noteq> ''CL''" "\<not> (hw_state h = ''SC'' \<and> \<not> force)" by blast+
    note failure [unfolded homework_scoring_error_def Let_def if_not_P [OF no(1)] if_not_P [OF no(2)] if_not_P [OF no(3)]]
    then obtain found where found: "questions_missing_correct_answer db keys h = Inr found"
      "failure \<noteq> None \<longleftrightarrow> found \<noteq> []"
      by (elim bind_res_InrE) (auto split: if_splits)
    then show ?thesis using missing [OF found(1)] False by blast
  qed
  then show ?thesis using result hin by (cases failure) auto
qed

lemma homework_scoring_refused_witness:
  "score_homework_submissions 2 sample_keys 1 False sample_cw
     = Inr ((StatusFail, ''The due date for 1 is in the future. Update the due date to score.''), sample_cw)
   \<and> (\<exists>h \<in> set (homeworks sample_cw). 2 < due_date h)"
proof -
  have "score_homework_submissions 2 sample_keys 1 False sample_cw
     = Inr ((StatusFail, ''The due date for 1 is in the future. Update the due date to score.''), sample_cw)"
    by (simp add: score_homework_submissions_def sample_cw_def get_row_def homework_scoring_error_def
        py_str_one Let_def)
  with homework_scoring_refused [OF this] show ?thesis by (simp add: sample_cw_def)
qed

text \<open>
  C21 Updating the leaderboard gives every enrollment of the course the sum of its homework scores
  and of its project scores (volunteer reviewers' rows apart) and the rank one more than the number
  of enrollments of the course with a higher total, or the same total and a smaller id; it changes
  no other enrollment and drops the cached pages of the course.
\<close>

theorem leaderboard_ranks:
  assumes "distinct (map en_id (enrollments db))"
  shows "enrollments (update_leaderboard course db) = map (\<lambda>e. if en_course e = course
      then e\<lparr>en_total_score := enrollment_total course db (en_id e),
             position_on_leaderboard := Some (1 + int (card {a \<in> set (enrollments (update_leaderboard course db)).
               en_course a = course \<and> (enrollment_total course db (en_id e) < en_total_score a
                 \<or> enrollment_total course db (en_id e) = en_total_score a \<and> en_id a < en_id e)}))\<rparr>
      else e) (enrollments db)
    \<and> set (leaderboard_pages course) \<inter> set (cached_pages (update_leaderboard course db)) = {}"
proof -
  have pages: "set (leaderboard_pages course) \<inter> set (cached_pages (update_leaderboard course db)) = {}"
    by (auto simp: update_leaderboard_def invalidate_leaderboard_caches_def Let_def)
  have "ahead a (with_total course db e) \<longleftrightarrow> enrollment_total course db (en_id e) < en_total_score a
      \<or> enrollment_total course db (en_id e) = en_total_score a \<and> en_id a < en_id e" for a e
    by (auto simp: ahead_def leaderboard_key_def less_prod_def)
  then have rank: "ranked course db e = e\<lparr>en_total_score := enrollment_total course db (en_id e),
      position_on_leaderboard := Some (1 + int (card {a \<in> set (enrollments (update_leaderboard course db)).
        en_course a = course \<and> (enrollment_total course db (en_id e) < en_total_score a
          \<or> enrollment_total course db (en_id e) = en_total_score a \<and> en_id a < en_id e)}))\<rparr>" for e
    unfolding ranked_def ranked_position [OF assms] by (simp add: with_total_def)
  show ?thesis
    by (rule conjI [OF trans [OF enrollments_update_leaderboard [OF assms]] pages]) (simp only: rank)
qed

lemma leaderboard_ranks_witness:
  "''leaderboard:1'' \<notin> set (cached_pages (update_leaderboard 1 sample_cw))"
proof -
  have "distinct (map en_id (enrollments sample_cw))"
    using sample_homework_keys by (simp add: homework_keys_def)
  from leaderboard_ranks [OF this, of 1]
  have "set (leaderboard_pages 1) \<inter> set (cached_pages (update_leaderboard 1 sample_cw)) = {}" ..
  then show ?thesis by (auto simp: leaderboard_pages_def py_str_one)
qed

subsection \<open>Answers\<close>










text \<open>A double that is a positive integer exceeds the tolerance, zero does not.\<close>

lemma within_tolerance: "is_integer n x \<Longrightarrow> 0 \<le> n \<Longrightarrow> fl_le x float_tolerance \<longleftrightarrow> n = 0"
proof -
  assume x: "is_integer n x" and n: "0 \<le> n"
  obtain e where e: "e \<le> 0" "x = Fin (n * 2 ^ nat (- e)) e" using x by (auto simp: is_integer_def)
  have tolerance: "float_tolerance = Fin 5764607523034235 (- 59)" by code_simp
  define k where "k = min e (- 59)"
  define j where "j = nat (- 59 - k)"
  have "nat (- e) + nat (e - k) = 59 + j" "nat (- 59 - k) = j" using e(1) by (auto simp: k_def j_def)
  then have scale: "n * 2 ^ nat (- e) * 2 ^ nat (e - k) = n * 2 ^ 59 * 2 ^ j" "nat (- 59 - k) = j"
    by (simp_all only: mult.assoc flip: power_add)
  have "fl_le x float_tolerance \<longleftrightarrow> n * 2 ^ 59 * 2 ^ j \<le> 5764607523034235 * 2 ^ j"
    unfolding e(2) tolerance fl_le.simps Let_def k_def [symmetric] scale ..
  also have "\<dots> \<longleftrightarrow> n * 2 ^ 59 \<le> 5764607523034235" by simp
  also have "\<dots> \<longleftrightarrow> n = 0" using n by auto
  finally show ?thesis .
qed

text \<open>
  Two integers below \<open>2^52\<close> written in decimal are equal as float answers exactly when they are
  the same integer: no rounding error and no tolerance confuses them.
\<close>

theorem float_answers_exact:
  assumes "\<bar>a\<bar> < 2 ^ 52" and "\<bar>b\<bar> < 2 ^ 52"
  shows "is_float_equal (py_str_int a) (py_str_int b) \<longleftrightarrow> a = b"
proof -
  obtain x y where x: "py_float (py_str_int a) = Some x" "is_integer a x"
    and y: "py_float (py_str_int b) = Some y" "is_integer b y"
    using py_float_int [of a] py_float_int [of b] assms by auto
  have "\<bar>a + - b\<bar> < 2 ^ 53" using assms by auto
  then have "is_integer (a + - b) (fl_add x (fl_neg y))"
    using is_integer_add [OF x(2) is_integer_neg [OF y(2)]] by blast
  then have "is_integer \<bar>a - b\<bar> (fl_abs (fl_sub x y))"
    using is_integer_abs by (fastforce simp: fl_sub_def)
  then show ?thesis
    using within_tolerance by (simp add: is_float_equal_def x(1) y(1))
qed

lemma float_answers_exact_witness: "is_float_equal (py_str_int 41) (py_str_int 42) = (41 = (42 :: int))"
  by (rule float_answers_exact) simp_all

lemma joined_ints:
  assumes "xs \<noteq> []" and "\<forall>x \<in> set xs. \<bar>x\<bar> < 10 ^ 18"
  shows "map_res int_res (py_split (CHR '','') (py_join '','' (map py_str_int xs))) = Inr xs"
    and "py_join '','' (map py_str_int xs) \<noteq> []"
    and "py_strip (py_join '','' (map py_str_int xs)) = py_join '','' (map py_str_int xs)"
proof -
  have "py_split (CHR '','') (py_join [CHR '',''] (map py_str_int xs)) = map py_str_int xs"
    using assms(1) py_str_int_plain(2) by (intro py_split_join) auto
  moreover have "map_res int_res (map py_str_int xs) = Inr xs"
    using assms(2) by (induction xs) (auto simp: int_res_def py_int_str)
  ultimately show "map_res int_res (py_split (CHR '','') (py_join '','' (map py_str_int xs))) = Inr xs" by simp
  have sub: "c = CHR '','' \<or> \<not> py_space c" if "c \<in> set (py_join '','' (map py_str_int ys))" for c ys
    using that
  proof (induction ys)
    case (Cons y ys)
    then show ?case by (cases ys) (auto dest: py_str_int_plain(2))
  qed simp
  have none: "\<not> py_space c" if "c \<in> set (py_join '','' (map py_str_int xs))" for c
    using sub [OF that] by (auto simp: py_space_def)
  then show "py_strip (py_join '','' (map py_str_int xs)) = py_join '','' (map py_str_int xs)"
    using dropWhile_none [of "py_join '','' (map py_str_int xs)" py_space]
      dropWhile_none [of "rev (py_join '','' (map py_str_int xs))" py_space] by (simp add: py_strip_def)
  show "py_join '','' (map py_str_int xs) \<noteq> []"
    using assms(1) py_str_int_plain(1) by (cases xs; cases "tl xs") auto
qed

text \<open>
  For a database-managed checkbox question, the comma-joined indexes a student submits are
  correct exactly when they are the same set as the comma-joined indexes of the key: the order and
  repetitions do not matter, and every selected and every missing option does.
\<close>

theorem checkbox_round_trip:
  assumes "question_type q = ''CB''" and "answer_type q \<noteq> Some ''ANY''" and "answer_envelope q = PNone"
    and "correct_answer q = Some (py_join '','' (map py_str_int ys))" and "ys \<noteq> []" and "xs \<noteq> []"
    and "\<forall>x \<in> set xs \<union> set ys. \<bar>x\<bar> < 10 ^ 18"
  shows "is_answer_correct keys q (Some (py_join '','' (map py_str_int xs))) = Inr (set xs = set ys)"
proof -
  have "safe_split_to_int (Some (py_join '','' (map py_str_int xs))) = Inr xs"
    using joined_ints [of xs] assms(6,7) by (simp add: safe_split_to_int_def safe_split_def)
  moreover have "get_correct_answer_indices keys q = Inr (set ys)"
    using joined_ints [of ys] assms(3-5,7) by (simp add: get_correct_answer_indices_def resolve_correct_answer_def)
  ultimately show ?thesis
    using assms(1,2) by (simp add: is_answer_correct_def answer_check_def is_checkbox_answer_correct_def)
qed

lemma checkbox_round_trip_witness:
  "is_answer_correct sample_keys (sample_hw_question 1 ''CB'' ''INT'' (py_join '','' (map py_str_int [1, 3])))
     (Some (py_join '','' (map py_str_int [3, 1, 3]))) = Inr (set [3, 1, 3] = set [1, 3 :: int])"
  by (rule checkbox_round_trip) (simp_all add: sample_hw_question_def)

subsection \<open>Peer reviews\<close>







text \<open>
  The selection does not promise a reviewer to every submission: with three submissions and
  one review each, the last reviewer can be left with a pool that holds only their own work, and
  the fallback then gives the first submission a second review and the third one none.
\<close>

theorem left_out_submission:
  "select_random_assignment (\<lambda>c n. 0) [sample_work 1 1, sample_work 2 2, sample_work 3 3] 1
     = Inr [(0, 1), (1, 0), (2, 0)]"
  by code_simp

text \<open>
  Rounding a time up to the hour gives the least whole hour that is not earlier.
\<close>

lemma ceil_to_next_hour_least:
  "hours 1 dvd ceil_to_next_hour t \<and> t \<le> ceil_to_next_hour t \<and> ceil_to_next_hour t < t + hours 1
   \<and> (hours 1 dvd u \<and> t \<le> u \<longrightarrow> ceil_to_next_hour t \<le> u)"
proof -
  have h: "0 < hours 1" by (simp add: hours_def seconds_def)
  have r: "0 \<le> t mod hours 1" "t mod hours 1 < hours 1" using h by simp_all
  have up: "ceil_to_next_hour t = (if t mod hours 1 = 0 then hours 1 * (t div hours 1) else hours 1 * (t div hours 1 + 1))"
    using minus_mod_eq_mult_div [of t "hours 1"] by (auto simp: ceil_to_next_hour_def algebra_simps)
  then have dvd: "hours 1 dvd ceil_to_next_hour t" by simp
  have range: "t \<le> ceil_to_next_hour t" "ceil_to_next_hour t < t + hours 1"
    using r h by (auto simp: ceil_to_next_hour_def order.strict_iff_order)
  have "ceil_to_next_hour t \<le> u" if u: "hours 1 dvd u" "t \<le> u"
  proof (rule ccontr)
    assume "\<not> ceil_to_next_hour t \<le> u"
    then have "0 < ceil_to_next_hour t - u" "ceil_to_next_hour t - u < hours 1" using u(2) range(2) by auto
    moreover have "hours 1 dvd ceil_to_next_hour t - u" using dvd u(1) by simp
    ultimately show False using zdvd_not_zless by blast
  qed
  then show ?thesis using dvd range by blast
qed

subsection \<open>Project scoring\<close>

lemma project_run_OK:
  assumes "score_project now pid db = Inr ((StatusOK, message), db')"
  obtains p course calculation where "get_row pr_id pid (projects db) = Inr p"
    "get_row co_id (pr_course p) (cohorts db) = Inr course"
    "validate_project_scoreable now p (project_passing_score course) = None" "project_reviews p db \<noteq> []"
    "calculate_project_scoring db p (project_passing_score course) (project_reviews p db) = Inr calculation"
    "db' = complete_scored_project p (reviewed_ids (group_peer_reviews (project_reviews p db))) calculation db"
  using assms unfolding score_project_def Let_def
  by (elim bind_res_InrE) (auto split: option.splits if_splits sum.splits cw_err.splits)

text \<open>The score of the work that the evaluation rows of a submission add up to.\<close>

definition evaluated_work :: "cw_db \<Rightarrow> project_submission \<Rightarrow> int" where
  "evaluated_work db s = sum_list (map es_score (filter (\<lambda>x. es_submission x = ps_id s) (evaluation_scores db)))"

definition submitted_by :: "project \<Rightarrow> cw_db \<Rightarrow> project_submission \<Rightarrow> peer_review list" where
  "submitted_by p db s = filter (\<lambda>r. rv_state r = ''SU'' \<and> rv_reviewer r = ps_id s) (project_reviews p db)"

text \<open>
  C9 A successful run completes the project. Each submission that is under review gets the sum of
  its new evaluation rows as the score of the work, a FAQ point, the capped learning-in-public
  points, and the points for its submitted mandatory reviews; their sum is its total, and it passes
  exactly when the score of the work reaches the passing score of the course and it reviewed enough
  peers. No other submission changes.
\<close>

theorem project_scored:
  assumes run: "score_project now pid db = Inr ((StatusOK, message), db')"
    and keys: "distinct (map ps_id (project_submissions db))"
  shows "\<exists>p \<in> set (projects db). \<exists>course \<in> set (cohorts db).
      pr_id p = pid \<and> co_id course = pr_course p \<and> p\<lparr>pr_state := ''CO''\<rparr> \<in> set (projects db')
      \<and> project_submissions db' = map (\<lambda>s. if ps_id s \<in> rv_submission ` set (project_reviews p db)
          then graded p (project_passing_score course) (project_opted_out db s) (submitted_by p db s) (evaluated_work db' s) s
          else s) (project_submissions db)"
proof -
  obtain p course calculation where p: "get_row pr_id pid (projects db) = Inr p"
    and course: "get_row co_id (pr_course p) (cohorts db) = Inr course"
    and calc: "calculate_project_scoring db p (project_passing_score course) (project_reviews p db) = Inr calculation"
    and db': "db' = complete_scored_project p (reviewed_ids (group_peer_reviews (project_reviews p db))) calculation db"
    by (rule project_run_OK [OF run])
  define reviews where "reviews = project_reviews p db"
  define grade where "grade criteria = run_grade db p (project_passing_score course) reviews criteria" for criteria
  obtain criteria rows where rows: "map ps_id rows = first_seen (map rv_submission reviews)"
    "set rows \<subseteq> set (project_submissions db)"
    "submissions_to_update calculation = map (fst \<circ> grade criteria) rows"
    "new_evaluations calculation = concat (map (snd \<circ> grade criteria) rows)"
    "\<forall>s \<in> set rows. \<exists>r. score_submission db p (project_passing_score course) criteria
       (reviews_by_submission (group_peer_reviews reviews) (ps_id s)) (reviews_by_reviewer (group_peer_reviews reviews) (ps_id s)) s = Inr r"
    using calculate_project_scoring_Inr [OF calc keys] unfolding grade_def reviews_def by metis
  define under_review where "under_review s \<longleftrightarrow> ps_id s \<in> rv_submission ` set reviews" for s :: project_submission
  have set_rows: "set rows = {s \<in> set (project_submissions db). under_review s}"
  proof -
    have "under_review s \<longleftrightarrow> ps_id s \<in> set (map ps_id rows)" for s by (simp add: rows(1) under_review_def)
    then show ?thesis using rows(2) keys by (auto simp: distinct_map dest: inj_onD)
  qed
  have one: "fst (grade criteria s) = graded p (project_passing_score course) (project_opted_out db s)
        (submitted_by p db s) (sum_list (map es_score (snd (grade criteria s)))) s
      \<and> (\<forall>x \<in> set (snd (grade criteria s)). es_submission x = ps_id s)" if s: "s \<in> set rows" for s
  proof -
    obtain s' evs where r: "score_submission db p (project_passing_score course) criteria
       (reviews_by_submission (group_peer_reviews reviews) (ps_id s)) (reviews_by_reviewer (group_peer_reviews reviews) (ps_id s)) s
         = Inr (s', evs)" using rows(5) s by fast
    have "submitted_by p db s = reviews_by_reviewer (group_peer_reviews reviews) (ps_id s)"
      by (simp add: submitted_by_def group_peer_reviews_def reviews_def Let_def conj_commute)
    then show ?thesis using score_submission_Inr [OF r] r by (simp add: grade_def run_grade_def Let_def)
  qed
  have evaluations: "evaluated_work db' s = sum_list (map es_score (snd (grade criteria s)))" if s: "s \<in> set rows" for s
  proof -
    have "distinct rows" using rows(1) distinct_first_seen by (metis distinct_map)
    moreover have inj: "inj_on ps_id (set rows)" using rows(1) distinct_first_seen by (metis distinct_map)
    define E where "E sid = snd (grade criteria (the_inv_into (set rows) ps_id sid))" for sid
    have E: "E (ps_id t) = snd (grade criteria t)" if "t \<in> set rows" for t
      using the_inv_into_f_f [OF inj that] by (simp add: E_def)
    have new: "new_evaluations calculation = concat (map E (map ps_id rows))"
      unfolding rows(4) map_map by (intro arg_cong [of _ _ concat] map_cong) (simp_all add: E)
    have "filter (\<lambda>x. es_submission x = ps_id s) (concat (map E (map ps_id rows))) = E (ps_id s)"
    proof (rule filter_concat_own)
      show "distinct (map ps_id rows)" using rows(1) by simp
      show "ps_id s \<in> set (map ps_id rows)" using s by simp
      fix t x assume "t \<in> set (map ps_id rows)" "x \<in> set (E t)"
      then obtain u where "u \<in> set rows" "t = ps_id u" "x \<in> set (snd (grade criteria u))" using E by auto
      then show "es_submission x = t" using one by blast
    qed
    moreover have "ps_id s \<in> set (reviewed_ids (group_peer_reviews reviews))"
      using s by (auto simp: set_rows under_review_def group_peer_reviews_def Let_def)
    then have "filter (\<lambda>x. es_submission x \<notin> set (reviewed_ids (group_peer_reviews reviews)) \<and> es_submission x = ps_id s)
        (evaluation_scores db) = []" by (auto simp: filter_empty_conv)
    ultimately show ?thesis
      by (simp add: evaluated_work_def db' complete_scored_project_def replace_evaluation_scores_def new E [OF s]
          flip: reviews_def)
  qed
  have "project_submissions db' = bulk_update ps_id (submissions_to_update calculation) (project_submissions db)"
    by (simp add: db' complete_scored_project_def)
  also have "\<dots> = map (\<lambda>s. if under_review s then fst (grade criteria s) else s) (project_submissions db)"
    by (rule bulk_update_image [OF keys]) (use one in \<open>auto simp: rows(3) set_rows graded_def\<close>)
  also have "\<dots> = map (\<lambda>s. if under_review s then graded p (project_passing_score course) (project_opted_out db s)
      (submitted_by p db s) (evaluated_work db' s) s else s) (project_submissions db)"
    using one evaluations set_rows by (intro map_cong) auto
  finally have subs: "project_submissions db' = \<dots>" .
  have "p\<lparr>pr_state := ''CO''\<rparr> \<in> set (projects db')"
    using completed.changed_row_stored [OF conjunct1 [OF get_row_Inr [OF p]]] get_row_Inr [OF p]
    by (simp add: db' complete_scored_project_def)
  then show ?thesis
    using get_row_Inr [OF p] get_row_Inr [OF course] subs by (auto simp: under_review_def reviews_def)
qed

lemma project_scored_witness:
  "map ps_id (project_submissions sample_completed) = [1, 2, 3]"
proof -
  have "distinct (map ps_id (project_submissions (sample_graded ''3'')))"
    by (simp add: sample_graded_def sample_reviewed_def sample_work_def)
  from project_scored [OF sample_project_scoring this] show ?thesis
    by (auto simp: sample_graded_def sample_reviewed_def sample_work_def graded_def)
qed

lemma score_submission_parses:
  assumes "score_submission db p pts criteria reviews reviewed s = Inr r"
    and "review \<in> set reviews" and "x \<in> set (responses_of db review)"
  shows "\<exists>c indexes. get_row cr_id (rs_criteria x) (criterias db) = Inr c \<and> parse_answer_indexes x c = Inr indexes"
proof -
  define responses where "responses = concat (map (responses_of db) reviews)"
  have x: "x \<in> set responses" using assms(2,3) by (auto simp: responses_def)
  obtain work evs where "calculate_project_score db (ps_id s) criteria reviews = Inr (work, evs)"
    using assms(1) by (auto simp: score_submission_def elim!: bind_res_InrE)
  then obtain scored where "map_res (\<lambda>cid. score_project_criteria db (ps_id s) cid (filter (\<lambda>r. rs_criteria r = cid) responses))
      (first_seen (map rs_criteria responses)) = Inr scored"
    using assms(2) unfolding calculate_project_score_def Let_def responses_def [symmetric]
    by (cases "reviews = []") (auto elim!: map_sum_InrE)
  from map_res_each [OF this, of "rs_criteria x"] x obtain y where
    "score_project_criteria db (ps_id s) (rs_criteria x) (filter (\<lambda>r. rs_criteria r = rs_criteria x) responses) = Inr y"
    by auto
  then obtain c scores where c: "get_row cr_id (rs_criteria x) (criterias db) = Inr c"
    "map_res (\<lambda>r. get_score r c) (filter (\<lambda>r. rs_criteria r = rs_criteria x) responses) = Inr scores"
    by (auto simp: score_project_criteria_def elim!: bind_res_InrE)
  from map_res_each [OF c(2), of x] x obtain n where "get_score x c = Inr n" by auto
  then show ?thesis using c(1) by (auto simp: get_score_def get_scores_def elim!: map_sum_InrE)
qed

text \<open>
  C38 Project scoring is all or nothing: a run that reports a failure leaves the store as it was,
  and a run that reports success has read every response of every submitted review as a list of
  indexes of options of its criterion, so one unreadable stored answer fails the whole run.
\<close>

theorem project_scoring_all_or_nothing:
  assumes run: "score_project now pid db = Inr ((status, message), db')"
    and keys: "distinct (map ps_id (project_submissions db))"
  shows "(status = StatusFail \<longrightarrow> db' = db)
    \<and> (status = StatusOK \<longrightarrow> (\<exists>p \<in> set (projects db). pr_id p = pid \<and>
        (\<forall>review \<in> set (project_reviews p db). rv_state review = ''SU'' \<longrightarrow>
          (\<forall>x \<in> set (responses_of db review). \<exists>c \<in> set (criterias db). cr_id c = rs_criteria x
             \<and> (\<exists>indexes. parse_answer_indexes x c = Inr indexes
                  \<and> list_all (\<lambda>i. 1 \<le> i \<and> i \<le> length (cr_options c)) indexes)))))"
proof (cases status)
  case StatusFail
  then have "db' = db" using run unfolding score_project_def Let_def
    by (elim bind_res_InrE) (auto split: option.splits if_splits sum.splits cw_err.splits)
  then show ?thesis using StatusFail by simp
next
  case StatusOK
  obtain p and course :: cohort and calculation where p: "get_row pr_id pid (projects db) = Inr p"
    and calc: "calculate_project_scoring db p (project_passing_score course) (project_reviews p db) = Inr calculation"
    using run [unfolded StatusOK] by (rule project_run_OK) blast
  obtain criteria rows where ids: "map ps_id rows = first_seen (map rv_submission (project_reviews p db))"
    and scored: "\<forall>s \<in> set rows. \<exists>r. score_submission db p (project_passing_score course) criteria
       (reviews_by_submission (group_peer_reviews (project_reviews p db)) (ps_id s))
       (reviews_by_reviewer (group_peer_reviews (project_reviews p db)) (ps_id s)) s = Inr r"
    by (rule calculate_project_scoring_Inr [OF calc keys])
  have "\<exists>c \<in> set (criterias db). cr_id c = rs_criteria x \<and> (\<exists>indexes. parse_answer_indexes x c = Inr indexes
      \<and> list_all (\<lambda>i. 1 \<le> i \<and> i \<le> length (cr_options c)) indexes)"
    if review: "review \<in> set (project_reviews p db)" "rv_state review = ''SU''" and x: "x \<in> set (responses_of db review)"
    for review x
  proof -
    have "rv_submission review \<in> set (map ps_id rows)" using review(1) by (simp add: ids)
    then obtain s where s: "s \<in> set rows" "ps_id s = rv_submission review" by auto
    then have "review \<in> set (reviews_by_submission (group_peer_reviews (project_reviews p db)) (ps_id s))"
      using review by (simp add: group_peer_reviews_def Let_def)
    then obtain c indexes where c: "get_row cr_id (rs_criteria x) (criterias db) = Inr c"
      and indexes: "parse_answer_indexes x c = Inr indexes"
      using score_submission_parses scored s(1) x by metis
    have "list_all (\<lambda>i. 1 \<le> i \<and> i \<le> length (cr_options c)) indexes"
    proof (cases "rs_answer x = None \<or> rs_answer x = Some []")
      case True
      then show ?thesis using indexes by (auto simp: parse_answer_indexes_def)
    next
      case False
      then obtain t where "map_res (answer_index x c) (py_split (CHR '','') t) = Inr indexes"
        using indexes by (auto simp: parse_answer_indexes_def split: if_splits)
      then show ?thesis
        using answer_index_range by (fastforce simp: map_res_Inr_iff list_all2_conv_all_nth list_all_length)
    qed
    then show ?thesis using get_row_Inr [OF c] indexes by blast
  qed
  then show ?thesis using get_row_Inr [OF p] StatusOK by auto
qed

lemma project_scoring_all_or_nothing_witness:
  "\<exists>p \<in> set (projects (sample_graded ''3'')). pr_id p = 1"
proof -
  have "distinct (map ps_id (project_submissions (sample_graded ''3'')))"
    by (simp add: sample_graded_def sample_reviewed_def sample_work_def)
  from project_scoring_all_or_nothing [OF sample_project_scoring this] show ?thesis by auto
qed

text \<open>
  The score of a criterion lies between the lowest and the highest score its reviewers gave
  (each the sum of the options they selected, zero for none), and it is the value stored for the
  submission and the criterion.
\<close>

theorem criterion_score_between:
  assumes "score_project_criteria db sid cid responses = Inr (score, ev)"
  shows "ev = evaluation sid cid score
    \<and> (\<exists>c \<in> set (criterias db). cr_id c = cid \<and> (\<exists>low \<in> set responses. \<exists>high \<in> set responses. \<exists>a b.
          get_score low c = Inr a \<and> get_score high c = Inr b \<and> a \<le> score \<and> score \<le> b))"
proof -
  obtain c scores m where c: "get_row cr_id cid (criterias db) = Inr c"
    and scores: "map_res (\<lambda>r. get_score r c) responses = Inr scores"
    and m: "twice_median scores = Inr m" "score = ceil_half m"
    using score_project_criteria_Inr [OF assms] by blast
  obtain a b where ab: "a \<in> set scores" "b \<in> set scores" "a \<le> b" "m = a + b"
    using twice_median_bounds [OF m(1)] by blast
  have "\<exists>r \<in> set responses. get_score r c = Inr n" if "n \<in> set scores" for n
  proof -
    obtain i where "i < length scores" "n = scores ! i" using \<open>n \<in> set scores\<close> by (auto simp: in_set_conv_nth)
    then show ?thesis using scores by (auto simp: map_res_Inr_iff list_all2_conv_all_nth intro!: bexI [of _ "responses ! i"])
  qed
  then have "\<exists>low \<in> set responses. \<exists>high \<in> set responses. \<exists>a b.
      get_score low c = Inr a \<and> get_score high c = Inr b \<and> a \<le> score \<and> score \<le> b"
    using ab ceil_half_between [OF ab(3)] m(2) by blast
  moreover have "ev = evaluation sid cid score"
    using assms by (auto simp: score_project_criteria_def elim!: bind_res_InrE)
  ultimately show ?thesis using get_row_Inr [OF c] by blast
qed

lemma criterion_score_between_witness:
  "score_project_criteria (sample_graded ''3'') 1 1 [sample_response 3 2 1 ''1'', sample_response 4 3 1 ''2'']
     = Inr (1, evaluation 1 1 1)"
proof -
  have "score_project_criteria (sample_graded ''3'') 1 1 [sample_response 3 2 1 ''1'', sample_response 4 3 1 ''2'']
     = Inr (1, evaluation 1 1 1)" by code_simp
  from this criterion_score_between [OF this] show ?thesis by simp
qed

subsection \<open>Votes\<close>

text \<open>A sequence of calls, each on a stored submission.\<close>

fun run_votes :: "(int \<times> project_submission \<times> string) list \<Rightarrow> cw_db \<Rightarrow> (cw_err, cw_db) res" where
  "run_votes [] db = Inr db"
| "run_votes ((user, s, action) # calls) db = bind_res (update_project_vote user s action db) (run_votes calls)"

lemma update_project_vote_frame:
  "update_project_vote user s action db = Inr db' \<Longrightarrow> project_submissions db' = project_submissions db"
  by (erule update_project_vote_cases) auto

text \<open>
  C28 However the votes of a cohort are cast and withdrawn, no user ever holds more than three
  votes in a project or two votes for one submission; a cast vote is stored whenever the user has a
  vote left, casting it again changes nothing, and withdrawing removes exactly that vote.
\<close>

theorem vote_budget_kept:
  assumes "run_votes calls db = Inr db'" and "vote_budget db" and "distinct (map ps_id (project_submissions db))"
    and "(fst \<circ> snd) ` set calls \<subseteq> set (project_submissions db)" and "s \<in> set (project_submissions db)"
    and "update_project_vote user s action db' = Inr db''"
  shows "vote_budget db' \<and> vote_budget db''
    \<and> (if action = ''remove''
       then set (project_votes db'') = set (project_votes db') - {\<lparr>pv_submission = ps_id s, pv_voter = user\<rparr>}
       else (\<lparr>pv_submission = ps_id s, pv_voter = user\<rparr> \<in> set (project_votes db')
               \<or> length (votes_in_project user (ps_project s) db') = votes_per_project) \<and> db'' = db'
          \<or> project_votes db'' = project_votes db' @ [\<lparr>pv_submission = ps_id s, pv_voter = user\<rparr>])"
proof -
  have reach: "vote_budget db' \<and> project_submissions db' = project_submissions db"
    using assms(1-4)
  proof (induction calls db rule: run_votes.induct)
    case (2 user s action calls db)
    then obtain db1 where "update_project_vote user s action db = Inr db1" "run_votes calls db1 = Inr db'"
      by (auto elim!: bind_res_InrE)
    then show ?case
      using 2 update_project_vote_budget [of db s user action db1] update_project_vote_frame [of user s action db db1] by auto
  qed simp
  then have keys: "distinct (map ps_id (project_submissions db'))" "s \<in> set (project_submissions db')"
    using assms(3,5) by simp_all
  have next_ok: "vote_budget db''" using update_project_vote_budget reach keys assms(6) by blast
  have full: "length (votes_in_project user (ps_project s) db') \<le> votes_per_project"
    using reach by (simp add: vote_budget_def)
  have "if action = ''remove''
       then set (project_votes db'') = set (project_votes db') - {\<lparr>pv_submission = ps_id s, pv_voter = user\<rparr>}
       else (\<lparr>pv_submission = ps_id s, pv_voter = user\<rparr> \<in> set (project_votes db')
               \<or> length (votes_in_project user (ps_project s) db') = votes_per_project) \<and> db'' = db'
          \<or> project_votes db'' = project_votes db' @ [\<lparr>pv_submission = ps_id s, pv_voter = user\<rparr>]"
    using assms(6) full unfolding update_project_vote_def Let_def by (elim bind_res_InrE) (auto split: if_splits)
  then show ?thesis using reach next_ok by blast
qed

lemma vote_budget_kept_witness:
  "\<exists>db. update_project_vote 7 (sample_work 1 1) ''vote'' (sample_reviewed ''CO'') = Inr db \<and> vote_budget db"
proof -
  let ?db = "sample_reviewed ''CO''"
  have none: "project_votes ?db = []" by (simp add: sample_reviewed_def sample_cw_def)
  have "run_votes [] ?db = Inr ?db" by simp
  moreover have "vote_budget ?db" by (simp add: vote_budget_def votes_in_project_def none)
  moreover have "distinct (map ps_id (project_submissions ?db))" by (simp add: sample_reviewed_def sample_work_def)
  moreover have "(fst \<circ> snd) ` set [] \<subseteq> set (project_submissions ?db)" by simp
  moreover have "sample_work 1 1 \<in> set (project_submissions ?db)" by (simp add: sample_reviewed_def)
  moreover have "get_row pr_id (ps_project (sample_work 1 1)) (projects ?db) = Inr (sample_project ''CO'')"
    by (simp add: get_row_def sample_reviewed_def sample_project_def sample_work_def)
  then obtain db where "update_project_vote 7 (sample_work 1 1) ''vote'' ?db = Inr db"
    by (cases "votes_per_project \<le> length (votes_in_project 7 (ps_project (sample_work 1 1)) ?db)")
      (auto simp: update_project_vote_def Let_def none)
  ultimately have "vote_budget db" using vote_budget_kept [of "[]" ?db ?db "sample_work 1 1" 7 "''vote''" db] by simp
  with \<open>update_project_vote 7 (sample_work 1 1) ''vote'' ?db = Inr db\<close> show ?thesis by blast
qed

subsection \<open>Scoring again\<close>

lemma scored_run_tables:
  assumes run: "score_homework_submissions now keys hid force db = Inr ((StatusOK, message), db')"
    and keys: "homework_keys db"
  shows "homeworks db' = map (\<lambda>h. if hw_id h = hid then h\<lparr>hw_state := ''SC''\<rparr> else h) (homeworks db)"
    and "\<exists>course. cohorts db' = map (\<lambda>c. if co_id c = course then c\<lparr>first_homework_scored := True\<rparr> else c) (cohorts db)"
    and "\<exists>f. (\<forall>e. en_id (f e) = en_id e \<and> disable_learning_in_public (f e) = disable_learning_in_public e)
           \<and> enrollments db' = map f (enrollments db)"
    and "hw_questions db' = hw_questions db"
proof -
  obtain h db1 where h: "get_row hw_id hid (homeworks db) = Inr h"
    and scored: "score_and_persist keys hid db = Inr db1" and mark: "mark_homework_scored h db1 = Inr db'"
    using run by (rule scoring_run_OK) blast
  note effect = score_and_persist_effect(1) [OF scored keys] and frame = mark_homework_scored_frame [OF mark]
  show "homeworks db' = map (\<lambda>h. if hw_id h = hid then h\<lparr>hw_state := ''SC''\<rparr> else h) (homeworks db)"
    using scored_state.bulk_update_row [OF _ h] keys by (simp add: frame effect homework_keys_def)
  show "hw_questions db' = hw_questions db" by (simp add: frame effect)
  obtain c where c: "get_row co_id (hw_course h) (cohorts db) = Inr c"
    "cohorts db' = bulk_update co_id [c\<lparr>first_homework_scored := True\<rparr>] (cohorts db)"
    using mark by (auto simp: effect mark_homework_scored_def calculate_homework_statistics_def Let_def elim!: bind_res_InrE)
  have "cohorts db' = map (\<lambda>x. if co_id x = hw_course h then x\<lparr>first_homework_scored := True\<rparr> else x) (cohorts db)"
    using first_scored.bulk_update_row [OF _ c(1)] keys by (simp add: c(2) homework_keys_def)
  then show "\<exists>course. cohorts db' = map (\<lambda>c. if co_id c = course then c\<lparr>first_homework_scored := True\<rparr> else c) (cohorts db)"
    by blast
  define db2 where "db2 = db1\<lparr>homeworks := bulk_update hw_id [h\<lparr>hw_state := ''SC''\<rparr>] (homeworks db1)\<rparr>"
  have "enrollments db' = map (\<lambda>e. if en_course e = hw_course h then ranked (hw_course h) db2 e else e) (enrollments db)"
    using frame(5) enrollments_update_leaderboard [of db2 "hw_course h"] keys
    by (simp add: db2_def effect homework_keys_def)
  then show "\<exists>f. (\<forall>e. en_id (f e) = en_id e \<and> disable_learning_in_public (f e) = disable_learning_in_public e)
           \<and> enrollments db' = map f (enrollments db)"
    by (intro exI [of _ "\<lambda>e. if en_course e = hw_course h then ranked (hw_course h) db2 e else e"]) (simp add: ranked_def)
qed

lemma same_verdicts:
  assumes "score_homework_submissions now keys hid force db = Inr ((StatusOK, message), db')" and "homework_keys db"
  shows "verdict db' keys = verdict db keys" and "opted_out db' = opted_out db"
    and "question_points db' = question_points db"
proof -
  note tables = scored_run_tables [OF assms]
  obtain course where cohorts: "cohorts db' = map (\<lambda>c. if co_id c = course then c\<lparr>first_homework_scored := True\<rparr> else c) (cohorts db)"
    using tables(2) by blast
  have homework: "get_row hw_id k (homeworks db') = map_sum id (\<lambda>h. if hw_id h = hid then h\<lparr>hw_state := ''SC''\<rparr> else h)
      (get_row hw_id k (homeworks db))" for k
    unfolding tables(1) by (rule scored_state.get_row_changed)
  have cohort: "get_row co_id k (cohorts db') = map_sum id (\<lambda>c. if co_id c = course then c\<lparr>first_homework_scored := True\<rparr> else c)
      (get_row co_id k (cohorts db))" for k
    unfolding cohorts by (rule first_scored.get_row_changed)
  have "question_keys db' keys q = question_keys db keys q" for q
  proof (cases "get_row hw_id (hq_homework q) (homeworks db)")
    case (Inr h)
    then show ?thesis
      by (cases "get_row co_id (hw_course h) (cohorts db)") (auto simp: question_keys_def homework cohort)
  qed (simp add: question_keys_def homework)
  then show "verdict db' keys = verdict db keys"
    by (simp add: verdict_def [abs_def] tables(4))
  obtain f where f: "\<And>e. en_id (f e) = en_id e" "\<And>e. disable_learning_in_public (f e) = disable_learning_in_public e"
    "enrollments db' = map f (enrollments db)" using tables(3) by blast
  have "get_row en_id k (enrollments db') = map_sum id f (get_row en_id k (enrollments db))" for k
    unfolding f(3) by (rule get_row_map) (rule f(1))
  then show "opted_out db' = opted_out db"
    by (auto simp: opted_out_def [abs_def] map_sum_def f(2) fun_eq_iff split: sum.splits)
  show "question_points db' = question_points db"
    by (simp add: question_points_def [abs_def] tables(4))
qed

text \<open>
  Scoring overwrites: a forced second run, at whatever time, that reports success leaves every
  submission and every answer exactly as the first run wrote them, so a retried job applies no score
  twice.
\<close>

theorem rescoring_overwrites:
  assumes first: "score_homework_submissions now keys hid force db = Inr ((StatusOK, message), db1)"
    and second: "score_homework_submissions later keys hid force' db1 = Inr ((StatusOK, message'), db2)"
    and unique: "homework_keys db"
  shows "hw_submissions db2 = hw_submissions db1 \<and> hw_answers db2 = hw_answers db1"
proof -
  have written: "hw_answers d' = map (\<lambda>a. if answers_homework d hid a then marked d keys a else a) (hw_answers d)
      \<and> hw_submissions d' = map (\<lambda>s. if hs_homework s = hid then rescored d keys s else s) (hw_submissions d)"
    if run: "score_homework_submissions t keys hid f d = Inr ((StatusOK, m), d')" and unique: "homework_keys d" for t f d m d'
  proof -
    obtain h e where e: "score_and_persist keys hid d = Inr e" "mark_homework_scored h e = Inr d'"
      using run by (rule scoring_run_OK) blast
    show ?thesis
      by (simp add: mark_homework_scored_frame [OF e(2)] score_and_persist_effect(1) [OF e(1) unique])
  qed
  note one = written [OF first unique] and same = same_verdicts [OF first unique]
  have same_ids: "map hs_id (hw_submissions db1) = map hs_id (hw_submissions db)" "map ha_id (hw_answers db1) = map ha_id (hw_answers db)"
    using one by auto
  obtain f course where "\<forall>e. en_id (f e) = en_id e" "enrollments db1 = map f (enrollments db)"
    "cohorts db1 = map (\<lambda>c. if co_id c = course then c\<lparr>first_homework_scored := True\<rparr> else c) (cohorts db)"
    using scored_run_tables [OF first unique] by blast
  moreover have "homeworks db1 = map (\<lambda>h. if hw_id h = hid then h\<lparr>hw_state := ''SC''\<rparr> else h) (homeworks db)"
    using scored_run_tables [OF first unique] by blast
  ultimately have "map hw_id (homeworks db1) = map hw_id (homeworks db)" "map en_id (enrollments db1) = map en_id (enrollments db)"
    "map co_id (cohorts db1) = map co_id (cohorts db)" by auto
  then have unique1: "homework_keys db1" using unique same_ids by (simp add: homework_keys_def)
  note two = written [OF second unique1]
  have right: "is_right db1 keys (marked db keys a) = is_right db keys a" for a
    by (simp add: is_right_def same verdict_def)
  have mark: "marked db1 keys (marked db keys a) = marked db keys a" for a
    unfolding marked_def [of db1] right by (simp add: marked_def)
  have mine: "homework_submissions hid db1 = map (rescored db keys) (homework_submissions hid db)"
  proof -
    have "filter (\<lambda>s. hs_homework s = hid) (map (\<lambda>s. if hs_homework s = hid then rescored db keys s else s) xs)
        = map (rescored db keys) (filter (\<lambda>s. hs_homework s = hid) xs)" for xs by (induction xs) auto
    then show ?thesis using one by (simp add: homework_submissions_def)
  qed
  have homework: "answers_homework db1 hid a \<longleftrightarrow> answers_homework db hid a" for a
    by (auto simp: answers_homework_def mine)
  have answers: "hw_answers db2 = hw_answers db1"
  proof -
    have "answers_homework db hid (marked db keys a) = answers_homework db hid a" for a
      by (simp add: answers_homework_def)
    then show ?thesis using one two by (auto simp: homework mark)
  qed
  have "rescored db1 keys (rescored db keys s) = rescored db keys s" if s: "s \<in> set (hw_submissions db)" "hs_homework s = hid" for s
  proof -
    have "answers_of db1 (rescored db keys s) = map (marked db keys) (answers_of db s)"
      by (rule answers_of_marked [OF s]) (use one in simp_all)
    then have "answer_points db1 keys (answers_of db1 (rescored db keys s)) = answer_points db keys (answers_of db s)"
      by (simp add: answer_points_def comp_def right same cong: if_cong)
    moreover have "opted_out db1 (rescored db keys s) = opted_out db s" by (simp add: same opted_out_def)
    ultimately show ?thesis
      by (auto simp: rescored_def scored_submission_def stored_lip_def stored_faq_def lip_points_def faq_points_def)
  qed
  then have "hw_submissions db2 = hw_submissions db1" using one two by auto
  with answers show ?thesis by blast
qed

lemma rescoring_overwrites_witness:
  "\<exists>db2. score_homework_submissions 9 sample_keys 1 True sample_scored = Inr ((StatusOK, ''Homework 1 is scored''), db2)
     \<and> hw_submissions db2 = hw_submissions sample_scored"
proof -
  have "map_sum id fst (score_homework_submissions 9 sample_keys 1 True sample_scored) = Inr (StatusOK, ''Homework 1 is scored'')"
    by code_simp
  then obtain db2 where "score_homework_submissions 9 sample_keys 1 True sample_scored = Inr ((StatusOK, ''Homework 1 is scored''), db2)"
    by (cases "score_homework_submissions 9 sample_keys 1 True sample_scored") auto
  with rescoring_overwrites [OF sample_scoring this sample_homework_keys] show ?thesis by blast
qed

end
