(* ===== verification/Core_Data.thy ===== *)
theory Core_Data
  imports Job_Queue
begin

text \<open>
  What the management services share: the errors they raise, users with their explicit permissions
  and identity states (\<open>accounts_ext/models.py\<close>, \<open>accounts/identity_resolution.py\<close>,
  \<open>has_explicit_permission\<close>), the rows of \<open>core/models.py\<close> and \<open>management_auth/models.py\<close>, the
  capability declarations of \<open>core/capabilities.py\<close>, and the optimistic \<open>RevisionedModel.save\<close>.

  An operation that raises inside \<open>transaction.atomic\<close> returns \<open>Inl\<close>, so the caller keeps the store
  from before the call. A request reads the clock once (\<open>now\<close>).
\<close>

named_theorems mg_simps "selectors and row functions of the management store"

subsection \<open>Errors\<close>

datatype site_err =
    Value_Error string
  | Type_Error
  | Unsafe_Json
  | Permission_Error string
  | State_Conflict string
  | Revision_Conflict int int
  | Does_Not_Exist
  | Integrity_Error
  | Immutable_Identity string
  | Creation_Failed string
  | Idempotency_Conflict string
  | Idempotency_In_Progress string
  | Idempotency_Fence_Lost string
  | Secret_Unavailable pyval
  | Rate_Limit_Exceeded int
  | Runtime_Error string
  | High_Risk_Denied string
  | Webhook_Error string
  | Command_Failed
  | Api_Error int string "(string \<times> string) list" "pyval option"

subsection \<open>Transactions\<close>

text \<open>
  Code outside a transaction keeps what it wrote when it raises: its answer comes with the store in
  either case. \<open>atomic\<close> is one \<open>transaction.atomic\<close> block inside such code.
\<close>

definition atomic :: "('s \<Rightarrow> ('e, 'a \<times> 's) res) \<Rightarrow> 's \<Rightarrow> ('e, 'a) res \<times> 's" where
  "atomic run db = (case run db of Inl e \<Rightarrow> (Inl e, db) | Inr (x, db') \<Rightarrow> (Inr x, db'))"

definition bind_kept :: "('e, 'a) res \<times> 's \<Rightarrow> ('a \<Rightarrow> 's \<Rightarrow> ('e, 'b) res \<times> 's) \<Rightarrow> ('e, 'b) res \<times> 's" where
  "bind_kept m f = (case m of (Inl e, db) \<Rightarrow> (Inl e, db) | (Inr x, db) \<Rightarrow> f x db)"

lemma bind_kept_simps [simp]:
  "bind_kept (Inl e, db) f = (Inl e, db)" "bind_kept (Inr x, db) f = f x db"
  by (simp_all add: bind_kept_def)

lemma bind_kept_InrE [elim]:
  assumes "bind_kept m f = (Inr y, db')"
  obtains x db where "m = (Inr x, db)" and "f x db = (Inr y, db')"
  using assms by (cases m; cases "fst m") (auto simp: bind_kept_def)

lemma atomic_Inr: "atomic run db = (Inr x, db') \<longleftrightarrow> run db = Inr (x, db')"
  by (auto simp: atomic_def split: sum.splits)

lemma atomic_Inl: "atomic run db = (Inl e, db') \<longleftrightarrow> run db = Inl e \<and> db' = db"
  by (auto simp: atomic_def split: sum.splits)

subsection \<open>External code\<close>

text \<open>
  The functions of \<open>community_base.kernel\<close>, of Django's password hasher and of \<open>hashlib\<close> the services
  call, as the fields of one record every operation takes.
\<close>

record externals =
  fenced_hash :: "string \<Rightarrow> int list list \<Rightarrow> string"
  json_bytes :: "pyval \<Rightarrow> (site_err, int list) res"
  canonical_object :: "pyval \<Rightarrow> (site_err, pyval) res"
  canonical_json :: "pyval \<Rightarrow> (site_err, pyval) res"
  validate_identifier :: "string \<Rightarrow> (site_err, string) res"
  core_key_bytes :: nat
  redact_value :: "pyval \<Rightarrow> pyval"
  redact_text :: "string \<Rightarrow> string"
  sensitive :: "string \<Rightarrow> bool"
  valid_actor_ref :: "string \<Rightarrow> bool"
  hash_secret :: "nat \<Rightarrow> string \<Rightarrow> string"
  check_secret :: "string \<Rightarrow> string \<Rightarrow> bool option"
  sha256 :: "int list \<Rightarrow> string"
  hmac_sha256 :: "int list \<Rightarrow> int list \<Rightarrow> string"

subsection \<open>Rows\<close>

record user =
  user_id :: int
  user_active :: bool
  user_staff :: bool
  user_email :: string
  user_full_name :: string
  identity_row :: "string option"
  user_permissions :: "(string \<times> string) list"
  user_groups :: "(string \<times> string) list list"

datatype principal_kind = Human | Service

record principal =
  principal_id :: uuid
  principal_kind :: principal_kind
  principal_name :: string
  identity_snapshot :: string
  principal_active :: bool
  principal_user :: "int option"
  principal_creator :: "int option"
  principal_created :: datetime
  principal_updated :: datetime
  principal_revision :: int

record credential =
  credential_id :: uuid
  credential_principal :: uuid
  credential_name :: string
  credential_prefix :: string
  secret_digest :: string
  digest_algorithm :: string
  digest_version :: int
  credential_scopes :: "string list"
  credential_expires :: datetime
  credential_revoked :: "datetime option"
  credential_rotated :: "datetime option"
  overlap_expires :: "datetime option"
  predecessor :: "uuid option"
  last_used :: "datetime option"
  credential_creator :: "int option"
  credential_created :: datetime
  credential_updated :: datetime
  credential_revision :: int

datatype idempotency_status = In_Progress | Completed

record management_record =
  mr_id :: uuid
  mr_principal :: uuid
  mr_operation :: string
  mr_key_hash :: string
  mr_request_hash :: string
  mr_status :: idempotency_status
  mr_safe_result :: "pyval option"
  mr_owner :: uuid
  mr_created :: datetime
  mr_completed :: "datetime option"
  mr_expires :: datetime

record idempotency_record =
  ir_id :: uuid
  ir_scope :: string
  ir_key_hash :: string
  ir_request_hash :: string
  ir_status :: idempotency_status
  ir_owner :: uuid
  ir_result :: "pyval option"
  ir_created :: datetime
  ir_completed :: "datetime option"

datatype cost_class = Read_Cost | Write_Cost | Adaptive_Cost

record rate_admission =
  ra_principal :: "uuid option"
  ra_subject :: string
  ra_class :: cost_class
  ra_cost :: int
  ra_created :: datetime

record rate_subject =
  rs_subject :: string
  rs_class :: cost_class
  rs_revision :: int

record staff_session =
  ss_id :: uuid
  ss_user :: int
  ss_authenticated :: datetime
  ss_last_seen :: "datetime option"
  ss_revoked :: "datetime option"

record audit_row =
  au_actor_id :: "int option"
  au_principal :: "uuid option"
  au_actor_ref :: string
  au_action :: string
  au_target_type :: string
  au_target_id :: "uuid option"
  au_target_label :: string
  au_outcome :: string
  au_key_hash :: string
  au_changes :: pyval
  au_metadata :: pyval

text \<open>A registered source of content, with the columns the webhook reads.\<close>

record content_source =
  source_id :: uuid
  source_owner :: string
  source_name :: string
  source_branch :: string
  source_adapter :: string
  source_enabled :: bool

record site_db =
  users :: "user list"
  permission_rows :: "(string \<times> string) list"
  principals :: "principal list"
  grants :: "(uuid \<times> string \<times> string) list"
  credentials :: "credential list"
  management_records :: "management_record list"
  idempotency_records :: "idempotency_record list"
  admissions :: "rate_admission list"
  subjects :: "rate_subject list"
  staff_sessions :: "staff_session list"
  audit_rows :: "audit_row list"
  content_sources :: "content_source list"
  job_intents :: "job list"

subsection \<open>Users\<close>

definition get_user :: "int \<Rightarrow> site_db \<Rightarrow> user option" where
  "get_user i db = List.find (\<lambda>u. user_id u = i) (users db)"

definition identity_state_of :: "user \<Rightarrow> string" where
  "identity_state_of u = (case identity_row u of None \<Rightarrow> ''legacy'' | Some s \<Rightarrow> s)"

definition identity_state_eligible :: "user \<Rightarrow> bool" where
  "identity_state_eligible u \<longleftrightarrow> identity_state_of u \<in> {''legacy'', ''active''}"

text \<open>\<open>permission.split(".", 1)\<close> unpacked into two names: \<open>None\<close> is the \<open>ValueError\<close>.\<close>

definition split_permission :: "string \<Rightarrow> (string \<times> string) option" where
  "split_permission p =
     (if CHR ''.'' \<in> set p
      then Some (takeWhile (\<lambda>c. c \<noteq> CHR ''.'') p, tl (dropWhile (\<lambda>c. c \<noteq> CHR ''.'') p)) else None)"

definition has_explicit_permission :: "user \<Rightarrow> string \<Rightarrow> bool" where
  "has_explicit_permission u permission = (case split_permission permission of
     None \<Rightarrow> False
   | Some p \<Rightarrow> p \<in> set (user_permissions u) \<or> list_ex (\<lambda>g. p \<in> set g) (user_groups u))"

subsection \<open>Capabilities\<close>

datatype service_kind = Query | Command
datatype idempotency_policy = No_Idempotency | Optional_Idempotency | Required_Idempotency
datatype concurrency_policy = No_Concurrency | Revision_Concurrency | If_Match

text \<open>
  A policy hook may raise (\<open>None\<close>); the services compare what it returns with \<open>is True\<close>, so a policy is
  whether it returned exactly \<open>True\<close>. The actor of a hook is the principal of the API call.
\<close>

record capability =
  cap_key :: string
  cap_kind :: service_kind
  cap_permission :: string
  cap_method :: string
  cap_writable :: "string list"
  cap_filters :: "string list"
  cap_sorts :: "string list"
  cap_rate_class :: "string option"
  cap_rate_cost :: int
  cap_api_test_only :: bool
  cap_idempotency :: idempotency_policy
  cap_concurrency :: concurrency_policy
  cap_audit_action :: string
  cap_function_policy :: "(principal \<Rightarrow> credential \<Rightarrow> bool option) option"
  cap_field_policy :: "(principal \<Rightarrow> string \<Rightarrow> bool option) option"
  cap_high_risk :: "string option"
  cap_test_only :: bool

text \<open>\<open>CAPABILITY_REGISTRY.get(key)\<close>.\<close>

type_synonym registry = "string \<Rightarrow> capability option"

end
