(* ===== verification/Core_Audit.thy ===== *)
theory Core_Audit
  imports Core_Data
begin

text \<open>
  The optimistic write of \<open>core/models.py\<close> (\<open>RevisionedModel.save\<close>), the read that precedes it and the audit trail
  (\<open>core/audit.py\<close>, \<open>record_audit_event\<close>). The ids of the running request (\<open>request_id\<close>,
  \<open>correlation_id\<close>, \<open>job_id\<close>) and the \<open>source_ip_class\<close>, which no modelled caller sets, are left out.
\<close>

subsection \<open>RevisionedModel.save\<close>

text \<open>
  \<open>copy instance\<close> copies the \<open>update_fields\<close> of the instance, \<open>revision\<close> among them, into the row.
\<close>

definition save_revisioned ::
    "('r \<Rightarrow> uuid) \<Rightarrow> ('r \<Rightarrow> int) \<Rightarrow> ('r \<Rightarrow> 'r \<Rightarrow> 'r) \<Rightarrow> 'r \<Rightarrow> 'r list \<Rightarrow> (site_err, 'r list) res" where
  "save_revisioned key counter copy self rows =
     (if counter self < 2 then Inl (Value_Error ''revisioned updates must increment revision exactly once'')
      else
        let expected_revision = counter self - 1;
            matched = (\<lambda>r. key r = key self \<and> counter r = expected_revision)
        in if count_where matched rows \<noteq> 1
           then (case List.find (\<lambda>r. key r = key self) rows of
                   None \<Rightarrow> Inl Does_Not_Exist
                 | Some r \<Rightarrow> Inl (Revision_Conflict expected_revision (counter r)))
           else Inr (update_where matched (copy self) rows))"

text \<open>
  \<open>lock_revisioned\<close> of \<open>core/operations.py\<close>: the row a caller wants to write, if it still has the revision
  the caller read. \<open>scope\<close> is the filter of the query set a caller passes.
\<close>

definition lock_revisioned ::
    "('r \<Rightarrow> uuid) \<Rightarrow> ('r \<Rightarrow> int) \<Rightarrow> ('r \<Rightarrow> bool) \<Rightarrow> uuid \<Rightarrow> int \<Rightarrow> 'r list \<Rightarrow> (site_err, 'r) res" where
  "lock_revisioned key counter scope i expected_revision rows =
     (if expected_revision < 1 then Inl (Value_Error ''expected revision must be positive'')
      else case List.find (\<lambda>r. scope r \<and> key r = i) rows of
        None \<Rightarrow> Inl Does_Not_Exist
      | Some r \<Rightarrow>
          if counter r \<noteq> expected_revision
          then Inl (Revision_Conflict expected_revision (counter r)) else Inr r)"

lemma lock_revisioned_Inr:
  assumes "lock_revisioned key counter scope i expected rows = Inr r"
  shows "r \<in> set rows" and "key r = i" and "counter r = expected" and "1 \<le> expected" and "scope r"
  using assms by (auto simp: lock_revisioned_def split: if_splits option.splits dest: find_Some)

lemma lock_of_row:
  assumes distinct: "distinct (map key rows)" and x: "x \<in> set rows"
  shows "lock_revisioned key counter scope (key x) expected rows =
    (if expected < 1 then Inl (Value_Error ''expected revision must be positive'')
     else if \<not> scope x then Inl Does_Not_Exist
     else if counter x \<noteq> expected then Inl (Revision_Conflict expected (counter x)) else Inr x)"
proof -
  have same: "y = x" if "y \<in> set rows" "key y = key x" for y
    using distinct_key_eq [OF distinct that(1) x that(2)] .
  have "List.find (\<lambda>r. scope r \<and> key r = key x) rows = (if scope x then Some x else None)"
  proof (cases "List.find (\<lambda>r. scope r \<and> key r = key x) rows")
    case None
    then show ?thesis using x by (auto simp: find_None_iff)
  next
    case (Some y)
    from find_Some [OF this] have "scope y" "key y = key x" "y \<in> set rows" by simp_all
    then show ?thesis using same Some by auto
  qed
  then show ?thesis by (simp add: lock_revisioned_def)
qed

locale revisioned =
  fixes key :: "'r \<Rightarrow> uuid" and counter :: "'r \<Rightarrow> int" and copy :: "'r \<Rightarrow> 'r \<Rightarrow> 'r"
  assumes copy_key: "key (copy self r) = key r"
    and copy_counter: "counter (copy self r) = counter self"
begin

lemma keys_saved: "save_revisioned key counter copy self rows = Inr rows' \<Longrightarrow> map key rows' = map key rows"
  by (auto simp: save_revisioned_def Let_def update_where_def copy_key split: if_splits option.splits)

lemma matched_once:
  assumes "distinct (map key rows)" and "r \<in> set rows" and "key r = k"
  shows "count_where (\<lambda>x. key x = k \<and> P x) rows = (if P r then 1 else 0)"
proof -
  have "filter (\<lambda>x. key x = k) rows = [r]"
    using assms
  proof (induction rows)
    case (Cons a rows)
    show ?case
    proof (cases "a = r")
      case True
      with Cons.prems have "filter (\<lambda>x. key x = k) rows = []"
        by (auto simp: filter_empty_conv intro!: rev_image_eqI)
      with True Cons.prems show ?thesis by simp
    next
      case False
      with Cons.prems have "key a \<noteq> k" by (auto intro: rev_image_eqI)
      with False Cons show ?thesis by simp
    qed
  qed simp
  moreover have "filter (\<lambda>x. key x = k \<and> P x) rows = filter P (filter (\<lambda>x. key x = k) rows)"
    by (simp add: conj_commute)
  ultimately show ?thesis by (simp add: count_where_def)
qed

text \<open>The write goes through exactly when the row still has the preceding revision.\<close>

lemma saved:
  assumes "distinct (map key rows)" and "r \<in> set rows" and "key self = key r" and "counter self = counter r + 1"
    and "1 \<le> counter r"
  shows "save_revisioned key counter copy self rows = Inr (map (\<lambda>x. if key x = key r then copy self r else x) rows)"
proof -
  have "x = r" if "x \<in> set rows" "key x = key r" for x
    using that assms(1,2) by (auto simp: distinct_map dest: inj_onD)
  then have "update_where (\<lambda>x. key x = key r \<and> counter x = counter r) (copy self) rows
      = map (\<lambda>x. if key x = key r then copy self r else x) rows"
    by (auto simp: update_where_def)
  then show ?thesis
    using matched_once [OF assms(1,2) refl, of "\<lambda>x. counter x = counter r"] assms(3-5)
    by (simp add: save_revisioned_def)
qed

lemma stale:
  assumes "distinct (map key rows)" and "r \<in> set rows" and "key self = key r" and "counter self \<noteq> counter r + 1"
    and "2 \<le> counter self"
  shows "save_revisioned key counter copy self rows = Inl (Revision_Conflict (counter self - 1) (counter r))"
proof -
  have "List.find (\<lambda>x. key x = key r) rows = Some r"
    using assms(1,2) by (induction rows) auto
  then show ?thesis
    using matched_once [OF assms(1,2) refl, of "\<lambda>x. counter x = counter self - 1"] assms(3-5)
    by (simp add: save_revisioned_def)
qed

end

subsection \<open>record_audit_event\<close>

definition lower_letter :: "char \<Rightarrow> bool" where
  "lower_letter c \<longleftrightarrow> (let n = (of_char c :: nat) in 97 \<le> n \<and> n \<le> 122)"

definition ascii_digit :: "char \<Rightarrow> bool" where
  "ascii_digit c \<longleftrightarrow> (let n = (of_char c :: nat) in 48 \<le> n \<and> n \<le> 57)"

text \<open>The pattern \<open>^[a-z][a-z0-9_.:-]{0,127}$\<close>, which the audit, the capabilities and the webhooks share.\<close>

definition identifier_ok :: "string \<Rightarrow> bool" where
  "identifier_ok s \<longleftrightarrow> s \<noteq> [] \<and> length s \<le> 128 \<and> lower_letter (hd s)
     \<and> list_all (\<lambda>c. lower_letter c \<or> ascii_digit c \<or> c \<in> set ''_.:-'') (tl s)"

definition hex_lower :: "char \<Rightarrow> bool" where
  "hex_lower c \<longleftrightarrow> ascii_digit c \<or> (let n = (of_char c :: nat) in 97 \<le> n \<and> n \<le> 102)"

text \<open>\<open>^[0-9a-f]{64}$\<close>.\<close>

definition sha256_ok :: "string \<Rightarrow> bool" where
  "sha256_ok s \<longleftrightarrow> length s = 64 \<and> list_all hex_lower s"

record audit_context =
  ac_actor_id :: "int option"
  ac_principal :: "uuid option"
  ac_actor_ref :: string
  ac_key_hash :: string

definition validated :: "externals \<Rightarrow> audit_context \<Rightarrow> (site_err, audit_context) res" where
  "validated X context =
     bind_res (guard_res (ac_actor_ref context = [] \<or> valid_actor_ref X (ac_actor_ref context))
       (Value_Error ''actor_ref is invalid'')) (\<lambda>_.
     bind_res (guard_res (ac_key_hash context = [] \<or> sha256_ok (ac_key_hash context))
       (Value_Error ''idempotency_key_hash must be a lowercase SHA-256 digest'')) (\<lambda>_.
     Inr context))"

definition redacted_json_object :: "externals \<Rightarrow> pyval \<Rightarrow> (site_err, pyval) res" where
  "redacted_json_object X v = canonical_object X (redact_value X v)"

definition redacted_label :: "externals \<Rightarrow> string \<Rightarrow> string" where
  "redacted_label X v = take 255 (redact_text X v)"

definition record_audit_event ::
    "externals \<Rightarrow> string \<Rightarrow> string \<Rightarrow> string \<Rightarrow> audit_context \<Rightarrow> uuid option \<Rightarrow> string \<Rightarrow> pyval \<Rightarrow> pyval
       \<Rightarrow> site_db \<Rightarrow> (site_err, site_db) res" where
  "record_audit_event X action target_type outcome context target_id target_label changes metadata db =
     bind_res (guard_res (identifier_ok action) (Value_Error ''audit action must be a stable lowercase identifier'')) (\<lambda>_.
     bind_res (guard_res (identifier_ok target_type)
       (Value_Error ''audit target type must be a stable lowercase identifier'')) (\<lambda>_.
     bind_res (guard_res (outcome \<in> {''succeeded'', ''denied'', ''failed''}) (Value_Error ''audit outcome is invalid'')) (\<lambda>_.
     bind_res (validated X context) (\<lambda>context.
     bind_res (redacted_json_object X changes) (\<lambda>changes.
     bind_res (redacted_json_object X metadata) (\<lambda>metadata.
     Inr (db\<lparr>audit_rows := audit_rows db @
       [\<lparr>au_actor_id = ac_actor_id context, au_principal = ac_principal context,
         au_actor_ref = ac_actor_ref context, au_action = action, au_target_type = target_type,
         au_target_id = target_id, au_target_label = redacted_label X target_label, au_outcome = outcome,
         au_key_hash = ac_key_hash context, au_changes = changes, au_metadata = metadata\<rparr>]\<rparr>)))))))"

lemma record_audit_event_appends:
  assumes "record_audit_event X action target_type outcome context target_id target_label changes metadata db = Inr db'"
  obtains row where "au_action row = action" and "au_target_type row = target_type" and "au_outcome row = outcome"
    and "au_target_id row = target_id" and "au_principal row = ac_principal context"
    and "au_key_hash row = ac_key_hash context" and "db' = db\<lparr>audit_rows := audit_rows db @ [row]\<rparr>"
proof -
  from assms obtain c m where eq: "db' = db\<lparr>audit_rows := audit_rows db @
      [\<lparr>au_actor_id = ac_actor_id context, au_principal = ac_principal context,
        au_actor_ref = ac_actor_ref context, au_action = action, au_target_type = target_type,
        au_target_id = target_id, au_target_label = redacted_label X target_label, au_outcome = outcome,
        au_key_hash = ac_key_hash context, au_changes = c, au_metadata = m\<rparr>]\<rparr>"
    by (auto simp: record_audit_event_def validated_def bind_res_Inr_iff)
  show thesis by (rule that [OF _ _ _ _ _ _ eq]) simp_all
qed

end
