(* ===== verification/Mg_Tokens.thy ===== *)
theory Mg_Tokens
  imports Core_Audit
begin

text \<open>
  API tokens (\<open>management_auth/tokens.py\<close>): generation, parsing, and the digest of the secret. A token is
  \<open>dtca_v1_\<close>, sixteen characters of prefix, an underscore and 43 characters of secret, both in the
  URL-safe base64 alphabet, which contains the underscore as well. \<open>base64.urlsafe_b64encode\<close> is
  written out; the password hasher is a field of \<open>externals\<close>.
\<close>

subsection \<open>Base64\<close>

definition urlsafe_alphabet :: string where
  "urlsafe_alphabet = ''ABCDEFGHIJKLMNOPQRSTUVWXYZabcdefghijklmnopqrstuvwxyz0123456789-_''"

definition sextet_char :: "int \<Rightarrow> char" where
  "sextet_char n = urlsafe_alphabet ! nat n"

fun urlsafe_b64encode :: "int list \<Rightarrow> string" where
  "urlsafe_b64encode [] = []"
| "urlsafe_b64encode [a] = [sextet_char (a div 4), sextet_char (a mod 4 * 16), CHR ''='', CHR ''='']"
| "urlsafe_b64encode [a, b] =
     [sextet_char (a div 4), sextet_char (a mod 4 * 16 + b div 16), sextet_char (b mod 16 * 4), CHR ''='']"
| "urlsafe_b64encode (a # b # c # rest) =
     [sextet_char (a div 4), sextet_char (a mod 4 * 16 + b div 16), sextet_char (b mod 16 * 4 + c div 64),
      sextet_char (c mod 64)] @ urlsafe_b64encode rest"

text \<open>\<open>rstrip(b"=")\<close>.\<close>

definition base64url :: "int list \<Rightarrow> string" where
  "base64url raw = rev (dropWhile (\<lambda>c. c = CHR ''='') (rev (urlsafe_b64encode raw)))"

subsection \<open>Tokens\<close>

definition token_marker :: string where "token_marker = ''dtca_v1''"
definition prefix_bytes :: nat where "prefix_bytes = 12"
definition prefix_length :: nat where "prefix_length = 16"
definition secret_bytes :: nat where "secret_bytes = 32"
definition secret_length :: nat where "secret_length = 43"
definition prefix_collision_retries :: nat where "prefix_collision_retries = 5"
definition digest_algorithm_name :: string where "digest_algorithm_name = ''pbkdf2_sha256''"
definition digest_version_number :: int where "digest_version_number = 1"

lemmas token_constants = token_marker_def prefix_bytes_def prefix_length_def secret_bytes_def secret_length_def
  prefix_collision_retries_def digest_algorithm_name_def digest_version_number_def

record generated_token =
  token_raw :: string
  token_prefix :: string
  token_secret :: string

record parsed_token =
  parsed_prefix :: string
  parsed_secret :: string

text \<open>\<open>random_bytes\<close> is what the two calls of the generator return.\<close>

definition generate_token :: "int list \<Rightarrow> int list \<Rightarrow> (site_err, generated_token) res" where
  "generate_token prefix_random secret_random =
     (let prefix = base64url prefix_random; secret = base64url secret_random
      in if length prefix \<noteq> prefix_length \<or> length secret \<noteq> secret_length
         then Inl (Runtime_Error ''credential generator returned an invalid byte count'')
         else Inr \<lparr>token_raw = token_marker @ ''_'' @ prefix @ ''_'' @ secret,
                   token_prefix = prefix, token_secret = secret\<rparr>)"

text \<open>\<open>[A-Za-z0-9_-]\<close>.\<close>

definition token_char :: "char \<Rightarrow> bool" where
  "token_char c \<longleftrightarrow> (let n = (of_char c :: nat) in
     (65 \<le> n \<and> n \<le> 90) \<or> (97 \<le> n \<and> n \<le> 122) \<or> (48 \<le> n \<and> n \<le> 57) \<or> n = 95 \<or> n = 45)"

definition prefix_pattern :: "string \<Rightarrow> bool" where
  "prefix_pattern s \<longleftrightarrow> length s = prefix_length \<and> list_all token_char s"

definition secret_pattern :: "string \<Rightarrow> bool" where
  "secret_pattern s \<longleftrightarrow> length s = secret_length \<and> list_all token_char s"

text \<open>
  \<open>TOKEN_PATTERN.fullmatch\<close>: both groups have a fixed length, so there is one way to match.
\<close>

definition parse_token :: "pyval \<Rightarrow> parsed_token option" where
  "parse_token raw = (case raw of
     PStr s \<Rightarrow>
       let start = length token_marker + 1;
           prefix = take prefix_length (drop start s);
           separator = take 1 (drop (start + prefix_length) s);
           secret = drop (start + prefix_length + 1) s
       in if take start s = token_marker @ ''_'' \<and> prefix_pattern prefix \<and> separator = ''_'' \<and> secret_pattern secret
          then Some \<lparr>parsed_prefix = prefix, parsed_secret = secret\<rparr> else None
   | _ \<Rightarrow> None)"

subsection \<open>Digests\<close>

definition encode_secret :: "externals \<Rightarrow> nat \<Rightarrow> string \<Rightarrow> string" where
  "encode_secret X salt secret = hash_secret X salt secret"

text \<open>The hasher may raise \<open>TypeError\<close> or \<open>ValueError\<close> on a malformed digest (\<open>None\<close>).\<close>

definition verify_secret :: "externals \<Rightarrow> string \<Rightarrow> string \<Rightarrow> bool" where
  "verify_secret X secret encoded =
     (if take (length (digest_algorithm_name @ ''$'')) encoded \<noteq> digest_algorithm_name @ ''$'' then False
      else case check_secret X secret encoded of None \<Rightarrow> False | Some verified \<Rightarrow> verified)"

subsection \<open>A token is read back\<close>

lemma token_char_alphabet: "list_all token_char urlsafe_alphabet"
  by (simp add: urlsafe_alphabet_def token_char_def Let_def)

lemma sextet_char_ok:
  assumes "0 \<le> n" and "n < 64"
  shows "token_char (sextet_char n)" and "sextet_char n \<noteq> CHR ''=''"
proof -
  have "length urlsafe_alphabet = 64" by (simp add: urlsafe_alphabet_def)
  then have "sextet_char n \<in> set urlsafe_alphabet"
    using assms by (auto simp: sextet_char_def intro!: nth_mem)
  moreover have "CHR ''='' \<notin> set urlsafe_alphabet" by (simp add: urlsafe_alphabet_def)
  ultimately show "token_char (sextet_char n)" and "sextet_char n \<noteq> CHR ''=''"
    using token_char_alphabet by (auto simp: list_all_iff)
qed

definition byte_list :: "int list \<Rightarrow> bool" where
  "byte_list bs \<longleftrightarrow> list_all (\<lambda>b. 0 \<le> b \<and> b < 256) bs"

lemma sextets [simp]:
  assumes "0 \<le> a" "a < (256 :: int)" "0 \<le> b" "b < (256 :: int)"
  shows "a div 4 < 64" "0 \<le> a div 4" "a mod 4 * 16 < 64" "0 \<le> a mod 4 * 16"
    "a mod 4 * 16 + b div 16 < 64" "0 \<le> a mod 4 * 16 + b div 16"
    "b mod 16 * 4 < 64" "0 \<le> b mod 16 * 4"
    "b mod 16 * 4 + a div 64 < 64" "0 \<le> b mod 16 * 4 + a div 64" "b mod 64 < 64" "0 \<le> b mod 64"
  using assms by (simp_all; linarith)+

text \<open>The reference decoder: unpadded URL-safe base64 back to bytes.\<close>

definition char_sextet :: "char \<Rightarrow> int" where
  "char_sextet c = int (length (takeWhile (\<lambda>d. d \<noteq> c) urlsafe_alphabet))"

fun bytes_of_sextets :: "int list \<Rightarrow> int list" where
  "bytes_of_sextets (p # q # r # s # rest) =
     [p * 4 + q div 16, q mod 16 * 16 + r div 4, r mod 4 * 64 + s] @ bytes_of_sextets rest"
| "bytes_of_sextets [p, q, r] = [p * 4 + q div 16, q mod 16 * 16 + r div 4]"
| "bytes_of_sextets [p, q] = [p * 4 + q div 16]"
| "bytes_of_sextets _ = []"

definition urlsafe_b64decode :: "string \<Rightarrow> int list" where
  "urlsafe_b64decode s = bytes_of_sextets (map char_sextet s)"

fun sextets_of :: "int list \<Rightarrow> int list" where
  "sextets_of [] = []"
| "sextets_of [a] = [a div 4, a mod 4 * 16]"
| "sextets_of [a, b] = [a div 4, a mod 4 * 16 + b div 16, b mod 16 * 4]"
| "sextets_of (a # b # c # rest) =
     [a div 4, a mod 4 * 16 + b div 16, b mod 16 * 4 + c div 64, c mod 64] @ sextets_of rest"

lemma char_sextet_inverse:
  assumes "0 \<le> n" and "n < 64"
  shows "char_sextet (sextet_char n) = n"
proof -
  have "distinct urlsafe_alphabet" and "length urlsafe_alphabet = 64" by (simp_all add: urlsafe_alphabet_def)
  moreover have "takeWhile (\<lambda>d. d \<noteq> xs ! i) xs = take i xs" if "distinct xs" "i < length xs" for i and xs :: string
    using that by (induction xs arbitrary: i) (auto simp: nth_Cons split: nat.splits)
  ultimately show ?thesis using assms by (simp add: char_sextet_def sextet_char_def)
qed

lemma sextets_range: "byte_list bs \<Longrightarrow> list_all (\<lambda>n. 0 \<le> n \<and> n < 64) (sextets_of bs)"
  by (induction bs rule: sextets_of.induct) (simp_all add: byte_list_def, linarith+)

lemma base64url_sextets:
  assumes "byte_list bs"
  shows "base64url bs = map sextet_char (sextets_of bs)"
proof -
  have pad: "\<exists>k. urlsafe_b64encode bs = map sextet_char (sextets_of bs) @ replicate k (CHR ''='')"
    by (induction bs rule: urlsafe_b64encode.induct)
      (auto intro: exI [of _ 0] exI [of _ "Suc 0"] exI [of _ "Suc (Suc 0)"])
  then obtain k where k: "urlsafe_b64encode bs = map sextet_char (sextets_of bs) @ replicate k (CHR ''='')" ..
  have "\<forall>c \<in> set (rev (map sextet_char (sextets_of bs))). c \<noteq> CHR ''=''"
    using sextets_range [OF assms] sextet_char_ok(2) by (auto simp: list_all_iff)
  then have "dropWhile (\<lambda>c. c = CHR ''='') (rev (map sextet_char (sextets_of bs))) = rev (map sextet_char (sextets_of bs))"
    by (subst dropWhile_id_hd) (metis hd_in_set)
  moreover have "dropWhile (\<lambda>c. c = CHR ''='') (replicate k (CHR ''='') @ cs) = dropWhile (\<lambda>c. c = CHR ''='') cs" for cs
    by (induction k) simp_all
  ultimately show ?thesis by (simp add: base64url_def k)
qed

lemma sixteenth:
  assumes "0 \<le> b" and "b < (256 :: int)"
  shows "b div 16 div 16 = 0" and "b div 16 mod 16 = b div 16" and "b div 64 div 4 = 0" and "b div 64 mod 4 = b div 64"
  using assms by (simp_all add: div_mult2_eq [symmetric])

lemma bytes_of_sextets_of: "byte_list bs \<Longrightarrow> bytes_of_sextets (sextets_of bs) = bs"
proof (induction bs rule: sextets_of.induct)
  case (2 a)
  then show ?case by (simp add: byte_list_def)
next
  case (3 a b)
  have "(a mod 4 * 16 + b div 16) div 16 = a mod 4" "(a mod 4 * 16 + b div 16) mod 16 = b div 16"
    using 3 sixteenth [of b] by (simp_all add: byte_list_def)
  then show ?case by simp
next
  case (4 a b c rest)
  have "(a mod 4 * 16 + b div 16) div 16 = a mod 4" "(a mod 4 * 16 + b div 16) mod 16 = b div 16"
    "(b mod 16 * 4 + c div 64) div 4 = b mod 16" "(b mod 16 * 4 + c div 64) mod 4 = c div 64"
    using 4 sixteenth [of b] sixteenth [of c] by (simp_all add: byte_list_def)
  with 4 show ?case by (simp add: byte_list_def)
qed simp

lemma base64url_decode: "byte_list bs \<Longrightarrow> urlsafe_b64decode (base64url bs) = bs"
  using sextets_range [of bs]
  by (simp add: urlsafe_b64decode_def base64url_sextets map_idI char_sextet_inverse list_all_iff
      bytes_of_sextets_of cong: map_cong)

lemma base64url_token_chars: "byte_list bs \<Longrightarrow> list_all token_char (base64url bs)"
  using sextets_range [of bs] by (auto simp: base64url_sextets list_all_iff sextet_char_ok)

lemma length_sextets: "length (sextets_of bs) = (4 * length bs + 2) div 3"
  by (induction bs rule: sextets_of.induct) simp_all

lemma length_base64url: "byte_list bs \<Longrightarrow> length (base64url bs) = (4 * length bs + 2) div 3"
  by (simp add: base64url_sextets length_sextets)

lemma generate_token_total:
  assumes "byte_list p" "length p = prefix_bytes" "byte_list s" "length s = secret_bytes"
  shows "generate_token p s = Inr \<lparr>token_raw = token_marker @ ''_'' @ base64url p @ ''_'' @ base64url s,
    token_prefix = base64url p, token_secret = base64url s\<rparr>"
  using assms by (simp add: generate_token_def length_base64url token_constants Let_def)

lemma parse_token_iff:
  "parse_token v = Some \<lparr>parsed_prefix = p, parsed_secret = s\<rparr>
     \<longleftrightarrow> prefix_pattern p \<and> secret_pattern s \<and> v = PStr (token_marker @ ''_'' @ p @ ''_'' @ s)"
proof
  assume parsed: "parse_token v = Some \<lparr>parsed_prefix = p, parsed_secret = s\<rparr>"
  then obtain t where v: "v = PStr t" by (auto simp: parse_token_def split: pyval.splits)
  define n where "n = length token_marker + 1"
  from parsed have eqs: "take n t = token_marker @ ''_''" "p = take prefix_length (drop n t)"
    "take 1 (drop (n + prefix_length) t) = ''_''" "s = drop (n + prefix_length + 1) t"
    and ok: "prefix_pattern p" "secret_pattern s"
    unfolding parse_token_def v pyval.case Let_def n_def by (simp_all split: if_splits)
  have "t = take n t @ take prefix_length (drop n t) @ take 1 (drop (n + prefix_length) t) @ drop (n + prefix_length + 1) t"
    by (metis add.commute append_take_drop_id drop_drop)
  then have "t = (token_marker @ ''_'') @ p @ ''_'' @ s" using eqs by simp
  with ok v show "prefix_pattern p \<and> secret_pattern s \<and> v = PStr (token_marker @ ''_'' @ p @ ''_'' @ s)" by simp
next
  assume "prefix_pattern p \<and> secret_pattern s \<and> v = PStr (token_marker @ ''_'' @ p @ ''_'' @ s)"
  then show "parse_token v = Some \<lparr>parsed_prefix = p, parsed_secret = s\<rparr>"
    by (auto simp: parse_token_def prefix_pattern_def token_constants)
qed

end
