(* ===== verification/Core_Idempotency.thy ===== *)
theory Core_Idempotency
  imports Core_Audit
begin

text \<open>
  Idempotent execution of a command: \<open>execute_idempotent\<close> of \<open>core/idempotency.py\<close> and
  \<open>execute_one_time_idempotent\<close> of \<open>management_auth/idempotency.py\<close>. The first call with a key stores
  an in-progress record, runs the command and completes the record, all in one transaction; later
  calls find the record. \<open>_fenced_hash\<close>, the canonical JSON functions and the identifier check are
  code of \<open>community_base\<close>. The command is a function of the store; the new ids are parameters, and a
  primary key already in use is the database's \<open>IntegrityError\<close>.
\<close>

type_synonym core_command = "site_db \<Rightarrow> (site_err, pyval \<times> site_db) res"

subsection \<open>core/idempotency.py\<close>

definition hash_idempotency_key :: "externals \<Rightarrow> string \<Rightarrow> string \<Rightarrow> (site_err, string) res" where
  "hash_idempotency_key X scope raw_key =
     bind_res (validate_identifier X scope) (\<lambda>scope.
       let key_bytes = utf8 raw_key
       in if key_bytes = [] \<or> length key_bytes > core_key_bytes X
          then Inl (Value_Error ''idempotency key must contain between 1 and 512 UTF-8 bytes'')
          else Inr (fenced_hash X (''dtc:idempotency-key:v1'' @ [CHR 0x00]) [utf8 scope, key_bytes]))"

definition hash_idempotency_request :: "externals \<Rightarrow> string \<Rightarrow> pyval \<Rightarrow> (site_err, string) res" where
  "hash_idempotency_request X scope payload =
     bind_res (validate_identifier X scope) (\<lambda>scope.
     bind_res (json_bytes X payload) (\<lambda>payload_bytes.
       Inr (fenced_hash X (''dtc:idempotency-request:v1'' @ [CHR 0x00]) [utf8 scope, payload_bytes])))"

record idempotency_result =
  result_value :: pyval
  replayed :: bool
  result_record :: uuid

record idempotency_call =
  call_now :: datetime
  call_record :: uuid
  call_owner :: uuid
  call_scope :: string
  call_key :: string
  call_request :: pyval

definition pending_record :: "idempotency_call \<Rightarrow> string \<Rightarrow> string \<Rightarrow> string \<Rightarrow> idempotency_record" where
  "pending_record call scope key_hash request_hash =
     \<lparr>ir_id = call_record call, ir_scope = scope, ir_key_hash = key_hash, ir_request_hash = request_hash,
      ir_status = In_Progress, ir_owner = call_owner call, ir_result = None, ir_created = call_now call,
      ir_completed = None\<rparr>"

definition completed :: "pyval \<Rightarrow> datetime \<Rightarrow> idempotency_record \<Rightarrow> idempotency_record" where
  "completed result completed_at r =
     r\<lparr>ir_status := Completed, ir_result := Some result, ir_completed := Some completed_at\<rparr>"

lemma record_simps [simp]:
  "ir_id (pending_record call scope key_hash request_hash) = call_record call"
  "ir_scope (pending_record call scope key_hash request_hash) = scope"
  "ir_key_hash (pending_record call scope key_hash request_hash) = key_hash"
  "ir_request_hash (pending_record call scope key_hash request_hash) = request_hash"
  "ir_status (pending_record call scope key_hash request_hash) = In_Progress"
  "ir_owner (pending_record call scope key_hash request_hash) = call_owner call"
  "ir_id (completed result t r) = ir_id r" "ir_scope (completed result t r) = ir_scope r"
  "ir_key_hash (completed result t r) = ir_key_hash r"
  "ir_request_hash (completed result t r) = ir_request_hash r"
  "ir_status (completed result t r) = Completed" "ir_result (completed result t r) = Some result"
  by (simp_all add: pending_record_def completed_def)

definition complete_record :: "externals \<Rightarrow> datetime \<Rightarrow> uuid \<Rightarrow> uuid \<Rightarrow> pyval \<Rightarrow> site_db
    \<Rightarrow> (site_err, idempotency_result \<times> site_db) res" where
  "complete_record X completed_at record_id owner_token result db =
     (let owned = (\<lambda>r. ir_id r = record_id \<and> ir_owner r = owner_token \<and> ir_status r = In_Progress)
      in if count_where owned (idempotency_records db) \<noteq> 1
         then Inl (Idempotency_Fence_Lost ''idempotency completion ownership was lost'')
         else bind_res (canonical_json X result) (\<lambda>canonical.
           Inr (\<lparr>result_value = canonical, replayed = False, result_record = record_id\<rparr>,
             db\<lparr>idempotency_records := update_where owned
               (completed result completed_at)
               (idempotency_records db)\<rparr>)))"

definition execute_idempotent ::
    "externals \<Rightarrow> idempotency_call \<Rightarrow> core_command \<Rightarrow> site_db \<Rightarrow> (site_err, idempotency_result \<times> site_db) res" where
  "execute_idempotent X call run db =
     bind_res (validate_identifier X (call_scope call)) (\<lambda>scope.
     bind_res (hash_idempotency_key X scope (call_key call)) (\<lambda>key_hash.
     bind_res (hash_idempotency_request X scope (call_request call)) (\<lambda>request_hash.
     case List.find (\<lambda>r. ir_scope r = scope \<and> ir_key_hash r = key_hash) (idempotency_records db) of
       Some r \<Rightarrow>
         if ir_request_hash r \<noteq> request_hash
         then Inl (Idempotency_Conflict (''idempotency key conflicts with an earlier request in scope '' @ scope))
         else if ir_status r = Completed
         then bind_res (canonical_object X (case ir_result r of None \<Rightarrow> PNone | Some v \<Rightarrow> v)) (\<lambda>v.
                Inr (\<lparr>result_value = v, replayed = True, result_record = ir_id r\<rparr>, db))
         else Inl (Idempotency_In_Progress
                (''scope '' @ scope @ '' contains an invalid committed in-progress record''))
     | None \<Rightarrow>
         if call_record call \<in> ir_id ` set (idempotency_records db) then Inl Integrity_Error
         else
           bind_res (run (db\<lparr>idempotency_records := idempotency_records db @
               [pending_record call scope key_hash request_hash]\<rparr>)) (\<lambda>(outcome, db).
           bind_res (canonical_object X outcome) (\<lambda>result.
             complete_record X (call_now call) (call_record call) (call_owner call) result db)))))"

subsection \<open>A key runs its command at most once\<close>

text \<open>
  The contract of idempotent execution: \<open>holds q d\<close> says that the store \<open>d\<close> has a live record for the
  key of call \<open>q\<close>; then the command of \<open>q\<close> is not run and the store stays. A call that ran its command
  leaves a live record for the calls that retry it (\<open>retry q\<close>), as long as the command (\<open>tame\<close>) leaves
  the table of records alone and the table satisfies its constraints (\<open>wf\<close>).
\<close>

fun retry_all :: "('q \<Rightarrow> 'c \<Rightarrow> 'd \<Rightarrow> ('e, 'a \<times> 'd) res) \<Rightarrow> ('q \<times> 'c) list \<Rightarrow> 'd \<Rightarrow> 'd" where
  "retry_all run [] d = d"
| "retry_all run ((q, c) # calls) d =
     retry_all run calls (case run q c d of Inl e \<Rightarrow> d | Inr (a, d) \<Rightarrow> d)"

locale at_most_once =
  fixes run :: "'q \<Rightarrow> 'c \<Rightarrow> 'd \<Rightarrow> ('e, 'a \<times> 'd) res"
    and holds :: "'q \<Rightarrow> 'd \<Rightarrow> bool" and retry :: "'q \<Rightarrow> 'q \<Rightarrow> bool" and tame :: "'c \<Rightarrow> bool"
    and wf :: "'d \<Rightarrow> bool"
  assumes same_answer: "holds q d \<Longrightarrow> run q c d = run q c' d"
    and silent: "holds q d \<Longrightarrow> run q c d = Inr (a, d') \<Longrightarrow> d' = d"
    and remembered: "run q c d = Inr (a, d') \<Longrightarrow> tame c \<Longrightarrow> wf d \<Longrightarrow> \<not> holds q d \<Longrightarrow> retry q q'
      \<Longrightarrow> holds q' d'"
begin

lemma holding_calls: "(\<And>q c. (q, c) \<in> set calls \<Longrightarrow> holds q d) \<Longrightarrow> retry_all run calls d = d"
proof (induction calls)
  case (Cons x calls)
  obtain q c where x: "x = (q, c)" by fastforce
  have "(case run q c d of Inl e \<Rightarrow> d | Inr (a, d) \<Rightarrow> d) = d"
    using silent [of q d c] Cons.prems [of q c] by (auto simp: x split: sum.splits prod.splits)
  moreover have "retry_all run calls d = d" using Cons.IH Cons.prems by (meson list.set_intros(2))
  ultimately show ?case by (simp add: x)
qed simp

text \<open>However often and with whatever command a call is retried, the store is the one after the first run.\<close>

lemma retries_silent:
  assumes "run q c d = Inr (a, d')" and "tame c" and "wf d" and "\<not> holds q d"
    and "\<And>q' c'. (q', c') \<in> set calls \<Longrightarrow> retry q q'"
  shows "retry_all run ((q, c) # calls) d = d'"
  using holding_calls [of calls d'] remembered [OF assms(1-4)] assms(1,5) by fastforce

end

definition keeps_records :: "core_command \<Rightarrow> bool" where
  "keeps_records run \<longleftrightarrow> (\<forall>db v db'. run db = Inr (v, db') \<longrightarrow> idempotency_records db' = idempotency_records db)"

text \<open>The keys a call is looked up by.\<close>

definition call_keys :: "externals \<Rightarrow> idempotency_call \<Rightarrow> (string \<times> string) option" where
  "call_keys X call = (case validate_identifier X (call_scope call) of
     Inl e \<Rightarrow> None
   | Inr scope \<Rightarrow> (case hash_idempotency_key X scope (call_key call) of
       Inl e \<Rightarrow> None | Inr key_hash \<Rightarrow> Some (scope, key_hash)))"

definition record_of :: "externals \<Rightarrow> idempotency_call \<Rightarrow> site_db \<Rightarrow> idempotency_record option" where
  "record_of X call db = (case call_keys X call of None \<Rightarrow> None
     | Some (scope, key_hash) \<Rightarrow>
         List.find (\<lambda>r. ir_scope r = scope \<and> ir_key_hash r = key_hash) (idempotency_records db))"

lemma execute_replay:
  assumes "record_of X call db = Some r"
  shows "execute_idempotent X call run db =
    bind_res (validate_identifier X (call_scope call)) (\<lambda>scope.
    bind_res (hash_idempotency_request X scope (call_request call)) (\<lambda>request_hash.
      if ir_request_hash r \<noteq> request_hash
      then Inl (Idempotency_Conflict (''idempotency key conflicts with an earlier request in scope '' @ scope))
      else if ir_status r = Completed
      then bind_res (canonical_object X (case ir_result r of None \<Rightarrow> PNone | Some v \<Rightarrow> v)) (\<lambda>v.
             Inr (\<lparr>result_value = v, replayed = True, result_record = ir_id r\<rparr>, db))
      else Inl (Idempotency_In_Progress
             (''scope '' @ scope @ '' contains an invalid committed in-progress record''))))"
  using assms
  by (auto simp: record_of_def call_keys_def execute_idempotent_def bind_res_def split: sum.splits)

lemma execute_first:
  assumes run: "execute_idempotent X call run db = Inr (a, db')" and new: "record_of X call db = None"
    and keep: "keeps_records run"
  obtains scope key_hash request_hash outcome mid result
  where "call_keys X call = Some (scope, key_hash)"
    and "validate_identifier X (call_scope call) = Inr scope"
    and "hash_idempotency_request X scope (call_request call) = Inr request_hash"
    and "run (db\<lparr>idempotency_records := idempotency_records db @
               [pending_record call scope key_hash request_hash]\<rparr>) = Inr (outcome, mid)"
    and "canonical_object X outcome = Inr result"
    and "canonical_json X result = Inr (result_value a)"
    and "\<not> replayed a" and "result_record a = call_record call"
    and "call_record call \<notin> ir_id ` set (idempotency_records db)"
    and "db' = mid\<lparr>idempotency_records := idempotency_records db @
               [completed result (call_now call) (pending_record call scope key_hash request_hash)]\<rparr>"
proof -
  from run obtain scope key_hash request_hash
    where scope: "validate_identifier X (call_scope call) = Inr scope"
    and key: "hash_idempotency_key X scope (call_key call) = Inr key_hash"
    and rh: "hash_idempotency_request X scope (call_request call) = Inr request_hash"
    by (auto simp: execute_idempotent_def bind_res_Inr_iff)
  then have keys: "call_keys X call = Some (scope, key_hash)" by (simp add: call_keys_def)
  with new have none: "List.find (\<lambda>r. ir_scope r = scope \<and> ir_key_hash r = key_hash) (idempotency_records db) = None"
    by (simp add: record_of_def)
  from run obtain outcome mid result where fresh: "call_record call \<notin> ir_id ` set (idempotency_records db)"
    and ran: "run (db\<lparr>idempotency_records := idempotency_records db @
               [pending_record call scope key_hash request_hash]\<rparr>) = Inr (outcome, mid)"
    and result: "canonical_object X outcome = Inr result"
    and complete: "complete_record X (call_now call) (call_record call) (call_owner call) result mid = Inr (a, db')"
    by (auto simp: execute_idempotent_def scope key rh none bind_res_Inr_iff split: if_splits)
  have mid: "idempotency_records mid = idempotency_records db @
               [pending_record call scope key_hash request_hash]"
    using keep ran by (auto simp: keeps_records_def)
  have old: "r \<in> set (idempotency_records db) \<Longrightarrow> ir_id r \<noteq> call_record call" for r
    using fresh by (metis image_eqI)
  have "update_where (\<lambda>r. ir_id r = call_record call \<and> P r) f (idempotency_records db) = idempotency_records db" for P f
    using old by (auto simp: update_where_def intro!: map_idI)
  then show thesis
    using that [OF keys scope rh ran result _ _ _ fresh] complete
    by (auto simp: complete_record_def mid Let_def update_where_def split: if_splits)
qed

interpretation core_execution: at_most_once "execute_idempotent X" "\<lambda>call db. record_of X call db \<noteq> None"
    "\<lambda>call call'. call_keys X call' = call_keys X call" keeps_records "\<lambda>db. True" for X
proof unfold_locales
  fix q d c c'
  assume "record_of X q d \<noteq> None"
  then obtain r where "record_of X q d = Some r" by auto
  then show "execute_idempotent X q c d = execute_idempotent X q c' d" by (simp add: execute_replay)
next
  fix q d c a d'
  assume "record_of X q d \<noteq> None" and run: "execute_idempotent X q c d = Inr (a, d')"
  then obtain r where "record_of X q d = Some r" by auto
  with run show "d' = d" by (auto simp: execute_replay split: if_splits)
next
  fix q c d a d' q'
  assume run: "execute_idempotent X q c d = Inr (a, d')" and keep: "keeps_records c"
    and new: "\<not> record_of X q d \<noteq> None" and same: "call_keys X q' = call_keys X q"
  from new have none: "record_of X q d = None" by simp
  show "record_of X q' d' \<noteq> None"
    by (rule execute_first [OF run none keep]) (simp add: record_of_def same find_append split: option.splits)
qed

end
