(* ===== verification/Mg_Idempotency.thy ===== *)
theory Mg_Idempotency
  imports Core_Idempotency
begin

text \<open>
  One-time commands of the management API (\<open>management_auth/idempotency.py\<close>): like
  \<open>execute_idempotent\<close>, but the record is scoped to a principal, expires after a day, and a replay
  only returns the result when the command says that it holds no secret.
\<close>

definition max_idempotency_key_bytes :: nat where "max_idempotency_key_bytes = 512"

definition idempotency_retention :: int where "idempotency_retention = seconds (24 * 3600)"

record one_time_result =
  response :: pyval
  safe_result :: pyval

type_synonym one_time_command = "site_db \<Rightarrow> (site_err, one_time_result \<times> site_db) res"

definition credential_operations :: "(string \<times> string) list" where
  "credential_operations =
     [(''management.credentials.create'', ''management.credential.create''),
      (''management.credentials.rotate'', ''management.credential.rotate''),
      (''management.credentials.revoke'', ''management.credential.revoke'')]"

definition credential_idempotency_operation :: "string \<Rightarrow> (site_err, string) res" where
  "credential_idempotency_operation capability_key = (case map_of credential_operations capability_key of
     None \<Rightarrow> Inl (Value_Error ''credential capability has no idempotency operation'')
   | Some operation \<Rightarrow> Inr operation)"

text \<open>\<open>uuid.bytes\<close>: sixteen bytes, most significant first.\<close>

definition uuid_bytes :: "uuid \<Rightarrow> int list" where
  "uuid_bytes u = map (\<lambda>k. int (u div 256 ^ k mod 256)) (rev [0..<16])"

text \<open>\<open>encode("ascii")\<close> raises \<open>UnicodeEncodeError\<close>, a \<open>ValueError\<close>, outside ASCII.\<close>

definition is_ascii :: "string \<Rightarrow> bool" where
  "is_ascii s \<longleftrightarrow> list_all (\<lambda>c. (of_char c :: nat) < 128) s"

definition encode_ascii :: "string \<Rightarrow> (site_err, int list) res" where
  "encode_ascii s = (if is_ascii s then Inr (map of_char s) else Inl (Value_Error ''ordinal not in range(128)''))"

definition hash_management_idempotency_key ::
    "externals \<Rightarrow> uuid \<Rightarrow> string \<Rightarrow> string \<Rightarrow> (site_err, string) res" where
  "hash_management_idempotency_key X actor operation key =
     (let key_bytes = utf8 key
      in if key_bytes = [] \<or> length key_bytes > max_idempotency_key_bytes
         then Inl (Value_Error ''idempotency key must contain between 1 and 512 UTF-8 bytes'')
         else bind_res (encode_ascii operation) (\<lambda>operation_bytes.
           Inr (fenced_hash X (''dtc:management-idempotency-key:v1'' @ [CHR 0x00])
             [uuid_bytes actor, operation_bytes, key_bytes])))"

definition hash_request :: "externals \<Rightarrow> uuid \<Rightarrow> string \<Rightarrow> pyval \<Rightarrow> (site_err, string) res" where
  "hash_request X actor operation request =
     bind_res (encode_ascii operation) (\<lambda>operation_bytes.
     bind_res (json_bytes X request) (\<lambda>request_bytes.
       Inr (fenced_hash X (''dtc:management-idempotency-request:v1'' @ [CHR 0x00])
         [uuid_bytes actor, operation_bytes, request_bytes])))"

text \<open>
  The ids a call draws: the record's (and the second one's, when an expired record is replaced) and
  the owner token.
\<close>

record one_time_call =
  ot_now :: datetime
  ot_record :: uuid
  ot_again :: uuid
  ot_owner :: uuid
  ot_principal :: uuid
  ot_operation :: string
  ot_key :: string
  ot_request :: pyval
  ot_replay_safe :: bool

definition same_key :: "uuid \<Rightarrow> string \<Rightarrow> string \<Rightarrow> management_record \<Rightarrow> bool" where
  "same_key actor operation key_hash r \<longleftrightarrow>
     mr_principal r = actor \<and> mr_operation r = operation \<and> mr_key_hash r = key_hash"

definition get_or_create_record ::
    "management_record \<Rightarrow> site_db \<Rightarrow> (site_err, management_record \<times> bool \<times> site_db) res" where
  "get_or_create_record new db =
     (case List.find (same_key (mr_principal new) (mr_operation new) (mr_key_hash new)) (management_records db) of
        Some r \<Rightarrow> Inr (r, False, db)
      | None \<Rightarrow>
          if mr_id new \<in> mr_id ` set (management_records db) then Inl Integrity_Error
          else Inr (new, True, db\<lparr>management_records := management_records db @ [new]\<rparr>))"

text \<open>The first half of the transaction: the record of the key, created anew when it has expired.\<close>

definition pending_command :: "one_time_call \<Rightarrow> string \<Rightarrow> string \<Rightarrow> management_record" where
  "pending_command call key_hash request_hash =
     \<lparr>mr_id = ot_record call, mr_principal = ot_principal call, mr_operation = ot_operation call,
      mr_key_hash = key_hash, mr_request_hash = request_hash, mr_status = In_Progress, mr_safe_result = None,
      mr_owner = ot_owner call, mr_created = ot_now call, mr_completed = None,
      mr_expires = ot_now call + idempotency_retention\<rparr>"

definition claim_record ::
    "one_time_call \<Rightarrow> string \<Rightarrow> string \<Rightarrow> site_db \<Rightarrow> (site_err, management_record \<times> bool \<times> site_db) res" where
  "claim_record call key_hash request_hash db =
     (let new = pending_command call key_hash request_hash
      in bind_res (get_or_create_record new db) (\<lambda>(r, created, db).
           if \<not> created \<and> mr_expires r \<le> ot_now call then
             let stale = (\<lambda>x. mr_id x = mr_id r \<and> mr_expires x \<le> ot_now call);
                 deleted = count_where stale (management_records db);
                 db = db\<lparr>management_records := filter (\<lambda>x. \<not> stale x) (management_records db)\<rparr>
             in if deleted \<noteq> 0 then get_or_create_record (new\<lparr>mr_id := ot_again call\<rparr>) db
                else Inr (r, created, db)
           else Inr (r, created, db)))"

definition completed_command :: "pyval \<Rightarrow> datetime \<Rightarrow> management_record \<Rightarrow> management_record" where
  "completed_command safe now r =
     r\<lparr>mr_status := Completed, mr_safe_result := Some safe, mr_completed := Some now\<rparr>"

definition execute_one_time_idempotent ::
    "externals \<Rightarrow> one_time_call \<Rightarrow> one_time_command \<Rightarrow> site_db \<Rightarrow> (site_err, one_time_result \<times> site_db) res" where
  "execute_one_time_idempotent X call run db =
     (let operation = ot_operation call
      in if operation = [] \<or> length operation > 128 \<or> \<not> is_ascii operation
         then Inl (Value_Error ''operation must be a bounded ASCII identifier'')
         else
     bind_res (hash_management_idempotency_key X (ot_principal call) operation (ot_key call)) (\<lambda>key_hash.
     bind_res (hash_request X (ot_principal call) operation (ot_request call)) (\<lambda>request_hash.
     bind_res (claim_record call key_hash request_hash db) (\<lambda>(r, created, db).
     if \<not> created then
       if mr_request_hash r \<noteq> request_hash then Inl (Idempotency_Conflict ''idempotency request conflicts'')
       else if mr_status r = Completed
       then bind_res (canonical_object X (case mr_safe_result r of None \<Rightarrow> PNone | Some v \<Rightarrow> v)) (\<lambda>safe.
              if ot_replay_safe call then Inr (\<lparr>response = safe, safe_result = safe\<rparr>, db)
              else Inl (Secret_Unavailable safe))
       else Inl (Idempotency_Conflict ''idempotency request is in progress'')
     else
       bind_res (run db) (\<lambda>(result, db).
       bind_res (canonical_object X (safe_result result)) (\<lambda>safe.
       bind_res (canonical_object X (response result)) (\<lambda>answer.
         let owned = (\<lambda>x. mr_id x = mr_id r \<and> mr_owner x = ot_owner call \<and> mr_status x = In_Progress)
         in if count_where owned (management_records db) \<noteq> 1
            then Inl (Runtime_Error ''management idempotency fence was lost'')
            else Inr (\<lparr>response = answer, safe_result = safe\<rparr>,
              db\<lparr>management_records := update_where owned
                (completed_command safe (ot_now call)) (management_records db)\<rparr>))))))))"

subsection \<open>Replays\<close>

lemma pending_command_simps [simp]:
  "mr_id (pending_command call k h) = ot_record call" "mr_owner (pending_command call k h) = ot_owner call"
  "mr_principal (pending_command call k h) = ot_principal call"
  "mr_operation (pending_command call k h) = ot_operation call" "mr_key_hash (pending_command call k h) = k"
  "mr_request_hash (pending_command call k h) = h" "mr_status (pending_command call k h) = In_Progress"
  "mr_safe_result (pending_command call k h) = None" "mr_completed (pending_command call k h) = None"
  "mr_expires (pending_command call k h) = ot_now call + idempotency_retention"
  by (simp_all add: pending_command_def)

lemma completed_command_simps [simp]:
  "mr_id (completed_command safe t r) = mr_id r" "mr_principal (completed_command safe t r) = mr_principal r"
  "mr_operation (completed_command safe t r) = mr_operation r" "mr_key_hash (completed_command safe t r) = mr_key_hash r"
  "mr_request_hash (completed_command safe t r) = mr_request_hash r" "mr_status (completed_command safe t r) = Completed"
  "mr_safe_result (completed_command safe t r) = Some safe" "mr_expires (completed_command safe t r) = mr_expires r"
  "mr_completed (completed_command safe t r) = Some t"
  by (simp_all add: completed_command_def)

definition leaves_records :: "one_time_command \<Rightarrow> bool" where
  "leaves_records run \<longleftrightarrow> (\<forall>db v db'. run db = Inr (v, db') \<longrightarrow> management_records db' = management_records db)"

text \<open>The record a call finds, when it has not expired at the time of the call.\<close>

definition live_record :: "externals \<Rightarrow> one_time_call \<Rightarrow> site_db \<Rightarrow> management_record option" where
  "live_record X call db =
     (case hash_management_idempotency_key X (ot_principal call) (ot_operation call) (ot_key call) of
        Inl e \<Rightarrow> None
      | Inr key_hash \<Rightarrow>
          (case List.find (same_key (ot_principal call) (ot_operation call) key_hash) (management_records db) of
             None \<Rightarrow> None
           | Some r \<Rightarrow> if mr_expires r \<le> ot_now call then None else Some r))"

lemma one_time_replay_eq:
  assumes "live_record X call db = Some r"
  shows "execute_one_time_idempotent X call run db =
    (if ot_operation call = [] \<or> length (ot_operation call) > 128 \<or> \<not> is_ascii (ot_operation call)
     then Inl (Value_Error ''operation must be a bounded ASCII identifier'')
     else bind_res (hash_request X (ot_principal call) (ot_operation call) (ot_request call)) (\<lambda>request_hash.
       if mr_request_hash r \<noteq> request_hash then Inl (Idempotency_Conflict ''idempotency request conflicts'')
       else if mr_status r = Completed
       then bind_res (canonical_object X (case mr_safe_result r of None \<Rightarrow> PNone | Some v \<Rightarrow> v)) (\<lambda>safe.
              if ot_replay_safe call then Inr (\<lparr>response = safe, safe_result = safe\<rparr>, db)
              else Inl (Secret_Unavailable safe))
       else Inl (Idempotency_Conflict ''idempotency request is in progress'')))"
proof -
  from assms obtain key_hash where key: "hash_management_idempotency_key X (ot_principal call) (ot_operation call) (ot_key call) = Inr key_hash"
    and find: "List.find (same_key (ot_principal call) (ot_operation call) key_hash) (management_records db) = Some r"
    and live: "\<not> mr_expires r \<le> ot_now call"
    by (auto simp: live_record_def split: sum.splits option.splits if_splits)
  have "claim_record call key_hash request_hash db = Inr (r, False, db)" for request_hash
    using find live by (simp add: claim_record_def get_or_create_record_def)
  then show ?thesis by (simp add: execute_one_time_idempotent_def key Let_def)
qed

text \<open>A call that holds a secret is never answered from its record.\<close>

lemma unsafe_never_replays:
  assumes run: "execute_one_time_idempotent X call run db = Inr (a, db')" and unsafe: "\<not> ot_replay_safe call"
  shows "live_record X call db = None"
proof (rule ccontr)
  assume "\<not> ?thesis"
  then obtain r where "live_record X call db = Some r" by blast
  from one_time_replay_eq [OF this] run unsafe show False by (auto simp: bind_res_Inr_iff split: if_splits)
qed

text \<open>The rows that stay when a call without a live record claims its key.\<close>

definition rows_kept :: "one_time_call \<Rightarrow> string \<Rightarrow> site_db \<Rightarrow> management_record list" where
  "rows_kept call key_hash db =
     (case List.find (same_key (ot_principal call) (ot_operation call) key_hash) (management_records db) of
        None \<Rightarrow> management_records db
      | Some r \<Rightarrow> filter (\<lambda>x. \<not> (mr_id x = mr_id r \<and> mr_expires x \<le> ot_now call)) (management_records db))"

text \<open>The unique constraint \<open>mgmt_idempotency_principal_operation_key\<close>.\<close>

definition unique_keys :: "site_db \<Rightarrow> bool" where
  "unique_keys db \<longleftrightarrow> distinct (map (\<lambda>r. (mr_principal r, mr_operation r, mr_key_hash r)) (management_records db))"

lemma same_key_rows_kept:
  assumes "unique_keys db" and "live_record X call db = None"
    and key: "hash_management_idempotency_key X (ot_principal call) (ot_operation call) (ot_key call) = Inr key_hash"
  shows "List.find (same_key (ot_principal call) (ot_operation call) key_hash) (rows_kept call key_hash db) = None"
proof (cases "List.find (same_key (ot_principal call) (ot_operation call) key_hash) (management_records db)")
  case (Some old)
  with assms(2) key have old: "mr_expires old \<le> ot_now call"
    by (auto simp: live_record_def split: if_splits)
  have "x = old" if "x \<in> set (management_records db)" "same_key (ot_principal call) (ot_operation call) key_hash x" for x
    using that find_Some [OF Some] distinct_key_eq [OF assms(1) [unfolded unique_keys_def], of x old]
    by (auto simp: same_key_def)
  with Some old show ?thesis by (auto simp: rows_kept_def find_None_iff)
qed (simp add: rows_kept_def)

lemma claim_created:
  assumes unique: "unique_keys db" and new: "live_record X call db = None"
    and key: "hash_management_idempotency_key X (ot_principal call) (ot_operation call) (ot_key call) = Inr key_hash"
    and claim: "claim_record call key_hash request_hash db = Inr (r, created, mid)"
  shows "created \<and> (\<exists>i. r = pending_command call key_hash request_hash\<lparr>mr_id := i\<rparr>
      \<and> i \<notin> mr_id ` set (rows_kept call key_hash db)
      \<and> mid = db\<lparr>management_records := rows_kept call key_hash db @ [r]\<rparr>)"
proof (cases "List.find (same_key (ot_principal call) (ot_operation call) key_hash) (management_records db)")
  case None
  then show ?thesis using claim
    by (auto simp: claim_record_def get_or_create_record_def rows_kept_def Let_def split: if_splits
        intro!: exI [of _ "ot_record call"])
next
  case (Some old)
  with new key have old: "mr_expires old \<le> ot_now call"
    by (auto simp: live_record_def split: if_splits)
  let ?stale = "\<lambda>x. mr_id x = mr_id old \<and> mr_expires x \<le> ot_now call"
  have "old \<in> set (management_records db)" using find_Some [OF Some] by simp
  with old have some: "count_where ?stale (management_records db) \<noteq> 0"
    by (auto simp: count_where_def filter_empty_conv)
  have none: "List.find (same_key (ot_principal call) (ot_operation call) key_hash)
      (filter (\<lambda>x. \<not> ?stale x) (management_records db)) = None"
    using same_key_rows_kept [OF unique new key] Some by (simp add: rows_kept_def)
  have kept: "rows_kept call key_hash db = filter (\<lambda>x. \<not> ?stale x) (management_records db)"
    using Some by (simp add: rows_kept_def)
  have "claim_record call key_hash request_hash db =
      get_or_create_record (pending_command call key_hash request_hash\<lparr>mr_id := ot_again call\<rparr>)
        (db\<lparr>management_records := rows_kept call key_hash db\<rparr>)"
    using Some old some by (simp add: claim_record_def get_or_create_record_def kept Let_def)
  with claim none show ?thesis
    by (auto simp: get_or_create_record_def kept split: if_splits intro!: exI [of _ "ot_again call"])
qed

text \<open>What the first call with a key does.\<close>

lemma one_time_first:
  assumes run: "execute_one_time_idempotent X call run db = Inr (a, db')" and new: "live_record X call db = None"
    and unique: "unique_keys db" and leaves: "leaves_records run"
  obtains key_hash request_hash i result mid r
  where "hash_management_idempotency_key X (ot_principal call) (ot_operation call) (ot_key call) = Inr key_hash"
    and "hash_request X (ot_principal call) (ot_operation call) (ot_request call) = Inr request_hash"
    and "r = pending_command call key_hash request_hash\<lparr>mr_id := i\<rparr>"
    and "run (db\<lparr>management_records := rows_kept call key_hash db @ [r]\<rparr>) = Inr (result, mid)"
    and "canonical_object X (safe_result result) = Inr (safe_result a)"
    and "canonical_object X (response result) = Inr (response a)"
    and "db' = mid\<lparr>management_records := rows_kept call key_hash db @ [completed_command (safe_result a) (ot_now call) r]\<rparr>"
    and "\<And>h. same_key (ot_principal call) (ot_operation call) key_hash h \<Longrightarrow> h \<notin> set (rows_kept call key_hash db)"
    and "i \<notin> mr_id ` set (rows_kept call key_hash db)"
    and "ot_operation call \<noteq> []" and "length (ot_operation call) \<le> 128" and "is_ascii (ot_operation call)"
proof -
  from run have op: "ot_operation call \<noteq> []" "length (ot_operation call) \<le> 128" "is_ascii (ot_operation call)"
    by (auto simp: execute_one_time_idempotent_def Let_def split: if_splits)
  from run op obtain key_hash request_hash r created mid0
    where key: "hash_management_idempotency_key X (ot_principal call) (ot_operation call) (ot_key call) = Inr key_hash"
      and request: "hash_request X (ot_principal call) (ot_operation call) (ot_request call) = Inr request_hash"
      and claim: "claim_record call key_hash request_hash db = Inr (r, created, mid0)"
    by (auto simp: execute_one_time_idempotent_def Let_def bind_res_Inr_iff)
  from claim_created [OF unique new key claim] obtain i
    where created: "created" and r: "r = pending_command call key_hash request_hash\<lparr>mr_id := i\<rparr>"
      and i: "i \<notin> mr_id ` set (rows_kept call key_hash db)"
      and mid0: "mid0 = db\<lparr>management_records := rows_kept call key_hash db @ [r]\<rparr>" by auto
  define owned :: "management_record \<Rightarrow> bool" where "owned x \<longleftrightarrow> mr_id x = mr_id r \<and> mr_owner x = ot_owner call \<and> mr_status x = In_Progress" for x
  from run op created obtain result mid where ran: "run mid0 = Inr (result, mid)"
    and safe: "canonical_object X (safe_result result) = Inr (safe_result a)"
    and answer: "canonical_object X (response result) = Inr (response a)"
    and db': "db' = mid\<lparr>management_records := update_where owned
        (completed_command (safe_result a) (ot_now call)) (management_records mid)\<rparr>"
    by (auto simp: execute_one_time_idempotent_def Let_def key request claim bind_res_Inr_iff owned_def [abs_def]
        split: if_splits)
  have "management_records mid = rows_kept call key_hash db @ [r]"
    using leaves ran mid0 by (auto simp: leaves_records_def)
  moreover have "\<not> owned x" if "x \<in> set (rows_kept call key_hash db)" for x
    using i that by (auto simp: owned_def r)
  then have "update_where owned f (rows_kept call key_hash db) = rows_kept call key_hash db" for f
    by (auto simp: update_where_def intro!: map_idI)
  moreover have "owned r" by (simp add: owned_def r)
  ultimately have "db' = mid\<lparr>management_records := rows_kept call key_hash db
      @ [completed_command (safe_result a) (ot_now call) r]\<rparr>"
    using db' by (simp add: update_where_def)
  moreover have "h \<notin> set (rows_kept call key_hash db)" if "same_key (ot_principal call) (ot_operation call) key_hash h" for h
    using same_key_rows_kept [OF unique new key] that by (auto simp: find_None_iff)
  ultimately show thesis
    using that [OF key request r _ safe answer _ _ i op] ran mid0 by simp
qed

text \<open>A call either answers from its record and leaves the store, or runs its command once.\<close>

lemma unique_keys_rows_kept: "unique_keys db \<Longrightarrow> unique_keys (db\<lparr>management_records := rows_kept call key_hash db\<rparr>)"
  by (auto simp: unique_keys_def rows_kept_def distinct_map_filter split: option.splits)

lemma one_time_effect:
  assumes run: "execute_one_time_idempotent X call run db = Inr (a, db')"
    and unique: "unique_keys db" and leaves: "leaves_records run"
  obtains (replay) "db' = db"
  | (ran) rows rows' v mid where "run (db\<lparr>management_records := rows\<rparr>) = Inr (v, mid)"
      and "db' = mid\<lparr>management_records := rows'\<rparr>" and "unique_keys db'"
      and "canonical_object X (safe_result v) = Inr (safe_result a)"
      and "canonical_object X (response v) = Inr (response a)"
proof (cases "live_record X call db")
  case (Some r)
  with run have "db' = db" by (auto simp: one_time_replay_eq Let_def split: if_splits)
  then show thesis by (rule replay)
next
  case None
  show thesis
  proof (rule one_time_first [OF run None unique leaves])
    fix key_hash request_hash i result mid r
    assume r: "r = pending_command call key_hash request_hash\<lparr>mr_id := i\<rparr>"
      and ran1: "run (db\<lparr>management_records := rows_kept call key_hash db @ [r]\<rparr>) = Inr (result, mid)"
      and db': "db' = mid\<lparr>management_records := rows_kept call key_hash db @ [completed_command (safe_result a) (ot_now call) r]\<rparr>"
      and other: "\<And>h. same_key (ot_principal call) (ot_operation call) key_hash h \<Longrightarrow> h \<notin> set (rows_kept call key_hash db)"
      and canon: "canonical_object X (safe_result result) = Inr (safe_result a)"
        "canonical_object X (response result) = Inr (response a)"
    have "(ot_principal call, ot_operation call, key_hash)
        \<notin> (\<lambda>r. (mr_principal r, mr_operation r, mr_key_hash r)) ` set (rows_kept call key_hash db)"
      using other by (auto simp: same_key_def)
    then have "unique_keys db'"
      using unique_keys_rows_kept [OF unique, of call key_hash] by (simp add: db' unique_keys_def r)
    from ran [OF ran1 db' this canon] show thesis .
  qed
qed

text \<open>A retry: the same principal, operation and key, before the record expires.\<close>

definition retried_call :: "one_time_call \<Rightarrow> one_time_call \<Rightarrow> bool" where
  "retried_call call call' \<longleftrightarrow> ot_principal call' = ot_principal call \<and> ot_operation call' = ot_operation call
     \<and> ot_key call' = ot_key call \<and> ot_now call' < ot_now call + idempotency_retention"

lemma one_time_leaves_live_record:
  assumes run: "execute_one_time_idempotent X call run db = Inr (a, db')" and new: "live_record X call db = None"
    and unique: "unique_keys db" and leaves: "leaves_records run" and retry: "retried_call call call'"
  shows "\<exists>r. live_record X call' db' = Some r \<and> mr_status r = Completed \<and> mr_safe_result r = Some (safe_result a)
    \<and> hash_request X (ot_principal call) (ot_operation call) (ot_request call) = Inr (mr_request_hash r)"
proof (rule one_time_first [OF run new unique leaves])
  fix key_hash request_hash i result mid r
  assume key: "hash_management_idempotency_key X (ot_principal call) (ot_operation call) (ot_key call) = Inr key_hash"
    and request: "hash_request X (ot_principal call) (ot_operation call) (ot_request call) = Inr request_hash"
    and r: "r = pending_command call key_hash request_hash\<lparr>mr_id := i\<rparr>"
    and db': "db' = mid\<lparr>management_records := rows_kept call key_hash db @ [completed_command (safe_result a) (ot_now call) r]\<rparr>"
    and other: "\<And>h. same_key (ot_principal call) (ot_operation call) key_hash h \<Longrightarrow> h \<notin> set (rows_kept call key_hash db)"
  let ?r = "completed_command (safe_result a) (ot_now call) r"
  have "List.find (same_key (ot_principal call) (ot_operation call) key_hash) (rows_kept call key_hash db) = None"
    using other by (auto simp: find_None_iff)
  moreover have "same_key (ot_principal call) (ot_operation call) key_hash ?r" by (simp add: same_key_def r)
  ultimately have "List.find (same_key (ot_principal call) (ot_operation call) key_hash) (management_records db') = Some ?r"
    by (simp add: db' find_append)
  then have "live_record X call' db' = Some ?r"
    using retry key by (simp add: live_record_def retried_call_def r)
  then show ?thesis using request by (intro exI [of _ ?r]) (simp add: r)
qed

interpretation management_execution: at_most_once "execute_one_time_idempotent X" "\<lambda>call db. live_record X call db \<noteq> None"
    retried_call leaves_records unique_keys for X
proof unfold_locales
  fix q d c c'
  assume "live_record X q d \<noteq> None"
  then obtain r where "live_record X q d = Some r" by auto
  then show "execute_one_time_idempotent X q c d = execute_one_time_idempotent X q c' d"
    by (simp add: one_time_replay_eq)
next
  fix q d c a d'
  assume "live_record X q d \<noteq> None" and run: "execute_one_time_idempotent X q c d = Inr (a, d')"
  then obtain r where "live_record X q d = Some r" by auto
  with run show "d' = d" by (auto simp: one_time_replay_eq Let_def split: if_splits)
next
  fix q c d a d' q'
  assume "execute_one_time_idempotent X q c d = Inr (a, d')" and "leaves_records c" and "unique_keys d"
    and "\<not> live_record X q d \<noteq> None" and "retried_call q q'"
  then obtain r where "live_record X q' d' = Some r" using one_time_leaves_live_record by blast
  then show "live_record X q' d' \<noteq> None" by simp
qed

end
