(* ===== verification/Mg_Services.thy ===== *)
theory Mg_Services
  imports Mg_Tokens Mg_Idempotency "HOL-Library.List_Lexorder" "HOL-Library.Char_ord"
begin

text \<open>
  API principals and credentials (\<open>management_auth/services.py\<close>): the authority checks, the issue,
  rotation and revocation of credentials, and their listing. Tokens, salts and row ids are drawn from
  the fields of \<open>draws\<close>. The scopes a caller asks for are strings, as the signatures say.
\<close>

definition default_credential_lifetime :: int where "default_credential_lifetime = days 30"
definition max_credential_lifetime :: int where "max_credential_lifetime = days 90"
definition default_rotation_overlap :: int where "default_rotation_overlap = 0"
definition max_rotation_overlap :: int where "max_rotation_overlap = seconds 3600"
definition last_used_write_interval :: int where "last_used_write_interval = seconds (15 * 60)"

lemmas credential_constants = default_credential_lifetime_def max_credential_lifetime_def
  default_rotation_overlap_def max_rotation_overlap_def last_used_write_interval_def

subsection \<open>Presenting credentials\<close>

definition credential_state :: "datetime \<Rightarrow> credential \<Rightarrow> string" where
  "credential_state now c =
     (if credential_revoked c \<noteq> None then ''revoked''
      else if credential_rotated c \<noteq> None then ''rotated''
      else if credential_expires c \<le> now then ''expired''
      else ''active'')"

text \<open>\<open>replace(second=0, microsecond=0)\<close>.\<close>

definition to_minute :: "datetime \<Rightarrow> datetime" where
  "to_minute t = t - t mod seconds 60"

definition present_credential :: "datetime \<Rightarrow> principal \<Rightarrow> credential \<Rightarrow> payload" where
  "present_credential now p c =
     [(''credential_id'', PStr (uuid_str (credential_id c))),
      (''name'', PStr (credential_name c)),
      (''principal_id'', PStr (uuid_str (credential_principal c))),
      (''principal_label'', PStr (principal_name p)),
      (''prefix'', PStr (credential_prefix c)),
      (''scopes'', PList (map PStr (credential_scopes c))),
      (''expires_at'', PStr (py_isoformat (credential_expires c))),
      (''state'', PStr (credential_state now c)),
      (''last_used_at'', (case last_used c of None \<Rightarrow> PNone | Some t \<Rightarrow> PStr (py_isoformat (to_minute t)))),
      (''created_at'', PStr (py_isoformat (credential_created c))),
      (''revision'', PInt (credential_revision c))]"

definition get_principal :: "uuid \<Rightarrow> site_db \<Rightarrow> (site_err, principal) res" where
  "get_principal i db = (case List.find (\<lambda>p. principal_id p = i) (principals db) of
     None \<Rightarrow> Inl Does_Not_Exist | Some p \<Rightarrow> Inr p)"

definition get_credential :: "uuid \<Rightarrow> site_db \<Rightarrow> (site_err, credential) res" where
  "get_credential i db = (case List.find (\<lambda>c. credential_id c = i) (credentials db) of
     None \<Rightarrow> Inl Does_Not_Exist | Some c \<Rightarrow> Inr c)"

definition manageable_snapshot :: string where
  "manageable_snapshot = ''service:development-automation''"

definition manageable_service_principals :: "principal \<Rightarrow> site_db \<Rightarrow> principal list" where
  "manageable_service_principals actor db =
     (if principal_kind actor \<noteq> Human then []
      else filter (\<lambda>p. principal_kind p = Service \<and> principal_active p
             \<and> identity_snapshot p = manageable_snapshot) (principals db))"

definition manageable_credentials :: "principal \<Rightarrow> site_db \<Rightarrow> credential list" where
  "manageable_credentials actor db =
     filter (\<lambda>c. credential_principal c \<in> principal_id ` set (manageable_service_principals actor db)) (credentials db)"

text \<open>
  \<open>order_by(*selected_sort)\<close>: the first field is the most significant, a hyphen reverses it. The
  collation of the database is a parameter; rows the fields do not separate stay in table order.
\<close>

definition sort_field :: "(string \<Rightarrow> int) \<Rightarrow> string \<Rightarrow> (credential \<Rightarrow> int) option" where
  "sort_field collate field =
     (if field = ''created_at'' then Some credential_created
      else if field = ''expires_at'' then Some credential_expires
      else if field = ''name'' then Some (\<lambda>c. collate (credential_name c))
      else if field = ''id'' then Some (\<lambda>c. int (credential_id c))
      else None)"

fun order_by :: "(string \<Rightarrow> int) \<Rightarrow> string list \<Rightarrow> credential list \<Rightarrow> (site_err, credential list) res" where
  "order_by collate [] rows = Inr rows"
| "order_by collate (part # parts) rows =
     bind_res (order_by collate parts rows) (\<lambda>rows.
       let descending = (take 1 part = ''-''); field = (if descending then drop 1 part else part)
       in case sort_field collate field of
            None \<Rightarrow> Inl (Value_Error ''Cannot resolve keyword into field'')
          | Some key \<Rightarrow> Inr (sort_key (if descending then (\<lambda>c. - key c) else key) rows))"

record page_query =
  pq_page :: int
  pq_page_size :: int
  pq_sort :: "string list"
  pq_principal :: "uuid option"

definition list_manageable_credentials ::
    "(string \<Rightarrow> int) \<Rightarrow> datetime \<Rightarrow> page_query \<Rightarrow> principal \<Rightarrow> site_db \<Rightarrow> (site_err, payload) res" where
  "list_manageable_credentials collate now query actor db =
     (if pq_page query < 1 \<or> \<not> (1 \<le> pq_page_size query \<and> pq_page_size query \<le> 100)
      then Inl (Value_Error ''credential page is invalid'')
      else
        let rows = manageable_credentials actor db;
            rows = (case pq_principal query of None \<Rightarrow> rows | Some i \<Rightarrow> filter (\<lambda>c. credential_principal c = i) rows);
            selected_sort = (if pq_sort query = [] then [''-created_at'', ''-id''] else pq_sort query)
        in bind_res (order_by collate selected_sort rows) (\<lambda>rows.
             let start = nat ((pq_page query - 1) * pq_page_size query);
                 shown = take (nat (pq_page_size query)) (drop start rows)
             in bind_res (map_res (\<lambda>c. bind_res (get_principal (credential_principal c) db) (\<lambda>p.
                    Inr (PDict (present_credential now p c)))) shown) (\<lambda>safe_items.
                Inr [(''items'', PList safe_items), (''page'', PInt (pq_page query)),
                     (''page_size'', PInt (pq_page_size query)), (''total_count'', PInt (int (length rows)))])))"

subsection \<open>Audit\<close>

definition principal_ref :: "uuid \<Rightarrow> string" where
  "principal_ref i = ''api_principal:'' @ uuid_str i"

definition management_audit_context ::
    "externals \<Rightarrow> principal \<Rightarrow> string \<Rightarrow> string \<Rightarrow> (site_err, audit_context) res" where
  "management_audit_context X actor operation idempotency_key =
     bind_res (if idempotency_key = [] then Inr []
               else hash_management_idempotency_key X (principal_id actor) operation idempotency_key) (\<lambda>key_hash.
       Inr \<lparr>ac_actor_id = principal_user actor, ac_principal = Some (principal_id actor),
            ac_actor_ref = principal_ref (principal_id actor), ac_key_hash = key_hash\<rparr>)"

definition audit_credential ::
    "externals \<Rightarrow> datetime \<Rightarrow> principal \<Rightarrow> credential \<Rightarrow> string \<Rightarrow> string \<Rightarrow> string \<Rightarrow> payload \<Rightarrow> payload
       \<Rightarrow> site_db \<Rightarrow> (site_err, site_db) res" where
  "audit_credential X now actor c action operation idempotency_key changes extra_metadata db =
     bind_res (management_audit_context X actor operation idempotency_key) (\<lambda>context.
       record_audit_event X action ''management.credential'' ''succeeded'' context (Some (credential_id c))
         (credential_name c) (PDict changes)
         (PDict ([(''credential_id'', PStr (uuid_str (credential_id c))),
                  (''principal_id'', PStr (uuid_str (credential_principal c))),
                  (''prefix'', PStr (credential_prefix c)),
                  (''scopes'', PList (map PStr (credential_scopes c))),
                  (''expires_at'', PStr (py_isoformat (credential_expires c))),
                  (''state'', PStr (credential_state now c)),
                  (''reason'', PStr ''completed'')] @ extra_metadata)) db)"

subsection \<open>Principals\<close>

definition safe_text :: "externals \<Rightarrow> nat \<Rightarrow> string \<Rightarrow> string \<Rightarrow> (site_err, string) res" where
  "safe_text X limit message v =
     (let normalized = py_strip v
      in if normalized = [] \<or> length normalized > limit \<or> list_ex (\<lambda>c. (of_char c :: nat) < 32) normalized
           \<or> sensitive X normalized
         then Inl (Value_Error message) else Inr normalized)"

definition safe_name :: "externals \<Rightarrow> string \<Rightarrow> (site_err, string) res" where
  "safe_name X v = safe_text X 120 ''name must be safe bounded text'' v"

definition safe_snapshot :: "externals \<Rightarrow> string \<Rightarrow> (site_err, string) res" where
  "safe_snapshot X v = safe_text X 128 ''identity snapshot must be safe bounded text'' v"

definition principal_kind_of :: "string \<Rightarrow> principal_kind option" where
  "principal_kind_of s = (if s = ''human'' then Some Human else if s = ''service'' then Some Service else None)"

text \<open>\<open>principal.permissions.set(...)\<close>.\<close>

definition set_permissions :: "uuid \<Rightarrow> (string \<times> string) list \<Rightarrow> site_db \<Rightarrow> site_db" where
  "set_permissions i permissions db =
     db\<lparr>grants := filter (\<lambda>(j, p). j \<noteq> i) (grants db) @ map (Pair i) (remdups permissions)\<rparr>"

text \<open>The insert, with the unique constraints (the primary key and the one-to-one \<open>user\<close>).\<close>

definition insert_principal :: "principal \<Rightarrow> site_db \<Rightarrow> (site_err, site_db) res" where
  "insert_principal p db =
     (if principal_id p \<in> principal_id ` set (principals db)
        \<or> (principal_user p \<noteq> None \<and> principal_user p \<in> principal_user ` set (principals db))
      then Inl Integrity_Error
      else Inr (db\<lparr>principals := principals db @ [p]\<rparr>))"

definition create_principal ::
    "externals \<Rightarrow> datetime \<Rightarrow> uuid \<Rightarrow> string \<Rightarrow> string \<Rightarrow> string \<Rightarrow> int option \<Rightarrow> int option \<Rightarrow> (string \<times> string) list
       \<Rightarrow> site_db \<Rightarrow> (site_err, principal \<times> site_db) res" where
  "create_principal X now new_id kind name snapshot user created_by permissions db =
     (case principal_kind_of kind of
        None \<Rightarrow> Inl (Value_Error ''principal kind is invalid'')
      | Some kind \<Rightarrow>
          if (kind = Human) \<noteq> (user \<noteq> None)
          then Inl (Value_Error ''human principals require one user and service principals require none'')
          else
            bind_res (safe_name X name) (\<lambda>name.
            bind_res (safe_snapshot X snapshot) (\<lambda>snapshot.
              let p = \<lparr>principal_id = new_id, principal_kind = kind, principal_name = name,
                   identity_snapshot = snapshot, principal_active = True, principal_user = user,
                   principal_creator = created_by, principal_created = now, principal_updated = now,
                   principal_revision = 1\<rparr>
              in bind_res (insert_principal p db) (\<lambda>db. Inr (p, set_permissions new_id permissions db)))))"

text \<open>\<open>APIPrincipal.save\<close>: the identity of a stored principal cannot change.\<close>

definition save_principal ::
    "(principal \<Rightarrow> principal \<Rightarrow> principal) \<Rightarrow> principal \<Rightarrow> site_db \<Rightarrow> (site_err, site_db) res" where
  "save_principal copy p db =
     (let write_row = bind_res (save_revisioned principal_id principal_revision copy p (principals db))
            (\<lambda>rows. Inr (db\<lparr>principals := rows\<rparr>))
      in case List.find (\<lambda>r. principal_id r = principal_id p) (principals db) of
        None \<Rightarrow> write_row
      | Some original \<Rightarrow>
          if principal_kind original \<noteq> principal_kind p \<or> principal_user original \<noteq> principal_user p
             \<or> identity_snapshot original \<noteq> identity_snapshot p
          then Inl (Immutable_Identity ''principal identity fields are immutable'')
          else write_row)"

definition activity_columns :: "datetime \<Rightarrow> principal \<Rightarrow> principal \<Rightarrow> principal" where
  "activity_columns now self r = r\<lparr>principal_active := principal_active self,
     principal_revision := principal_revision self, principal_updated := now\<rparr>"

definition set_principal_active ::
    "datetime \<Rightarrow> uuid \<Rightarrow> bool \<Rightarrow> int \<Rightarrow> site_db \<Rightarrow> (site_err, principal \<times> site_db) res" where
  "set_principal_active now i is_active expected_revision db =
     bind_res (get_principal i db) (\<lambda>p.
       if principal_revision p \<noteq> expected_revision
       then Inl (Revision_Conflict expected_revision (principal_revision p))
       else
         let p = p\<lparr>principal_active := is_active, principal_revision := principal_revision p + 1\<rparr>
         in bind_res (save_principal (activity_columns now) p db) (\<lambda>db.
              Inr (p\<lparr>principal_updated := now\<rparr>, db)))"

definition revision_columns :: "datetime \<Rightarrow> principal \<Rightarrow> principal \<Rightarrow> principal" where
  "revision_columns now self r = r\<lparr>principal_revision := principal_revision self, principal_updated := now\<rparr>"

definition replace_principal_permissions ::
    "datetime \<Rightarrow> uuid \<Rightarrow> (string \<times> string) list \<Rightarrow> int \<Rightarrow> site_db \<Rightarrow> (site_err, principal \<times> site_db) res" where
  "replace_principal_permissions now i permissions expected_revision db =
     bind_res (get_principal i db) (\<lambda>p.
       if principal_revision p \<noteq> expected_revision
       then Inl (Revision_Conflict expected_revision (principal_revision p))
       else
         let p = p\<lparr>principal_revision := principal_revision p + 1\<rparr>
         in bind_res (save_principal (revision_columns now) p db) (\<lambda>db.
              Inr (p\<lparr>principal_updated := now\<rparr>, set_permissions i permissions db)))"

subsection \<open>Authority\<close>

definition principal_has_permission :: "site_db \<Rightarrow> principal \<Rightarrow> string \<Rightarrow> bool" where
  "principal_has_permission db p permission = (case split_permission permission of
     None \<Rightarrow> False
   | Some granted \<Rightarrow>
       if (principal_id p, granted) \<notin> set (grants db) then False
       else if principal_kind p = Service then principal_user p = None
       else (case principal_user p of
           None \<Rightarrow> False
         | Some u \<Rightarrow> (case get_user u db of
             None \<Rightarrow> False
           | Some user \<Rightarrow> user_active user \<and> identity_state_eligible user
               \<and> has_explicit_permission user permission)))"

text \<open>\<open>_reload_linked_user\<close> raises when the linked user is gone.\<close>

definition reload_linked_user :: "principal \<Rightarrow> site_db \<Rightarrow> (site_err, unit) res" where
  "reload_linked_user p db = (case principal_user p of
     None \<Rightarrow> Inr ()
   | Some u \<Rightarrow> guard_res (get_user u db \<noteq> None) Does_Not_Exist)"

definition rotated_out :: "datetime \<Rightarrow> credential \<Rightarrow> bool" where
  "rotated_out now c \<longleftrightarrow> credential_rotated c \<noteq> None
     \<and> (case overlap_expires c of None \<Rightarrow> True | Some t \<Rightarrow> t \<le> now)"

definition lock_actor_authority ::
    "registry \<Rightarrow> datetime \<Rightarrow> principal \<Rightarrow> string \<Rightarrow> credential option \<Rightarrow> capability option \<Rightarrow> site_db
       \<Rightarrow> (site_err, principal) res" where
  "lock_actor_authority registry now actor_principal permission actor_credential actor_capability db =
     (if (actor_credential = None) \<noteq> (actor_capability = None)
      then Inl (Permission_Error ''actor credential authority is incomplete'')
      else
        case bind_res (get_principal (principal_id actor_principal) db) (\<lambda>actor.
               bind_res (reload_linked_user actor db) (\<lambda>_. Inr actor)) of
          Inl e \<Rightarrow> Inl (Permission_Error ''actor authority is unavailable'')
        | Inr actor \<Rightarrow>
            if \<not> principal_active actor \<or> \<not> principal_has_permission db actor permission
            then Inl (Permission_Error ''actor authority was denied'')
            else (case (actor_credential, actor_capability) of
                (Some presented, Some declared) \<Rightarrow>
                  (case registry (cap_key declared) of
                     None \<Rightarrow> Inl (Permission_Error ''actor capability authority is unavailable'')
                   | Some capability \<Rightarrow>
                       (case get_credential (credential_id presented) db of
                          Inl e \<Rightarrow> Inl (Permission_Error ''actor credential authority is unavailable'')
                        | Inr c \<Rightarrow>
                            if credential_principal c \<noteq> principal_id actor
                               \<or> digest_algorithm c \<noteq> digest_algorithm_name
                               \<or> digest_version c \<noteq> digest_version_number
                               \<or> credential_expires c \<le> now
                               \<or> credential_revoked c \<noteq> None
                               \<or> rotated_out now c
                               \<or> cap_permission capability \<noteq> permission
                               \<or> cap_key capability \<notin> set (credential_scopes c)
                            then Inl (Permission_Error ''actor credential authority was denied'')
                            else (case cap_function_policy capability of
                                None \<Rightarrow> Inr actor
                              | Some policy \<Rightarrow>
                                  if policy actor c = Some True then Inr actor
                                  else Inl (Permission_Error ''actor function policy was denied''))))
              | _ \<Rightarrow> Inr actor))"

definition check_scope :: "registry \<Rightarrow> site_db \<Rightarrow> principal \<Rightarrow> string \<Rightarrow> (site_err, string) res" where
  "check_scope registry db p scope =
     (if scope = [] \<or> length scope > 128 then Inl (Value_Error ''credential scope is invalid'')
      else case registry scope of
        None \<Rightarrow> Inl (Value_Error ''credential scope is unknown'')
      | Some capability \<Rightarrow>
          if principal_has_permission db p (cap_permission capability) then Inr scope
          else Inl (Permission_Error ''credential scope exceeds principal authority''))"

definition normalize_scopes :: "registry \<Rightarrow> site_db \<Rightarrow> principal \<Rightarrow> string list \<Rightarrow> (site_err, string list) res" where
  "normalize_scopes registry db p scopes =
     bind_res (map_res (check_scope registry db p) scopes) (\<lambda>checked.
       let normalized = remdups checked
       in if normalized = [] \<or> length normalized > 64
          then Inl (Value_Error ''credentials require between 1 and 64 scopes'')
          else Inr (sort normalized))"

definition validate_expiry :: "datetime \<Rightarrow> datetime option \<Rightarrow> (site_err, datetime) res" where
  "validate_expiry now expires_at =
     (let selected = (case expires_at of None \<Rightarrow> now + default_credential_lifetime | Some t \<Rightarrow> t)
      in if selected \<le> now \<or> selected > now + max_credential_lifetime
         then Inl (Value_Error ''credential expiry must be within 90 days'') else Inr selected)"

definition validate_overlap :: "int \<Rightarrow> (site_err, int) res" where
  "validate_overlap overlap =
     (if overlap < default_rotation_overlap \<or> overlap > max_rotation_overlap
      then Inl (Value_Error ''rotation overlap must be between zero and one hour'') else Inr overlap)"

subsection \<open>Issue\<close>

text \<open>The random draws of a call: row ids, tokens and salts, by attempt.\<close>

record draws =
  dr_id :: "nat \<Rightarrow> uuid"
  dr_token :: "nat \<Rightarrow> (site_err, generated_token) res"
  dr_salt :: "nat \<Rightarrow> nat"

text \<open>The insert with the constraints of \<open>APICredential.Meta\<close> and the unique columns.\<close>

definition insert_credential :: "credential \<Rightarrow> site_db \<Rightarrow> (site_err, site_db) res" where
  "insert_credential c db =
     (if credential_id c \<in> credential_id ` set (credentials db)
        \<or> credential_prefix c \<in> credential_prefix ` set (credentials db)
        \<or> (predecessor c \<noteq> None \<and> predecessor c \<in> predecessor ` set (credentials db))
        \<or> credential_expires c \<le> credential_created c
      then Inl Integrity_Error
      else Inr (db\<lparr>credentials := credentials db @ [c]\<rparr>))"

record issued_credential =
  issued_row :: credential
  raw_token :: string

text \<open>What a new credential has before its prefix and digest are drawn.\<close>

definition new_credential ::
    "datetime \<Rightarrow> uuid \<Rightarrow> string \<Rightarrow> string list \<Rightarrow> datetime \<Rightarrow> int option \<Rightarrow> uuid option \<Rightarrow> credential" where
  "new_credential now owner name scopes expires_at created_by pred =
     \<lparr>credential_id = 0, credential_principal = owner, credential_name = name, credential_prefix = [],
      secret_digest = [], digest_algorithm = digest_algorithm_name, digest_version = digest_version_number,
      credential_scopes = scopes, credential_expires = expires_at, credential_revoked = None,
      credential_rotated = None, overlap_expires = None, predecessor = pred, last_used = None,
      credential_creator = created_by, credential_created = now, credential_updated = now,
      credential_revision = 1\<rparr>"

fun insert_attempts ::
    "externals \<Rightarrow> draws \<Rightarrow> credential \<Rightarrow> nat \<Rightarrow> nat \<Rightarrow> site_db \<Rightarrow> (site_err, issued_credential \<times> site_db) res" where
  "insert_attempts X draws row 0 k db = Inl (Creation_Failed ''credential prefix allocation failed'')"
| "insert_attempts X draws row (Suc n) k db =
     bind_res (dr_token draws k) (\<lambda>generated.
       let c = row\<lparr>credential_id := dr_id draws k, credential_prefix := token_prefix generated,
             secret_digest := encode_secret X (dr_salt draws k) (token_secret generated)\<rparr>
       in case insert_credential c db of
            Inr db \<Rightarrow> Inr (\<lparr>issued_row = c, raw_token = token_raw generated\<rparr>, db)
          | Inl e \<Rightarrow>
              if token_prefix generated \<in> credential_prefix ` set (credentials db)
              then insert_attempts X draws row n (Suc k) db else Inl e)"

definition insert_generated_credential ::
    "externals \<Rightarrow> draws \<Rightarrow> credential \<Rightarrow> site_db \<Rightarrow> (site_err, issued_credential \<times> site_db) res" where
  "insert_generated_credential X draws row db = insert_attempts X draws row prefix_collision_retries 0 db"

definition issued_response :: "datetime \<Rightarrow> issued_credential \<Rightarrow> site_db \<Rightarrow> (site_err, one_time_result) res" where
  "issued_response now issued db =
     bind_res (get_principal (credential_principal (issued_row issued)) db) (\<lambda>p.
       let safe = present_credential now p (issued_row issued)
       in Inr \<lparr>response = PDict (safe @ [(''token'', PStr (raw_token issued))]), safe_result = PDict safe\<rparr>)"

text \<open>What every call carries: the clock, the ids of its idempotency record and the caller's authority.\<close>

record service_call =
  sv_now :: datetime
  sv_record :: uuid
  sv_again :: uuid
  sv_owner :: uuid
  sv_actor :: principal
  sv_permission :: string
  sv_credential :: "credential option"
  sv_capability :: "capability option"
  sv_key :: string

definition one_time_call_of :: "service_call \<Rightarrow> string \<Rightarrow> payload \<Rightarrow> bool \<Rightarrow> one_time_call" where
  "one_time_call_of sv operation request replay_safe =
     \<lparr>ot_now = sv_now sv, ot_record = sv_record sv, ot_again = sv_again sv, ot_owner = sv_owner sv,
      ot_principal = principal_id (sv_actor sv), ot_operation = operation, ot_key = sv_key sv,
      ot_request = PDict request, ot_replay_safe = replay_safe\<rparr>"

definition actor_authority :: "registry \<Rightarrow> service_call \<Rightarrow> site_db \<Rightarrow> (site_err, principal) res" where
  "actor_authority registry sv db =
     lock_actor_authority registry (sv_now sv) (sv_actor sv) (sv_permission sv) (sv_credential sv) (sv_capability sv) db"

definition expiry_json :: "datetime option \<Rightarrow> pyval" where
  "expiry_json t = (case t of None \<Rightarrow> PNone | Some t \<Rightarrow> PStr (py_isoformat t))"

definition issue_command ::
    "externals \<Rightarrow> registry \<Rightarrow> draws \<Rightarrow> service_call \<Rightarrow> uuid \<Rightarrow> string \<Rightarrow> string list \<Rightarrow> datetime option \<Rightarrow> int option
       \<Rightarrow> one_time_command" where
  "issue_command X registry draws sv target_id name scopes expires_at created_by db =
     bind_res (actor_authority registry sv db) (\<lambda>actor.
     bind_res (get_principal target_id db) (\<lambda>target.
     bind_res (reload_linked_user target db) (\<lambda>_.
     if \<not> principal_active target then Inl (State_Conflict ''target principal is inactive'')
     else
     bind_res (normalize_scopes registry db target scopes) (\<lambda>scopes.
     bind_res (validate_expiry (sv_now sv) expires_at) (\<lambda>expires.
     bind_res (insert_generated_credential X draws
         (new_credential (sv_now sv) (principal_id target) name scopes expires created_by None) db) (\<lambda>(issued, db).
     bind_res (audit_credential X (sv_now sv) actor (issued_row issued) ''management.credential.created''
         ''management.credential.create'' (sv_key sv) [(''created'', PBool True)] [] db) (\<lambda>db.
     bind_res (issued_response (sv_now sv) issued db) (\<lambda>result. Inr (result, db)))))))))"

definition issue_credential_once ::
    "externals \<Rightarrow> registry \<Rightarrow> draws \<Rightarrow> service_call \<Rightarrow> uuid \<Rightarrow> string \<Rightarrow> string list \<Rightarrow> datetime option \<Rightarrow> int option
       \<Rightarrow> site_db \<Rightarrow> (site_err, one_time_result \<times> site_db) res" where
  "issue_credential_once X registry draws sv target_id name scopes expires_at created_by db =
     bind_res (safe_name X name) (\<lambda>selected_name.
       execute_one_time_idempotent X
         (one_time_call_of sv ''management.credential.create''
           [(''target_principal_id'', PStr (uuid_str target_id)), (''name'', PStr selected_name),
            (''scopes'', PList (map PStr (sort scopes))), (''expires_at'', expiry_json expires_at)] False)
         (issue_command X registry draws sv target_id selected_name scopes expires_at created_by) db)"

subsection \<open>Rotation\<close>

text \<open>\<open>APICredential.save\<close>: what a credential authorises cannot change.\<close>

definition same_authority :: "credential \<Rightarrow> credential \<Rightarrow> bool" where
  "same_authority c r \<longleftrightarrow> credential_principal r = credential_principal c
     \<and> credential_prefix r = credential_prefix c \<and> secret_digest r = secret_digest c
     \<and> digest_algorithm r = digest_algorithm c \<and> digest_version r = digest_version c
     \<and> credential_scopes r = credential_scopes c \<and> predecessor r = predecessor c"

definition save_credential ::
    "(credential \<Rightarrow> credential \<Rightarrow> credential) \<Rightarrow> credential \<Rightarrow> site_db \<Rightarrow> (site_err, site_db) res" where
  "save_credential copy c db =
     (let write_row = bind_res (save_revisioned credential_id credential_revision copy c (credentials db))
            (\<lambda>rows. Inr (db\<lparr>credentials := rows\<rparr>))
      in case List.find (\<lambda>r. credential_id r = credential_id c) (credentials db) of
        None \<Rightarrow> write_row
      | Some original \<Rightarrow>
          if same_authority c original then write_row
          else Inl (Immutable_Identity ''credential authority fields are immutable''))"

definition rotation_columns :: "datetime \<Rightarrow> credential \<Rightarrow> credential \<Rightarrow> credential" where
  "rotation_columns now self r = r\<lparr>credential_rotated := credential_rotated self,
     overlap_expires := overlap_expires self, credential_revision := credential_revision self,
     credential_updated := now\<rparr>"

definition rotate_command ::
    "externals \<Rightarrow> registry \<Rightarrow> draws \<Rightarrow> service_call \<Rightarrow> uuid \<Rightarrow> int \<Rightarrow> int \<Rightarrow> datetime option \<Rightarrow> int option
       \<Rightarrow> one_time_command" where
  "rotate_command X registry draws sv cid expected_revision overlap expires_at created_by db =
     (let now = sv_now sv
      in bind_res (actor_authority registry sv db) (\<lambda>actor.
         bind_res (get_credential cid db) (\<lambda>c.
         bind_res (get_principal (credential_principal c) db) (\<lambda>holder.
         bind_res (reload_linked_user holder db) (\<lambda>_.
         if credential_revision c \<noteq> expected_revision
         then Inl (Revision_Conflict expected_revision (credential_revision c))
         else if credential_revoked c \<noteq> None \<or> credential_rotated c \<noteq> None
         then Inl (State_Conflict ''credential cannot be rotated'')
         else if \<not> principal_active holder then Inl (State_Conflict ''target principal is inactive'')
         else
         bind_res (normalize_scopes registry db holder (credential_scopes c)) (\<lambda>scopes.
         bind_res (validate_expiry now expires_at) (\<lambda>expires.
         bind_res (insert_generated_credential X draws
             (new_credential now (principal_id holder) (credential_name c) scopes expires created_by (Some cid)) db)
           (\<lambda>(successor, db).
         let c = c\<lparr>credential_rotated := Some now, overlap_expires := Some (now + overlap),
               credential_revision := credential_revision c + 1\<rparr>
         in bind_res (save_credential (rotation_columns now) c db) (\<lambda>db.
            bind_res (audit_credential X now actor (issued_row successor) ''management.credential.rotated''
                ''management.credential.rotate'' (sv_key sv)
                [(''predecessor_id'', PStr (uuid_str cid)), (''overlap_seconds'', PInt (overlap div 1000000))] [] db)
              (\<lambda>db. bind_res (issued_response now successor db) (\<lambda>result. Inr (result, db))))))))))))"

definition rotate_credential_once ::
    "externals \<Rightarrow> registry \<Rightarrow> draws \<Rightarrow> service_call \<Rightarrow> uuid \<Rightarrow> int \<Rightarrow> int \<Rightarrow> datetime option \<Rightarrow> int option
       \<Rightarrow> site_db \<Rightarrow> (site_err, one_time_result \<times> site_db) res" where
  "rotate_credential_once X registry draws sv cid expected_revision overlap expires_at created_by db =
     bind_res (validate_overlap overlap) (\<lambda>selected_overlap.
       execute_one_time_idempotent X
         (one_time_call_of sv ''management.credential.rotate''
           [(''credential_id'', PStr (uuid_str cid)), (''expected_revision'', PInt expected_revision),
            (''overlap_seconds'', PInt (selected_overlap div 1000000)), (''expires_at'', expiry_json expires_at)] False)
         (rotate_command X registry draws sv cid expected_revision selected_overlap expires_at created_by) db)"

subsection \<open>Revocation and use\<close>

definition revocation_columns :: "datetime \<Rightarrow> credential \<Rightarrow> credential \<Rightarrow> credential" where
  "revocation_columns now self r = r\<lparr>credential_revoked := credential_revoked self,
     credential_revision := credential_revision self, credential_updated := now\<rparr>"

definition revoke_credential ::
    "externals \<Rightarrow> registry \<Rightarrow> service_call \<Rightarrow> uuid \<Rightarrow> int \<Rightarrow> site_db \<Rightarrow> (site_err, credential \<times> site_db) res" where
  "revoke_credential X registry sv cid expected_revision db =
     bind_res (actor_authority registry sv db) (\<lambda>actor.
     bind_res (get_credential cid db) (\<lambda>c.
     if credential_revision c \<noteq> expected_revision
     then Inl (Revision_Conflict expected_revision (credential_revision c))
     else if credential_revoked c \<noteq> None then Inr (c, db)
     else
       let c = c\<lparr>credential_revoked := Some (sv_now sv), credential_revision := credential_revision c + 1\<rparr>
       in bind_res (save_credential (revocation_columns (sv_now sv)) c db) (\<lambda>db.
          let c = c\<lparr>credential_updated := sv_now sv\<rparr>
          in bind_res (audit_credential X (sv_now sv) actor c ''management.credential.revoked''
               ''management.credential.revoke'' (sv_key sv) [(''revoked'', PBool True)] [] db) (\<lambda>db. Inr (c, db)))))"

definition revoke_command :: "externals \<Rightarrow> registry \<Rightarrow> service_call \<Rightarrow> uuid \<Rightarrow> int \<Rightarrow> one_time_command" where
  "revoke_command X registry sv cid expected_revision db =
     bind_res (revoke_credential X registry sv cid expected_revision db) (\<lambda>(c, db).
     if credential_revoked c = None then Inl (State_Conflict ''credential was not revoked'')
     else
       bind_res (get_principal (credential_principal c) db) (\<lambda>p.
         let safe = PDict (present_credential (sv_now sv) p c)
         in Inr (\<lparr>response = safe, safe_result = safe\<rparr>, db)))"

definition revoke_credential_once ::
    "externals \<Rightarrow> registry \<Rightarrow> service_call \<Rightarrow> uuid \<Rightarrow> int \<Rightarrow> site_db \<Rightarrow> (site_err, one_time_result \<times> site_db) res" where
  "revoke_credential_once X registry sv cid expected_revision db =
     execute_one_time_idempotent X
       (one_time_call_of sv ''management.credential.revoke''
         [(''credential_id'', PStr (uuid_str cid)), (''expected_revision'', PInt expected_revision)] True)
       (revoke_command X registry sv cid expected_revision) db"

definition note_credential_used :: "datetime \<Rightarrow> uuid \<Rightarrow> site_db \<Rightarrow> bool \<times> site_db" where
  "note_credential_used now cid db =
     (let due = (\<lambda>c. credential_id c = cid \<and> credential_revoked c = None
            \<and> (case last_used c of None \<Rightarrow> True | Some t \<Rightarrow> t \<le> now - last_used_write_interval))
      in (count_where due (credentials db) = 1,
          db\<lparr>credentials := update_where due (\<lambda>c. c\<lparr>last_used := Some now\<rparr>) (credentials db)\<rparr>))"

subsection \<open>Manageable credentials\<close>

definition issue_manageable_credential_once ::
    "externals \<Rightarrow> registry \<Rightarrow> draws \<Rightarrow> service_call \<Rightarrow> uuid \<Rightarrow> string \<Rightarrow> string list \<Rightarrow> datetime option \<Rightarrow> int option
       \<Rightarrow> site_db \<Rightarrow> (site_err, one_time_result \<times> site_db) res" where
  "issue_manageable_credential_once X registry draws sv target_id name scopes expires_at created_by db =
     (case List.find (\<lambda>p. principal_id p = target_id) (manageable_service_principals (sv_actor sv) db) of
        None \<Rightarrow> Inl (State_Conflict ''target principal is unavailable'')
      | Some target \<Rightarrow>
          issue_credential_once X registry draws sv (principal_id target) name scopes expires_at created_by db)"

definition rotate_manageable_credential_once ::
    "externals \<Rightarrow> registry \<Rightarrow> draws \<Rightarrow> service_call \<Rightarrow> uuid \<Rightarrow> int \<Rightarrow> int \<Rightarrow> datetime option \<Rightarrow> int option
       \<Rightarrow> site_db \<Rightarrow> (site_err, one_time_result \<times> site_db) res" where
  "rotate_manageable_credential_once X registry draws sv cid expected_revision overlap expires_at created_by db =
     (case List.find (\<lambda>c. credential_id c = cid) (manageable_credentials (sv_actor sv) db) of
        None \<Rightarrow> Inl (State_Conflict ''credential is unavailable'')
      | Some c \<Rightarrow>
          rotate_credential_once X registry draws sv (credential_id c) expected_revision overlap expires_at created_by db)"

definition revoke_manageable_credential_once ::
    "externals \<Rightarrow> registry \<Rightarrow> service_call \<Rightarrow> uuid \<Rightarrow> int \<Rightarrow> site_db \<Rightarrow> (site_err, one_time_result \<times> site_db) res" where
  "revoke_manageable_credential_once X registry sv cid expected_revision db =
     (case List.find (\<lambda>c. credential_id c = cid) (manageable_credentials (sv_actor sv) db) of
        None \<Rightarrow> Inl (State_Conflict ''credential is unavailable'')
      | Some c \<Rightarrow> revoke_credential_once X registry sv (credential_id c) expected_revision db)"

end
