(* ===== verification/Mg_Rate.thy ===== *)
theory Mg_Rate
  imports Core_Audit
begin

text \<open>
  The rate limits of the management API (\<open>management_auth/rate_limits.py\<close>): \<open>admit\<close> bounds the cost of a
  principal's requests in a sliding minute, \<open>verify_with_adaptive_limit\<close> the wrong guesses for a token
  prefix. SHA-256 is a field of \<open>externals\<close>; a failing database (\<open>RateLimitUnavailable\<close>) is not
  modelled. Calls are sequential, which is what the write fence on the subject row enforces.
\<close>

definition rate_window :: int where "rate_window = seconds 60"
definition read_rate_limit :: int where "read_rate_limit = 120"
definition write_rate_limit :: int where "write_rate_limit = 30"
definition adaptive_rate_limit :: int where "adaptive_rate_limit = 10"
definition min_rate_cost :: int where "min_rate_cost = 1"
definition max_rate_cost :: int where "max_rate_cost = 10"

lemmas rate_constants = rate_window_def read_rate_limit_def write_rate_limit_def adaptive_rate_limit_def
  min_rate_cost_def max_rate_cost_def

fun cost_class_value :: "cost_class \<Rightarrow> string" where
  "cost_class_value Read_Cost = ''read''" | "cost_class_value Write_Cost = ''write''"
| "cost_class_value Adaptive_Cost = ''adaptive''"

definition cost_class_of :: "string \<Rightarrow> cost_class option" where
  "cost_class_of s = List.find (\<lambda>c. cost_class_value c = s) [Read_Cost, Write_Cost, Adaptive_Cost]"

fun class_limit :: "cost_class \<Rightarrow> int" where
  "class_limit Read_Cost = read_rate_limit" | "class_limit Write_Cost = write_rate_limit"
| "class_limit Adaptive_Cost = adaptive_rate_limit"

text \<open>\<open>math.ceil(d.total_seconds())\<close> of a duration in microseconds, and the clamp of the exception.\<close>

definition ceil_seconds :: "int \<Rightarrow> int" where
  "ceil_seconds d = - ((- d) div 1000000)"

definition rate_limit_exceeded :: "int \<Rightarrow> site_err" where
  "rate_limit_exceeded retry_after = Rate_Limit_Exceeded (max 1 (min 60 retry_after))"

definition serialize_subject :: "string \<Rightarrow> cost_class \<Rightarrow> site_db \<Rightarrow> site_db" where
  "serialize_subject subject cls db =
     (let same = (\<lambda>r. rs_subject r = subject \<and> rs_class r = cls);
          rows = (if list_ex same (subjects db) then subjects db
                  else subjects db @ [\<lparr>rs_subject = subject, rs_class = cls, rs_revision = 0\<rparr>])
      in db\<lparr>subjects := update_where same (\<lambda>r. r\<lparr>rs_revision := rs_revision r + 1\<rparr>) rows\<rparr>)"

definition subject_hash :: "externals \<Rightarrow> string \<Rightarrow> string \<Rightarrow> string" where
  "subject_hash X kind subject =
     sha256 X (map of_char (''dtc:management-rate-subject:v1'' @ [CHR 0x00] @ kind @ [CHR 0x00] @ subject))"

text \<open>The admissions of a subject after \<open>cutoff\<close>, what they cost, and the oldest of them.\<close>

definition recent :: "string \<Rightarrow> cost_class \<Rightarrow> datetime \<Rightarrow> site_db \<Rightarrow> rate_admission list" where
  "recent subject cls cutoff db =
     filter (\<lambda>r. ra_subject r = subject \<and> ra_class r = cls \<and> ra_created r > cutoff) (admissions db)"

definition total_cost :: "rate_admission list \<Rightarrow> int" where
  "total_cost rows = sum_list (map ra_cost rows)"

definition retry_delay :: "string \<Rightarrow> cost_class \<Rightarrow> datetime \<Rightarrow> site_db \<Rightarrow> int" where
  "retry_delay subject cls admitted_at db =
     (case map ra_created (recent subject cls (admitted_at - rate_window) db) of
        [] \<Rightarrow> 60
      | t # ts \<Rightarrow> ceil_seconds (fold min ts t + rate_window - admitted_at))"

definition admit ::
    "externals \<Rightarrow> datetime \<Rightarrow> string \<Rightarrow> int \<Rightarrow> uuid option \<Rightarrow> string option \<Rightarrow> site_db \<Rightarrow> (site_err, site_db) res" where
  "admit X now cost_class cost actor invalid_prefix db =
     (if \<not> (min_rate_cost \<le> cost \<and> cost \<le> max_rate_cost)
      then Inl (Value_Error ''rate cost must be between 1 and 10'')
      else if (actor = None) = (invalid_prefix = None)
      then Inl (Value_Error ''exactly one rate subject is required'')
      else case cost_class_of cost_class of
        None \<Rightarrow> Inl (Value_Error ''unknown rate cost class'')
      | Some cls \<Rightarrow>
          let subject = (case actor of Some p \<Rightarrow> subject_hash X ''principal'' (uuid_str p)
                | None \<Rightarrow> subject_hash X ''invalid-prefix'' (case invalid_prefix of None \<Rightarrow> [] | Some s \<Rightarrow> s));
              db = serialize_subject subject cls db;
              current = total_cost (recent subject cls (now - rate_window) db)
          in if current + cost > class_limit cls
             then Inl (rate_limit_exceeded (retry_delay subject cls now db))
             else Inr (db\<lparr>admissions := admissions db @
                 [\<lparr>ra_principal = actor, ra_subject = subject, ra_class = cls, ra_cost = cost, ra_created = now\<rparr>]\<rparr>))"

definition verify_with_adaptive_limit ::
    "externals \<Rightarrow> datetime \<Rightarrow> string \<Rightarrow> bool \<Rightarrow> site_db \<Rightarrow> (site_err, bool \<times> site_db) res" where
  "verify_with_adaptive_limit X now prefix verified db =
     (let subject = subject_hash X ''invalid-prefix'' prefix;
          db = serialize_subject subject Adaptive_Cost db;
          failures = total_cost (recent subject Adaptive_Cost (now - rate_window) db)
      in if failures \<ge> adaptive_rate_limit
         then Inl (rate_limit_exceeded (retry_delay subject Adaptive_Cost now db))
         else if \<not> verified
         then Inr (False, db\<lparr>admissions := admissions db @
             [\<lparr>ra_principal = None, ra_subject = subject, ra_class = Adaptive_Cost, ra_cost = 1, ra_created = now\<rparr>]\<rparr>)
         else Inr (True, db))"

subsection \<open>The budget of a minute\<close>

definition spent :: "string \<Rightarrow> cost_class \<Rightarrow> datetime \<Rightarrow> site_db \<Rightarrow> int" where
  "spent subject cls t db =
     total_cost (filter (\<lambda>r. ra_created r \<le> t) (recent subject cls (t - rate_window) db))"

definition within_budget :: "site_db \<Rightarrow> bool" where
  "within_budget db \<longleftrightarrow> (\<forall>r \<in> set (admissions db). 1 \<le> ra_cost r)
     \<and> (\<forall>subject cls t. spent subject cls t db \<le> class_limit cls)"

lemma admissions_serialize [simp]: "admissions (serialize_subject s c db) = admissions db"
  by (simp add: serialize_subject_def Let_def)

lemma recent_serialize [simp]: "recent s c t (serialize_subject s' c' db) = recent s c t db"
  by (simp add: recent_def)

lemma total_cost_Nil [simp]: "total_cost [] = 0"
  and total_cost_append [simp]: "total_cost (xs @ ys) = total_cost xs + total_cost ys"
  and total_cost_Cons [simp]: "total_cost (r # xs) = ra_cost r + total_cost xs"
  by (simp_all add: total_cost_def)

lemma total_cost_mono:
  "(\<And>r. r \<in> set rows \<Longrightarrow> 1 \<le> ra_cost r) \<Longrightarrow> (\<And>r. r \<in> set rows \<Longrightarrow> P r \<Longrightarrow> Q r)
     \<Longrightarrow> total_cost (filter P rows) \<le> total_cost (filter Q rows)"
proof (induction rows)
  case (Cons a rows)
  then have "total_cost (filter P rows) \<le> total_cost (filter Q rows)" "1 \<le> ra_cost a" "P a \<Longrightarrow> Q a" by auto
  then show ?case by simp
qed simp

text \<open>
  An admission at time \<open>now\<close> that leaves the minute before \<open>now\<close> within the limit leaves every minute
  within it, whatever the order of the clock readings.
\<close>

lemma within_budget_admission:
  assumes ok: "within_budget db" and "1 \<le> cost"
    and fits: "total_cost (recent subject cls (now - rate_window) db) + cost \<le> class_limit cls"
    and rows: "admissions db' = admissions db @
      [\<lparr>ra_principal = p, ra_subject = subject, ra_class = cls, ra_cost = cost, ra_created = now\<rparr>]"
  shows "within_budget db'"
proof -
  have costs: "r \<in> set (admissions db) \<Longrightarrow> 1 \<le> ra_cost r" for r using ok by (simp add: within_budget_def)
  have "spent s c t db' \<le> class_limit c" for s c t
  proof (cases "s = subject \<and> c = cls \<and> now \<le> t \<and> t - rate_window < now")
    case True
    then have "spent s c t db' = spent subject cls t db + cost"
      by (simp add: spent_def recent_def rows)
    also have "spent subject cls t db \<le> total_cost (recent subject cls (now - rate_window) db)"
      unfolding spent_def recent_def filter_filter using costs True by (intro total_cost_mono) auto
    finally show ?thesis using fits True by simp
  next
    case False
    then have "spent s c t db' = spent s c t db" by (auto simp: spent_def recent_def rows)
    then show ?thesis using ok by (simp add: within_budget_def)
  qed
  then show ?thesis using costs assms(2) by (auto simp: within_budget_def rows)
qed

lemma admit_within_budget:
  assumes "within_budget db" and "admit X now cost_class cost actor invalid_prefix db = Inr db'"
  shows "within_budget db'"
proof -
  from assms(2) obtain cls subject where "1 \<le> cost"
    and "total_cost (recent subject cls (now - rate_window) db) + cost \<le> class_limit cls"
    and "admissions db' = admissions db @
      [\<lparr>ra_principal = actor, ra_subject = subject, ra_class = cls, ra_cost = cost, ra_created = now\<rparr>]"
    by (auto simp: admit_def Let_def min_rate_cost_def not_less split: if_splits option.splits)
  then show ?thesis using within_budget_admission [OF assms(1)] by blast
qed

lemma verify_within_budget:
  assumes "within_budget db" and "verify_with_adaptive_limit X now prefix verified db = Inr (b, db')"
  shows "within_budget db'" and "b = verified"
proof -
  let ?s = "subject_hash X ''invalid-prefix'' prefix"
  from assms(2) have b: "b = verified"
    and room: "total_cost (recent ?s Adaptive_Cost (now - rate_window) db) + 1 \<le> class_limit Adaptive_Cost"
    and rows: "admissions db' = admissions db @ (if verified then [] else
      [\<lparr>ra_principal = None, ra_subject = ?s, ra_class = Adaptive_Cost, ra_cost = 1, ra_created = now\<rparr>])"
    by (auto simp: verify_with_adaptive_limit_def Let_def split: if_splits)
  show "b = verified" by (rule b)
  show "within_budget db'"
  proof (cases verified)
    case True
    with rows assms(1) show ?thesis by (simp add: within_budget_def spent_def recent_def)
  next
    case False
    then show ?thesis using within_budget_admission [OF assms(1) _ room] rows by simp
  qed
qed

subsection \<open>Guessing a secret\<close>

text \<open>
  A series of requests with tokens of one prefix, each with its time and whether its secret is right;
  \<open>Inr False\<close> is a secret that was compared and found wrong.
\<close>

fun guesses :: "externals \<Rightarrow> string \<Rightarrow> (datetime \<times> bool) list \<Rightarrow> site_db
    \<Rightarrow> (datetime \<times> (site_err, bool) res) list \<times> site_db" where
  "guesses X prefix [] db = ([], db)"
| "guesses X prefix ((now, verified) # rest) db =
     (let (answer, db) = (case verify_with_adaptive_limit X now prefix verified db of
            Inl e \<Rightarrow> (Inl e, db) | Inr (b, db) \<Rightarrow> (Inr b, db));
          (answers, db) = guesses X prefix rest db
      in ((now, answer) # answers, db))"

definition wrong_guesses :: "datetime \<Rightarrow> (datetime \<times> (site_err, bool) res) list \<Rightarrow> int" where
  "wrong_guesses t answers = count_where (\<lambda>(u, a). t - rate_window < u \<and> u \<le> t \<and> a = Inr False) answers"

lemma guesses_spent:
  "within_budget db \<Longrightarrow> guesses X prefix tries db = (answers, db') \<Longrightarrow>
     within_budget db' \<and> spent (subject_hash X ''invalid-prefix'' prefix) Adaptive_Cost t db'
       = spent (subject_hash X ''invalid-prefix'' prefix) Adaptive_Cost t db + wrong_guesses t answers"
proof (induction tries arbitrary: db answers)
  case Nil
  then show ?case by (simp add: wrong_guesses_def count_where_def)
next
  case (Cons a tries)
  let ?s = "subject_hash X ''invalid-prefix'' prefix"
  obtain now verified where a: "a = (now, verified)" by fastforce
  obtain answer mid where step: "(answer, mid) = (case verify_with_adaptive_limit X now prefix verified db of
      Inl e \<Rightarrow> (Inl e, db) | Inr (b, db) \<Rightarrow> (Inr b, db))"
    by (metis surj_pair)
  then obtain rest where rest: "guesses X prefix tries mid = (rest, db')" and answers: "answers = (now, answer) # rest"
    using Cons.prems(2) by (auto simp: a Let_def split: prod.splits)
  have mid: "within_budget mid \<and> spent ?s Adaptive_Cost t mid
      = spent ?s Adaptive_Cost t db + (if t - rate_window < now \<and> now \<le> t \<and> answer = Inr False then 1 else 0)"
  proof (cases "verify_with_adaptive_limit X now prefix verified db")
    case (Inl e)
    then show ?thesis using step Cons.prems(1) by simp
  next
    case (Inr r)
    then obtain b where r: "verify_with_adaptive_limit X now prefix verified db = Inr (b, mid)" and "answer = Inr b"
      using step by (cases r) auto
    moreover from r have "admissions mid = admissions db @ (if b then [] else
      [\<lparr>ra_principal = None, ra_subject = ?s, ra_class = Adaptive_Cost, ra_cost = 1, ra_created = now\<rparr>])"
      by (auto simp: verify_with_adaptive_limit_def Let_def split: if_splits)
    ultimately show ?thesis
      using verify_within_budget [OF Cons.prems(1) r] by (simp add: spent_def recent_def)
  qed
  then show ?case using Cons.IH [of mid rest] rest
    by (simp add: answers wrong_guesses_def count_where_def)
qed

lemma spent_nonneg: "within_budget db \<Longrightarrow> 0 \<le> spent s c t db"
  unfolding spent_def recent_def total_cost_def within_budget_def
  by (rule sum_list_nonneg) auto

subsection \<open>Refusals end\<close>

lemma fold_min_mem: "fold min ts (t :: int) \<in> insert t (set ts)"
  by (induction ts arbitrary: t) (auto simp: min_def split: if_splits)

text \<open>When the last admission is a minute old, any valid request is admitted.\<close>

lemma admit_after_window:
  assumes cost: "min_rate_cost \<le> cost" "cost \<le> max_rate_cost" and who: "actor = Some p" "invalid_prefix = None"
    and cls: "cost_class_of cost_class = Some cls"
    and quiet: "\<forall>r \<in> set (admissions db). ra_subject r = subject_hash X ''principal'' (uuid_str p) \<and> ra_class r = cls
      \<longrightarrow> ra_created r \<le> now - rate_window"
  shows "\<exists>db'. admit X now cost_class cost actor invalid_prefix db = Inr db'"
proof -
  have "recent (subject_hash X ''principal'' (uuid_str p)) cls (now - rate_window) db = []"
    using quiet by (auto simp: recent_def filter_empty_conv)
  moreover have "cost \<le> class_limit cls" using cost by (cases cls) (simp_all add: rate_constants)
  ultimately show ?thesis using cost by (simp add: admit_def who cls Let_def)
qed

lemma ceil_seconds_bounds: "d \<le> seconds (ceil_seconds d)" "seconds (ceil_seconds d) < d + seconds 1"
  unfolding ceil_seconds_def seconds_def by linarith+

text \<open>
  A refusal names a delay of 1 to 60 seconds, at the end of which the oldest admission has left the
  window (unless its time lies in the future of the refused request).
\<close>

lemma refusal_delay:
  assumes "admit X now cost_class cost (Some p) None db = Inl (Rate_Limit_Exceeded delay)"
    and "cost_class_of cost_class = Some cls"
  defines "s \<equiv> subject_hash X ''principal'' (uuid_str p)"
  shows "1 \<le> delay \<and> delay \<le> 60"
    and "(\<And>r. r \<in> set (admissions db) \<Longrightarrow> ra_created r \<le> now) \<Longrightarrow>
      \<exists>r \<in> set (recent s cls (now - rate_window) db). ra_created r \<le> now + seconds delay - rate_window"
proof -
  have delay: "delay = max 1 (min 60 (retry_delay s cls now db))"
    and over: "class_limit cls < total_cost (recent s cls (now - rate_window) db) + cost" and cost: "cost \<le> 10"
    using assms by (auto simp: admit_def Let_def rate_limit_exceeded_def rate_constants retry_delay_def
        split: if_splits)
  show "1 \<le> delay \<and> delay \<le> 60" using delay by simp
  assume past: "\<And>r. r \<in> set (admissions db) \<Longrightarrow> ra_created r \<le> now"
  have "recent s cls (now - rate_window) db \<noteq> []"
    using over cost by (cases cls) (auto simp: rate_constants)
  then obtain r rs where rows: "recent s cls (now - rate_window) db = r # rs" by (cases "recent s cls (now - rate_window) db") auto
  let ?old = "fold min (map ra_created rs) (ra_created r)"
  have "?old \<in> ra_created ` set (recent s cls (now - rate_window) db)"
    using fold_min_mem [of "map ra_created rs" "ra_created r"] by (simp add: rows)
  then obtain x where x: "x \<in> set (recent s cls (now - rate_window) db)" "ra_created x = ?old"
    by (metis imageE)
  have "?old \<le> now" using past [of x] x by (simp add: recent_def)
  have delay_eq: "retry_delay s cls now db = ceil_seconds (?old + rate_window - now)"
    by (simp add: retry_delay_def rows)
  have "retry_delay s cls now db \<le> 60"
    using ceil_seconds_bounds(2) [of "?old + rate_window - now"] \<open>?old \<le> now\<close>
    unfolding delay_eq by (simp add: rate_window_def seconds_def)
  then have "retry_delay s cls now db \<le> delay" using delay by simp
  then have "?old + rate_window - now \<le> seconds delay"
    using ceil_seconds_bounds(1) [of "?old + rate_window - now"]
    by (simp add: delay_eq seconds_def)
  then show "\<exists>r \<in> set (recent s cls (now - rate_window) db). ra_created r \<le> now + seconds delay - rate_window"
    using x by (intro bexI [of _ x]) auto
qed

end
