(* ===== verification/Mg_Authentication.thy ===== *)
theory Mg_Authentication
  imports Mg_Services Mg_Rate
begin

text \<open>
  Bearer authentication of the management API (\<open>management_api/authentication.py\<close>), the device login
  (\<open>management_auth/device_login.py\<close>) and the confirmation policies (\<open>management_auth/policies.py\<close>).
  A refused request still writes: the failed guess is stored in a transaction of its own. So these
  functions return their answer and the store, whatever the answer is. Error messages are left out of
  \<open>Api_Error\<close>: they are constants that go with the code.
\<close>

subsection \<open>Requests\<close>

text \<open>
  The parts of a request the views read. \<open>rq_get\<close> lists the query parameters with all their values;
  the content type and its parameters are as \<open>parse_header_parameters\<close> reads them; \<open>rq_body\<close> is \<open>None\<close>
  when reading the body raises.
\<close>

record api_request =
  rq_method :: string
  rq_get :: "(string \<times> string list) list"
  rq_cookies :: "string list"
  rq_content_type :: string
  rq_content_params :: "(string \<times> string) list"
  rq_content_length :: string
  rq_body :: "int list option"
  rq_authorization :: string
  rq_if_match :: "string option"
  rq_idempotency_key :: string

record api_identity =
  identity_principal :: principal
  identity_credential :: credential

definition authentication_required :: site_err where
  "authentication_required = Api_Error 401 ''authentication_required'' [(''WWW-Authenticate'', ''Bearer'')] None"

definition permission_denied :: site_err where
  "permission_denied = Api_Error 403 ''permission_denied'' [] None"

definition rate_limited :: "site_err \<Rightarrow> site_err" where
  "rate_limited e = (let retry_after = (case e of Rate_Limit_Exceeded r \<Rightarrow> r | _ \<Rightarrow> 60)
     in Api_Error 429 ''rate_limited'' [(''Retry-After'', py_str_int retry_after)] None)"

text \<open>\<open>str.casefold\<close> on code points below 256, compared with ASCII words.\<close>

definition py_casefold :: "string \<Rightarrow> string" where
  "py_casefold s = concat (map (\<lambda>c. if (of_char c :: nat) = 223 then ''ss'' else [py_lower_char c]) s)"

definition token_input_keys :: "string list" where
  "token_input_keys = [''access_token'', ''authorization'', ''bearer'', ''token'']"

definition alternate_source :: "api_request \<Rightarrow> bool" where
  "alternate_source rq \<longleftrightarrow>
     list_ex (\<lambda>(k, v). py_casefold k \<in> set token_input_keys) (rq_get rq)
   \<or> list_ex (\<lambda>k. py_casefold k \<in> set token_input_keys) (rq_cookies rq)
   \<or> rq_content_type rq \<in> {''application/x-www-form-urlencoded'', ''multipart/form-data''}"

definition bearer :: string where "bearer = ''Bearer ''"

text \<open>The token of the \<open>Authorization\<close> header.\<close>

definition header_token :: "api_request \<Rightarrow> parsed_token option" where
  "header_token rq =
     (let header = rq_authorization rq; raw = drop (length bearer) header
      in if CHR '','' \<in> set header \<or> take (length bearer) header \<noteq> bearer then None
         else if raw = [] \<or> raw \<noteq> py_strip raw \<or> CHR '' '' \<in> set raw then None
         else parse_token (PStr raw))"

definition linked_user_disabled :: "principal \<Rightarrow> site_db \<Rightarrow> bool" where
  "linked_user_disabled p db \<longleftrightarrow> principal_kind p = Human \<and>
     (case principal_user p of None \<Rightarrow> True
      | Some u \<Rightarrow> (case get_user u db of None \<Rightarrow> True
          | Some user \<Rightarrow> \<not> user_active user \<or> \<not> identity_state_eligible user))"

definition credential_usable :: "datetime \<Rightarrow> credential \<Rightarrow> principal \<Rightarrow> site_db \<Rightarrow> bool" where
  "credential_usable now c p db \<longleftrightarrow> \<not> (digest_algorithm c \<noteq> digest_algorithm_name
     \<or> digest_version c \<noteq> digest_version_number \<or> credential_expires c \<le> now \<or> credential_revoked c \<noteq> None
     \<or> rotated_out now c \<or> \<not> principal_active p \<or> linked_user_disabled p db)"

definition authenticate ::
    "externals \<Rightarrow> datetime \<Rightarrow> bool \<Rightarrow> api_request \<Rightarrow> site_db \<Rightarrow> (site_err, api_identity) res \<times> site_db" where
  "authenticate X now reject_alternate_sources rq db =
     (if reject_alternate_sources \<and> alternate_source rq then (Inl authentication_required, db)
      else case header_token rq of
        None \<Rightarrow> (Inl authentication_required, db)
      | Some parsed \<Rightarrow>
          (case List.find (\<lambda>c. credential_prefix c = parsed_prefix parsed) (credentials db) of
             None \<Rightarrow>
               (case atomic (verify_with_adaptive_limit X now
                    (if prefix_pattern (parsed_prefix parsed) then parsed_prefix parsed else ''invalid'') False) db of
                  (Inl e, db) \<Rightarrow> (Inl (rate_limited e), db)
                | (Inr verified, db) \<Rightarrow> (Inl authentication_required, db))
           | Some c \<Rightarrow>
               (case atomic (verify_with_adaptive_limit X now (parsed_prefix parsed)
                    (verify_secret X (parsed_secret parsed) (secret_digest c))) db of
                  (Inl e, db) \<Rightarrow> (Inl (rate_limited e), db)
                | (Inr verified, db) \<Rightarrow>
                    if \<not> verified then (Inl authentication_required, db)
                    else case get_principal (credential_principal c) db of
                        Inl e \<Rightarrow> (Inl e, db)
                      | Inr p \<Rightarrow>
                          if credential_usable now c p db
                          then (Inr \<lparr>identity_principal = p, identity_credential = c\<rparr>, db)
                          else (Inl authentication_required, db))))"

definition authorize :: "api_identity \<Rightarrow> capability \<Rightarrow> site_db \<Rightarrow> (site_err, unit) res" where
  "authorize identity cap db =
     (if cap_key cap \<notin> set (credential_scopes (identity_credential identity)) then Inl permission_denied
      else if \<not> principal_has_permission db (identity_principal identity) (cap_permission cap)
      then Inl permission_denied
      else case cap_function_policy cap of
        None \<Rightarrow> Inr ()
      | Some policy \<Rightarrow>
          if policy (identity_principal identity) (identity_credential identity) = Some True then Inr ()
          else Inl permission_denied)"

subsection \<open>Confirmation policies\<close>

definition credential_confirmation_policy :: string where
  "credential_confirmation_policy = ''management.credentials.explicit-confirmation''"

definition fresh_confirmation_policy :: string where
  "fresh_confirmation_policy = ''management.high-risk.fresh-authenticated-confirmation''"

text \<open>
  \<open>confirmed is True\<close>; the fresh policy also wants the time of an authentication (\<open>None\<close> when there is
  none, or no aware datetime) and a positive setting.
\<close>

definition policy_authorize ::
    "datetime \<Rightarrow> pyval \<Rightarrow> string \<Rightarrow> pyval \<Rightarrow> datetime option \<Rightarrow> (site_err, bool) res" where
  "policy_authorize now freshness key confirmed authenticated_at =
     (if key = credential_confirmation_policy then Inr (confirmed = PBool True)
      else if key = fresh_confirmation_policy then
        Inr (confirmed = PBool True \<and> (case (authenticated_at, freshness) of
          (Some t, PInt secs) \<Rightarrow> 1 \<le> secs \<and> 0 \<le> now - t \<and> now - t \<le> seconds secs
        | _ \<Rightarrow> False))
      else Inl (Permission_Error ''high-risk policy is unavailable''))"

subsection \<open>Device login\<close>

definition launch_scopes :: "string list" where
  "launch_scopes = [''courses.launch.read'', ''courses.launch.write'', ''courses.launch.send'']"

definition launch_manage_permission :: string where
  "launch_manage_permission = ''courses.manage_course_launch''"

definition is_device_login_admin :: "user \<Rightarrow> bool" where
  "is_device_login_admin u \<longleftrightarrow> user_active u \<and> identity_state_eligible u
     \<and> has_explicit_permission u launch_manage_permission"

text \<open>\<open>order_by("-created_at").first()\<close>; the one-to-one link leaves at most one row.\<close>

definition principal_for ::
    "externals \<Rightarrow> datetime \<Rightarrow> uuid \<Rightarrow> user \<Rightarrow> site_db \<Rightarrow> (site_err, principal \<times> site_db) res" where
  "principal_for X now new_id u db =
     (case sort_key (\<lambda>p. - principal_created p)
         (filter (\<lambda>p. principal_kind p = Human \<and> principal_user p = Some (user_id u)) (principals db)) of
        p # ps \<Rightarrow> if principal_active p then Inr (p, db)
                  else Inl (Value_Error ''management principal is inactive'')
      | [] \<Rightarrow> create_principal X now new_id ''human'' (''Device login '' @ py_str_int (user_id u))
               (''device-login:'' @ py_str_int (user_id u)) (Some (user_id u)) (Some (user_id u)) [] db)"

definition device_credential_name :: "externals \<Rightarrow> string \<Rightarrow> string" where
  "device_credential_name X label =
     (let candidate = take 120 (py_strip (''Device login '' @ label))
      in if candidate = [] \<or> sensitive X candidate then ''Device login'' else candidate)"

text \<open>The loop over the launch scopes: the entitled ones, and the grants mirrored onto the principal.\<close>

fun mirror_grants ::
    "registry \<Rightarrow> user \<Rightarrow> uuid \<Rightarrow> string list \<Rightarrow> site_db \<Rightarrow> (site_err, string list) res \<times> site_db" where
  "mirror_grants registry u i [] db = (Inr [], db)"
| "mirror_grants registry u i (scope # scopes) db =
     (case registry scope of
        None \<Rightarrow> (Inl (Value_Error (''unknown credential scope: '' @ scope)), db)
      | Some cap \<Rightarrow>
          (case split_permission (cap_permission cap) of
             None \<Rightarrow> (Inl (Value_Error ''not enough values to unpack''), db)
           | Some permission \<Rightarrow>
               if \<not> has_explicit_permission u (cap_permission cap) \<or> permission \<notin> set (permission_rows db)
               then mirror_grants registry u i scopes db
               else
                 let db = (if (i, permission) \<in> set (grants db) then db
                           else db\<lparr>grants := grants db @ [(i, permission)]\<rparr>)
                 in bind_kept (mirror_grants registry u i scopes db) (\<lambda>entitled db.
                      (Inr (scope # entitled), db))))"

text \<open>
  The insert loop: the savepoint also covers the audit row, and every \<open>IntegrityError\<close> draws again.
\<close>

fun mint_attempts ::
    "externals \<Rightarrow> draws \<Rightarrow> principal \<Rightarrow> credential \<Rightarrow> nat \<Rightarrow> nat \<Rightarrow> site_db
       \<Rightarrow> (site_err, issued_credential \<times> site_db) res" where
  "mint_attempts X draws p row 0 k db = Inl (Value_Error ''credential prefix allocation failed'')"
| "mint_attempts X draws p row (Suc n) k db =
     bind_res (dr_token draws k) (\<lambda>generated.
       let c = row\<lparr>credential_id := dr_id draws k, credential_prefix := token_prefix generated,
             secret_digest := encode_secret X (dr_salt draws k) (token_secret generated)\<rparr>
       in case bind_res (insert_credential c db) (audit_credential X (credential_created row) p c
             ''management.credential.created'' ''management.credential.create'' []
             [(''created'', PBool True), (''source'', PStr ''device_login'')]
             [(''source'', PStr ''device_login''), (''device_label'', PStr (credential_name row))]) of
            Inr db \<Rightarrow> Inr (\<lparr>issued_row = c, raw_token = token_raw generated\<rparr>, db)
          | Inl e \<Rightarrow> if e = Integrity_Error then mint_attempts X draws p row n (Suc k) db else Inl e)"

text \<open>The login with the scopes its approver is entitled to.\<close>

definition mint_entitled ::
    "externals \<Rightarrow> registry \<Rightarrow> draws \<Rightarrow> datetime \<Rightarrow> user \<Rightarrow> string \<Rightarrow> principal \<Rightarrow> string list \<Rightarrow> site_db
       \<Rightarrow> (site_err, payload) res \<times> site_db" where
  "mint_entitled X registry draws now u label p entitled db =
     (if ''courses.launch.read'' \<notin> set entitled
      then (Inl (Value_Error ''approver needs course launch read access''), db)
      else
      case normalize_scopes registry db p entitled of
        Inl e \<Rightarrow> (Inl e, db)
      | Inr scopes \<Rightarrow>
          let expires_at = now + default_credential_lifetime
          in case atomic (mint_attempts X draws p
               (new_credential now (principal_id p) (device_credential_name X label) scopes expires_at
                 (Some (user_id u)) None) prefix_collision_retries 0) db of
               (Inl e, db) \<Rightarrow> (Inl e, db)
             | (Inr issued, db) \<Rightarrow>
                 (Inr [(''token'', PStr (raw_token issued)), (''expires_at'', PStr (py_isoformat expires_at)),
                   (''user'', PDict [(''email'', PStr (user_email u)), (''name'', PStr (user_full_name u))])], db))"

definition mint_device_credential ::
    "externals \<Rightarrow> registry \<Rightarrow> draws \<Rightarrow> datetime \<Rightarrow> uuid \<Rightarrow> user \<Rightarrow> string \<Rightarrow> site_db
       \<Rightarrow> (site_err, payload) res \<times> site_db" where
  "mint_device_credential X registry draws now new_id u label db =
     bind_kept (atomic (principal_for X now new_id u) db) (\<lambda>p db.
     bind_kept (mirror_grants registry u (principal_id p) launch_scopes db) (\<lambda>entitled db.
       mint_entitled X registry draws now u label p entitled db))"

end
