(* ===== verification/Mg_Http.thy ===== *)
theory Mg_Http
  imports Mg_Authentication Py_Number
begin

text \<open>
  The HTTP layer of credential management: the dispatcher every management view runs in
  (\<open>management_api/dispatch.py\<close>), revision ETags (\<open>concurrency.py\<close>), page queries (\<open>query.py\<close>), field
  and object policies (\<open>policies.py\<close>, \<open>management_auth/runtime_capabilities.py\<close>) and the four credential
  views (\<open>views.py\<close>). Python's readers of JSON (\<open>None\<close> when it raises; the pairs of an object in
  order, duplicates included), UUID and ISO timestamps are fields of \<open>http_env\<close>. The request id, the error messages and the removal of
  CORS headers are left out.
\<close>

record api_response =
  rp_status :: int
  rp_body :: payload
  rp_headers :: "(string \<times> string) list"

datatype iso_timestamp = Iso_Error | Iso_Naive | Iso_Aware datetime

record http_env =
  env_now :: datetime
  env_registry :: registry
  env_draws :: draws
  env_record :: uuid
  env_again :: uuid
  env_owner :: uuid
  env_loads :: "int list \<Rightarrow> pyval option"
  env_collate :: "string \<Rightarrow> int"
  env_parse_uuid :: "string \<Rightarrow> uuid option"
  env_parse_iso :: "string \<Rightarrow> iso_timestamp"

definition error_response :: "site_err \<Rightarrow> api_response" where
  "error_response e = (case e of
     Api_Error code name headers safe \<Rightarrow>
       \<lparr>rp_status = code, rp_body = [(''error'', PDict [(''code'', PStr name)])]
          @ (case safe of None \<Rightarrow> [] | Some v \<Rightarrow> [(''result'', v)]), rp_headers = headers\<rparr>
   | _ \<Rightarrow> \<lparr>rp_status = 500, rp_body = [(''error'', PDict [(''code'', PStr ''internal_error'')])], rp_headers = []\<rparr>)"

definition is_api_error :: "site_err \<Rightarrow> bool" where
  "is_api_error e = (case e of Api_Error c n h s \<Rightarrow> True | _ \<Rightarrow> False)"

subsection \<open>Dispatch\<close>

definition is_credential_key :: "string \<Rightarrow> bool" where
  "is_credential_key key \<longleftrightarrow> take (length ''management.credentials.'') key = ''management.credentials.''"

definition allowed_methods :: "capability \<Rightarrow> string list" where
  "allowed_methods cap = (if cap_method cap = ''GET'' then [''GET'', ''HEAD''] else [cap_method cap])"

definition admit_request :: "externals \<Rightarrow> datetime \<Rightarrow> capability \<Rightarrow> api_identity \<Rightarrow> site_db
    \<Rightarrow> (site_err, unit) res \<times> site_db" where
  "admit_request X now cap identity db =
     (case admit X now (if cap_rate_class cap = Some ''read'' then ''read'' else ''write'') (cap_rate_cost cap)
         (Some (principal_id (identity_principal identity))) None db of
        Inr db \<Rightarrow> (Inr (), db)
      | Inl (Rate_Limit_Exceeded r) \<Rightarrow> (Inl (rate_limited (Rate_Limit_Exceeded r)), db)
      | Inl e \<Rightarrow> (Inl e, db))"

text \<open>The \<open>try\<close> block: the answer, what is known of the caller when it raises, and the store.\<close>

definition run_view ::
    "externals \<Rightarrow> http_env \<Rightarrow> string \<Rightarrow> bool
       \<Rightarrow> (api_identity \<Rightarrow> capability \<Rightarrow> api_request \<Rightarrow> site_db \<Rightarrow> (site_err, api_response) res \<times> site_db)
       \<Rightarrow> api_request \<Rightarrow> site_db
       \<Rightarrow> (site_err, api_response) res \<times> (api_identity \<times> capability) option \<times> site_db" where
  "run_view X env key test_only view rq db =
     (case env_registry env key of
        None \<Rightarrow> (Inl permission_denied, None, db)
      | Some cap \<Rightarrow>
          if cap_api_test_only cap \<noteq> test_only then (Inl permission_denied, None, db)
          else case authenticate X (env_now env) True rq db of
            (Inl e, db) \<Rightarrow> (Inl e, None, db)
          | (Inr identity, db) \<Rightarrow>
              let known = Some (identity, cap)
              in (case authorize identity cap db of
                    Inl e \<Rightarrow> (Inl e, known, db)
                  | Inr _ \<Rightarrow>
                      if rq_method rq \<notin> set (allowed_methods cap)
                      then (Inl (Api_Error 405 ''method_not_allowed''
                              [(''Allow'', py_join '', '' (allowed_methods cap))] None), known, db)
                      else (case admit_request X (env_now env) cap identity db of
                          (Inl e, db) \<Rightarrow> (Inl e, known, db)
                        | (Inr _, db) \<Rightarrow>
                            (case view identity cap rq db of
                               (Inl e, db) \<Rightarrow> (Inl e, known, db)
                             | (Inr r, db) \<Rightarrow>
                                 (Inr r, known, snd (note_credential_used (env_now env)
                                    (credential_id (identity_credential identity)) db))))))"

text \<open>The audit row of a refused command.\<close>

definition denied_key_hash :: "externals \<Rightarrow> api_identity \<Rightarrow> capability \<Rightarrow> api_request \<Rightarrow> string" where
  "denied_key_hash X identity cap rq =
     (case bind_res (if is_credential_key (cap_key cap) then credential_idempotency_operation (cap_key cap)
                     else Inr (cap_key cap)) (\<lambda>operation.
             hash_management_idempotency_key X (principal_id (identity_principal identity)) operation
               (rq_idempotency_key rq)) of
        Inl e \<Rightarrow> [] | Inr h \<Rightarrow> h)"

definition audit_denied ::
    "externals \<Rightarrow> api_identity \<Rightarrow> capability \<Rightarrow> api_request \<Rightarrow> string \<Rightarrow> site_db \<Rightarrow> (site_err, site_db) res" where
  "audit_denied X identity cap rq reason db =
     (let p = identity_principal identity; credentials_key = is_credential_key (cap_key cap)
      in record_audit_event X (cap_audit_action cap)
           (if credentials_key then ''management.credential'' else ''management.command'') ''denied''
           \<lparr>ac_actor_id = principal_user p, ac_principal = Some (principal_id p),
            ac_actor_ref = principal_ref (principal_id p), ac_key_hash = denied_key_hash X identity cap rq\<rparr>
           None (if credentials_key then ''credential-request'' else ''management-command'') (PDict [])
           (PDict (if credentials_key
              then [(''reason'', PStr reason), (''scopes'', PList []), (''expires_at'', PNone), (''state'', PStr ''denied'')]
              else [(''reason'', PStr reason), (''state'', PStr ''denied'')])) db)"

text \<open>
  An error of the audit itself leaves the decorator and becomes the middleware's 500 response.
\<close>

definition dispatch ::
    "externals \<Rightarrow> http_env \<Rightarrow> string \<Rightarrow> bool
       \<Rightarrow> (api_identity \<Rightarrow> capability \<Rightarrow> api_request \<Rightarrow> site_db \<Rightarrow> (site_err, api_response) res \<times> site_db)
       \<Rightarrow> api_request \<Rightarrow> site_db \<Rightarrow> api_response \<times> site_db" where
  "dispatch X env key test_only view rq db =
     (case run_view X env key test_only view rq db of
        (Inr r, known, db) \<Rightarrow> (r, db)
      | (Inl e, known, db) \<Rightarrow>
          (case (e, known) of
             (Api_Error code reason headers safe, Some (identity, cap)) \<Rightarrow>
               if \<not> cap_test_only cap \<and> cap_kind cap = Command \<and> code \<ge> 400
               then (case audit_denied X identity cap rq reason db of
                   Inl failure \<Rightarrow> (error_response (Runtime_Error ''audit''), db)
                 | Inr db \<Rightarrow> (error_response e, db))
               else (error_response e, db)
           | _ \<Rightarrow> (error_response e, db)))"

subsection \<open>Revision ETags\<close>

definition revision_etag :: "int \<Rightarrow> (site_err, string) res" where
  "revision_etag revision =
     (if revision < 1 then Inl (Value_Error ''revision must be positive'')
      else Inr ([CHR 0x22] @ ''rev-'' @ py_str_int revision @ [CHR 0x22]))"

definition invalid_if_match :: site_err where
  "invalid_if_match = Api_Error 400 ''invalid_if_match'' [] None"

text \<open>\<open>^"rev-([1-9][0-9]*)"$\<close>.\<close>

definition etag_revision :: "string \<Rightarrow> string option" where
  "etag_revision raw =
     (let head = [CHR 0x22] @ ''rev-''; rest = drop (length head) raw
      in if take (length head) raw = head \<and> rest \<noteq> [] \<and> last rest = CHR 0x22 \<and> butlast rest \<noteq> []
           \<and> list_all ascii_digit (butlast rest) \<and> hd (butlast rest) \<noteq> CHR ''0''
         then Some (butlast rest) else None)"

text \<open>\<open>int(text)\<close> refuses more than 4300 digits.\<close>

definition int_max_digits :: nat where "int_max_digits = 4300"

definition require_if_match :: "api_request \<Rightarrow> (site_err, int) res" where
  "require_if_match rq = (case rq_if_match rq of
     None \<Rightarrow> Inl (Api_Error 428 ''precondition_required'' [] None)
   | Some raw \<Rightarrow>
       if CHR '','' \<in> set raw \<or> take 2 raw = ''W/'' \<or> raw = ''*'' then Inl invalid_if_match
       else (case etag_revision raw of
           None \<Rightarrow> Inl invalid_if_match
         | Some digits \<Rightarrow>
             if length digits > int_max_digits then Inl (Value_Error ''Exceeds the limit for integer string conversion'')
             else Inr (digits_value digits)))"

subsection \<open>JSON bodies\<close>

definition max_json_bytes :: nat where "max_json_bytes = 65536"

text \<open>\<open>_object_from_pairs\<close> raises on a repeated key, in every object of the body.\<close>

fun objects_from_pairs :: "pyval \<Rightarrow> bool" where
  "objects_from_pairs (PDict pairs) \<longleftrightarrow> distinct (map fst pairs) \<and> list_all (\<lambda>kv. objects_from_pairs (snd kv)) pairs"
| "objects_from_pairs (PList items) \<longleftrightarrow> list_all objects_from_pairs items"
| "objects_from_pairs v \<longleftrightarrow> True"

text \<open>Every error of \<open>canonical_json_object\<close> is an \<open>UnsafeJsonValue\<close>; it returns an object.\<close>

definition parse_json_object :: "externals \<Rightarrow> http_env \<Rightarrow> api_request \<Rightarrow> (site_err, payload) res" where
  "parse_json_object X env rq =
     (if py_casefold (rq_content_type rq) \<noteq> ''application/json''
        \<or> list_ex (\<lambda>(k, v). py_casefold k \<noteq> ''charset'' \<or> py_casefold v \<noteq> ''utf-8'') (rq_content_params rq)
      then Inl (Api_Error 415 ''unsupported_media_type'' [] None)
      else case py_int (if rq_content_length rq = [] then ''0'' else rq_content_length rq) of
        None \<Rightarrow> Inl (Api_Error 400 ''invalid_request'' [] None)
      | Some stated \<Rightarrow>
          let too_large = Api_Error 413 ''request_too_large'' [] None
          in if stated > int max_json_bytes then Inl too_large
             else (case rq_body rq of
                 None \<Rightarrow> Inl too_large
               | Some raw \<Rightarrow>
                   if length raw > max_json_bytes then Inl too_large
                   else let invalid_json = Api_Error 400 ''invalid_json'' [] None
                     in (case env_loads env raw of
                         None \<Rightarrow> Inl invalid_json
                       | Some parsed \<Rightarrow>
                           if \<not> objects_from_pairs parsed then Inl invalid_json
                           else (case canonical_object X parsed of
                               Inr (PDict body) \<Rightarrow> Inr body
                             | _ \<Rightarrow> Inl invalid_json))))"

subsection \<open>Page queries\<close>

definition invalid_query :: site_err where
  "invalid_query = Api_Error 400 ''invalid_query'' [] None"

definition query_last :: "string \<Rightarrow> api_request \<Rightarrow> string option" where
  "query_last key rq = (case map_of (rq_get rq) key of
     None \<Rightarrow> None | Some values \<Rightarrow> if values = [] then None else Some (last values))"

record parsed_query =
  pg_page :: int
  pg_page_size :: int
  pg_sort :: "string list"
  pg_filters :: "(string \<times> string) list"

definition parse_page_query :: "api_request \<Rightarrow> string list \<Rightarrow> string list \<Rightarrow> (site_err, parsed_query) res" where
  "parse_page_query rq filter_fields sort_fields =
     (if list_ex (\<lambda>(k, values). length values \<noteq> 1) (rq_get rq)
        \<or> list_ex (\<lambda>(k, values). k \<notin> set (filter_fields @ [''page'', ''page_size'', ''sort''])) (rq_get rq)
      then Inl invalid_query
      else
        case (py_int (case query_last ''page'' rq of None \<Rightarrow> ''1'' | Some s \<Rightarrow> s),
              py_int (case query_last ''page_size'' rq of None \<Rightarrow> ''20'' | Some s \<Rightarrow> s)) of
          (Some page, Some page_size) \<Rightarrow>
            if page < 1 \<or> \<not> (1 \<le> page_size \<and> page_size \<le> 100) then Inl invalid_query
            else
              let selected_sort = filter (\<lambda>part. part \<noteq> [])
                    (py_split (CHR '','') (case query_last ''sort'' rq of None \<Rightarrow> [] | Some s \<Rightarrow> s))
              in if list_ex (\<lambda>part. (if take 1 part = ''-'' then drop 1 part else part) \<notin> set sort_fields) selected_sort
                 then Inl invalid_query
                 else Inr \<lparr>pg_page = page, pg_page_size = page_size, pg_sort = selected_sort,
                   pg_filters = concat (map (\<lambda>k. case query_last k rq of None \<Rightarrow> [] | Some v \<Rightarrow> [(k, v)]) filter_fields)\<rparr>
        | _ \<Rightarrow> Inl invalid_query)"

subsection \<open>Policies of the credential capabilities\<close>

definition management_function_policy :: "principal \<Rightarrow> credential \<Rightarrow> bool option" where
  "management_function_policy actor evidence = Some (principal_kind actor = Human \<and> principal_user actor \<noteq> None)"

definition safe_create_fields :: "string list" where
  "safe_create_fields = [''confirmed'', ''expires_at'', ''name'', ''scopes'', ''target_principal_id'']"
definition safe_rotate_fields :: "string list" where
  "safe_rotate_fields = [''confirmed'', ''expires_at'', ''overlap_seconds'']"
definition safe_revoke_fields :: "string list" where
  "safe_revoke_fields = [''confirmed'']"

definition field_policy :: "string list \<Rightarrow> principal \<Rightarrow> string \<Rightarrow> bool option" where
  "field_policy allowed actor field = Some (principal_kind actor = Human \<and> field \<in> set allowed)"

definition manage_api_credentials :: string where
  "manage_api_credentials = ''management_auth.manage_api_credentials''"

definition credential_capability ::
    "string \<Rightarrow> service_kind \<Rightarrow> string \<Rightarrow> string list \<Rightarrow> concurrency_policy \<Rightarrow> string \<Rightarrow> capability" where
  "credential_capability action kind verb writable concurrency audit =
     \<lparr>cap_key = ''management.credentials.'' @ action, cap_kind = kind, cap_permission = manage_api_credentials,
      cap_method = verb, cap_writable = writable,
      cap_filters = (if kind = Query then [''principal_id''] else []),
      cap_sorts = (if kind = Query then [''created_at'', ''expires_at'', ''name''] else []),
      cap_rate_class = Some (if kind = Query then ''read'' else ''write''),
      cap_rate_cost = (if kind = Query then 1 else 5), cap_api_test_only = False,
      cap_idempotency = (if kind = Query then No_Idempotency else Required_Idempotency),
      cap_concurrency = concurrency, cap_audit_action = audit,
      cap_function_policy = Some management_function_policy,
      cap_field_policy = (if kind = Query then None else Some (field_policy writable)),
      cap_high_risk = (if kind = Query then None else Some credential_confirmation_policy), cap_test_only = False\<rparr>"

definition credential_list_capability :: capability where
  "credential_list_capability =
     credential_capability ''list'' Query ''GET'' [] No_Concurrency ''management.credential.listed''"
definition credential_create_capability :: capability where
  "credential_create_capability =
     credential_capability ''create'' Command ''POST'' safe_create_fields No_Concurrency ''management.credential.created''"
definition credential_rotate_capability :: capability where
  "credential_rotate_capability =
     credential_capability ''rotate'' Command ''POST'' safe_rotate_fields If_Match ''management.credential.rotated''"
definition credential_revoke_capability :: capability where
  "credential_revoke_capability =
     credential_capability ''revoke'' Command ''POST'' safe_revoke_fields If_Match ''management.credential.revoked''"

definition enforce_writable_fields :: "api_identity \<Rightarrow> capability \<Rightarrow> payload \<Rightarrow> (site_err, unit) res" where
  "enforce_writable_fields identity cap body =
     (if extra_keys body (cap_writable cap) then Inl (Api_Error 400 ''invalid_fields'' [] None)
      else case cap_field_policy cap of
        None \<Rightarrow> Inl permission_denied
      | Some policy \<Rightarrow>
          guard_res (list_all (\<lambda>(field, v). policy (identity_principal identity) field = Some True) body)
            permission_denied)"

definition enforce_fields ::
    "api_identity \<Rightarrow> capability \<Rightarrow> payload \<Rightarrow> string list \<Rightarrow> string list \<Rightarrow> (site_err, unit) res" where
  "enforce_fields identity cap body required optional =
     bind_res (enforce_writable_fields identity cap body) (\<lambda>_.
       guard_res (list_all (\<lambda>k. has_key k body) required \<and> \<not> extra_keys body (required @ optional))
         (Api_Error 400 ''invalid_fields'' [] None))"

definition confirmation :: "datetime \<Rightarrow> capability \<Rightarrow> pyval \<Rightarrow> (site_err, unit) res" where
  "confirmation now cap v = (let denied = Api_Error 403 ''high_risk_denied'' [] None in
     case cap_high_risk cap of
       None \<Rightarrow> Inl denied
     | Some key \<Rightarrow>
         (case policy_authorize now PNone key v None of
            Inl e \<Rightarrow> Inl denied | Inr allowed \<Rightarrow> guard_res allowed denied))"

definition request_idempotency_key :: "api_request \<Rightarrow> (site_err, string) res" where
  "request_idempotency_key rq =
     (let raw = rq_idempotency_key rq
      in if raw = [] \<or> CHR '','' \<in> set raw \<or> length (utf8 raw) > 512
         then Inl (Api_Error 400 ''invalid_idempotency_key'' [] None) else Inr raw)"

definition invalid_request :: site_err where
  "invalid_request = Api_Error 400 ''invalid_request'' [] None"

definition request_expiry :: "http_env \<Rightarrow> pyval \<Rightarrow> (site_err, datetime option) res" where
  "request_expiry env v = (case v of
     PNone \<Rightarrow> Inr None
   | PStr s \<Rightarrow>
       if length s > 64 then Inl invalid_request
       else (case env_parse_iso env s of Iso_Aware t \<Rightarrow> Inr (Some t) | _ \<Rightarrow> Inl invalid_request)
   | _ \<Rightarrow> Inl invalid_request)"

definition credential_error :: "site_err \<Rightarrow> site_err" where
  "credential_error e = (case e of
     Secret_Unavailable safe \<Rightarrow> Api_Error 409 ''secret_unavailable_on_replay'' [] (Some safe)
   | Idempotency_Conflict m \<Rightarrow> Api_Error 409 ''idempotency_conflict'' [] None
   | State_Conflict m \<Rightarrow> Api_Error 409 ''state_conflict'' [] None
   | Revision_Conflict a b \<Rightarrow> Api_Error 409 ''state_conflict'' [] None
   | Permission_Error m \<Rightarrow> Api_Error 403 ''permission_denied'' [] None
   | _ \<Rightarrow> invalid_request)"

text \<open>\<open>except APIError: raise\<close>, which the create view does not have.\<close>

definition credential_error_kept :: "site_err \<Rightarrow> site_err" where
  "credential_error_kept e = (if is_api_error e then e else credential_error e)"

subsection \<open>The credential views\<close>

text \<open>\<open>filter(pk=value)\<close> on a UUID column: an integer or a text in one of the spellings of \<open>UUID\<close>.\<close>

definition uuid_value :: "http_env \<Rightarrow> pyval \<Rightarrow> uuid option" where
  "uuid_value env v = (case v of
     PStr s \<Rightarrow> env_parse_uuid env s
   | PInt i \<Rightarrow> if 0 \<le> i \<and> i < 2 ^ 128 then Some (nat i) else None
   | PBool b \<Rightarrow> Some (if b then 1 else 0)
   | _ \<Rightarrow> None)"

definition manageable_object_policy :: "principal \<Rightarrow> principal \<Rightarrow> bool" where
  "manageable_object_policy actor target \<longleftrightarrow> principal_kind actor = Human \<and> principal_kind target = Service
     \<and> principal_active target \<and> identity_snapshot target = manageable_snapshot"

definition not_found :: site_err where
  "not_found = Api_Error 404 ''not_found'' [] None"

definition scoped_principal_or_404 ::
    "http_env \<Rightarrow> api_identity \<Rightarrow> pyval \<Rightarrow> site_db \<Rightarrow> (site_err, principal) res" where
  "scoped_principal_or_404 env identity object_id db =
     (case uuid_value env object_id of
        None \<Rightarrow> Inl not_found
      | Some i \<Rightarrow>
          (case List.find (\<lambda>p. principal_id p = i)
              (manageable_service_principals (identity_principal identity) db) of
             None \<Rightarrow> Inl not_found
           | Some p \<Rightarrow> if manageable_object_policy (identity_principal identity) p then Inr p else Inl not_found))"

text \<open>The id comes from the \<open><uuid:credential_id>\<close> of the route.\<close>

definition scoped_credential_or_404 ::
    "api_identity \<Rightarrow> uuid \<Rightarrow> site_db \<Rightarrow> (site_err, credential) res" where
  "scoped_credential_or_404 identity i db =
     (case List.find (\<lambda>c. credential_id c = i) (manageable_credentials (identity_principal identity) db) of
        None \<Rightarrow> Inl not_found
      | Some c \<Rightarrow>
          (case get_principal (credential_principal c) db of
             Inl e \<Rightarrow> Inl not_found
           | Inr p \<Rightarrow>
               if manageable_object_policy (identity_principal identity) p then Inr c else Inl not_found))"

definition request_service_call :: "http_env \<Rightarrow> api_identity \<Rightarrow> capability \<Rightarrow> string \<Rightarrow> service_call" where
  "request_service_call env identity cap key =
     \<lparr>sv_now = env_now env, sv_record = env_record env, sv_again = env_again env, sv_owner = env_owner env,
      sv_actor = identity_principal identity, sv_permission = cap_permission cap,
      sv_credential = Some (identity_credential identity), sv_capability = Some cap, sv_key = key\<rparr>"

definition json_response :: "int \<Rightarrow> pyval \<Rightarrow> api_response" where
  "json_response code v =
     \<lparr>rp_status = code, rp_body = (case v of PDict d \<Rightarrow> d | _ \<Rightarrow> []), rp_headers = []\<rparr>"

definition credential_list ::
    "http_env \<Rightarrow> api_identity \<Rightarrow> capability \<Rightarrow> api_request \<Rightarrow> site_db \<Rightarrow> (site_err, api_response) res \<times> site_db" where
  "credential_list env identity cap rq db =
     (case bind_res (parse_page_query rq (cap_filters cap) (cap_sorts cap)) (\<lambda>query.
             bind_res (case map_of (pg_filters query) ''principal_id'' of
                 None \<Rightarrow> Inr None
               | Some text_id \<Rightarrow>
                   if text_id = [] then Inr None
                   else (case env_parse_uuid env text_id of
                       None \<Rightarrow> Inl (Value_Error ''badly formed hexadecimal UUID string'')
                     | Some i \<Rightarrow> Inr (Some i))) (\<lambda>owner.
               list_manageable_credentials (env_collate env) (env_now env)
                 \<lparr>pq_page = pg_page query, pq_page_size = pg_page_size query, pq_sort = pg_sort query,
                  pq_principal = owner\<rparr> (identity_principal identity) db)) of
        Inr result \<Rightarrow> (Inr (json_response 200 (PDict result)), db)
      | Inl (Value_Error m) \<Rightarrow> (Inl invalid_query, db)
      | Inl e \<Rightarrow> (Inl e, db))"

definition strings_of :: "pyval list \<Rightarrow> string list option" where
  "strings_of vs = (if list_all is_str vs then Some (map py_str vs) else None)"

text \<open>
  Scopes that are not all strings are refused: with \<open>TypeError\<close> when they cannot be sorted together,
  with \<open>ValueError\<close> by \<open>normalize_scopes\<close> otherwise.
\<close>

definition credential_create ::
    "externals \<Rightarrow> http_env \<Rightarrow> api_identity \<Rightarrow> capability \<Rightarrow> api_request \<Rightarrow> site_db
       \<Rightarrow> (site_err, api_response) res \<times> site_db" where
  "credential_create X env identity cap rq db =
     bind_kept (parse_json_object X env rq, db) (\<lambda>body db.
     bind_kept (enforce_fields identity cap body [''target_principal_id'', ''name'', ''scopes'', ''confirmed'']
       [''expires_at''], db) (\<lambda>_ db.
     bind_kept (confirmation (env_now env) cap (get_key ''confirmed'' body), db) (\<lambda>_ db.
     bind_kept (scoped_principal_or_404 env identity (get_key ''target_principal_id'' body) db, db) (\<lambda>target db.
     case (get_key ''name'' body, get_key ''scopes'' body) of
       (PStr name, PList values) \<Rightarrow>
         (case atomic (\<lambda>db.
             bind_res (request_expiry env (get_key ''expires_at'' body)) (\<lambda>expires_at.
             bind_res (request_idempotency_key rq) (\<lambda>key.
             case strings_of values of
               None \<Rightarrow> Inl (Value_Error ''credential scope is invalid'')
             | Some scopes \<Rightarrow>
                 issue_manageable_credential_once X (env_registry env) (env_draws env)
                   (request_service_call env identity cap key) (principal_id target) name scopes expires_at
                   (principal_user (identity_principal identity)) db))) db of
            (Inl e, db) \<Rightarrow> (Inl (credential_error e), db)
          | (Inr result, db) \<Rightarrow> (Inr (json_response 201 (response result)), db))
     | _ \<Rightarrow> (Inl invalid_request, db)))))"

definition credential_rotate ::
    "externals \<Rightarrow> http_env \<Rightarrow> uuid \<Rightarrow> api_identity \<Rightarrow> capability \<Rightarrow> api_request \<Rightarrow> site_db
       \<Rightarrow> (site_err, api_response) res \<times> site_db" where
  "credential_rotate X env path_id identity cap rq db =
     bind_kept (parse_json_object X env rq, db) (\<lambda>body db.
     bind_kept (enforce_fields identity cap body [''confirmed''] [''expires_at'', ''overlap_seconds''], db) (\<lambda>_ db.
     bind_kept (confirmation (env_now env) cap (get_key ''confirmed'' body), db) (\<lambda>_ db.
     bind_kept (scoped_credential_or_404 identity path_id db, db) (\<lambda>c db.
     case (if has_key ''overlap_seconds'' body then get_key ''overlap_seconds'' body else PInt 0) of
       PInt overlap \<Rightarrow>
         (case atomic (\<lambda>db.
             bind_res (require_if_match rq) (\<lambda>expected_revision.
             bind_res (request_idempotency_key rq) (\<lambda>key.
             bind_res (guard_res (- 86399999913600 \<le> overlap \<and> overlap \<le> 86399999999999) (Value_Error ''timedelta out of range'')) (\<lambda>_.
             bind_res (request_expiry env (get_key ''expires_at'' body)) (\<lambda>expires_at.
               rotate_manageable_credential_once X (env_registry env) (env_draws env)
                 (request_service_call env identity cap key) (credential_id c) expected_revision
                 (seconds overlap) expires_at (principal_user (identity_principal identity)) db))))) db of
            (Inl e, db) \<Rightarrow> (Inl (credential_error_kept e), db)
          | (Inr result, db) \<Rightarrow> (Inr (json_response 201 (response result)), db))
     | _ \<Rightarrow> (Inl invalid_request, db)))))"

definition credential_revoke ::
    "externals \<Rightarrow> http_env \<Rightarrow> uuid \<Rightarrow> api_identity \<Rightarrow> capability \<Rightarrow> api_request \<Rightarrow> site_db
       \<Rightarrow> (site_err, api_response) res \<times> site_db" where
  "credential_revoke X env path_id identity cap rq db =
     bind_kept (parse_json_object X env rq, db) (\<lambda>body db.
     bind_kept (enforce_fields identity cap body [''confirmed''] [], db) (\<lambda>_ db.
     bind_kept (confirmation (env_now env) cap (get_key ''confirmed'' body), db) (\<lambda>_ db.
     bind_kept (scoped_credential_or_404 identity path_id db, db) (\<lambda>c db.
       case atomic (\<lambda>db.
           bind_res (require_if_match rq) (\<lambda>expected_revision.
           bind_res (request_idempotency_key rq) (\<lambda>key.
             revoke_manageable_credential_once X (env_registry env) (request_service_call env identity cap key)
               (credential_id c) expected_revision db))) db of
          (Inl e, db) \<Rightarrow> (Inl (credential_error_kept e), db)
        | (Inr result, db) \<Rightarrow> (Inr (json_response 200 (response result)), db)))))"

subsection \<open>The credential routes\<close>

datatype credential_route = Credential_Collection | Credential_Rotate uuid | Credential_Revoke uuid

definition credential_endpoint ::
    "externals \<Rightarrow> http_env \<Rightarrow> credential_route \<Rightarrow> api_request \<Rightarrow> site_db \<Rightarrow> api_response \<times> site_db" where
  "credential_endpoint X env route rq db = (case route of
     Credential_Collection \<Rightarrow>
       if rq_method rq \<in> {''GET'', ''HEAD''}
       then dispatch X env ''management.credentials.list'' False (credential_list env) rq db
       else dispatch X env ''management.credentials.create'' False (credential_create X env) rq db
   | Credential_Rotate cid \<Rightarrow>
       dispatch X env ''management.credentials.rotate'' False (credential_rotate X env cid) rq db
   | Credential_Revoke cid \<Rightarrow>
       dispatch X env ''management.credentials.revoke'' False (credential_revoke X env cid) rq db)"

end
