(* ===== verification/Mg_Invariant.thy ===== *)
theory Mg_Invariant
  imports Mg_Http
begin

text \<open>
  The invariant of the management store and what its operations may change: identities and what a
  credential authorises are fixed, revocation and rotation are final, revisions only grow.
\<close>

subsection \<open>The invariant\<close>

definition principals_ok :: "site_db \<Rightarrow> bool" where
  "principals_ok db \<longleftrightarrow> distinct (map principal_id (principals db))
     \<and> (\<forall>p \<in> set (principals db). 1 \<le> principal_revision p \<and> (principal_kind p = Human \<longleftrightarrow> principal_user p \<noteq> None))
     \<and> (\<forall>p \<in> set (principals db). \<forall>q \<in> set (principals db).
          principal_user p \<noteq> None \<longrightarrow> principal_user p = principal_user q \<longrightarrow> principal_id p = principal_id q)"

definition credential_ok :: "credential \<Rightarrow> bool" where
  "credential_ok c \<longleftrightarrow> 1 \<le> credential_revision c
     \<and> credential_created c < credential_expires c
     \<and> credential_expires c \<le> credential_created c + max_credential_lifetime
     \<and> digest_algorithm c = digest_algorithm_name \<and> digest_version c = digest_version_number
     \<and> credential_scopes c \<noteq> [] \<and> length (credential_scopes c) \<le> 64
     \<and> sorted (credential_scopes c) \<and> distinct (credential_scopes c)
     \<and> (case credential_rotated c of None \<Rightarrow> overlap_expires c = None
        | Some t \<Rightarrow> (\<exists>u. overlap_expires c = Some u \<and> t \<le> u \<and> u \<le> t + max_rotation_overlap))"

text \<open>A successor was issued by the rotation of its predecessor, to the same principal with its scopes.\<close>

definition succeeds :: "credential \<Rightarrow> credential \<Rightarrow> bool" where
  "succeeds c d \<longleftrightarrow> predecessor c = Some (credential_id d) \<and> credential_rotated d = Some (credential_created c)
     \<and> credential_principal c = credential_principal d \<and> credential_scopes c = credential_scopes d"

definition credentials_ok :: "site_db \<Rightarrow> bool" where
  "credentials_ok db \<longleftrightarrow> distinct (map credential_id (credentials db))
     \<and> distinct (map credential_prefix (credentials db))
     \<and> (\<forall>c \<in> set (credentials db). credential_ok c \<and> credential_principal c \<in> principal_id ` set (principals db)
          \<and> (predecessor c \<noteq> None \<longrightarrow> (\<exists>d \<in> set (credentials db). succeeds c d)))
     \<and> (\<forall>c \<in> set (credentials db). \<forall>d \<in> set (credentials db).
          predecessor c \<noteq> None \<longrightarrow> predecessor c = predecessor d \<longrightarrow> credential_id c = credential_id d)"

definition site_ok :: "site_db \<Rightarrow> bool" where
  "site_ok db \<longleftrightarrow> principals_ok db \<and> credentials_ok db \<and> unique_keys db"

subsection \<open>What may change\<close>

definition credential_later :: "credential \<Rightarrow> credential \<Rightarrow> bool" where
  "credential_later c d \<longleftrightarrow> credential_id d = credential_id c \<and> same_authority c d
     \<and> credential_name d = credential_name c \<and> credential_expires d = credential_expires c
     \<and> credential_created d = credential_created c \<and> credential_revision c \<le> credential_revision d
     \<and> (credential_revoked c \<noteq> None \<longrightarrow> credential_revoked d = credential_revoked c)
     \<and> (credential_rotated c \<noteq> None \<longrightarrow> credential_rotated d = credential_rotated c \<and> overlap_expires d = overlap_expires c)"

definition principal_later :: "principal \<Rightarrow> principal \<Rightarrow> bool" where
  "principal_later p q \<longleftrightarrow> principal_id q = principal_id p \<and> principal_kind q = principal_kind p
     \<and> principal_user q = principal_user p \<and> identity_snapshot q = identity_snapshot p
     \<and> principal_revision p \<le> principal_revision q"

definition store_later :: "site_db \<Rightarrow> site_db \<Rightarrow> bool" where
  "store_later a b \<longleftrightarrow> (\<forall>c \<in> set (credentials a). \<exists>d \<in> set (credentials b). credential_later c d)
     \<and> (\<forall>p \<in> set (principals a). \<exists>q \<in> set (principals b). principal_later p q)"

lemma credential_later_refl [simp]: "credential_later c c"
  by (simp add: credential_later_def same_authority_def)

lemma principal_later_refl [simp]: "principal_later p p"
  by (simp add: principal_later_def)

lemma credential_later_trans: "credential_later a b \<Longrightarrow> credential_later b c \<Longrightarrow> credential_later a c"
  by (auto simp: credential_later_def same_authority_def)

lemma principal_later_trans: "principal_later a b \<Longrightarrow> principal_later b c \<Longrightarrow> principal_later a c"
  by (auto simp: principal_later_def)

lemma store_later_refl [simp]: "store_later a a"
  unfolding store_later_def using credential_later_refl principal_later_refl by blast

lemma store_later_trans:
  assumes "store_later a b" and "store_later b c"
  shows "store_later a c"
  unfolding store_later_def
proof (intro conjI ballI)
  fix x assume "x \<in> set (credentials a)"
  then obtain y where y: "y \<in> set (credentials b)" "credential_later x y" using assms(1) by (auto simp: store_later_def)
  then obtain z where "z \<in> set (credentials c)" "credential_later y z" using assms(2) by (auto simp: store_later_def)
  then show "\<exists>z \<in> set (credentials c). credential_later x z" using y credential_later_trans by blast
next
  fix x assume "x \<in> set (principals a)"
  then obtain y where y: "y \<in> set (principals b)" "principal_later x y" using assms(1) by (auto simp: store_later_def)
  then obtain z where "z \<in> set (principals c)" "principal_later y z" using assms(2) by (auto simp: store_later_def)
  then show "\<exists>z \<in> set (principals c). principal_later x z" using y principal_later_trans by blast
qed

text \<open>A write that leaves the two tables alone leaves the invariant of both alone.\<close>

lemma tables_ok [simp]:
  "principals_ok (db\<lparr>management_records := r\<rparr>) = principals_ok db"
  "principals_ok (db\<lparr>audit_rows := a\<rparr>) = principals_ok db"
  "principals_ok (db\<lparr>grants := g\<rparr>) = principals_ok db"
  "principals_ok (db\<lparr>credentials := c\<rparr>) = principals_ok db"
  "credentials_ok (db\<lparr>management_records := r\<rparr>) = credentials_ok db"
  "credentials_ok (db\<lparr>audit_rows := a\<rparr>) = credentials_ok db"
  "credentials_ok (db\<lparr>grants := g\<rparr>) = credentials_ok db"
  "unique_keys (db\<lparr>audit_rows := a\<rparr>) = unique_keys db"
  "unique_keys (db\<lparr>grants := g\<rparr>) = unique_keys db"
  "unique_keys (db\<lparr>credentials := c\<rparr>) = unique_keys db"
  "unique_keys (db\<lparr>principals := p\<rparr>) = unique_keys db"
  "principals_ok (db\<lparr>admissions := x\<rparr>) = principals_ok db" "credentials_ok (db\<lparr>admissions := x\<rparr>) = credentials_ok db"
  "unique_keys (db\<lparr>admissions := x\<rparr>) = unique_keys db" "store_later db (db'\<lparr>admissions := x\<rparr>) = store_later db db'"
  "principals_ok (db\<lparr>subjects := y\<rparr>) = principals_ok db" "credentials_ok (db\<lparr>subjects := y\<rparr>) = credentials_ok db"
  "unique_keys (db\<lparr>subjects := y\<rparr>) = unique_keys db" "store_later db (db'\<lparr>subjects := y\<rparr>) = store_later db db'"
  "principals_ok (db\<lparr>users := u\<rparr>) = principals_ok db" "credentials_ok (db\<lparr>users := u\<rparr>) = credentials_ok db"
  "unique_keys (db\<lparr>users := u\<rparr>) = unique_keys db" "store_later db (db'\<lparr>users := u\<rparr>) = store_later db db'"
  "principals_ok (db\<lparr>permission_rows := z\<rparr>) = principals_ok db" "credentials_ok (db\<lparr>permission_rows := z\<rparr>) = credentials_ok db"
  "unique_keys (db\<lparr>permission_rows := z\<rparr>) = unique_keys db" "store_later db (db'\<lparr>permission_rows := z\<rparr>) = store_later db db'"
  "store_later (db\<lparr>management_records := r\<rparr>) db' = store_later db db'"
  "store_later db (db'\<lparr>management_records := r\<rparr>) = store_later db db'"
  "store_later db (db'\<lparr>audit_rows := a\<rparr>) = store_later db db'"
  "store_later db (db'\<lparr>grants := g\<rparr>) = store_later db db'"
  by (simp_all add: principals_ok_def credentials_ok_def unique_keys_def store_later_def)

subsection \<open>Lookups\<close>

lemma get_principal_Inr: "get_principal i db = Inr p \<Longrightarrow> p \<in> set (principals db) \<and> principal_id p = i"
  by (auto simp: get_principal_def dest: find_Some split: option.splits)

lemma get_credential_Inr: "get_credential i db = Inr c \<Longrightarrow> c \<in> set (credentials db) \<and> credential_id c = i"
  by (auto simp: get_credential_def dest: find_Some split: option.splits)

lemma actor_authority_Inr:
  assumes "lock_actor_authority registry now actor permission cred cap db = Inr p"
  shows "p \<in> set (principals db)" and "principal_id p = principal_id actor" and "principal_active p"
    and "principal_has_permission db p permission"
  using assms by (auto simp: lock_actor_authority_def dest!: get_principal_Inr
      split: if_splits sum.splits option.splits)

lemma normalize_scopes_Inr:
  assumes "normalize_scopes registry db p scopes = Inr normalized"
  shows "normalized = sort (remdups scopes)" and "scopes \<noteq> []" and "length normalized \<le> 64"
    and "\<And>s. s \<in> set scopes \<Longrightarrow> \<exists>cap. registry s = Some cap \<and> principal_has_permission db p (cap_permission cap)"
proof -
  from assms obtain checked where checked: "map_res (check_scope registry db p) scopes = Inr checked"
    and n: "normalized = sort (remdups checked)" "remdups checked \<noteq> []" "length (remdups checked) \<le> 64"
    by (auto simp: normalize_scopes_def Let_def split: if_splits)
  have ok: "check_scope registry db p s = Inr t \<Longrightarrow> t = s \<and> (\<exists>cap. registry s = Some cap
      \<and> principal_has_permission db p (cap_permission cap))" for s t
    by (auto simp: check_scope_def split: if_splits option.splits)
  from checked have l: "list_all2 (\<lambda>s t. check_scope registry db p s = Inr t) scopes checked"
    by (simp add: map_res_Inr_iff)
  then have "checked = scopes"
    by (induction scopes checked rule: list_all2_induct) (auto dest: ok)
  with n show "normalized = sort (remdups scopes)" and "scopes \<noteq> []" and "length normalized \<le> 64" by auto
  show "\<exists>cap. registry s = Some cap \<and> principal_has_permission db p (cap_permission cap)" if "s \<in> set scopes" for s
    using l that ok by (auto simp: list_all2_conv_all_nth in_set_conv_nth)
qed

lemma normalized_again:
  assumes "sorted scopes" and "distinct scopes"
  shows "sort (remdups scopes) = (scopes :: string list)"
  using assms by (simp add: distinct_remdups_id sorted_sort_id)

subsection \<open>Inserting a credential\<close>

lemma insert_credential_Inr:
  assumes "insert_credential c db = Inr db'"
  shows "db' = db\<lparr>credentials := credentials db @ [c]\<rparr>"
    and "credential_id c \<notin> credential_id ` set (credentials db)"
    and "credential_prefix c \<notin> credential_prefix ` set (credentials db)"
    and "predecessor c \<noteq> None \<Longrightarrow> predecessor c \<notin> predecessor ` set (credentials db)"
    and "credential_created c < credential_expires c"
  using assms by (auto simp: insert_credential_def split: if_splits)

lemma insert_attempts_Inr:
  assumes "insert_attempts X draws row n k db = Inr (issued, db')"
  shows "\<exists>i g. dr_token draws i = Inr g \<and> raw_token issued = token_raw g
      \<and> issued_row issued = row\<lparr>credential_id := dr_id draws i, credential_prefix := token_prefix g,
          secret_digest := encode_secret X (dr_salt draws i) (token_secret g)\<rparr>
      \<and> insert_credential (issued_row issued) db = Inr db'"
  using assms
proof (induction n arbitrary: k)
  case (Suc n)
  from Suc.prems obtain g where g: "dr_token draws k = Inr g" by (auto simp: bind_res_Inr_iff)
  let ?c = "row\<lparr>credential_id := dr_id draws k, credential_prefix := token_prefix g,
             secret_digest := encode_secret X (dr_salt draws k) (token_secret g)\<rparr>"
  show ?case
  proof (cases "insert_credential ?c db")
    case (Inl e)
    with Suc g have "insert_attempts X draws row n (Suc k) db = Inr (issued, db')"
      by (auto split: if_splits)
    then show ?thesis by (rule Suc.IH)
  next
    case (Inr d)
    with Suc.prems g have "issued = \<lparr>issued_row = ?c, raw_token = token_raw g\<rparr>" and "db' = d" by auto
    with Inr g show ?thesis by (intro exI [of _ k] exI [of _ g]) simp
  qed
qed simp

lemma insert_generated_credential_Inr:
  assumes "insert_generated_credential X draws row db = Inr (issued, db')"
  obtains i g where "dr_token draws i = Inr g" and "raw_token issued = token_raw g"
    and "issued_row issued = row\<lparr>credential_id := dr_id draws i, credential_prefix := token_prefix g,
          secret_digest := encode_secret X (dr_salt draws i) (token_secret g)\<rparr>"
    and "insert_credential (issued_row issued) db = Inr db'"
  using insert_attempts_Inr [OF assms [unfolded insert_generated_credential_def]] by blast

text \<open>The allocation ends with a credential as soon as one of the five tokens has a new prefix.\<close>

lemma insert_attempts_total:
  assumes tokens: "\<And>i. k \<le> i \<Longrightarrow> i < k + n \<Longrightarrow> \<exists>g. dr_token draws i = Inr g"
    and ids: "\<And>i. dr_id draws i \<notin> credential_id ` set (credentials db)"
    and row: "predecessor row \<notin> predecessor ` set (credentials db) \<or> predecessor row = None"
      "credential_created row < credential_expires row"
    and new: "k \<le> j" "j < k + n" "dr_token draws j = Inr g" "token_prefix g \<notin> credential_prefix ` set (credentials db)"
  shows "\<exists>issued db'. insert_attempts X draws row n k db = Inr (issued, db')"
  using tokens new
proof (induction n arbitrary: k)
  case (Suc n)
  from Suc.prems(1) [of k] obtain t where t: "dr_token draws k = Inr t" by auto
  show ?case
  proof (cases "token_prefix t \<in> credential_prefix ` set (credentials db)")
    case True
    with Suc.prems(4,5) t have "j \<noteq> k" by auto
    then have "\<exists>issued db'. insert_attempts X draws row n (Suc k) db = Inr (issued, db')"
      using Suc.prems by (intro Suc.IH) auto
    with t True show ?thesis by (auto simp: insert_credential_def Let_def)
  next
    case False
    with t ids [of k] row show ?thesis by (auto simp: insert_credential_def Let_def)
  qed
qed simp

lemma fold_credentials: "(\<forall>c \<in> set (xs @ [y]). P c) \<longleftrightarrow> (\<forall>c \<in> set xs. P c) \<and> P y"
  by auto

lemma credentials_okD:
  assumes "credentials_ok db"
  shows "distinct (map credential_id (credentials db))" and "distinct (map credential_prefix (credentials db))"
    and "c \<in> set (credentials db) \<Longrightarrow> credential_ok c"
    and "c \<in> set (credentials db) \<Longrightarrow> credential_principal c \<in> principal_id ` set (principals db)"
    and "c \<in> set (credentials db) \<Longrightarrow> predecessor c \<noteq> None \<Longrightarrow> \<exists>d \<in> set (credentials db). succeeds c d"
    and "c \<in> set (credentials db) \<Longrightarrow> d \<in> set (credentials db) \<Longrightarrow> predecessor c \<noteq> None
      \<Longrightarrow> predecessor c = predecessor d \<Longrightarrow> credential_id c = credential_id d"
  using assms unfolding credentials_ok_def by blast+

lemma credentials_ok_insert:
  assumes ok: "credentials_ok db" and insert: "insert_credential c db = Inr db'"
    and c: "credential_ok c" "credential_principal c \<in> principal_id ` set (principals db)"
    and pred: "predecessor c \<noteq> None \<Longrightarrow> \<exists>d \<in> set (credentials db). succeeds c d"
  shows "credentials_ok db'"
proof -
  note i = insert_credential_Inr [OF insert]
  have other: "predecessor c \<noteq> predecessor d" if "d \<in> set (credentials db)" "predecessor c \<noteq> None" for d
    using i(4) that by (metis image_eqI)
  have rows: "credentials db' = credentials db @ [c]" "principals db' = principals db" by (simp_all add: i(1))
  note D = credentials_okD [OF ok]
  have "distinct (map credential_id (credentials db'))" "distinct (map credential_prefix (credentials db'))"
    using D(1,2) i(2,3) by (simp_all add: rows)
  moreover have "credential_ok x" and "credential_principal x \<in> principal_id ` set (principals db')"
    and "predecessor x \<noteq> None \<Longrightarrow> \<exists>d \<in> set (credentials db'). succeeds x d" if "x \<in> set (credentials db')" for x
    using that D(3-5) [of x] c pred by (auto simp: rows)
  moreover have "credential_id x = credential_id y"
    if xy: "x \<in> set (credentials db')" "y \<in> set (credentials db')" "predecessor x \<noteq> None" "predecessor x = predecessor y" for x y
  proof (cases "x = c \<or> y = c")
    case True
    then show ?thesis using other [of x] other [of y] xy by (auto simp: rows)
  next
    case False
    then show ?thesis using xy D(6) [of x y] unfolding rows by simp
  qed
  ultimately show ?thesis unfolding credentials_ok_def by blast
qed

lemma store_later_insert: "insert_credential c db = Inr db' \<Longrightarrow> store_later db db'"
  unfolding store_later_def using insert_credential_Inr(1) [of c db db'] credential_later_refl principal_later_refl
  by fastforce

lemma new_credential_simps [simp]:
  "predecessor (new_credential now p name scopes expires by pred) = pred"
  "credential_created (new_credential now p name scopes expires by pred) = now"
  "credential_expires (new_credential now p name scopes expires by pred) = expires"
  "credential_principal (new_credential now p name scopes expires by pred) = p"
  "credential_scopes (new_credential now p name scopes expires by pred) = scopes"
  "credential_name (new_credential now p name scopes expires by pred) = name"
  "credential_revoked (new_credential now p name scopes expires by pred) = None"
  "credential_rotated (new_credential now p name scopes expires by pred) = None"
  "overlap_expires (new_credential now p name scopes expires by pred) = None"
  "credential_revision (new_credential now p name scopes expires by pred) = 1"
  "digest_algorithm (new_credential now p name scopes expires by pred) = digest_algorithm_name"
  "digest_version (new_credential now p name scopes expires by pred) = digest_version_number"
  "last_used (new_credential now p name scopes expires by pred) = None"
  by (simp_all add: new_credential_def)

lemma new_credential_ok:
  assumes "issued_row issued = new_credential now p name scopes expires by pred
      \<lparr>credential_id := i, credential_prefix := x, secret_digest := d\<rparr>"
    and "validate_expiry now t = Inr expires" and "normalize_scopes registry db h wanted = Inr scopes"
  shows "credential_ok (issued_row issued)"
proof -
  note n = normalize_scopes_Inr(1-3) [OF assms(3)]
  have "set scopes = set wanted" using n(1) by simp
  with n(2) have "scopes \<noteq> []" by auto
  with n(1,3) have "scopes \<noteq> [] \<and> length scopes \<le> 64 \<and> sorted scopes \<and> distinct scopes" by simp
  moreover have "now < expires \<and> expires \<le> now + max_credential_lifetime"
    using assms(2) by (auto simp: validate_expiry_def Let_def split: if_splits)
  ultimately show ?thesis by (simp add: credential_ok_def assms(1))
qed

subsection \<open>What the commands write\<close>

lemma audit_credential_Inr:
  assumes "audit_credential X now actor c action operation key changes extra db = Inr db'"
  obtains row where "au_action row = action" and "au_outcome row = ''succeeded''"
    and "au_target_id row = Some (credential_id c)" and "au_principal row = Some (principal_id actor)"
    and "db' = db\<lparr>audit_rows := audit_rows db @ [row]\<rparr>"
  using assms unfolding audit_credential_def
proof (elim run_elims)
  fix cx
  assume cx: "management_audit_context X actor operation key = Inr cx"
  assume audit: "record_audit_event X action ''management.credential'' ''succeeded'' cx (Some (credential_id c))
         (credential_name c) (PDict changes)
         (PDict ([(''credential_id'', PStr (uuid_str (credential_id c))),
                  (''principal_id'', PStr (uuid_str (credential_principal c))),
                  (''prefix'', PStr (credential_prefix c)),
                  (''scopes'', PList (map PStr (credential_scopes c))),
                  (''expires_at'', PStr (py_isoformat (credential_expires c))),
                  (''state'', PStr (credential_state now c)),
                  (''reason'', PStr ''completed'')] @ extra)) db = Inr db'"
  from cx have "ac_principal cx = Some (principal_id actor)"
    by (auto simp: management_audit_context_def)
  with audit show thesis by (elim record_audit_event_appends) (rule that, simp_all)
qed

lemma issue_command_Inr:
  assumes "issue_command X registry draws sv target_id name scopes expires_at by db = Inr (result, db')"
  obtains actor target normalized expires and issued :: issued_credential and mid and row :: audit_row and i x d
  where "actor_authority registry sv db = Inr actor"
    and "get_principal target_id db = Inr target" and "principal_active target"
    and "normalize_scopes registry db target scopes = Inr normalized"
    and "validate_expiry (sv_now sv) expires_at = Inr expires"
    and "issued_row issued = new_credential (sv_now sv) target_id name normalized expires by None
      \<lparr>credential_id := i, credential_prefix := x, secret_digest := d\<rparr>"
    and "insert_credential (issued_row issued) db = Inr mid"
    and "au_action row = ''management.credential.created''" and "au_target_id row = Some (credential_id (issued_row issued))"
    and "au_principal row = Some (principal_id actor)"
    and "db' = mid\<lparr>audit_rows := audit_rows mid @ [row]\<rparr>"
    and "result = \<lparr>response = PDict (present_credential (sv_now sv) target (issued_row issued) @ [(''token'', PStr (raw_token issued))]),
      safe_result = PDict (present_credential (sv_now sv) target (issued_row issued))\<rparr>"
  using assms unfolding issue_command_def
proof (elim run_elims)
  fix actor target u normalized expires y issued mid d2 res
  assume actor: "actor_authority registry sv db = Inr actor"
    and target: "get_principal target_id db = Inr target" "\<not> \<not> principal_active target"
    and normalized: "normalize_scopes registry db target scopes = Inr normalized"
    and expires: "validate_expiry (sv_now sv) expires_at = Inr expires"
    and insert: "insert_generated_credential X draws
         (new_credential (sv_now sv) (principal_id target) name normalized expires by None) db = Inr y" "y = (issued, mid)"
    and audit: "audit_credential X (sv_now sv) actor (issued_row issued) ''management.credential.created''
         ''management.credential.create'' (sv_key sv) [(''created'', PBool True)] [] mid = Inr d2"
    and answer: "issued_response (sv_now sv) issued d2 = Inr res" and eq: "Inr (res, d2) = Inr (result, db')"
  have tid: "principal_id target = target_id" using get_principal_Inr [OF target(1)] by simp
  obtain k g where "dr_token draws k = Inr g" and "raw_token issued = token_raw g" and row: "issued_row issued = new_credential (sv_now sv) (principal_id target) name normalized expires by None
          \<lparr>credential_id := dr_id draws k, credential_prefix := token_prefix g,
          secret_digest := encode_secret X (dr_salt draws k) (token_secret g)\<rparr>"
      and ins: "insert_credential (issued_row issued) db = Inr mid"
    by (rule insert_generated_credential_Inr [OF insert(1) [unfolded insert(2)]])
  from audit obtain a where a: "au_action a = ''management.credential.created''"
    "au_target_id a = Some (credential_id (issued_row issued))" "au_principal a = Some (principal_id actor)"
    and d2: "d2 = mid\<lparr>audit_rows := audit_rows mid @ [a]\<rparr>"
    by (rule audit_credential_Inr)
  with eq have db': "db' = mid\<lparr>audit_rows := audit_rows mid @ [a]\<rparr>" by simp
  have "get_principal target_id db' = Inr target"
    using target(1) insert_credential_Inr(1) [OF ins] by (simp add: db' get_principal_def)
  then have "result = \<lparr>response = PDict (present_credential (sv_now sv) target (issued_row issued) @ [(''token'', PStr (raw_token issued))]),
      safe_result = PDict (present_credential (sv_now sv) target (issued_row issued))\<rparr>"
    using answer eq by (simp add: issued_response_def row tid Let_def)
  from that [OF actor target [simplified] normalized expires row [unfolded tid] ins a db' this] show thesis .
qed

lemma issue_command_ok:
  assumes ok: "principals_ok db" "credentials_ok db"
    and run: "issue_command X registry draws sv target_id name scopes expires_at by db = Inr (result, db')"
  shows "principals_ok db' \<and> credentials_ok db' \<and> store_later db db' \<and> management_records db' = management_records db"
proof (rule issue_command_Inr [OF run])
  fix actor target normalized expires and issued :: issued_credential and mid and a :: audit_row and i x d
  assume target: "get_principal target_id db = Inr target"
    and normalized: "normalize_scopes registry db target scopes = Inr normalized"
    and expires: "validate_expiry (sv_now sv) expires_at = Inr expires"
    and row: "issued_row issued = new_credential (sv_now sv) target_id name normalized expires by None
      \<lparr>credential_id := i, credential_prefix := x, secret_digest := d\<rparr>"
    and ins: "insert_credential (issued_row issued) db = Inr mid"
    and db': "db' = mid\<lparr>audit_rows := audit_rows mid @ [a]\<rparr>"
  have "credential_principal (issued_row issued) \<in> principal_id ` set (principals db)"
    using get_principal_Inr [OF target] by (auto simp: row)
  then have "credentials_ok mid"
    by (rule credentials_ok_insert [OF ok(2) ins new_credential_ok [OF row expires normalized]]) (simp add: row)
  then show ?thesis
    using ok(1) store_later_insert [OF ins] insert_credential_Inr(1) [OF ins] by (simp add: db')
qed

subsection \<open>Saving rows\<close>

interpretation activity: revisioned principal_id principal_revision "activity_columns now" for now
  by unfold_locales (simp_all add: activity_columns_def)

interpretation permissions: revisioned principal_id principal_revision "revision_columns now" for now
  by unfold_locales (simp_all add: revision_columns_def)

interpretation rotation: revisioned credential_id credential_revision "rotation_columns now" for now
  by unfold_locales (simp_all add: rotation_columns_def)

interpretation revocation: revisioned credential_id credential_revision "revocation_columns now" for now
  by unfold_locales (simp_all add: revocation_columns_def)

text \<open>Replacing rows by later ones of the same authority.\<close>

lemma credentials_ok_map:
  assumes ok: "credentials_ok db"
    and f: "\<And>c. c \<in> set (credentials db) \<Longrightarrow> credential_later c (f c) \<and> credential_ok (f c)"
    and db': "db' = db\<lparr>credentials := map f (credentials db)\<rparr>"
  shows "credentials_ok db' \<and> store_later db db'"
proof -
  note D = credentials_okD [OF ok]
  have later: "credential_later x (f x)" if "x \<in> set (credentials db)" for x using f [OF that] by simp
  have same: "credential_id (f x) = credential_id x" "credential_prefix (f x) = credential_prefix x"
    "predecessor (f x) = predecessor x" "credential_principal (f x) = credential_principal x"
    "credential_scopes (f x) = credential_scopes x" "credential_created (f x) = credential_created x"
    if "x \<in> set (credentials db)" for x
    using later [OF that] by (auto simp: credential_later_def same_authority_def)
  have rows: "credentials db' = map f (credentials db)" "principals db' = principals db" by (simp_all add: db')
  have "map credential_id (credentials db') = map credential_id (credentials db)"
    "map credential_prefix (credentials db') = map credential_prefix (credentials db)"
    using same by (auto simp: rows)
  then have "distinct (map credential_id (credentials db'))" "distinct (map credential_prefix (credentials db'))"
    using D(1,2) by simp_all
  moreover have "credential_ok y \<and> credential_principal y \<in> principal_id ` set (principals db')
      \<and> (predecessor y \<noteq> None \<longrightarrow> (\<exists>z \<in> set (credentials db'). succeeds y z))" if "y \<in> set (credentials db')" for y
  proof -
    from that obtain x where x: "x \<in> set (credentials db)" and y: "y = f x" unfolding rows set_map by blast
    have "\<exists>z \<in> set (credentials db'). succeeds y z" if "predecessor y \<noteq> None"
    proof -
      from that have "predecessor x \<noteq> None" unfolding y same(3) [OF x] .
      then obtain z where z: "z \<in> set (credentials db)" "succeeds x z" using D(5) [OF x] by blast
      have "credential_rotated z \<noteq> None" using z(2) by (simp add: succeeds_def)
      then have "credential_rotated (f z) = credential_rotated z"
        using later [OF z(1)] by (simp add: credential_later_def)
      then have "succeeds y (f z)" using z(2) unfolding y succeeds_def same [OF x] same [OF z(1)] by simp
      moreover have "f z \<in> set (credentials db')" unfolding rows set_map using z(1) by (rule imageI)
      ultimately show ?thesis by blast
    qed
    moreover have "credential_ok y" using f [OF x] unfolding y by simp
    moreover have "credential_principal y \<in> principal_id ` set (principals db')"
      using D(4) [OF x] unfolding y rows(2) same(4) [OF x] .
    ultimately show ?thesis by blast
  qed
  moreover have "credential_id u = credential_id v"
    if uv: "u \<in> set (credentials db')" "v \<in> set (credentials db')" and p: "predecessor u \<noteq> None" "predecessor u = predecessor v" for u v
  proof -
    from uv obtain x y where x: "x \<in> set (credentials db)" "u = f x" and y: "y \<in> set (credentials db)" "v = f y"
      unfolding rows set_map by blast
    from D(6) [OF x(1) y(1)] p show ?thesis
      unfolding x(2) y(2) same(3) [OF x(1)] same(3) [OF y(1)] same(1) [OF x(1)] same(1) [OF y(1)] .
  qed
  ultimately have "credentials_ok db'" unfolding credentials_ok_def by blast
  moreover have "\<exists>y \<in> set (credentials db'). credential_later x y" if "x \<in> set (credentials db)" for x
    using later [OF that] that unfolding rows set_map by (intro bexI [of _ "f x"] imageI)
  then have "store_later db db'"
    unfolding store_later_def rows(2) using principal_later_refl by blast
  ultimately show ?thesis by simp
qed

lemma credentials_ok_replace:
  assumes ok: "credentials_ok db" and c: "c \<in> set (credentials db)"
    and d: "credential_later c d" "credential_ok d"
    and db': "db' = db\<lparr>credentials := map (\<lambda>x. if credential_id x = credential_id c then d else x) (credentials db)\<rparr>"
  shows "credentials_ok db' \<and> store_later db db'"
proof (rule credentials_ok_map [OF ok _ db'])
  fix x assume x: "x \<in> set (credentials db)"
  have "x = c" if "credential_id x = credential_id c"
    using distinct_key_eq [OF credentials_okD(1) [OF ok] x c that] .
  then show "credential_later x (if credential_id x = credential_id c then d else x)
      \<and> credential_ok (if credential_id x = credential_id c then d else x)"
    using d credentials_okD(3) [OF ok x] by auto
qed

lemma save_credential_ok:
  assumes ok: "credentials_ok db" and c: "c \<in> set (credentials db)"
    and self: "credential_id self = credential_id c" "same_authority self c" "credential_revision self = credential_revision c + 1"
    and copy: "revisioned credential_id credential_revision copy"
    and later: "credential_later c (copy self c)" "credential_ok (copy self c)"
    and saved: "save_credential copy self db = Inr db'"
  shows "db' = db\<lparr>credentials := map (\<lambda>x. if credential_id x = credential_id c then copy self c else x) (credentials db)\<rparr>"
    and "credentials_ok db' \<and> store_later db db'"
proof -
  note D = credentials_okD [OF ok]
  have one: "1 \<le> credential_revision c" using D(3) [OF c] by (simp add: credential_ok_def)
  have found: "List.find (\<lambda>r. credential_id r = credential_id self) (credentials db) = Some c"
    using find_key [OF D(1) c] self(1) by simp
  have "save_revisioned credential_id credential_revision copy self (credentials db)
      = Inr (map (\<lambda>x. if credential_id x = credential_id c then copy self c else x) (credentials db))"
    by (rule revisioned.saved [OF copy D(1) c self(1,3) one])
  then show db': "db' = db\<lparr>credentials := map (\<lambda>x. if credential_id x = credential_id c then copy self c else x) (credentials db)\<rparr>"
    using saved found self(2) by (simp add: save_credential_def Let_def)
  show "credentials_ok db' \<and> store_later db db'"
    by (rule credentials_ok_replace [OF ok c later db'])
qed

lemma rotate_command_Inr:
  assumes "rotate_command X registry draws sv cid expected overlap expires_at by db = Inr (result, db')"
  obtains actor c holder scopes expires and issued :: issued_credential and mid saved and row :: audit_row and i x d
  where "actor_authority registry sv db = Inr actor"
    and "get_credential cid db = Inr c" and "get_principal (credential_principal c) db = Inr holder"
    and "credential_revision c = expected" and "credential_revoked c = None" and "credential_rotated c = None"
    and "principal_active holder"
    and "normalize_scopes registry db holder (credential_scopes c) = Inr scopes"
    and "validate_expiry (sv_now sv) expires_at = Inr expires"
    and "issued_row issued = new_credential (sv_now sv) (credential_principal c) (credential_name c) scopes expires by (Some cid)
      \<lparr>credential_id := i, credential_prefix := x, secret_digest := d\<rparr>"
    and "insert_credential (issued_row issued) db = Inr mid"
    and "save_credential (rotation_columns (sv_now sv)) (c\<lparr>credential_rotated := Some (sv_now sv),
        overlap_expires := Some (sv_now sv + overlap), credential_revision := credential_revision c + 1\<rparr>) mid = Inr saved"
    and "au_action row = ''management.credential.rotated''" and "au_target_id row = Some (credential_id (issued_row issued))"
    and "au_principal row = Some (principal_id actor)"
    and "db' = saved\<lparr>audit_rows := audit_rows saved @ [row]\<rparr>"
  using assms unfolding rotate_command_def Let_def
proof (elim run_elims)
  fix actor c holder u scopes expires y and issued :: issued_credential and mid saved d2 res
  assume actor: "actor_authority registry sv db = Inr actor"
    and c: "get_credential cid db = Inr c" and holder: "get_principal (credential_principal c) db = Inr holder"
    and guards: "\<not> credential_revision c \<noteq> expected" "\<not> (credential_revoked c \<noteq> None \<or> credential_rotated c \<noteq> None)"
      "\<not> \<not> principal_active holder"
    and scopes: "normalize_scopes registry db holder (credential_scopes c) = Inr scopes"
    and expires: "validate_expiry (sv_now sv) expires_at = Inr expires"
    and insert: "insert_generated_credential X draws
         (new_credential (sv_now sv) (principal_id holder) (credential_name c) scopes expires by (Some cid)) db = Inr y" "y = (issued, mid)"
    and save: "save_credential (rotation_columns (sv_now sv)) (c\<lparr>credential_rotated := Some (sv_now sv),
        overlap_expires := Some (sv_now sv + overlap), credential_revision := credential_revision c + 1\<rparr>) mid = Inr saved"
    and audit: "audit_credential X (sv_now sv) actor (issued_row issued) ''management.credential.rotated''
         ''management.credential.rotate'' (sv_key sv) [(''predecessor_id'', PStr (uuid_str cid)),
           (''overlap_seconds'', PInt (overlap div 1000000))] [] saved = Inr d2"
    and eq: "Inr (res, d2) = Inr (result, db')"
  have hid: "principal_id holder = credential_principal c" using get_principal_Inr [OF holder] by simp
  obtain k g where "dr_token draws k = Inr g" and "raw_token issued = token_raw g"
      and row: "issued_row issued = new_credential (sv_now sv) (principal_id holder) (credential_name c) scopes expires by (Some cid)
          \<lparr>credential_id := dr_id draws k, credential_prefix := token_prefix g,
          secret_digest := encode_secret X (dr_salt draws k) (token_secret g)\<rparr>"
      and ins: "insert_credential (issued_row issued) db = Inr mid"
    by (rule insert_generated_credential_Inr [OF insert(1) [unfolded insert(2)]])
  from audit obtain a where a: "au_action a = ''management.credential.rotated''"
    "au_target_id a = Some (credential_id (issued_row issued))" "au_principal a = Some (principal_id actor)"
    and d2: "d2 = saved\<lparr>audit_rows := audit_rows saved @ [a]\<rparr>"
    by (rule audit_credential_Inr)
  with eq have db': "db' = saved\<lparr>audit_rows := audit_rows saved @ [a]\<rparr>" by simp
  from that [OF actor c holder _ _ _ _ scopes expires row [unfolded hid] ins save a db'] guards show thesis by simp
qed

lemma insert_same_keys:
  assumes ins: "insert_credential s db = Inr mid"
    and ids: "map credential_id rows = map credential_id (credentials db)"
    and prefixes: "map credential_prefix rows = map credential_prefix (credentials db)"
    and predecessors: "map predecessor rows = map predecessor (credentials db)"
  shows "insert_credential s (db\<lparr>credentials := rows\<rparr>) = Inr (db\<lparr>credentials := rows @ [s]\<rparr>)"
proof -
  have "credential_id ` set rows = credential_id ` set (credentials db)"
    "credential_prefix ` set rows = credential_prefix ` set (credentials db)"
    "predecessor ` set rows = predecessor ` set (credentials db)"
    using ids prefixes predecessors by (metis set_map)+
  then show ?thesis using insert_credential_Inr(2-5) [OF ins]
    by (cases "predecessor s") (simp_all add: insert_credential_def)
qed

text \<open>
  A rotation appends a successor for the predecessor's principal with its scopes and marks the
  predecessor, which stays usable for the overlap.
\<close>

definition rotation_effect :: "datetime \<Rightarrow> uuid \<Rightarrow> int \<Rightarrow> int \<Rightarrow> site_db \<Rightarrow> site_db \<Rightarrow> bool" where
  "rotation_effect now cid expected overlap db db' \<longleftrightarrow>
     (\<exists>c \<in> set (credentials db). \<exists>d s. credential_id c = cid \<and> credential_revision c = expected
        \<and> credential_revoked c = None \<and> credential_rotated c = None
        \<and> d = c\<lparr>credential_rotated := Some now, overlap_expires := Some (now + overlap),
             credential_revision := expected + 1, credential_updated := now\<rparr>
        \<and> succeeds s d \<and> credential_created s = now \<and> credential_revoked s = None \<and> credential_rotated s = None
        \<and> s \<notin> set (credentials db)
        \<and> credentials db' = map (\<lambda>x. if credential_id x = cid then d else x) (credentials db) @ [s])"

lemma rotate_command_ok:
  assumes ok: "principals_ok db" "credentials_ok db"
    and overlap: "validate_overlap overlap' = Inr overlap"
    and run: "rotate_command X registry draws sv cid expected overlap expires_at by db = Inr (result, db')"
  shows "principals_ok db' \<and> credentials_ok db' \<and> store_later db db' \<and> management_records db' = management_records db"
    and "rotation_effect (sv_now sv) cid expected overlap db db'"
proof -
  have both: "(principals_ok db' \<and> credentials_ok db' \<and> store_later db db' \<and> management_records db' = management_records db)
    \<and> rotation_effect (sv_now sv) cid expected overlap db db'"
  proof (rule rotate_command_Inr [OF run])
    fix actor c holder scopes expires and issued :: issued_credential and mid saved and a :: audit_row and i x d
    assume c: "get_credential cid db = Inr c" and holder: "get_principal (credential_principal c) db = Inr holder"
      and guards: "credential_revision c = expected" "credential_revoked c = None" "credential_rotated c = None"
      and scopes: "normalize_scopes registry db holder (credential_scopes c) = Inr scopes"
      and expires: "validate_expiry (sv_now sv) expires_at = Inr expires"
      and row: "issued_row issued = new_credential (sv_now sv) (credential_principal c) (credential_name c) scopes expires by (Some cid)
        \<lparr>credential_id := i, credential_prefix := x, secret_digest := d\<rparr>"
      and ins: "insert_credential (issued_row issued) db = Inr mid"
      and save: "save_credential (rotation_columns (sv_now sv)) (c\<lparr>credential_rotated := Some (sv_now sv),
        overlap_expires := Some (sv_now sv + overlap), credential_revision := credential_revision c + 1\<rparr>) mid = Inr saved"
      and db': "db' = saved\<lparr>audit_rows := audit_rows saved @ [a]\<rparr>"
    let ?now = "sv_now sv" and ?s = "issued_row issued"
    let ?self = "c\<lparr>credential_rotated := Some ?now, overlap_expires := Some (?now + overlap),
        credential_revision := credential_revision c + 1\<rparr>"
    define c' where "c' = rotation_columns ?now ?self c"
    have cin: "c \<in> set (credentials db)" "credential_id c = cid" using get_credential_Inr [OF c] by simp_all
    have cok: "credential_ok c" using credentials_okD(3) [OF ok(2) cin(1)] .
    have same_scopes: "scopes = credential_scopes c"
      using normalize_scopes_Inr(1) [OF scopes] cok by (simp add: credential_ok_def normalized_again)
    have in_mid: "credentials mid = credentials db @ [?s]" "principals mid = principals db"
      "management_records mid = management_records db"
      using insert_credential_Inr(1) [OF ins] by simp_all
    have new_id: "credential_id ?s \<noteq> cid" using insert_credential_Inr(2) [OF ins] cin by (metis image_eqI)
    have range: "0 \<le> overlap" "overlap \<le> max_rotation_overlap"
      using overlap by (auto simp: validate_overlap_def default_rotation_overlap_def split: if_splits)
    have c'_ok: "credential_ok c'" using cok range by (simp add: credential_ok_def c'_def rotation_columns_def)
    have later: "credential_later c c'"
      using guards by (simp add: credential_later_def c'_def rotation_columns_def same_authority_def)
    define rows where "rows = map (\<lambda>r. if credential_id r = cid then c' else r) (credentials db) @ [?s]"
    have "distinct (map credential_id (credentials mid))"
      using credentials_okD(1) [OF ok(2)] insert_credential_Inr(2) [OF ins] by (simp add: in_mid)
    moreover have "c \<in> set (credentials mid)" using cin(1) by (simp add: in_mid)
    moreover have "1 \<le> credential_revision c" using cok by (simp add: credential_ok_def)
    ultimately have "save_revisioned credential_id credential_revision (rotation_columns ?now) ?self (credentials mid)
        = Inr (map (\<lambda>x. if credential_id x = credential_id c then rotation_columns ?now ?self c else x) (credentials mid))"
      by (intro rotation.saved) simp_all
    moreover have "List.find (\<lambda>r. credential_id r = credential_id ?self) (credentials mid) = Some c"
      using find_key [OF \<open>distinct (map credential_id (credentials mid))\<close> \<open>c \<in> set (credentials mid)\<close>] by simp
    moreover have "same_authority ?self c" by (simp add: same_authority_def)
    ultimately have saved: "saved = mid\<lparr>credentials := rows\<rparr>"
      using save new_id cin(2) unfolding rows_def c'_def by (simp add: save_credential_def in_mid)
    define db1 where "db1 = db\<lparr>credentials := map (\<lambda>r. if credential_id r = credential_id c then c' else r) (credentials db)\<rparr>"
    have ok1: "credentials_ok db1 \<and> store_later db db1"
      by (rule credentials_ok_replace [OF ok(2) cin(1) later c'_ok db1_def])
    have c'_in: "c' \<in> set (credentials db1)"
      unfolding db1_def using cin(1) by (auto intro!: image_eqI [of _ _ c])
    have keys: "map credential_id (credentials db1) = map credential_id (credentials db)"
      "map credential_prefix (credentials db1) = map credential_prefix (credentials db)"
      "map predecessor (credentials db1) = map predecessor (credentials db)"
      using distinct_key_eq [OF credentials_okD(1) [OF ok(2)] _ cin(1)]
      by (auto simp: db1_def c'_def rotation_columns_def)
    have "saved = db\<lparr>credentials := credentials db1 @ [?s]\<rparr>"
      using cin(2) insert_credential_Inr(1) [OF ins] by (simp add: saved rows_def db1_def)
    then have ins1: "insert_credential ?s db1 = Inr saved"
      using insert_same_keys [OF ins keys] by (simp add: db1_def)
    have succ: "succeeds ?s c'"
      by (simp add: succeeds_def row c'_def rotation_columns_def same_scopes cin(2))
    have "credentials_ok saved"
    proof (rule credentials_ok_insert [OF conjunct1 [OF ok1] ins1 new_credential_ok [OF row expires scopes]])
      show "credential_principal ?s \<in> principal_id ` set (principals db1)"
        using get_principal_Inr [OF holder] by (simp add: row db1_def) (metis imageI)
    qed (use c'_in succ in blast)
    moreover have "store_later db saved"
      using conjunct2 [OF ok1] store_later_insert [OF ins1] by (rule store_later_trans)
    ultimately have "principals_ok db' \<and> credentials_ok db' \<and> store_later db db' \<and> management_records db' = management_records db"
      using ok(1) insert_credential_Inr(1) [OF ins] by (simp add: db' saved)
    moreover have "?s \<notin> set (credentials db)" using insert_credential_Inr(2) [OF ins] by blast
    moreover have "credentials db' = map (\<lambda>x. if credential_id x = cid then c' else x) (credentials db) @ [?s]"
      by (simp add: db' saved rows_def)
    moreover have "c' = c\<lparr>credential_rotated := Some ?now, overlap_expires := Some (?now + overlap),
        credential_revision := expected + 1, credential_updated := ?now\<rparr>"
      using guards by (simp add: c'_def rotation_columns_def)
    moreover have "credential_created ?s = ?now" "credential_revoked ?s = None" "credential_rotated ?s = None"
      by (simp_all add: row)
    ultimately show ?thesis using cin guards succ unfolding rotation_effect_def by blast
  qed
  from both show "principals_ok db' \<and> credentials_ok db' \<and> store_later db db' \<and> management_records db' = management_records db"
    by simp
  from both show "rotation_effect (sv_now sv) cid expected overlap db db'"
    by simp
qed

end
