(* ===== verification/Mg_Reachable.thy ===== *)
theory Mg_Reachable
  imports Mg_Invariant
begin

text \<open>
  The remaining writes of the management store, and every sequence of them: the step relation of the
  requests and of the account changes outside it, with the invariant of the reachable stores.
\<close>

subsection \<open>Revocation\<close>

lemma revoke_credential_Inr:
  assumes "revoke_credential X registry sv cid expected db = Inr (a, db')"
  obtains (again) actor where "actor_authority registry sv db = Inr actor"
      and "get_credential cid db = Inr a" and "credential_revision a = expected" and "credential_revoked a \<noteq> None"
      and "db' = db"
  | (first) actor c mid and row :: audit_row where "actor_authority registry sv db = Inr actor"
      and "get_credential cid db = Inr c" and "credential_revision c = expected" and "credential_revoked c = None"
      and "save_credential (revocation_columns (sv_now sv))
        (c\<lparr>credential_revoked := Some (sv_now sv), credential_revision := credential_revision c + 1\<rparr>) db = Inr mid"
      and "a = c\<lparr>credential_revoked := Some (sv_now sv), credential_revision := credential_revision c + 1,
        credential_updated := sv_now sv\<rparr>"
      and "au_action row = ''management.credential.revoked''" and "au_target_id row = Some cid"
      and "au_principal row = Some (principal_id actor)"
      and "db' = mid\<lparr>audit_rows := audit_rows mid @ [row]\<rparr>"
proof -
  from assms obtain actor c where actor: "actor_authority registry sv db = Inr actor"
    and c: "get_credential cid db = Inr c" "credential_revision c = expected"
    by (auto simp: revoke_credential_def bind_res_Inr_iff split: if_splits)
  show thesis
  proof (cases "credential_revoked c = None")
    case False
    with assms c have "a = c" "db' = db" by (auto simp: revoke_credential_def actor)
    with c False again [OF actor] show thesis by simp
  next
    case True
    let ?c = "c\<lparr>credential_revoked := Some (sv_now sv), credential_revision := credential_revision c + 1\<rparr>"
    from assms True c obtain mid where save: "save_credential (revocation_columns (sv_now sv)) ?c db = Inr mid"
      and audit: "audit_credential X (sv_now sv) actor (?c\<lparr>credential_updated := sv_now sv\<rparr>) ''management.credential.revoked''
           ''management.credential.revoke'' (sv_key sv) [(''revoked'', PBool True)] [] mid = Inr db'"
      and a: "a = ?c\<lparr>credential_updated := sv_now sv\<rparr>"
      by (auto simp: revoke_credential_def actor bind_res_Inr_iff Let_def)
    have "credential_id c = cid" using get_credential_Inr [OF c(1)] by simp
    with audit obtain row where "au_action row = ''management.credential.revoked''" "au_target_id row = Some cid"
      "au_principal row = Some (principal_id actor)" "db' = mid\<lparr>audit_rows := audit_rows mid @ [row]\<rparr>"
      by (elim audit_credential_Inr) simp
    with first [OF actor c True save] a show thesis by simp
  qed
qed

text \<open>A revocation marks the row and leaves every other one.\<close>

lemma revoke_credential_ok:
  assumes ok: "credentials_ok db" and run: "revoke_credential X registry sv cid expected db = Inr (a, db')"
  shows "credentials_ok db' \<and> store_later db db' \<and> principals db' = principals db
      \<and> management_records db' = management_records db"
    and "\<exists>c \<in> set (credentials db'). credential_id c = cid \<and> credential_revoked c \<noteq> None"
    and "\<And>c. c \<in> set (credentials db) \<Longrightarrow> credential_id c \<noteq> cid \<Longrightarrow> c \<in> set (credentials db')"
    and "map credential_id (credentials db') = map credential_id (credentials db)"
proof -
  have "(credentials_ok db' \<and> store_later db db' \<and> principals db' = principals db
      \<and> management_records db' = management_records db)
    \<and> (\<exists>c \<in> set (credentials db'). credential_id c = cid \<and> credential_revoked c \<noteq> None)
    \<and> (\<forall>c \<in> set (credentials db). credential_id c \<noteq> cid \<longrightarrow> c \<in> set (credentials db'))
    \<and> map credential_id (credentials db') = map credential_id (credentials db)"
    using run
  proof (cases rule: revoke_credential_Inr)
    case (again actor)
    then show ?thesis using ok get_credential_Inr [OF again(2)] by auto
  next
    case (first actor c mid row)
    let ?self = "c\<lparr>credential_revoked := Some (sv_now sv), credential_revision := credential_revision c + 1\<rparr>"
    have c: "c \<in> set (credentials db)" "credential_id c = cid" using get_credential_Inr [OF first(2)] by simp_all
    have "credential_ok (revocation_columns (sv_now sv) ?self c)"
      using credentials_okD(3) [OF ok c(1)]
      by (cases "credential_rotated c") (simp_all add: credential_ok_def revocation_columns_def)
    moreover have "credential_later c (revocation_columns (sv_now sv) ?self c)"
      using first(4) by (simp add: credential_later_def revocation_columns_def same_authority_def)
    ultimately have saved: "mid = db\<lparr>credentials := map (\<lambda>x. if credential_id x = credential_id c
          then revocation_columns (sv_now sv) ?self c else x) (credentials db)\<rparr>"
        "credentials_ok mid \<and> store_later db mid"
      using save_credential_ok [OF ok c(1), of ?self "revocation_columns (sv_now sv)" mid] revocation.revisioned_axioms first(5)
      by (auto simp: same_authority_def)
    define d where "d = revocation_columns (sv_now sv) ?self c"
    have d: "credential_id d = cid" "credential_revoked d \<noteq> None"
      by (simp_all add: d_def revocation_columns_def c(2))
    have rows: "credentials db' = map (\<lambda>x. if credential_id x = cid then d else x) (credentials db)"
      using saved(1) c(2) by (simp add: first(10) d_def)
    have "d \<in> set (credentials db')"
      unfolding rows set_map using c by (intro image_eqI [of _ _ c]) simp_all
    moreover have "x \<in> set (credentials db')" if "x \<in> set (credentials db)" "credential_id x \<noteq> cid" for x
      unfolding rows set_map using that by (intro image_eqI [of _ _ x]) simp_all
    moreover have "principals db' = principals db" "management_records db' = management_records db"
      by (simp_all add: first(10) saved(1))
    moreover have "credentials_ok db' \<and> store_later db db'" using saved(2) by (simp add: first(10))
    moreover have "map credential_id (credentials db') = map credential_id (credentials db)" using d by (simp add: rows)
    ultimately show ?thesis using d by blast
  qed
  then show "credentials_ok db' \<and> store_later db db' \<and> principals db' = principals db
      \<and> management_records db' = management_records db"
    and "\<exists>c \<in> set (credentials db'). credential_id c = cid \<and> credential_revoked c \<noteq> None"
    and "\<And>c. c \<in> set (credentials db) \<Longrightarrow> credential_id c \<noteq> cid \<Longrightarrow> c \<in> set (credentials db')"
    and "map credential_id (credentials db') = map credential_id (credentials db)"
    by blast+
qed

lemma revoke_command_Inr:
  "revoke_command X registry sv cid expected db = Inr (v, db') \<Longrightarrow>
     \<exists>a. revoke_credential X registry sv cid expected db = Inr (a, db') \<and> credential_revoked a \<noteq> None"
  by (auto simp: revoke_command_def bind_res_Inr_iff Let_def split: if_splits)

subsection \<open>Principals\<close>

lemma principals_okD:
  assumes "principals_ok db"
  shows "distinct (map principal_id (principals db))"
    and "p \<in> set (principals db) \<Longrightarrow> 1 \<le> principal_revision p \<and> (principal_kind p = Human \<longleftrightarrow> principal_user p \<noteq> None)"
    and "p \<in> set (principals db) \<Longrightarrow> q \<in> set (principals db) \<Longrightarrow> principal_user p \<noteq> None
      \<Longrightarrow> principal_user p = principal_user q \<Longrightarrow> principal_id p = principal_id q"
  using assms unfolding principals_ok_def by blast+

text \<open>A save of a principal keeps its identity and the other rows.\<close>

lemma save_principal_ok:
  assumes ok: "principals_ok db" and p: "p \<in> set (principals db)"
    and self: "principal_id self = principal_id p" "principal_kind self = principal_kind p"
      "principal_user self = principal_user p" "identity_snapshot self = identity_snapshot p"
      "principal_revision self = principal_revision p + 1"
    and copy: "revisioned principal_id principal_revision copy" and later: "principal_later p (copy self p)"
    and saved: "save_principal copy self db = Inr db'"
  shows "principals_ok db' \<and> credentials_ok db' = credentials_ok db \<and> store_later db db'
      \<and> management_records db' = management_records db \<and> credentials db' = credentials db"
    and "copy self p \<in> set (principals db')"
proof -
  note D = principals_okD [OF ok]
  let ?f = "\<lambda>x. if principal_id x = principal_id p then copy self p else x"
  have "save_revisioned principal_id principal_revision copy self (principals db) = Inr (map ?f (principals db))"
    by (rule revisioned.saved [OF copy D(1) p self(1,5)]) (use D(2) [OF p] in simp)
  moreover have "List.find (\<lambda>r. principal_id r = principal_id self) (principals db) = Some p"
    using find_key [OF D(1) p] self(1) by simp
  ultimately have db': "db' = db\<lparr>principals := map ?f (principals db)\<rparr>"
    using saved self by (simp add: save_principal_def Let_def)
  have only: "x = p" if "x \<in> set (principals db)" "principal_id x = principal_id p" for x
    using distinct_key_eq [OF D(1) that(1) p that(2)] .
  have step: "principal_later x (?f x)" if "x \<in> set (principals db)" for x using only [OF that] later by auto
  then have same: "principal_id (?f x) = principal_id x" "principal_kind (?f x) = principal_kind x"
    "principal_user (?f x) = principal_user x" "principal_revision x \<le> principal_revision (?f x)"
    if "x \<in> set (principals db)" for x
    using that by (simp_all only: principal_later_def)
  have rows: "principals db' = map ?f (principals db)" by (simp add: db')
  have ids: "map principal_id (principals db') = map principal_id (principals db)"
    using same(1) by (auto simp: rows)
  have "1 \<le> principal_revision y \<and> (principal_kind y = Human \<longleftrightarrow> principal_user y \<noteq> None)"
    if y: "y \<in> set (principals db')" for y
  proof -
    from y obtain x where x: "x \<in> set (principals db)" "y = ?f x" unfolding rows set_map by blast
    show ?thesis using same(2-4) [OF x(1)] D(2) [OF x(1)] unfolding x(2) by simp
  qed
  moreover have "principal_id y = principal_id z"
    if yz: "y \<in> set (principals db')" "z \<in> set (principals db')" "principal_user y \<noteq> None" "principal_user y = principal_user z" for y z
  proof -
    from yz obtain u v where u: "u \<in> set (principals db)" "y = ?f u" and v: "v \<in> set (principals db)" "z = ?f v"
      unfolding rows set_map by blast
    show ?thesis using D(3) [OF u(1) v(1)] yz(3,4)
      unfolding u(2) v(2) same(1,3) [OF u(1)] same(1,3) [OF v(1)] by blast
  qed
  moreover have "distinct (map principal_id (principals db'))" using ids D(1) by simp
  ultimately have oks: "principals_ok db'" unfolding principals_ok_def by blast
  have "principal_id ` set (principals db') = principal_id ` set (principals db)" using ids by (metis set_map)
  then have creds: "credentials_ok db' = credentials_ok db" by (simp add: credentials_ok_def db')
  have "\<exists>y \<in> set (principals db'). principal_later x y" if "x \<in> set (principals db)" for x
    using step [OF that] that unfolding rows set_map by (intro bexI [of _ "?f x"] imageI)
  moreover have "credentials db' = credentials db" by (simp add: db')
  ultimately have "store_later db db'" unfolding store_later_def using credential_later_refl by metis
  then show "principals_ok db' \<and> credentials_ok db' = credentials_ok db \<and> store_later db db'
      \<and> management_records db' = management_records db \<and> credentials db' = credentials db"
    using oks creds by (simp add: db')
  show "copy self p \<in> set (principals db')"
    unfolding rows set_map using p by (intro image_eqI [of _ _ p]) simp_all
qed

lemma set_permissions_tables [simp]:
  "principals (set_permissions i ps db) = principals db" "credentials (set_permissions i ps db) = credentials db"
  "management_records (set_permissions i ps db) = management_records db"
  "principals_ok (set_permissions i ps db) = principals_ok db"
  "credentials_ok (set_permissions i ps db) = credentials_ok db"
  "unique_keys (set_permissions i ps db) = unique_keys db"
  "store_later db (set_permissions i ps db') = store_later db db'"
  by (simp_all add: set_permissions_def)

lemma set_principal_active_ok:
  assumes ok: "principals_ok db" and run: "set_principal_active now i active expected db = Inr (a, db')"
  shows "principals_ok db' \<and> credentials_ok db' = credentials_ok db \<and> store_later db db'
      \<and> management_records db' = management_records db \<and> credentials db' = credentials db"
    and "a \<in> set (principals db') \<and> principal_id a = i \<and> principal_active a = active \<and> principal_revision a = expected + 1"
proof -
  from run obtain p where p: "p \<in> set (principals db)" "principal_id p = i" "principal_revision p = expected"
    and save: "save_principal (activity_columns now) (p\<lparr>principal_active := active, principal_revision := principal_revision p + 1\<rparr>) db = Inr db'"
    and a: "a = p\<lparr>principal_active := active, principal_revision := principal_revision p + 1, principal_updated := now\<rparr>"
    by (auto simp: set_principal_active_def bind_res_Inr_iff Let_def dest!: get_principal_Inr split: if_splits)
  let ?self = "p\<lparr>principal_active := active, principal_revision := principal_revision p + 1\<rparr>"
  have "principal_later p (activity_columns now ?self p)" by (simp add: principal_later_def activity_columns_def)
  from save_principal_ok [OF ok p(1) _ _ _ _ _ activity.revisioned_axioms this save]
  show "principals_ok db' \<and> credentials_ok db' = credentials_ok db \<and> store_later db db'
      \<and> management_records db' = management_records db \<and> credentials db' = credentials db"
    and "a \<in> set (principals db') \<and> principal_id a = i \<and> principal_active a = active \<and> principal_revision a = expected + 1"
    using p by (simp_all add: a activity_columns_def)
qed

lemma replace_principal_permissions_ok:
  assumes ok: "principals_ok db" and run: "replace_principal_permissions now i ps expected db = Inr (a, db')"
  shows "principals_ok db' \<and> credentials_ok db' = credentials_ok db \<and> store_later db db'
      \<and> management_records db' = management_records db \<and> credentials db' = credentials db"
proof -
  from run obtain p mid where p: "p \<in> set (principals db)" "principal_id p = i" "principal_revision p = expected"
    and save: "save_principal (revision_columns now) (p\<lparr>principal_revision := principal_revision p + 1\<rparr>) db = Inr mid"
    and db': "db' = set_permissions i ps mid"
    by (auto simp: replace_principal_permissions_def bind_res_Inr_iff Let_def dest!: get_principal_Inr split: if_splits)
  let ?self = "p\<lparr>principal_revision := principal_revision p + 1\<rparr>"
  have "principal_later p (revision_columns now ?self p)" by (simp add: principal_later_def revision_columns_def)
  from save_principal_ok(1) [OF ok p(1) _ _ _ _ _ permissions.revisioned_axioms this save]
  show ?thesis by (simp add: db')
qed

lemma create_principal_Inr:
  assumes "create_principal X now i kind name snapshot user by ps db = Inr (p, db')"
  shows "db' = set_permissions i ps (db\<lparr>principals := principals db @ [p]\<rparr>)"
    and "principal_id p = i" and "i \<notin> principal_id ` set (principals db)"
    and "principal_user p = user" and "principal_active p" and "principal_revision p = 1"
    and "user \<noteq> None \<Longrightarrow> user \<notin> principal_user ` set (principals db)"
    and "principal_kind p = Human \<longleftrightarrow> user \<noteq> None"
  using assms by (auto simp: create_principal_def insert_principal_def bind_res_Inr_iff Let_def split: option.splits if_splits)

lemma create_principal_ok:
  assumes ok: "principals_ok db" and run: "create_principal X now i kind name snapshot user by ps db = Inr (p, db')"
  shows "principals_ok db'" and "credentials_ok db \<Longrightarrow> credentials_ok db'" and "store_later db db'"
    and "management_records db' = management_records db" and "credentials db' = credentials db"
proof -
  note I = create_principal_Inr [OF run] and D = principals_okD [OF ok]
  have new: "principal_user p \<noteq> principal_user q" if "q \<in> set (principals db)" "principal_user p \<noteq> None" for q
    using I(7) that unfolding I(4) [symmetric] by (metis image_eqI)
  have rows: "principals db' = principals db @ [p]" "credentials db' = credentials db" by (simp_all add: I(1))
  have "principal_id x = principal_id y"
    if xy: "x \<in> set (principals db')" "y \<in> set (principals db')" "principal_user x \<noteq> None" "principal_user x = principal_user y" for x y
  proof (cases "x = p \<or> y = p")
    case True
    then show ?thesis using new [of x] new [of y] xy unfolding rows by auto
  next
    case False
    then show ?thesis using xy D(3) [of x y] unfolding rows by simp
  qed
  moreover have "1 \<le> principal_revision x \<and> (principal_kind x = Human \<longleftrightarrow> principal_user x \<noteq> None)"
    if "x \<in> set (principals db')" for x
    using that D(2) [of x] I(4,6,8) unfolding rows by auto
  moreover have "distinct (map principal_id (principals db'))" using D(1) I(2,3) by (simp add: rows)
  ultimately show "principals_ok db'" unfolding principals_ok_def by blast
  show "credentials_ok db'" if "credentials_ok db"
  proof -
    have "credential_principal c \<in> principal_id ` set (principals db')" if "c \<in> set (credentials db)" for c
      using credentials_okD(4) [OF \<open>credentials_ok db\<close> that] unfolding rows by auto
    with that show ?thesis unfolding credentials_ok_def rows(2) by blast
  qed
  show "store_later db db'"
    unfolding store_later_def rows set_append using credential_later_refl principal_later_refl by blast
qed (simp_all add: create_principal_Inr [OF run])

subsection \<open>One request\<close>

text \<open>What a request may do to the store.\<close>

definition keeps_site :: "site_db \<Rightarrow> site_db \<Rightarrow> bool" where
  "keeps_site db db' \<longleftrightarrow> (site_ok db \<longrightarrow> site_ok db' \<and> store_later db db')"

lemma keeps_refl [simp, intro]: "keeps_site db db"
  by (simp add: keeps_site_def)

lemma keeps_trans [trans]: "keeps_site a b \<Longrightarrow> keeps_site b c \<Longrightarrow> keeps_site a c"
  unfolding keeps_site_def using store_later_trans by blast

lemma keeps_other_tables [simp]:
  "keeps_site db (db'\<lparr>audit_rows := a\<rparr>) = keeps_site db db'"
  "keeps_site db (db'\<lparr>grants := g\<rparr>) = keeps_site db db'"
  "keeps_site db (db'\<lparr>admissions := x\<rparr>) = keeps_site db db'"
  "keeps_site db (db'\<lparr>subjects := y\<rparr>) = keeps_site db db'"
  "keeps_site db (db'\<lparr>users := u\<rparr>) = keeps_site db db'"
  "keeps_site db (db'\<lparr>permission_rows := z\<rparr>) = keeps_site db db'"
  by (simp_all add: keeps_site_def site_ok_def)

lemma keeps_atomic:
  assumes "\<And>x d. run db = Inr (x, d) \<Longrightarrow> keeps_site db d" and "atomic run db = (r, db')"
  shows "keeps_site db db'"
  using assms by (cases "run db") (auto simp: atomic_def)

lemma keeps_bind_kept:
  assumes "bind_kept m f = (r, db')" and "\<And>r d. m = (r, d) \<Longrightarrow> keeps_site db d"
    and "\<And>x d. m = (Inr x, d) \<Longrightarrow> f x d = (r, db') \<Longrightarrow> keeps_site d db'"
  shows "keeps_site db db'"
proof -
  obtain a d where m: "m = (a, d)" by (cases m)
  show ?thesis
  proof (cases a)
    case (Inl e)
    with assms(1,2) m show ?thesis by simp
  next
    case (Inr x)
    with assms m have "keeps_site d db'" by simp
    with assms(2) [OF m] show ?thesis by (rule keeps_trans)
  qed
qed

text \<open>The services.\<close>

lemma save_credential_records: "save_credential copy c db = Inr db' \<Longrightarrow> management_records db' = management_records db"
  by (auto simp: save_credential_def bind_res_Inr_iff Let_def split: option.splits if_splits)

lemma issue_command_leaves: "leaves_records (issue_command X registry draws sv target name scopes expires_at by)"
  unfolding leaves_records_def
proof (intro allI impI)
  fix db v db' assume "issue_command X registry draws sv target name scopes expires_at by db = Inr (v, db')"
  then show "management_records db' = management_records db"
  proof (rule issue_command_Inr)
    fix mid and row :: audit_row and issued :: issued_credential
    assume "insert_credential (issued_row issued) db = Inr mid" "db' = mid\<lparr>audit_rows := audit_rows mid @ [row]\<rparr>"
    then show ?thesis using insert_credential_Inr(1) by fastforce
  qed
qed

lemma rotate_command_leaves: "leaves_records (rotate_command X registry draws sv cid expected overlap expires_at by)"
  unfolding leaves_records_def
proof (intro allI impI)
  fix db v db' assume "rotate_command X registry draws sv cid expected overlap expires_at by db = Inr (v, db')"
  then show "management_records db' = management_records db"
  proof (rule rotate_command_Inr)
    fix c mid saved and row :: audit_row and issued :: issued_credential
    assume "insert_credential (issued_row issued) db = Inr mid"
      and "save_credential (rotation_columns (sv_now sv)) (c\<lparr>credential_rotated := Some (sv_now sv),
        overlap_expires := Some (sv_now sv + overlap), credential_revision := credential_revision c + 1\<rparr>) mid = Inr saved"
      and "db' = saved\<lparr>audit_rows := audit_rows saved @ [row]\<rparr>"
    then show ?thesis using insert_credential_Inr(1) save_credential_records by fastforce
  qed
qed

lemma revoke_command_leaves: "leaves_records (revoke_command X registry sv cid expected)"
  unfolding leaves_records_def
proof (intro allI impI)
  fix db v db' assume "revoke_command X registry sv cid expected db = Inr (v, db')"
  then obtain a where "revoke_credential X registry sv cid expected db = Inr (a, db')" using revoke_command_Inr by blast
  then show "management_records db' = management_records db"
    by (cases rule: revoke_credential_Inr) (auto dest: save_credential_records)
qed

lemma one_time_keeps:
  assumes leaves: "leaves_records run"
    and step: "\<And>db v db'. principals_ok db \<Longrightarrow> credentials_ok db \<Longrightarrow> run db = Inr (v, db') \<Longrightarrow>
      principals_ok db' \<and> credentials_ok db' \<and> store_later db db'"
    and run: "execute_one_time_idempotent X call run db = Inr (a, db')"
  shows "keeps_site db db'"
  unfolding keeps_site_def
proof
  assume ok: "site_ok db"
  then have unique: "unique_keys db" by (simp add: site_ok_def)
  show "site_ok db' \<and> store_later db db'"
    using run unique leaves
  proof (cases rule: one_time_effect)
    case replay
    then show ?thesis using ok by simp
  next
    case (ran rows rows' v mid)
    have "principals_ok mid \<and> credentials_ok mid \<and> store_later (db\<lparr>management_records := rows\<rparr>) mid"
      using ok by (intro step [OF _ _ ran(1)]) (simp_all add: site_ok_def)
    then show ?thesis using ran(3) by (simp add: site_ok_def ran(2))
  qed
qed

lemma issue_credential_once_keeps:
  "issue_credential_once X registry draws sv target name scopes expires_at by db = Inr (a, db') \<Longrightarrow> keeps_site db db'"
  unfolding issue_credential_once_def
  by (elim bind_res_InrE) (rule one_time_keeps [OF issue_command_leaves], use issue_command_ok in blast)

lemma rotate_credential_once_keeps:
  "rotate_credential_once X registry draws sv cid expected overlap expires_at by db = Inr (a, db') \<Longrightarrow> keeps_site db db'"
  unfolding rotate_credential_once_def
  by (elim bind_res_InrE) (rule one_time_keeps [OF rotate_command_leaves], use rotate_command_ok(1) in blast)

lemma revoke_command_ok:
  assumes "principals_ok db" and "credentials_ok db" and "revoke_command X registry sv cid expected db = Inr (v, db')"
  shows "principals_ok db' \<and> credentials_ok db' \<and> store_later db db'"
proof -
  from assms(3) obtain a where "revoke_credential X registry sv cid expected db = Inr (a, db')" using revoke_command_Inr by blast
  note effect = revoke_credential_ok(1) [OF assms(2) this]
  then have "principals_ok db' = principals_ok db" by (simp only: principals_ok_def)
  with effect assms(1) show ?thesis by simp
qed

lemma revoke_credential_once_keeps:
  "revoke_credential_once X registry sv cid expected db = Inr (a, db') \<Longrightarrow> keeps_site db db'"
  unfolding revoke_credential_once_def
  by (rule one_time_keeps [OF revoke_command_leaves]) (use revoke_command_ok in blast)

lemmas once_keeps = issue_credential_once_keeps rotate_credential_once_keeps revoke_credential_once_keeps

lemma manageable_keeps:
  "issue_manageable_credential_once X registry draws sv target name scopes expires_at by db = Inr (a, db') \<Longrightarrow> keeps_site db db'"
  "rotate_manageable_credential_once X registry draws sv cid expected overlap expires_at by db = Inr (a, db') \<Longrightarrow> keeps_site db db'"
  "revoke_manageable_credential_once X registry sv cid expected db = Inr (a, db') \<Longrightarrow> keeps_site db db'"
  by (auto simp: issue_manageable_credential_once_def rotate_manageable_credential_once_def
      revoke_manageable_credential_once_def dest: once_keeps split: option.splits)

text \<open>The device login.\<close>

lemma mirror_grants_tables: "mirror_grants registry u i scopes db = (r, db') \<Longrightarrow> \<exists>g. db' = db\<lparr>grants := g\<rparr>"
proof (induction scopes arbitrary: db r db')
  case Nil
  then have "db' = db\<lparr>grants := grants db\<rparr>" by simp
  then show ?case by (rule exI)
next
  case (Cons s ss)
  have stay: "\<exists>g. db = db\<lparr>grants := g\<rparr>" by (rule exI [of _ "grants db"]) simp
  have again: "\<exists>g. d = db\<lparr>grants := g\<rparr>"
    if "bind_kept (mirror_grants registry u i ss (db\<lparr>grants := h\<rparr>)) (\<lambda>e d. (Inr (s # e), d)) = (r, d)" for d h
  proof -
    obtain q e where m: "mirror_grants registry u i ss (db\<lparr>grants := h\<rparr>) = (q, e)" by fastforce
    from Cons.IH [OF m] obtain g where "e = db\<lparr>grants := g\<rparr>" by auto
    moreover have "d = e" using that m by (cases q) auto
    ultimately show ?thesis by blast
  qed
  show ?case
    using Cons.prems stay again [of "grants db @ _"] again [of "grants db"] Cons.IH [of db]
    by (auto simp: Let_def split: option.splits if_splits)
qed

lemma mint_attempts_Inr:
  assumes "mint_attempts X draws p row n k db = Inr (issued, db')"
  obtains i x s mid and a :: audit_row
  where "issued_row issued = row\<lparr>credential_id := i, credential_prefix := x, secret_digest := s\<rparr>"
    and "insert_credential (issued_row issued) db = Inr mid"
    and "au_action a = ''management.credential.created''"
    and "db' = mid\<lparr>audit_rows := audit_rows mid @ [a]\<rparr>"
  using assms
proof (induction n arbitrary: k thesis)
  case (Suc n)
  from Suc.prems(2) obtain g where g: "dr_token draws k = Inr g" by (auto simp: bind_res_Inr_iff)
  let ?c = "row\<lparr>credential_id := dr_id draws k, credential_prefix := token_prefix g,
             secret_digest := encode_secret X (dr_salt draws k) (token_secret g)\<rparr>"
  let ?run = "bind_res (insert_credential ?c db) (audit_credential X (credential_created row) p ?c
             ''management.credential.created'' ''management.credential.create'' []
             [(''created'', PBool True), (''source'', PStr ''device_login'')]
             [(''source'', PStr ''device_login''), (''device_label'', PStr (credential_name row))])"
  show ?case
  proof (cases ?run)
    case (Inl e)
    with Suc.prems(2) g have again: "mint_attempts X draws p row n (Suc k) db = Inr (issued, db')"
      by (auto split: if_splits)
    show ?thesis by (rule Suc.IH [OF _ again]) (rule Suc.prems(1))
  next
    case (Inr d)
    then obtain mid where ins: "insert_credential ?c db = Inr mid"
      and audit: "audit_credential X (credential_created row) p ?c ''management.credential.created''
             ''management.credential.create'' [] [(''created'', PBool True), (''source'', PStr ''device_login'')]
             [(''source'', PStr ''device_login''), (''device_label'', PStr (credential_name row))] mid = Inr d"
      by (elim bind_res_InrE)
    from audit obtain a where a: "au_action a = ''management.credential.created''"
      "d = mid\<lparr>audit_rows := audit_rows mid @ [a :: audit_row]\<rparr>"
      by (rule audit_credential_Inr)
    from Suc.prems(2) g Inr have "issued = \<lparr>issued_row = ?c, raw_token = token_raw g\<rparr>" and "db' = d" by auto
    with ins a show ?thesis by (intro Suc.prems(1)) simp_all
  qed
qed simp

lemma principal_for_Inr:
  assumes "principal_for X now i u db = Inr (p, db')"
  shows "(p \<in> set (principals db) \<and> principal_active p \<and> principal_kind p = Human \<and> principal_user p = Some (user_id u) \<and> db' = db)
    \<or> (\<exists>name snapshot. create_principal X now i ''human'' name snapshot (Some (user_id u)) (Some (user_id u)) [] db = Inr (p, db'))"
proof (cases "sort_key (\<lambda>p. - principal_created p)
    (filter (\<lambda>p. principal_kind p = Human \<and> principal_user p = Some (user_id u)) (principals db))")
  case Nil
  with assms show ?thesis by (auto simp: principal_for_def)
next
  case (Cons q qs)
  then have "q \<in> set (sort_key (\<lambda>p. - principal_created p)
    (filter (\<lambda>p. principal_kind p = Human \<and> principal_user p = Some (user_id u)) (principals db)))" by simp
  then have "q \<in> set (principals db)" "principal_kind q = Human" "principal_user q = Some (user_id u)" by simp_all
  with assms Cons show ?thesis by (simp add: principal_for_def split: if_splits)
qed

lemma create_principal_keeps:
  "create_principal X now i kind name snapshot user by ps db = Inr (p, db') \<Longrightarrow> keeps_site db db'"
  using create_principal_ok by (fastforce simp: keeps_site_def site_ok_def unique_keys_def)

lemma set_principal_active_keeps: "set_principal_active now i active expected db = Inr (a, db') \<Longrightarrow> keeps_site db db'"
  using set_principal_active_ok(1) by (fastforce simp: keeps_site_def site_ok_def unique_keys_def)

lemma replace_principal_permissions_keeps:
  "replace_principal_permissions now i ps expected db = Inr (a, db') \<Longrightarrow> keeps_site db db'"
  using replace_principal_permissions_ok by (fastforce simp: keeps_site_def site_ok_def unique_keys_def)

text \<open>What a login mints.\<close>

lemma mint_entitled_Inr:
  assumes "mint_entitled X registry draws now u label p entitled db = (Inr answer, db')"
  obtains scopes and issued :: issued_credential and mid and a :: audit_row and j x s
  where "''courses.launch.read'' \<in> set entitled"
    and "normalize_scopes registry db p entitled = Inr scopes"
    and "issued_row issued = new_credential now (principal_id p) (device_credential_name X label) scopes
        (now + default_credential_lifetime) (Some (user_id u)) None\<lparr>credential_id := j, credential_prefix := x, secret_digest := s\<rparr>"
    and "insert_credential (issued_row issued) db = Inr mid"
    and "au_action a = ''management.credential.created''" and "db' = mid\<lparr>audit_rows := audit_rows mid @ [a]\<rparr>"
    and "answer = [(''token'', PStr (raw_token issued)),
      (''expires_at'', PStr (py_isoformat (now + default_credential_lifetime))),
      (''user'', PDict [(''email'', PStr (user_email u)), (''name'', PStr (user_full_name u))])]"
proof -
  from assms have read: "''courses.launch.read'' \<in> set entitled" by (auto simp: mint_entitled_def split: if_splits)
  from assms obtain scopes where scopes: "normalize_scopes registry db p entitled = Inr scopes"
    by (auto simp: mint_entitled_def split: if_splits sum.splits)
  from assms obtain issued
    where mint: "mint_attempts X draws p (new_credential now (principal_id p) (device_credential_name X label) scopes
      (now + default_credential_lifetime) (Some (user_id u)) None) prefix_collision_retries 0 db = Inr (issued, db')"
    and answer: "answer = [(''token'', PStr (raw_token issued)),
      (''expires_at'', PStr (py_isoformat (now + default_credential_lifetime))),
      (''user'', PDict [(''email'', PStr (user_email u)), (''name'', PStr (user_full_name u))])]"
    by (auto simp: mint_entitled_def read scopes Let_def atomic_def split: sum.splits)
  show thesis
    by (rule mint_attempts_Inr [OF mint]) (rule that [OF read scopes _ _ _ _ answer])
qed

text \<open>The entitled scopes are launch scopes whose permission the user holds explicitly.\<close>

lemma mirror_grants_Inr:
  "mirror_grants registry u i scopes db = (Inr entitled, db') \<Longrightarrow>
     set entitled \<subseteq> set scopes \<and> (\<forall>s \<in> set entitled. \<exists>cap. registry s = Some cap \<and> has_explicit_permission u (cap_permission cap))"
proof (induction scopes arbitrary: db entitled db')
  case (Cons s ss)
  show ?case
  proof (cases "\<exists>rest d. mirror_grants registry u i ss d = (Inr rest, db') \<and> entitled = rest")
    case True
    then show ?thesis using Cons.IH by fastforce
  next
    case False
    with Cons.prems obtain cap rest d where "registry s = Some cap" "has_explicit_permission u (cap_permission cap)"
      and "mirror_grants registry u i ss d = (Inr rest, db')" and "entitled = s # rest"
      by (auto simp: Let_def split: option.splits if_splits elim!: bind_kept_InrE)
    then show ?thesis using Cons.IH by fastforce
  qed
qed simp

text \<open>A failed login keeps what its earlier transactions wrote.\<close>

lemma principal_for_keeps: "principal_for X now i u db = Inr (p, db') \<Longrightarrow> keeps_site db db'"
  using principal_for_Inr create_principal_keeps keeps_refl by blast

lemma principal_for_row:
  assumes "principal_for X now i u db = Inr (p, db')"
  shows "p \<in> set (principals db') \<and> principal_active p \<and> principal_user p = Some (user_id u)"
  using principal_for_Inr [OF assms]
proof
  assume "\<exists>name snapshot. create_principal X now i ''human'' name snapshot (Some (user_id u)) (Some (user_id u)) [] db = Inr (p, db')"
  then obtain name snapshot where "create_principal X now i ''human'' name snapshot (Some (user_id u)) (Some (user_id u)) [] db = Inr (p, db')"
    by blast
  from create_principal_Inr [OF this] show ?thesis by (simp add: set_permissions_def)
qed simp

lemma mint_attempts_keeps:
  assumes mint: "mint_attempts X draws p (new_credential now (principal_id p) name scopes expires by None) n k db = Inr (issued, db')"
    and p: "p \<in> set (principals db)" and scopes: "normalize_scopes registry db p wanted = Inr scopes"
    and expires: "validate_expiry now t = Inr expires"
  shows "keeps_site db db'"
proof (rule mint_attempts_Inr [OF mint])
  fix j x s mid and a :: audit_row
  assume row: "issued_row issued = new_credential now (principal_id p) name scopes expires by None
      \<lparr>credential_id := j, credential_prefix := x, secret_digest := s\<rparr>"
    and ins: "insert_credential (issued_row issued) db = Inr mid" and db': "db' = mid\<lparr>audit_rows := audit_rows mid @ [a]\<rparr>"
  have "site_ok mid \<and> store_later db mid" if ok: "site_ok db"
  proof -
    have "credentials_ok mid"
      by (rule credentials_ok_insert [OF _ ins new_credential_ok [OF row expires scopes]])
        (use ok p in \<open>simp_all add: row site_ok_def\<close>)
    then show ?thesis
      using ok store_later_insert [OF ins] insert_credential_Inr(1) [OF ins] by (simp add: site_ok_def)
  qed
  then show ?thesis by (simp add: db' keeps_site_def site_ok_def)
qed

lemma default_lifetime_valid: "validate_expiry now None = Inr (now + default_credential_lifetime)"
  by (simp add: validate_expiry_def credential_constants days_def seconds_def)

lemma mint_entitled_keeps:
  assumes "mint_entitled X registry draws now u label p entitled db = (r, db')" and p: "p \<in> set (principals db)"
  shows "keeps_site db db'"
proof -
  from assms(1) consider "db' = db" | scopes issued where "normalize_scopes registry db p entitled = Inr scopes"
      and "mint_attempts X draws p (new_credential now (principal_id p) (device_credential_name X label) scopes
        (now + default_credential_lifetime) (Some (user_id u)) None) prefix_collision_retries 0 db = Inr (issued, db')"
    by (auto simp: mint_entitled_def Let_def atomic_def split: if_splits sum.splits)
  then show ?thesis
  proof cases
    case 2
    show ?thesis by (rule mint_attempts_keeps [OF 2(2) p 2(1) default_lifetime_valid])
  qed simp
qed

lemma mint_device_credential_keeps:
  assumes run: "mint_device_credential X registry draws now i u label db = (r, db')"
  shows "keeps_site db db'"
  using run unfolding mint_device_credential_def
proof (rule keeps_bind_kept)
  fix r d assume "atomic (principal_for X now i u) db = (r, d)"
  then show "keeps_site db d" by (rule keeps_atomic [rotated]) (rule principal_for_keeps)
next
  fix p d
  assume "atomic (principal_for X now i u) db = (Inr p, d)"
  then have p: "p \<in> set (principals d)" using principal_for_row by (simp add: atomic_Inr)
  assume "bind_kept (mirror_grants registry u (principal_id p) launch_scopes d) (\<lambda>entitled db.
      mint_entitled X registry draws now u label p entitled db) = (r, db')"
  then show "keeps_site d db'"
  proof (rule keeps_bind_kept)
    fix r e assume "mirror_grants registry u (principal_id p) launch_scopes d = (r, e)"
    then show "keeps_site d e" using mirror_grants_tables by fastforce
  next
    fix entitled e
    assume m: "mirror_grants registry u (principal_id p) launch_scopes d = (Inr entitled, e)"
    then have "p \<in> set (principals e)" using mirror_grants_tables [OF m] p by auto
    moreover assume "mint_entitled X registry draws now u label p entitled e = (r, db')"
    ultimately show "keeps_site e db'" by (intro mint_entitled_keeps)
  qed
qed

text \<open>Use, authentication and admission.\<close>

lemma note_credential_used_keeps: "note_credential_used now cid db = (b, db') \<Longrightarrow> keeps_site db db'"
proof -
  assume "note_credential_used now cid db = (b, db')"
  then obtain due where db': "db' = db\<lparr>credentials := map (\<lambda>c. if due c then c\<lparr>last_used := Some now\<rparr> else c) (credentials db)\<rparr>"
    by (auto simp: note_credential_used_def Let_def update_where_def)
  have "credential_later c (if due c then c\<lparr>last_used := Some now\<rparr> else c)" for c
    by (simp add: credential_later_def same_authority_def)
  moreover have "credential_ok c \<Longrightarrow> credential_ok (if due c then c\<lparr>last_used := Some now\<rparr> else c)" for c
    by (cases "credential_rotated c") (simp_all add: credential_ok_def)
  ultimately have "credentials_ok db' \<and> store_later db db'" if "credentials_ok db"
    using credentials_ok_map [OF that _ db'] credentials_okD(3) [OF that] by blast
  then show ?thesis by (auto simp: keeps_site_def site_ok_def db')
qed

lemma verify_with_adaptive_limit_keeps: "verify_with_adaptive_limit X now prefix v db = Inr (b, db') \<Longrightarrow> keeps_site db db'"
  by (auto simp: verify_with_adaptive_limit_def serialize_subject_def Let_def split: if_splits)

lemma admit_keeps: "admit X now cls cost actor prefix db = Inr db' \<Longrightarrow> keeps_site db db'"
  by (auto simp: admit_def serialize_subject_def Let_def split: if_splits option.splits)

lemma authenticate_keeps:
  assumes "authenticate X now alt rq db = (r, db')"
  shows "keeps_site db db'"
proof -
  have step: "keeps_site db d" if "atomic (verify_with_adaptive_limit X now prefix v) db = (a, d)" for prefix v a d
    using that by (rule keeps_atomic [rotated]) (use verify_with_adaptive_limit_keeps in \<open>metis surj_pair\<close>)
  show ?thesis
    using assms by (auto simp: authenticate_def dest: step split: if_splits option.splits prod.splits sum.splits)
qed

lemma record_audit_event_keeps:
  assumes "record_audit_event X action target outcome cx i label changes metadata db = Inr db'"
  shows "keeps_site db db'"
  using assms by (rule record_audit_event_appends) simp

lemma admit_request_keeps: "admit_request X now cap identity db = (r, db') \<Longrightarrow> keeps_site db db'"
  by (auto simp: admit_request_def dest: admit_keeps split: sum.splits site_err.splits)

lemma run_view_keeps:
  assumes view: "\<And>i c q d r d'. view i c q d = (r, d') \<Longrightarrow> keeps_site d d'"
    and run: "run_view X env key test view rq db = (r, known, db')"
  shows "keeps_site db db'"
proof -
  note steps = authenticate_keeps admit_request_keeps view
  have used: "keeps_site d (snd (note_credential_used t i d))" for t i d
    using note_credential_used_keeps by (metis surjective_pairing)
  show ?thesis
    using run
    by (auto simp: run_view_def Let_def split: option.splits if_splits prod.splits sum.splits
        dest!: steps intro: keeps_trans [OF _ used] keeps_trans)
qed

lemma dispatch_keeps:
  assumes view: "\<And>i c q d r d'. view i c q d = (r, d') \<Longrightarrow> keeps_site d d'"
    and run: "dispatch X env key test view rq db = (r, db')"
  shows "keeps_site db db'"
proof -
  obtain a known d where d: "run_view X env key test view rq db = (a, known, d)" using prod_cases3 by blast
  have step: "keeps_site db d" by (rule run_view_keeps [OF view d])
  have audit: "audit_denied X i c q reason d = Inr d' \<Longrightarrow> keeps_site d d'" for i c q reason d'
    by (simp add: audit_denied_def Let_def record_audit_event_keeps)
  show ?thesis
    using run step audit [THEN keeps_trans [OF step]]
    by (auto simp: dispatch_def d split: sum.splits option.splits site_err.splits prod.splits if_splits)
qed

lemma keeps_read: "bind_kept (x, db) f = (r, db') \<Longrightarrow> (\<And>y. f y db = (r, db') \<Longrightarrow> keeps_site db db') \<Longrightarrow> keeps_site db db'"
  by (erule keeps_bind_kept) auto

text \<open>The statements of a view before its transaction only read; the transaction is one service call.\<close>

lemma keeps_command:
  assumes "(case atomic run db of (Inl e, d) \<Rightarrow> (Inl (f e), d) | (Inr x, d) \<Rightarrow> (Inr (g x), d)) = (r, db')"
    and "\<And>x d. run db = Inr (x, d) \<Longrightarrow> keeps_site db d"
  shows "keeps_site db db'"
proof -
  obtain a d where a: "atomic run db = (a, d)" by (cases "atomic run db")
  with assms(1) have "db' = d" by (cases a) auto
  with keeps_atomic [OF assms(2) a] show ?thesis by simp
qed

lemma credential_create_keeps:
  assumes "credential_create X env identity cap rq db = (r, db')"
  shows "keeps_site db db'"
  using assms unfolding credential_create_def
  by (elim keeps_read) (auto split: pyval.splits option.splits elim!: keeps_command bind_res_InrE dest: manageable_keeps)

lemma credential_rotate_keeps:
  assumes "credential_rotate X env cid identity cap rq db = (r, db')"
  shows "keeps_site db db'"
  using assms unfolding credential_rotate_def
  by (elim keeps_read) (auto split: pyval.splits elim!: keeps_command bind_res_InrE dest: manageable_keeps)

lemma credential_revoke_keeps:
  assumes "credential_revoke X env cid identity cap rq db = (r, db')"
  shows "keeps_site db db'"
  using assms unfolding credential_revoke_def
  by (elim keeps_read) (auto elim!: keeps_command bind_res_InrE dest: manageable_keeps)

lemma credential_list_keeps: "credential_list env identity cap rq db = (r, db') \<Longrightarrow> keeps_site db db'"
  by (auto simp: credential_list_def split: sum.splits site_err.splits)

lemma credential_endpoint_keeps:
  assumes "credential_endpoint X env route rq db = (r, db')"
  shows "keeps_site db db'"
proof (cases route)
  case Credential_Collection
  then show ?thesis
    using assms dispatch_keeps [of "credential_list env"] dispatch_keeps [of "credential_create X env"]
      credential_list_keeps credential_create_keeps
    by (simp add: credential_endpoint_def split: if_splits)
next
  case (Credential_Rotate i)
  then show ?thesis using assms dispatch_keeps [of "credential_rotate X env i"] credential_rotate_keeps
    by (simp add: credential_endpoint_def)
next
  case (Credential_Revoke i)
  then show ?thesis using assms dispatch_keeps [of "credential_revoke X env i"] credential_revoke_keeps
    by (simp add: credential_endpoint_def)
qed

subsection \<open>Reachable stores\<close>

text \<open>
  One request to a credential route, one device login, one call of the service functions operators
  use, or a change of the accounts and permissions outside this code.
\<close>

inductive site_step :: "externals \<Rightarrow> site_db \<Rightarrow> site_db \<Rightarrow> bool" for X where
  request: "credential_endpoint X env route rq db = (answer, db') \<Longrightarrow> site_step X db db'"
| login: "mint_device_credential X registry draws now i u label db = (r, db') \<Longrightarrow> site_step X db db'"
| authentication: "authenticate X now alternate rq db = (r, db') \<Longrightarrow> site_step X db db'"
| issue: "issue_credential_once X registry draws sv target name scopes expires by db = Inr (a, db') \<Longrightarrow> site_step X db db'"
| rotate: "rotate_credential_once X registry draws sv cid expected overlap expires by db = Inr (a, db') \<Longrightarrow> site_step X db db'"
| revoke: "revoke_credential_once X registry sv cid expected db = Inr (a, db') \<Longrightarrow> site_step X db db'"
| create: "create_principal X now i kind name snapshot user by ps db = Inr (p, db') \<Longrightarrow> site_step X db db'"
| activity: "set_principal_active now i active expected db = Inr (p, db') \<Longrightarrow> site_step X db db'"
| permissions: "replace_principal_permissions now i ps expected db = Inr (p, db') \<Longrightarrow> site_step X db db'"
| accounts: "site_step X db (db\<lparr>users := us, permission_rows := ps\<rparr>)"

definition empty_site :: site_db where
  "empty_site = \<lparr>users = [], permission_rows = [], principals = [], grants = [], credentials = [],
     management_records = [], idempotency_records = [], admissions = [], subjects = [], staff_sessions = [],
     audit_rows = [], content_sources = [], job_intents = []\<rparr>"

lemma site_step_keeps: "site_step X db db' \<Longrightarrow> keeps_site db db'"
  by (induction rule: site_step.induct)
    (auto dest: credential_endpoint_keeps mint_device_credential_keeps authenticate_keeps once_keeps
      create_principal_keeps set_principal_active_keeps replace_principal_permissions_keeps)

lemma site_steps_keep: "(site_step X)\<^sup>*\<^sup>* db db' \<Longrightarrow> keeps_site db db'"
  by (induction rule: rtranclp_induct) (auto dest: site_step_keeps intro: keeps_trans)

lemma empty_site_ok: "site_ok empty_site"
  by (simp add: site_ok_def principals_ok_def credentials_ok_def unique_keys_def empty_site_def)

lemma site_reachable_ok: "(site_step X)\<^sup>*\<^sup>* empty_site db \<Longrightarrow> site_ok db"
  using site_steps_keep empty_site_ok by (auto simp: keeps_site_def)

end
