(* ===== verification/Mg_Security.thy ===== *)
theory Mg_Security
  imports Mg_Reachable
begin

text \<open>
  What the requests that succeed have in common: the authority behind them, and the rows they leave
  alone.
\<close>

subsection \<open>Authentication\<close>

lemma verify_Inr:
  assumes "atomic (verify_with_adaptive_limit X now prefix v) db = (Inr b, db')"
  shows "b = v" and "credentials db' = credentials db" and "principals db' = principals db" and "users db' = users db"
    and "grants db' = grants db" and "management_records db' = management_records db" and "audit_rows db' = audit_rows db"
  using assms
  by (auto simp: atomic_Inr verify_with_adaptive_limit_def serialize_subject_def Let_def split: if_splits)

lemma authenticate_Inr:
  assumes "authenticate X now alt rq db = (Inr identity, db')"
  obtains parsed where "header_token rq = Some parsed"
    and "identity_credential identity \<in> set (credentials db)"
    and "credential_prefix (identity_credential identity) = parsed_prefix parsed"
    and "verify_secret X (parsed_secret parsed) (secret_digest (identity_credential identity))"
    and "identity_principal identity \<in> set (principals db)"
    and "principal_id (identity_principal identity) = credential_principal (identity_credential identity)"
    and "credential_usable now (identity_credential identity) (identity_principal identity) db"
    and "credentials db' = credentials db" and "principals db' = principals db" and "users db' = users db"
    and "grants db' = grants db" and "management_records db' = management_records db" and "audit_rows db' = audit_rows db"
proof -
  from assms obtain parsed where parsed: "header_token rq = Some parsed"
    by (auto simp: authenticate_def split: if_splits option.splits)
  from assms obtain c where found: "List.find (\<lambda>c. credential_prefix c = parsed_prefix parsed) (credentials db) = Some c"
    by (auto simp: authenticate_def parsed split: if_splits option.splits prod.splits sum.splits)
  from assms obtain b where verify: "atomic (verify_with_adaptive_limit X now (parsed_prefix parsed)
      (verify_secret X (parsed_secret parsed) (secret_digest c))) db = (Inr b, db')" and b: "b"
    by (auto simp: authenticate_def parsed found split: if_splits option.splits prod.splits sum.splits)
  note same = verify_Inr [OF verify]
  from assms obtain p where p: "get_principal (credential_principal c) db' = Inr p" and usable: "credential_usable now c p db'"
    and identity: "identity = \<lparr>identity_principal = p, identity_credential = c\<rparr>"
    by (auto simp: authenticate_def parsed found verify split: if_splits option.splits prod.splits sum.splits)
  have "credential_usable now c p db" using usable unfolding credential_usable_def linked_user_disabled_def get_user_def same(4) .
  with that [OF parsed] find_Some [OF found] get_principal_Inr [OF p] b same identity show thesis by simp
qed

text \<open>The view runs for an authenticated caller with the scope, the permission and the policy.\<close>

lemma run_view_Inr:
  assumes "run_view X env key test view rq db = (Inr r, known, db')"
  obtains cap identity d1 d2 d3 where "env_registry env key = Some cap"
    and "authenticate X (env_now env) True rq db = (Inr identity, d1)" and "authorize identity cap d1 = Inr ()"
    and "rq_method rq \<in> set (allowed_methods cap)"
    and "admit_request X (env_now env) cap identity d1 = (Inr (), d2)"
    and "view identity cap rq d2 = (Inr r, d3)" and "known = Some (identity, cap)"
    and "db' = snd (note_credential_used (env_now env) (credential_id (identity_credential identity)) d3)"
proof -
  from assms obtain cap where cap: "env_registry env key = Some cap" "cap_api_test_only cap = test"
    by (auto simp: run_view_def split: option.splits if_splits)
  from assms obtain identity d1 where auth: "authenticate X (env_now env) True rq db = (Inr identity, d1)"
    by (auto simp: run_view_def cap split: prod.splits sum.splits)
  from assms have authorized: "authorize identity cap d1 = Inr ()"
    by (auto simp: run_view_def cap auth Let_def split: sum.splits)
  from assms have allowed: "rq_method rq \<in> set (allowed_methods cap)"
    by (auto simp: run_view_def cap auth Let_def authorized split: if_splits)
  from assms obtain d2 where admitted: "admit_request X (env_now env) cap identity d1 = (Inr (), d2)"
    by (auto simp: run_view_def cap auth Let_def authorized allowed split: prod.splits sum.splits)
  from assms obtain d3 where "view identity cap rq d2 = (Inr r, d3)" "known = Some (identity, cap)"
    "db' = snd (note_credential_used (env_now env) (credential_id (identity_credential identity)) d3)"
    by (auto simp: run_view_def cap auth Let_def authorized allowed admitted split: prod.splits sum.splits)
  then show thesis using that [OF cap(1) auth authorized allowed admitted] by blast
qed


subsection \<open>Refusals\<close>

text \<open>What a refused request leaves as it was.\<close>

definition same_authorities :: "site_db \<Rightarrow> site_db \<Rightarrow> bool" where
  "same_authorities db db' \<longleftrightarrow> credentials db' = credentials db \<and> principals db' = principals db
     \<and> grants db' = grants db \<and> users db' = users db \<and> management_records db' = management_records db"

lemma same_authorities_refl [simp]: "same_authorities db db"
  by (simp add: same_authorities_def)

lemma same_authorities_trans [trans]: "same_authorities a b \<Longrightarrow> same_authorities b c \<Longrightarrow> same_authorities a c"
  by (simp add: same_authorities_def)

lemma admission_tables:
  "verify_with_adaptive_limit X now prefix v db = Inr (b, db') \<Longrightarrow> same_authorities db db'"
  "admit X now cls cost actor invalid db = Inr db' \<Longrightarrow> same_authorities db db'"
  by (auto simp: verify_with_adaptive_limit_def admit_def serialize_subject_def same_authorities_def Let_def
      split: if_splits option.splits)

lemma authenticate_tables: "authenticate X now alt rq db = (r, db') \<Longrightarrow> same_authorities db db'"
proof -
  have "atomic (verify_with_adaptive_limit X now prefix v) db = (a, d) \<Longrightarrow> same_authorities db d" for prefix v a d
    by (auto simp: atomic_def dest: admission_tables split: sum.splits)
  then show "authenticate X now alt rq db = (r, db') \<Longrightarrow> same_authorities db db'"
    by (auto simp: authenticate_def split: if_splits option.splits prod.splits sum.splits)
qed

lemma admit_request_tables: "admit_request X now cap identity db = (r, db') \<Longrightarrow> same_authorities db db'"
  by (auto simp: admit_request_def dest: admission_tables split: sum.splits site_err.splits)

lemma record_audit_event_tables:
  assumes "record_audit_event X action target outcome cx i label changes metadata db = Inr db'"
  shows "same_authorities db db'"
  using assms by (rule record_audit_event_appends) (simp add: same_authorities_def)

lemma run_view_refused:
  assumes view: "\<And>i c q d e d'. view i c q d = (Inl e, d') \<Longrightarrow> same_authorities d d'"
    and run: "run_view X env key test view rq db = (Inl e, known, db')"
  shows "same_authorities db db'"
  using run
  by (auto simp: run_view_def Let_def split: option.splits if_splits prod.splits sum.splits
      dest!: authenticate_tables admit_request_tables view intro: same_authorities_trans)

text \<open>A request either is answered by its view or with an error, and then it changed no authority.\<close>

lemma dispatch_cases:
  assumes run: "dispatch X env key test view rq db = (r, db')"
    and view: "\<And>i c q d e d'. view i c q d = (Inl e, d') \<Longrightarrow> same_authorities d d'"
  obtains (served) known where "run_view X env key test view rq db = (Inr r, known, db')"
  | (refused) e where "r = error_response e" and "same_authorities db db'"
proof -
  obtain a known d where a: "run_view X env key test view rq db = (a, known, d)" using prod_cases3 by blast
  show thesis
  proof (cases a)
    case (Inr x)
    with run a have "x = r" "d = db'" by (simp_all add: dispatch_def)
    with Inr a served show thesis by simp
  next
    case (Inl e)
    have d: "same_authorities db d" by (rule run_view_refused [OF view a [unfolded Inl]])
    have "audit_denied X i c q reason d = Inr d' \<Longrightarrow> same_authorities d d'" for i c q reason d'
      by (simp add: audit_denied_def Let_def record_audit_event_tables)
    with d have "(\<exists>e. r = error_response e) \<and> same_authorities db db'"
      using run by (auto simp: dispatch_def a Inl intro: same_authorities_trans
          split: site_err.splits option.splits prod.splits if_splits sum.splits)
    then show thesis using refused by blast
  qed
qed

lemma refused_read: "bind_kept (x, db) f = (Inl e, db') \<Longrightarrow> (\<And>y. x = Inr y \<Longrightarrow> f y db = (Inl e, db') \<Longrightarrow> same_authorities db db') \<Longrightarrow> same_authorities db db'"
  by (cases x) auto

lemma refused_command:
  "(case atomic run db of (Inl e, d) \<Rightarrow> (Inl (f e), d) | (Inr x, d) \<Rightarrow> (Inr (g x), d)) = (Inl e', db') \<Longrightarrow> same_authorities db db'"
  by (auto simp: atomic_def split: sum.splits prod.splits)

lemma credential_view_refused:
  "credential_list env i c q d = (Inl e, d') \<Longrightarrow> same_authorities d d'"
  "credential_create X env i c q d = (Inl e, d') \<Longrightarrow> same_authorities d d'"
  "credential_rotate X env cid i c q d = (Inl e, d') \<Longrightarrow> same_authorities d d'"
  "credential_revoke X env cid i c q d = (Inl e, d') \<Longrightarrow> same_authorities d d'"
proof -
  show "credential_list env i c q d = (Inl e, d') \<Longrightarrow> same_authorities d d'"
    by (auto simp: credential_list_def split: sum.splits site_err.splits)
  show "credential_create X env i c q d = (Inl e, d') \<Longrightarrow> same_authorities d d'"
    unfolding credential_create_def
    by (elim refused_read) (auto split: pyval.splits dest: refused_command)
  show "credential_rotate X env cid i c q d = (Inl e, d') \<Longrightarrow> same_authorities d d'"
    unfolding credential_rotate_def
    by (elim refused_read) (auto split: pyval.splits dest: refused_command)
  show "credential_revoke X env cid i c q d = (Inl e, d') \<Longrightarrow> same_authorities d d'"
    unfolding credential_revoke_def
    by (elim refused_read) (auto dest: refused_command)
qed

text \<open>The capability a route needs, and its view.\<close>

definition route_key :: "credential_route \<Rightarrow> api_request \<Rightarrow> string" where
  "route_key route rq = (case route of
     Credential_Collection \<Rightarrow> if rq_method rq \<in> {''GET'', ''HEAD''} then ''management.credentials.list'' else ''management.credentials.create''
   | Credential_Rotate i \<Rightarrow> ''management.credentials.rotate''
   | Credential_Revoke i \<Rightarrow> ''management.credentials.revoke'')"

definition route_view :: "externals \<Rightarrow> http_env \<Rightarrow> credential_route \<Rightarrow> api_request
    \<Rightarrow> api_identity \<Rightarrow> capability \<Rightarrow> api_request \<Rightarrow> site_db \<Rightarrow> (site_err, api_response) res \<times> site_db" where
  "route_view X env route rq = (case route of
     Credential_Collection \<Rightarrow> if rq_method rq \<in> {''GET'', ''HEAD''} then credential_list env else credential_create X env
   | Credential_Rotate i \<Rightarrow> credential_rotate X env i
   | Credential_Revoke i \<Rightarrow> credential_revoke X env i)"

lemma credential_endpoint_dispatch:
  "credential_endpoint X env route rq = dispatch X env (route_key route rq) False (route_view X env route rq) rq"
  by (rule ext) (simp add: credential_endpoint_def route_key_def route_view_def split: credential_route.splits)

lemma route_view_refused: "route_view X env route rq i c q d = (Inl e, d') \<Longrightarrow> same_authorities d d'"
  by (auto simp: route_view_def dest: credential_view_refused split: credential_route.splits if_splits)

lemma route_view_keeps: "route_view X env route rq i c q d = (r, d') \<Longrightarrow> keeps_site d d'"
  by (auto simp: route_view_def split: credential_route.splits if_splits
      dest: credential_list_keeps credential_create_keeps credential_rotate_keeps credential_revoke_keeps)

subsection \<open>Whose credentials are written\<close>

definition manageable_owner :: "site_db \<Rightarrow> uuid \<Rightarrow> bool" where
  "manageable_owner db i \<longleftrightarrow> (\<exists>p \<in> set (principals db). principal_id p = i \<and> principal_kind p = Service
     \<and> principal_active p \<and> identity_snapshot p = manageable_snapshot)"

definition confined :: "(uuid \<Rightarrow> bool) \<Rightarrow> site_db \<Rightarrow> site_db \<Rightarrow> bool" where
  "confined P db db' \<longleftrightarrow> (\<forall>c \<in> set (credentials db). \<not> P (credential_principal c) \<longrightarrow> c \<in> set (credentials db'))
     \<and> (\<forall>d \<in> set (credentials db'). credential_id d \<in> credential_id ` set (credentials db) \<or> P (credential_principal d))"

lemma confined_refl [simp]: "confined P db db"
  by (simp add: confined_def)

lemma confined_tables [simp]:
  "confined P (db\<lparr>management_records := r\<rparr>) db' = confined P db db'"
  "confined P db (db'\<lparr>management_records := r\<rparr>) = confined P db db'"
  "confined P db (db'\<lparr>audit_rows := a\<rparr>) = confined P db db'"
  by (simp_all add: confined_def)

lemma one_time_confined:
  assumes leaves: "leaves_records run" and ok: "site_ok db"
    and step: "\<And>rows v mid. run (db\<lparr>management_records := rows\<rparr>) = Inr (v, mid) \<Longrightarrow> confined P db mid"
    and run: "execute_one_time_idempotent X call run db = Inr (a, db')"
  shows "confined P db db'"
proof -
  have unique: "unique_keys db" using ok by (simp add: site_ok_def)
  show ?thesis using run unique leaves by (cases rule: one_time_effect) (simp_all add: step)
qed

lemma issue_once_confined:
  assumes "site_ok db" and "P target" and "issue_credential_once X registry draws sv target name scopes expires_at by db = Inr (a, db')"
  shows "confined P db db'"
  using assms(3) unfolding issue_credential_once_def
proof (elim bind_res_InrE)
  fix n assume "execute_one_time_idempotent X (one_time_call_of sv ''management.credential.create''
           [(''target_principal_id'', PStr (uuid_str target)), (''name'', PStr n),
            (''scopes'', PList (map PStr (sort scopes))), (''expires_at'', expiry_json expires_at)] False)
         (issue_command X registry draws sv target n scopes expires_at by) db = Inr (a, db')"
  then show ?thesis
  proof (rule one_time_confined [OF issue_command_leaves assms(1), rotated])
    fix rows v mid assume "issue_command X registry draws sv target n scopes expires_at by (db\<lparr>management_records := rows\<rparr>) = Inr (v, mid)"
    then show "confined P db mid"
    proof (rule issue_command_Inr)
      fix normalized expires i x d m and issued :: issued_credential and row :: audit_row
      assume row: "issued_row issued = new_credential (sv_now sv) target n normalized expires by None
          \<lparr>credential_id := i, credential_prefix := x, secret_digest := d\<rparr>"
        and ins: "insert_credential (issued_row issued) (db\<lparr>management_records := rows\<rparr>) = Inr m"
        and mid: "mid = m\<lparr>audit_rows := audit_rows m @ [row]\<rparr>"
      have "credentials mid = credentials db @ [issued_row issued]" using insert_credential_Inr(1) [OF ins] by (simp add: mid)
      moreover have "P (credential_principal (issued_row issued))" using assms(2) by (simp add: row)
      ultimately show ?thesis by (simp add: confined_def)
    qed
  qed
qed

lemma rotate_once_confined:
  assumes ok: "site_ok db" and P: "\<And>c. c \<in> set (credentials db) \<Longrightarrow> credential_id c = cid \<Longrightarrow> P (credential_principal c)"
    and run: "rotate_credential_once X registry draws sv cid expected overlap expires_at by db = Inr (a, db')"
  shows "confined P db db'"
  using run unfolding rotate_credential_once_def
proof (elim bind_res_InrE)
  fix v assume v: "validate_overlap overlap = Inr v"
  assume "execute_one_time_idempotent X (one_time_call_of sv ''management.credential.rotate''
           [(''credential_id'', PStr (uuid_str cid)), (''expected_revision'', PInt expected),
            (''overlap_seconds'', PInt (v div 1000000)), (''expires_at'', expiry_json expires_at)] False)
         (rotate_command X registry draws sv cid expected v expires_at by) db = Inr (a, db')"
  then show ?thesis
  proof (rule one_time_confined [OF rotate_command_leaves ok, rotated])
    fix rows r mid
    assume ran: "rotate_command X registry draws sv cid expected v expires_at by (db\<lparr>management_records := rows\<rparr>) = Inr (r, mid)"
    have "rotation_effect (sv_now sv) cid expected v (db\<lparr>management_records := rows\<rparr>) mid"
      by (rule rotate_command_ok(2) [OF _ _ v ran]) (use ok in \<open>simp_all add: site_ok_def\<close>)
    then obtain c d s where c: "c \<in> set (credentials db)" "credential_id c = cid" and s: "succeeds s d"
      and d: "credential_id d = cid" "credential_principal d = credential_principal c"
      and rows: "credentials mid = map (\<lambda>x. if credential_id x = cid then d else x) (credentials db) @ [s]"
      unfolding rotation_effect_def by auto
    have "P (credential_principal s)" using P [OF c] s d by (simp add: succeeds_def)
    have "credential_id d \<in> credential_id ` set (credentials db)" using c d(1) by (metis image_eqI)
    with \<open>P (credential_principal s)\<close> show "confined P db mid"
      using P unfolding confined_def rows by (auto split: if_splits)
  qed
qed

lemma revoke_once_confined:
  assumes ok: "site_ok db" and P: "\<And>c. c \<in> set (credentials db) \<Longrightarrow> credential_id c = cid \<Longrightarrow> P (credential_principal c)"
    and run: "revoke_credential_once X registry sv cid expected db = Inr (a, db')"
  shows "confined P db db'"
  using run unfolding revoke_credential_once_def
proof (rule one_time_confined [OF revoke_command_leaves ok, rotated])
  fix rows v mid assume "revoke_command X registry sv cid expected (db\<lparr>management_records := rows\<rparr>) = Inr (v, mid)"
  then obtain c where ran: "revoke_credential X registry sv cid expected (db\<lparr>management_records := rows\<rparr>) = Inr (c, mid)"
    using revoke_command_Inr by blast
  have oks: "credentials_ok (db\<lparr>management_records := rows\<rparr>)" using ok by (simp add: site_ok_def)
  have other: "x \<in> set (credentials mid)" if "x \<in> set (credentials db)" "credential_id x \<noteq> cid" for x
    using revoke_credential_ok(3) [OF oks ran] that by simp
  have ids: "map credential_id (credentials mid) = map credential_id (credentials db)"
    using revoke_credential_ok(4) [OF oks ran] by simp
  have "credential_id ` set (credentials mid) = credential_id ` set (credentials db)" using ids by (metis set_map)
  then show "confined P db mid" using other P unfolding confined_def by blast
qed

lemma manageable_owners:
  "p \<in> set (manageable_service_principals actor db) \<Longrightarrow> manageable_owner db (principal_id p)"
  "c \<in> set (manageable_credentials actor db) \<Longrightarrow> manageable_owner db (credential_principal c)"
  by (auto simp: manageable_owner_def manageable_service_principals_def manageable_credentials_def split: if_splits)

lemma manageable_confined:
  assumes ok: "site_ok db"
  shows "issue_manageable_credential_once X registry draws sv target name scopes expires_at by db = Inr (a, db')
      \<Longrightarrow> confined (manageable_owner db) db db'"
    and "rotate_manageable_credential_once X registry draws sv cid expected overlap expires_at by db = Inr (a, db')
      \<Longrightarrow> confined (manageable_owner db) db db'"
    and "revoke_manageable_credential_once X registry sv cid expected db = Inr (a, db') \<Longrightarrow> confined (manageable_owner db) db db'"
proof -
  have owner: "manageable_owner db (credential_principal x)"
    if "List.find (\<lambda>c. credential_id c = i) (manageable_credentials actor db) = Some c"
      and "x \<in> set (credentials db)" and "credential_id x = credential_id c" for i actor c x
  proof -
    have c: "c \<in> set (manageable_credentials actor db)" using find_Some [OF that(1)] by simp
    then have "c \<in> set (credentials db)" by (simp add: manageable_credentials_def)
    then have "x = c"
      using distinct_key_eq [OF credentials_okD(1) that(2) _ that(3)] ok by (simp add: site_ok_def)
    then show ?thesis using manageable_owners(2) [OF c] by simp
  qed
  show "issue_manageable_credential_once X registry draws sv target name scopes expires_at by db = Inr (a, db')
      \<Longrightarrow> confined (manageable_owner db) db db'"
    using find_Some manageable_owners(1)
    by (fastforce simp: issue_manageable_credential_once_def split: option.splits intro: issue_once_confined [OF ok])
  show "rotate_manageable_credential_once X registry draws sv cid expected overlap expires_at by db = Inr (a, db')
      \<Longrightarrow> confined (manageable_owner db) db db'"
    by (auto simp: rotate_manageable_credential_once_def split: option.splits intro: owner rotate_once_confined [OF ok])
  show "revoke_manageable_credential_once X registry sv cid expected db = Inr (a, db') \<Longrightarrow> confined (manageable_owner db) db db'"
    by (auto simp: revoke_manageable_credential_once_def split: option.splits intro: owner revoke_once_confined [OF ok])
qed

lemma confined_read:
  "bind_kept (x, db) f = (r, db') \<Longrightarrow> (\<And>y. f y db = (r, db') \<Longrightarrow> confined P db db') \<Longrightarrow> confined P db db'"
  by (cases x) auto

lemma confined_command:
  assumes "(case atomic run db of (Inl e, d) \<Rightarrow> (Inl (f e), d) | (Inr x, d) \<Rightarrow> (Inr (g x), d)) = (r, db')"
    and "\<And>x d. run db = Inr (x, d) \<Longrightarrow> confined P db d"
  shows "confined P db db'"
  using assms by (cases "run db") (auto simp: atomic_def)

lemma route_view_confined:
  assumes ok: "site_ok db" and run: "route_view X env route rq i c q db = (r, db')"
  shows "confined (manageable_owner db) db db'"
proof -
  note steps = manageable_confined [OF ok]
  have "credential_create X env i c q db = (r, db') \<Longrightarrow> confined (manageable_owner db) db db'"
    unfolding credential_create_def
    by (elim confined_read)
      (auto split: pyval.splits option.splits elim!: confined_command bind_res_InrE dest: steps)
  moreover have "credential_rotate X env cid i c q db = (r, db') \<Longrightarrow> confined (manageable_owner db) db db'" for cid
    unfolding credential_rotate_def
    by (elim confined_read) (auto split: pyval.splits elim!: confined_command bind_res_InrE dest: steps)
  moreover have "credential_revoke X env cid i c q db = (r, db') \<Longrightarrow> confined (manageable_owner db) db db'" for cid
    unfolding credential_revoke_def
    by (elim confined_read) (auto elim!: confined_command bind_res_InrE dest: steps)
  moreover have "credential_list env i c q db = (r, db') \<Longrightarrow> db' = db"
    by (auto simp: credential_list_def split: sum.splits site_err.splits)
  ultimately show ?thesis using run by (auto simp: route_view_def split: credential_route.splits if_splits)
qed

subsection \<open>The whole route\<close>

definition manage_capabilities :: "registry \<Rightarrow> bool" where
  "manage_capabilities registry \<longleftrightarrow>
     registry ''management.credentials.list'' = Some credential_list_capability
   \<and> registry ''management.credentials.create'' = Some credential_create_capability
   \<and> registry ''management.credentials.rotate'' = Some credential_rotate_capability
   \<and> registry ''management.credentials.revoke'' = Some credential_revoke_capability"

lemma manage_capability:
  assumes "manage_capabilities registry" and "registry (route_key route rq) = Some cap"
  shows "cap_key cap = route_key route rq" and "cap_permission cap = manage_api_credentials"
    and "cap_function_policy cap = Some management_function_policy"
  using assms
  by (auto simp: manage_capabilities_def route_key_def credential_list_capability_def credential_create_capability_def
      credential_rotate_capability_def credential_revoke_capability_def credential_capability_def
      split: credential_route.splits if_splits)

text \<open>Who an answered request came from.\<close>

definition holds_authority :: "externals \<Rightarrow> datetime \<Rightarrow> string \<Rightarrow> parsed_token \<Rightarrow> credential \<Rightarrow> principal \<Rightarrow> site_db \<Rightarrow> bool" where
  "holds_authority X now key parsed c p db \<longleftrightarrow>
     c \<in> set (credentials db) \<and> credential_prefix c = parsed_prefix parsed
   \<and> verify_secret X (parsed_secret parsed) (secret_digest c)
   \<and> credential_revoked c = None \<and> now < credential_expires c \<and> \<not> rotated_out now c \<and> key \<in> set (credential_scopes c)
   \<and> p \<in> set (principals db) \<and> principal_id p = credential_principal c \<and> principal_active p \<and> principal_kind p = Human
   \<and> principal_has_permission db p manage_api_credentials"

lemma principal_has_permission_cong:
  assumes "grants db' = grants db" and "users db' = users db"
  shows "principal_has_permission db' p permission = principal_has_permission db p permission"
  unfolding principal_has_permission_def get_user_def assms ..

lemma served_authority:
  assumes registry: "manage_capabilities (env_registry env)"
    and run: "run_view X env (route_key route rq) test view rq db = (Inr r, known, db')"
  shows "\<exists>parsed c p. header_token rq = Some parsed \<and> holds_authority X (env_now env) (route_key route rq) parsed c p db"
  using run
proof (rule run_view_Inr)
  fix cap identity d1 d2 d3
  assume cap: "env_registry env (route_key route rq) = Some cap"
    and auth: "authenticate X (env_now env) True rq db = (Inr identity, d1)"
    and authorized: "authorize identity cap d1 = Inr ()"
  note C = manage_capability [OF registry cap]
  show ?thesis
    using auth
  proof (rule authenticate_Inr)
    fix parsed
    assume parsed: "header_token rq = Some parsed"
      and c: "identity_credential identity \<in> set (credentials db)"
        "credential_prefix (identity_credential identity) = parsed_prefix parsed"
        "verify_secret X (parsed_secret parsed) (secret_digest (identity_credential identity))"
      and p: "identity_principal identity \<in> set (principals db)"
        "principal_id (identity_principal identity) = credential_principal (identity_credential identity)"
      and usable: "credential_usable (env_now env) (identity_credential identity) (identity_principal identity) db"
      and same: "users d1 = users db" "grants d1 = grants db"
    from authorized have "cap_key cap \<in> set (credential_scopes (identity_credential identity))"
      and "principal_has_permission d1 (identity_principal identity) (cap_permission cap)"
      and "management_function_policy (identity_principal identity) (identity_credential identity) = Some True"
      using C(3) by (auto simp: authorize_def split: if_splits)
    then have "holds_authority X (env_now env) (route_key route rq) parsed (identity_credential identity) (identity_principal identity) db"
      using c p usable principal_has_permission_cong [OF same(2,1)]
      by (simp add: holds_authority_def credential_usable_def C management_function_policy_def)
    with parsed show ?thesis by blast
  qed
qed

text \<open>The use of the caller's credential is the only other write to the credentials.\<close>

lemma note_credential_used_rows:
  "credentials (snd (note_credential_used now cid db)) = map (\<lambda>c. if credential_id c = cid \<and> credential_revoked c = None
      \<and> (case last_used c of None \<Rightarrow> True | Some t \<Rightarrow> t \<le> now - last_used_write_interval)
    then c\<lparr>last_used := Some now\<rparr> else c) (credentials db)"
  by (simp add: note_credential_used_def Let_def update_where_def)

lemma endpoint_confined:
  assumes ok: "site_ok db" and run: "credential_endpoint X env route rq db = (r, db')"
  shows "(\<forall>c \<in> set (credentials db). \<not> manageable_owner db (credential_principal c) \<longrightarrow> (\<exists>t. c\<lparr>last_used := t\<rparr> \<in> set (credentials db')))
    \<and> (\<forall>d \<in> set (credentials db'). credential_id d \<in> credential_id ` set (credentials db) \<or> manageable_owner db (credential_principal d))"
  using run route_view_refused unfolding credential_endpoint_dispatch
proof (rule dispatch_cases)
  fix e assume "same_authorities db db'"
  then have "credentials db' = credentials db" by (simp add: same_authorities_def)
  moreover have "\<exists>t. c\<lparr>last_used := t\<rparr> \<in> set (credentials db)" if "c \<in> set (credentials db)" for c
    using that by (intro exI [of _ "last_used c"]) simp
  ultimately show ?thesis by simp
next
  fix known assume "run_view X env (route_key route rq) False (route_view X env route rq) rq db = (Inr r, known, db')"
  then show ?thesis
  proof (rule run_view_Inr)
    fix cap identity d1 d2 d3
    assume auth: "authenticate X (env_now env) True rq db = (Inr identity, d1)"
      and admitted: "admit_request X (env_now env) cap identity d1 = (Inr (), d2)"
      and view: "route_view X env route rq identity cap rq d2 = (Inr r, d3)"
      and db': "db' = snd (note_credential_used (env_now env) (credential_id (identity_credential identity)) d3)"
    have same: "same_authorities db d2"
      using authenticate_tables [OF auth] admit_request_tables [OF admitted] by (rule same_authorities_trans)
    have "site_ok d2"
      using authenticate_keeps [OF auth] admit_request_keeps [OF admitted] ok by (simp add: keeps_site_def)
    then have "confined (manageable_owner d2) d2 d3" by (rule route_view_confined [OF _ view])
    then have "confined (manageable_owner db) db d3"
      using same by (simp add: confined_def manageable_owner_def same_authorities_def)
    moreover have "\<exists>t. c\<lparr>last_used := t\<rparr> \<in> set (credentials db')" if "c \<in> set (credentials d3)" for c
      using that unfolding db' note_credential_used_rows set_map
      by (intro exI [of _ "last_used (if credential_id c = credential_id (identity_credential identity) \<and> credential_revoked c = None
          \<and> (case last_used c of None \<Rightarrow> True | Some t \<Rightarrow> t \<le> env_now env - last_used_write_interval)
        then c\<lparr>last_used := Some (env_now env)\<rparr> else c)"] image_eqI [of _ _ c]) auto
    moreover have "\<exists>x \<in> set (credentials d3). credential_id d = credential_id x \<and> credential_principal d = credential_principal x"
      if "d \<in> set (credentials db')" for d
    proof -
      from that obtain x where "x \<in> set (credentials d3)" and "d = x \<or> d = x\<lparr>last_used := Some (env_now env)\<rparr>"
        unfolding db' note_credential_used_rows set_map by (auto split: if_splits)
      then show ?thesis by (intro bexI [of _ x]) auto
    qed
    ultimately show ?thesis unfolding confined_def by metis
  qed
qed

text \<open>Reads do not see the idempotency records.\<close>

lemma records_unread [simp]:
  "get_principal i (db\<lparr>management_records := rows\<rparr>) = get_principal i db"
  "get_credential i (db\<lparr>management_records := rows\<rparr>) = get_credential i db"
  "get_user u (db\<lparr>management_records := rows\<rparr>) = get_user u db"
  by (simp_all add: get_principal_def get_credential_def get_user_def)

lemma authority_unread [simp]:
  "reload_linked_user p (db\<lparr>management_records := rows\<rparr>) = reload_linked_user p db"
  "principal_has_permission (db\<lparr>management_records := rows\<rparr>) p permission = principal_has_permission db p permission"
  "actor_authority registry sv (db\<lparr>management_records := rows\<rparr>) = actor_authority registry sv db"
  "normalize_scopes registry (db\<lparr>management_records := rows\<rparr>) p scopes = normalize_scopes registry db p scopes"
proof -
  have grants: "grants (db\<lparr>management_records := rows\<rparr>) = grants db" by simp
  show "reload_linked_user p (db\<lparr>management_records := rows\<rparr>) = reload_linked_user p db" for p
    unfolding reload_linked_user_def records_unread ..
  note r = this
  show "principal_has_permission (db\<lparr>management_records := rows\<rparr>) p permission = principal_has_permission db p permission"
    for p permission
    unfolding principal_has_permission_def records_unread grants ..
  note h = this
  show "actor_authority registry sv (db\<lparr>management_records := rows\<rparr>) = actor_authority registry sv db"
    unfolding actor_authority_def lock_actor_authority_def records_unread r h ..
  show "normalize_scopes registry (db\<lparr>management_records := rows\<rparr>) p scopes = normalize_scopes registry db p scopes"
    unfolding normalize_scopes_def check_scope_def h ..
qed

end
