(* ===== verification/Mg_Samples.thy ===== *)
theory Mg_Samples
  imports Mg_Security
begin

text \<open>
  A small site on which the operations of the management API are evaluated: one administrator with a
  credential for credential management, one automation account with one credential, one approver.
\<close>

definition sample_digits :: "int list list \<Rightarrow> string" where
  "sample_digits parts = (let n = sum_list (concat parts)
     in replicate 62 (CHR ''0'') @ [''0123456789abcdef'' ! nat (n div 16 mod 16), ''0123456789abcdef'' ! nat (n mod 16)])"

definition sample_json :: "pyval \<Rightarrow> int list" where
  "sample_json v = concat (map (\<lambda>kv. utf8 (fst kv) @ (case snd kv of PStr s \<Rightarrow> utf8 s | PInt i \<Rightarrow> [i] | _ \<Rightarrow> [])) (case v of PDict d \<Rightarrow> d | _ \<Rightarrow> []))"

definition sample_X :: externals where
  "sample_X = \<lparr>fenced_hash = (\<lambda>label parts. sample_digits parts), json_bytes = (\<lambda>v. Inr (sample_json v)),
     canonical_object = Inr, canonical_json = Inr, validate_identifier = Inr, core_key_bytes = 512,
     redact_value = (\<lambda>v. v), redact_text = (\<lambda>s. s), sensitive = (\<lambda>s. False), valid_actor_ref = (\<lambda>s. True),
     hash_secret = (\<lambda>salt secret. digest_algorithm_name @ ''$'' @ secret),
     check_secret = (\<lambda>secret encoded. Some (encoded = digest_algorithm_name @ ''$'' @ secret)),
     sha256 = (\<lambda>bs. sample_digits [bs]), hmac_sha256 = (\<lambda>k bs. sample_digits [k, bs])\<rparr>"

definition sample_token :: "int \<Rightarrow> generated_token" where
  "sample_token k = (case generate_token (replicate 12 k) (replicate 32 k) of Inr g \<Rightarrow> g
     | Inl e \<Rightarrow> \<lparr>token_raw = [], token_prefix = [], token_secret = []\<rparr>)"

definition sample_draws :: draws where
  "sample_draws = \<lparr>dr_id = (\<lambda>k. 100 + k), dr_token = (\<lambda>k. Inr (sample_token (int k))), dr_salt = (\<lambda>k. k)\<rparr>"

definition sample_launch :: "string \<Rightarrow> string \<Rightarrow> capability" where
  "sample_launch suffix permission =
     credential_list_capability\<lparr>cap_key := ''courses.launch.'' @ suffix, cap_permission := permission,
       cap_function_policy := None\<rparr>"

definition sample_registry :: registry where
  "sample_registry = map_of (map (\<lambda>c. (cap_key c, c))
     [credential_list_capability, credential_create_capability, credential_rotate_capability,
      credential_revoke_capability, sample_launch ''read'' ''courses.read_course_launch'',
      sample_launch ''write'' ''courses.manage_course_launch'', sample_launch ''send'' ''courses.send_course_launch''])"

definition sample_user :: "int \<Rightarrow> (string \<times> string) list \<Rightarrow> user" where
  "sample_user i permissions = \<lparr>user_id = i, user_active = True, user_staff = True, user_email = ''a@b.c'',
     user_full_name = ''A B'', identity_row = None, user_permissions = permissions, user_groups = []\<rparr>"

definition sample_principal :: "uuid \<Rightarrow> principal_kind \<Rightarrow> string \<Rightarrow> int option \<Rightarrow> principal" where
  "sample_principal i kind snapshot user = \<lparr>principal_id = i, principal_kind = kind, principal_name = ''P'',
     identity_snapshot = snapshot, principal_active = True, principal_user = user, principal_creator = None,
     principal_created = 0, principal_updated = 0, principal_revision = 1\<rparr>"

definition sample_credential :: "uuid \<Rightarrow> uuid \<Rightarrow> string list \<Rightarrow> credential" where
  "sample_credential i p scopes = new_credential 0 p ''C'' scopes (days 30) None None
     \<lparr>credential_id := i, credential_prefix := token_prefix (sample_token (int i)),
      secret_digest := encode_secret sample_X 0 (token_secret (sample_token (int i)))\<rparr>"

definition manage_permission :: "string \<times> string" where
  "manage_permission = (''management_auth'', ''manage_api_credentials'')"

definition launch_permissions :: "(string \<times> string) list" where
  "launch_permissions = [(''courses'', ''read_course_launch''), (''courses'', ''manage_course_launch'')]"

definition sample_site :: site_db where
  "sample_site = empty_site\<lparr>users := [sample_user 1 [manage_permission], sample_user 2 launch_permissions],
     permission_rows := manage_permission # launch_permissions,
     principals := [sample_principal 10 Human ''staff'' (Some 1), sample_principal 11 Service manageable_snapshot None],
     grants := [(10, manage_permission), (11, (''courses'', ''read_course_launch''))],
     credentials := [sample_credential 20 10 [''management.credentials.create'',
         ''management.credentials.list'', ''management.credentials.revoke'', ''management.credentials.rotate''],
       sample_credential 21 11 [''courses.launch.read'']]\<rparr>"

definition sample_request :: "string \<Rightarrow> api_request" where
  "sample_request verb = \<lparr>rq_method = verb, rq_get = [], rq_cookies = [], rq_content_type = ''application/json'',
     rq_content_params = [], rq_content_length = [], rq_body = Some [],
     rq_authorization = ''Bearer '' @ token_raw (sample_token 20), rq_if_match = Some (''\"rev-1\"''),
     rq_idempotency_key = ''key-1''\<rparr>"

definition sample_env :: "payload \<Rightarrow> http_env" where
  "sample_env body = \<lparr>env_now = seconds 60, env_registry = sample_registry, env_draws = sample_draws, env_record = 200,
     env_again = 201, env_owner = 202, env_loads = (\<lambda>bs. Some (PDict body)), env_collate = (\<lambda>s. int (length s)), env_parse_uuid = (\<lambda>s. Some 11),
     env_parse_iso = (\<lambda>s. Iso_Error)\<rparr>"

definition sample_call :: "string \<Rightarrow> service_call" where
  "sample_call key = \<lparr>sv_now = seconds 60, sv_record = 200, sv_again = 201, sv_owner = 202,
     sv_actor = sample_principal 10 Human ''staff'' (Some 1), sv_permission = manage_api_credentials,
     sv_credential = None, sv_capability = None, sv_key = key\<rparr>"

lemma sample_digits_ok [simp]: "sha256_ok (sample_digits parts)"
proof -
  have "hex_lower (''0123456789abcdef'' ! n)" if "n < 16" for n
    using that by (auto simp: numeral_eq_Suc less_Suc_eq hex_lower_def ascii_digit_def Let_def)
  moreover have "nat (m mod 16) < 16" for m :: int by (simp add: nat_less_iff)
  moreover have "hex_lower (CHR ''0'')" by (simp add: hex_lower_def ascii_digit_def Let_def)
  ultimately show ?thesis by (simp add: sha256_ok_def sample_digits_def Let_def list_all_iff)
qed

lemma sample_X_simps [simp]:
  "fenced_hash sample_X label parts = sample_digits parts" "json_bytes sample_X v = Inr (sample_json v)"
  "canonical_object sample_X = Inr" "canonical_json sample_X = Inr" "redact_value sample_X v = v"
  "redact_text sample_X s = s" "sensitive sample_X s = False" "valid_actor_ref sample_X s = True"
  "hash_secret sample_X salt secret = digest_algorithm_name @ ''$'' @ secret"
  "check_secret sample_X secret encoded = Some (encoded = digest_algorithm_name @ ''$'' @ secret)"
  by (simp_all add: sample_X_def)

lemma sample_tokens [simp]:
  "sample_token 0 = \<lparr>token_raw = ''dtca_v1_AAAAAAAAAAAAAAAA_AAAAAAAAAAAAAAAAAAAAAAAAAAAAAAAAAAAAAAAAAAA'',
     token_prefix = ''AAAAAAAAAAAAAAAA'', token_secret = ''AAAAAAAAAAAAAAAAAAAAAAAAAAAAAAAAAAAAAAAAAAA''\<rparr>"
  "sample_token 20 = \<lparr>token_raw = ''dtca_v1_FBQUFBQUFBQUFBQU_FBQUFBQUFBQUFBQUFBQUFBQUFBQUFBQUFBQUFBQUFBQ'',
     token_prefix = ''FBQUFBQUFBQUFBQU'', token_secret = ''FBQUFBQUFBQUFBQUFBQUFBQUFBQUFBQUFBQUFBQUFBQ''\<rparr>"
  "sample_token 21 = \<lparr>token_raw = ''dtca_v1_FRUVFRUVFRUVFRUV_FRUVFRUVFRUVFRUVFRUVFRUVFRUVFRUVFRUVFRUVFRU'',
     token_prefix = ''FRUVFRUVFRUVFRUV'', token_secret = ''FRUVFRUVFRUVFRUVFRUVFRUVFRUVFRUVFRUVFRUVFRU''\<rparr>"
  by code_simp+

lemma sample_draws_simps [simp]:
  "dr_id sample_draws k = 100 + k" "dr_token sample_draws k = Inr (sample_token (int k))" "dr_salt sample_draws k = k"
  by (simp_all add: sample_draws_def)

lemmas sample_store = sample_site_def sample_principal_def sample_credential_def sample_user_def empty_site_def
  sample_call_def new_credential_def manage_permission_def launch_permissions_def

lemma split_manage [simp]: "split_permission manage_api_credentials = Some (''management_auth'', ''manage_api_credentials'')"
  by (simp add: split_permission_def manage_api_credentials_def)

lemma split_read [simp]: "split_permission ''courses.read_course_launch'' = Some (''courses'', ''read_course_launch'')"
  by (simp add: split_permission_def)

lemmas credential_capabilities = credential_list_capability_def credential_create_capability_def
  credential_rotate_capability_def credential_revoke_capability_def credential_capability_def

lemma sample_registry_read [simp]:
  "sample_registry ''courses.launch.read'' = Some (sample_launch ''read'' ''courses.read_course_launch'')"
  by (simp add: sample_registry_def sample_launch_def credential_capabilities)

lemma sample_launch_permission [simp]: "cap_permission (sample_launch suffix p) = p"
  by (simp add: sample_launch_def)

lemma sample_actor [simp]:
  "actor_authority sample_registry (sample_call k) sample_site = Inr (sample_principal 10 Human ''staff'' (Some 1))"
  by (simp add: actor_authority_def lock_actor_authority_def sample_store get_principal_def reload_linked_user_def
      get_user_def principal_has_permission_def identity_state_eligible_def identity_state_of_def has_explicit_permission_def)

lemma sample_rows [simp]:
  "get_principal 11 sample_site = Inr (sample_principal 11 Service manageable_snapshot None)"
  "get_credential 21 sample_site = Inr (sample_credential 21 11 [''courses.launch.read''])"
  by (simp_all add: get_principal_def get_credential_def sample_store)

lemma sample_scopes [simp]:
  "normalize_scopes sample_registry sample_site (sample_principal 11 Service manageable_snapshot None)
     [''courses.launch.read''] = Inr [''courses.launch.read'']"
  by (simp add: normalize_scopes_def check_scope_def principal_has_permission_def sample_store)

lemma sample_expiry [simp]: "validate_expiry t None = Inr (t + days 30)"
  by (simp add: validate_expiry_def credential_constants days_def seconds_def)

lemma sample_audit:
  assumes "identifier_ok action" and "is_ascii operation"
  shows "\<exists>row. audit_credential sample_X now actor c action operation ''k'' changes extra db
    = Inr (db\<lparr>audit_rows := audit_rows db @ [row]\<rparr>)"
  using assms
  apply (simp add: audit_credential_def management_audit_context_def hash_management_idempotency_key_def encode_ascii_def
      record_audit_event_def validated_def redacted_json_object_def identifier_ok_def lower_letter_def ascii_digit_def
      max_idempotency_key_bytes_def utf8_def utf8_char_def)
  apply (rule exI) apply (rule refl)
  done

lemma sample_new_credential:
  obtains issued mid where "insert_generated_credential sample_X sample_draws
      (new_credential (seconds 60) 11 name scopes (seconds 60 + days 30) by pred) sample_site = Inr (issued, mid)"
proof -
  have "\<exists>issued mid. insert_attempts sample_X sample_draws
      (new_credential (seconds 60) 11 name scopes (seconds 60 + days 30) by pred) prefix_collision_retries 0 sample_site = Inr (issued, mid)"
    by (rule insert_attempts_total [where j = 0]) (auto simp: sample_store token_constants days_def seconds_def)
  then show thesis using that by (auto simp: insert_generated_credential_def)
qed

lemma sample_header [simp]:
  "header_token (sample_request verb) = Some \<lparr>parsed_prefix = token_prefix (sample_token 20), parsed_secret = token_secret (sample_token 20)\<rparr>"
proof -
  have "header_token (sample_request verb) = header_token (sample_request [])"
    by (simp add: header_token_def sample_request_def)
  also have "\<dots> = Some \<lparr>parsed_prefix = token_prefix (sample_token 20), parsed_secret = token_secret (sample_token 20)\<rparr>"
    by code_simp
  finally show ?thesis .
qed

lemma sample_site_ok: "site_ok sample_site"
proof -
  have scopes: "sorted [''management.credentials.create'', ''management.credentials.list'', ''management.credentials.revoke'',
      ''management.credentials.rotate'']"
    by code_simp
  have "credential_ok c \<and> credential_principal c \<in> {10, 11} \<and> predecessor c = None" if "c \<in> set (credentials sample_site)" for c
    using that scopes by (auto simp: credential_ok_def sample_store credential_constants days_def seconds_def)
  moreover have "distinct (map credential_id (credentials sample_site))" "distinct (map credential_prefix (credentials sample_site))"
    by (simp_all add: sample_store)
  moreover have "principal_id ` set (principals sample_site) = {10, 11}" by (auto simp: sample_store)
  ultimately have "credentials_ok sample_site" unfolding credentials_ok_def by auto
  then show ?thesis by (simp add: site_ok_def principals_ok_def unique_keys_def) (simp add: sample_store)
qed

lemma sample_authenticates:
  "\<exists>db. authenticate sample_X (seconds 60) True (sample_request verb) (sample_site\<lparr>credentials := sample_credential 20 10 s # cs\<rparr>)
     = (Inr \<lparr>identity_principal = sample_principal 10 Human ''staff'' (Some 1), identity_credential = sample_credential 20 10 s\<rparr>, db)"
proof -
  have "alternate_source (sample_request verb) = False" by (simp add: alternate_source_def sample_request_def)
  then show ?thesis
    by (simp add: authenticate_def atomic_def verify_with_adaptive_limit_def serialize_subject_def recent_def total_cost_def
      Let_def rate_constants verify_secret_def encode_secret_def get_principal_def credential_usable_def rotated_out_def
      linked_user_disabled_def get_user_def identity_state_eligible_def identity_state_of_def sample_store token_constants
      days_def seconds_def)
qed

lemma sample_principal_simps [simp]:
  "principal_id (sample_principal i k snapshot u) = i" "principal_kind (sample_principal i k snapshot u) = k"
  "principal_active (sample_principal i k snapshot u)" "principal_user (sample_principal i k snapshot u) = u"
  "identity_snapshot (sample_principal i k snapshot u) = snapshot"
  by (simp_all add: sample_principal_def)

lemma sample_call_simps [simp]:
  "sv_now (sample_call k) = seconds 60" "sv_key (sample_call k) = k" "principal_id (sv_actor (sample_call k)) = 10"
  "sv_record (sample_call k) = 200" "sv_owner (sample_call k) = 202"
  by (simp_all add: sample_call_def)

lemma sample_insert:
  assumes "pred = None \<or> pred = Some 21"
  obtains issued mid where "insert_generated_credential sample_X sample_draws
      (new_credential (seconds 60) 11 name scopes (seconds 60 + days 30) by pred) (sample_site\<lparr>management_records := rows\<rparr>) = Inr (issued, mid)"
proof -
  have "\<exists>issued mid. insert_attempts sample_X sample_draws
      (new_credential (seconds 60) 11 name scopes (seconds 60 + days 30) by pred) prefix_collision_retries 0
      (sample_site\<lparr>management_records := rows\<rparr>) = Inr (issued, mid)"
    by (rule insert_attempts_total [where j = 0]) (auto simp: sample_store token_constants days_def seconds_def)
  then show thesis using that by (auto simp: insert_generated_credential_def)
qed

lemma sample_issue_command:
  "\<exists>v db. issue_command sample_X sample_registry sample_draws (sample_call ''k'') 11 name [''courses.launch.read''] None by
     (sample_site\<lparr>management_records := rows\<rparr>) = Inr (v, db)"
proof -
  obtain issued mid where ins: "insert_generated_credential sample_X sample_draws
      (new_credential (seconds 60) 11 name [''courses.launch.read''] (seconds 60 + days 30) by None)
      (sample_site\<lparr>management_records := rows\<rparr>) = Inr (issued, mid)"
    by (rule sample_insert [of None]) simp_all
  have mid: "principals mid = principals sample_site" and owner: "credential_principal (issued_row issued) = 11"
    by (rule insert_generated_credential_Inr [OF ins], use insert_credential_Inr(1) in fastforce)+
  have names: "identifier_ok ''management.credential.created''" "is_ascii ''management.credential.create''"
    by (simp_all add: identifier_ok_def lower_letter_def ascii_digit_def is_ascii_def Let_def)
  obtain row where "audit_credential sample_X (seconds 60) (sample_principal 10 Human ''staff'' (Some 1)) (issued_row issued)
      ''management.credential.created'' ''management.credential.create'' ''k'' [(''created'', PBool True)] [] mid
    = Inr (mid\<lparr>audit_rows := audit_rows mid @ [row]\<rparr>)"
    using sample_audit [OF names] by blast
  moreover have "get_principal 11 (mid\<lparr>audit_rows := a\<rparr>) = get_principal 11 sample_site" for a
    by (simp add: get_principal_def mid)
  ultimately show ?thesis
    using ins by (simp add: issue_command_def issued_response_def owner Let_def reload_linked_user_def)
qed

lemma sample_rotate_command:
  "\<exists>v db. rotate_command sample_X sample_registry sample_draws (sample_call ''k'') 21 1 0 None by
     (sample_site\<lparr>management_records := rows\<rparr>) = Inr (v, db)"
proof -
  let ?c = "sample_credential 21 11 [''courses.launch.read'']"
  let ?self = "?c\<lparr>credential_rotated := Some (seconds 60), overlap_expires := Some (seconds 60),
    credential_revision := credential_revision ?c + 1\<rparr>"
  have c: "credential_principal ?c = 11" "credential_revision ?c = 1" "credential_revoked ?c = None"
    "credential_rotated ?c = None" "credential_scopes ?c = [''courses.launch.read'']" "credential_id ?c = 21"
    by (simp_all add: sample_credential_def)
  obtain issued mid where ins: "insert_generated_credential sample_X sample_draws
      (new_credential (seconds 60) 11 (credential_name ?c) [''courses.launch.read''] (seconds 60 + days 30) by (Some 21))
      (sample_site\<lparr>management_records := rows\<rparr>) = Inr (issued, mid)"
    by (rule sample_insert [of "Some 21"]) simp_all
  have mid: "principals mid = principals sample_site" "credentials mid = credentials sample_site @ [issued_row issued]"
    and owner: "credential_principal (issued_row issued) = 11" "credential_id (issued_row issued) \<noteq> 21"
    by (rule insert_generated_credential_Inr [OF ins], use insert_credential_Inr(1,2) in
      \<open>fastforce simp: sample_site_def sample_credential_def\<close>)+
  have "\<exists>rows. save_revisioned credential_id credential_revision (rotation_columns (seconds 60)) ?self (credentials mid) = Inr rows"
    using owner(2) by (simp add: save_revisioned_def mid count_where_def sample_site_def sample_credential_def)
  moreover have "List.find (\<lambda>r. credential_id r = 21) (credentials mid) = Some ?c"
    by (simp add: mid sample_site_def sample_credential_def)
  ultimately obtain saved where save: "save_credential (rotation_columns (seconds 60)) ?self mid = Inr saved"
    and saved: "principals saved = principals mid"
    by (auto simp: save_credential_def same_authority_def c)
  have names: "identifier_ok ''management.credential.rotated''" "is_ascii ''management.credential.rotate''"
    by (simp_all add: identifier_ok_def lower_letter_def ascii_digit_def is_ascii_def Let_def)
  obtain row where "audit_credential sample_X (seconds 60) (sample_principal 10 Human ''staff'' (Some 1)) (issued_row issued)
      ''management.credential.rotated'' ''management.credential.rotate'' ''k''
      [(''predecessor_id'', PStr (uuid_str 21)), (''overlap_seconds'', PInt (0 div 1000000))] [] saved
    = Inr (saved\<lparr>audit_rows := audit_rows saved @ [row]\<rparr>)"
    using sample_audit [OF names] by blast
  moreover have "get_principal 11 (saved\<lparr>audit_rows := a\<rparr>) = get_principal 11 sample_site" for a
    by (simp add: get_principal_def mid saved)
  ultimately show ?thesis
    using ins save by (simp add: rotate_command_def issued_response_def owner Let_def reload_linked_user_def c)
qed

text \<open>The first call with a key succeeds when its command does.\<close>

lemma one_time_succeeds:
  assumes "hash_management_idempotency_key X (ot_principal call) (ot_operation call) (ot_key call) = Inr k"
    and "hash_request X (ot_principal call) (ot_operation call) (ot_request call) = Inr h"
    and "ot_operation call \<noteq> []" "length (ot_operation call) \<le> 128" "is_ascii (ot_operation call)"
    and "management_records db = []" and "leaves_records run"
    and "run (db\<lparr>management_records := [pending_command call k h]\<rparr>) = Inr (v, mid)"
    and "canonical_object X (safe_result v) = Inr s" and "canonical_object X (response v) = Inr r"
  shows "\<exists>db'. execute_one_time_idempotent X call run db = Inr (\<lparr>response = r, safe_result = s\<rparr>, db')"
proof -
  have "management_records mid = [pending_command call k h]" using assms(7,8) by (fastforce simp: leaves_records_def)
  then show ?thesis
    using assms by (simp add: execute_one_time_idempotent_def claim_record_def get_or_create_record_def count_where_def Let_def)
qed

lemma sample_key_hash:
  "is_ascii operation \<Longrightarrow> hash_management_idempotency_key sample_X p operation ''k''
     = Inr (sample_digits [uuid_bytes p, map of_char operation, utf8 ''k''])"
  by (simp add: hash_management_idempotency_key_def encode_ascii_def max_idempotency_key_bytes_def utf8_def utf8_char_def)

lemma sample_once:
  assumes op: "operation \<noteq> []" "length operation \<le> 128" "is_ascii operation" and leaves: "leaves_records run"
    and runs: "\<And>rows. \<exists>v db. run (sample_site\<lparr>management_records := rows\<rparr>) = Inr (v, db)"
  shows "\<exists>a db. execute_one_time_idempotent sample_X (one_time_call_of (sample_call ''k'') operation request safe) run sample_site
    = Inr (a, db)"
proof -
  define call where "call = one_time_call_of (sample_call ''k'') operation request safe"
  have call: "ot_principal call = 10" "ot_operation call = operation" "ot_key call = ''k''"
    by (simp_all add: call_def one_time_call_of_def)
  define k where "k = sample_digits [uuid_bytes 10, map of_char operation, utf8 ''k'']"
  obtain h where h: "hash_request sample_X 10 operation (ot_request call) = Inr h"
    using op by (simp add: hash_request_def encode_ascii_def)
  obtain v mid where ran: "run (sample_site\<lparr>management_records := [pending_command call k h]\<rparr>) = Inr (v, mid)"
    using runs by blast
  have "management_records sample_site = []" by (simp add: sample_site_def empty_site_def)
  with op h have "\<exists>db'. execute_one_time_idempotent sample_X call run sample_site
      = Inr (\<lparr>response = response v, safe_result = safe_result v\<rparr>, db')"
    by (intro one_time_succeeds [OF _ _ _ _ _ _ leaves ran]) (simp_all add: call sample_key_hash k_def)
  then show ?thesis unfolding call_def by blast
qed

lemma sample_issue_once:
  "\<exists>a db. issue_credential_once sample_X sample_registry sample_draws (sample_call ''k'') 11 ''N'' [''courses.launch.read'']
     None None sample_site = Inr (a, db)"
proof -
  have "safe_name sample_X ''N'' = Inr ''N''" by (simp add: safe_name_def safe_text_def py_strip_def py_space_def Let_def)
  moreover have "is_ascii ''management.credential.create''" by (simp add: is_ascii_def)
  ultimately show ?thesis
    using sample_once [OF _ _ _ issue_command_leaves sample_issue_command] by (simp add: issue_credential_once_def)
qed

lemma sample_rotate_once:
  "\<exists>a db. rotate_credential_once sample_X sample_registry sample_draws (sample_call ''k'') 21 1 0 None None sample_site = Inr (a, db)"
proof -
  have "validate_overlap 0 = Inr 0" by (simp add: validate_overlap_def credential_constants seconds_def)
  moreover have "is_ascii ''management.credential.rotate''" by (simp add: is_ascii_def)
  ultimately show ?thesis
    using sample_once [OF _ _ _ rotate_command_leaves sample_rotate_command] by (simp add: rotate_credential_once_def)
qed

lemma sample_audit_unkeyed:
  assumes "identifier_ok action"
  shows "\<exists>row. audit_credential sample_X now actor c action operation [] changes extra db
    = Inr (db\<lparr>audit_rows := audit_rows db @ [row]\<rparr>)"
  using assms
  apply (simp add: audit_credential_def management_audit_context_def record_audit_event_def validated_def
      redacted_json_object_def identifier_ok_def lower_letter_def ascii_digit_def)
  apply (rule exI) apply (rule refl)
  done

lemma sample_login:
  "\<exists>answer db. mint_device_credential sample_X sample_registry sample_draws (seconds 60) 30
     (sample_user 2 launch_permissions) ''laptop'' sample_site = (Inr answer, db)"
proof -
  let ?u = "sample_user 2 launch_permissions" and ?p = "sample_principal 30 Human ''device-login:2'' (Some 2)"
  obtain p d1 where p: "principal_for sample_X (seconds 60) 30 ?u sample_site = Inr (p, d1)"
    and d1: "d1 = set_permissions 30 [] (sample_site\<lparr>principals := principals sample_site @ [p]\<rparr>)"
      "principal_id p = 30" "principal_kind p = Human" "principal_user p = Some 2"
    by (simp add: principal_for_def create_principal_def principal_kind_of_def insert_principal_def sample_store
       py_str_int_def nat_digits.simps py_strip_def py_space_def safe_name_def safe_snapshot_def safe_text_def Let_def
       set_permissions_def)
  obtain entitled d2 where m: "mirror_grants sample_registry ?u 30 launch_scopes d1 = (Inr entitled, d2)"
    and d2: "entitled = [''courses.launch.read'', ''courses.launch.write'']" "users d2 = users sample_site"
      "(30, (''courses'', ''read_course_launch'')) \<in> set (grants d2)" "(30, (''courses'', ''manage_course_launch'')) \<in> set (grants d2)"
      "credentials d2 = credentials sample_site"
    by (simp add: launch_scopes_def d1 sample_registry_def sample_launch_def credential_capabilities split_permission_def
      has_explicit_permission_def sample_store set_permissions_def)
  have "principal_has_permission d2 p ''courses.read_course_launch''" "principal_has_permission d2 p ''courses.manage_course_launch''"
    using d1(2-4) d2(3,4) by (simp_all add: principal_has_permission_def get_user_def d2(2) split_permission_def)
      (simp_all add: sample_store identity_state_eligible_def identity_state_of_def has_explicit_permission_def split_permission_def)
  moreover have "sample_registry ''courses.launch.write'' = Some (sample_launch ''write'' ''courses.manage_course_launch'')"
    by (simp add: sample_registry_def sample_launch_def credential_capabilities)
  ultimately obtain scopes where scopes: "normalize_scopes sample_registry d2 p entitled = Inr scopes"
    by (auto simp: normalize_scopes_def check_scope_def d2(1) Let_def)
  define row where "row = new_credential (seconds 60) 30 (device_credential_name sample_X ''laptop'') scopes
      (seconds 60 + default_credential_lifetime) (Some 2) None"
  let ?c = "row\<lparr>credential_id := 100, credential_prefix := token_prefix (sample_token 0),
      secret_digest := encode_secret sample_X 0 (token_secret (sample_token 0))\<rparr>"
  have ins: "insert_credential ?c d2 = Inr (d2\<lparr>credentials := credentials d2 @ [?c]\<rparr>)"
    by (simp add: insert_credential_def d2(5) row_def default_credential_lifetime_def days_def seconds_def
        sample_site_def sample_credential_def)
  have name: "identifier_ok ''management.credential.created''"
    by (simp add: identifier_ok_def lower_letter_def ascii_digit_def Let_def)
  obtain a where "audit_credential sample_X (credential_created row) p ?c ''management.credential.created'' ''management.credential.create'' []
             [(''created'', PBool True), (''source'', PStr ''device_login'')]
             [(''source'', PStr ''device_login''), (''device_label'', PStr (credential_name row))] (d2\<lparr>credentials := credentials d2 @ [?c]\<rparr>)
           = Inr (d2\<lparr>credentials := credentials d2 @ [?c], audit_rows := audit_rows d2 @ [a]\<rparr>)"
    using sample_audit_unkeyed [OF name, where db = "d2\<lparr>credentials := credentials d2 @ [?c]\<rparr>"] by fastforce
  then have "\<exists>issued db. mint_attempts sample_X sample_draws p row (Suc n) 0 d2 = Inr (issued, db)" for n
    using ins by (simp add: Let_def)
  from this [of 4] have "\<exists>issued db. mint_attempts sample_X sample_draws p row prefix_collision_retries 0 d2 = Inr (issued, db)"
    by (simp add: token_constants)
  then have "\<exists>answer db. mint_entitled sample_X sample_registry sample_draws (seconds 60) ?u ''laptop'' p entitled d2 = (Inr answer, db)"
    using scopes d1(2) by (auto simp: mint_entitled_def d2(1) row_def atomic_def Let_def sample_user_def)
  then show ?thesis by (simp add: mint_device_credential_def atomic_def p m d1(2))
qed

definition busy_site :: site_db where
  "busy_site = (let row = \<lparr>ra_principal = Some 11, ra_subject = subject_hash sample_X ''principal'' (uuid_str 11),
     ra_class = Write_Cost, ra_cost = 10, ra_created = 4\<rparr> in sample_site\<lparr>admissions := [row, row, row]\<rparr>)"


definition sample_identity :: api_identity where
  "sample_identity = \<lparr>identity_principal = sample_principal 10 Human ''staff'' (Some 1),
     identity_credential = sample_credential 20 10 []\<rparr>"

definition sample_create_body :: payload where
  "sample_create_body = [(''target_principal_id'', PStr ''x''), (''name'', PStr ''N''),
     (''scopes'', PList [PStr ''courses.launch.read'']), (''confirmed'', PBool True)]"

end
