(* ===== verification/Mg_Properties.thy ===== *)
theory Mg_Properties
  imports Mg_Samples
begin

text \<open>
  The properties of the management API: tokens, authority and its withdrawal, one-time commands,
  rate limits, device logins.
\<close>

subsection \<open>Tokens\<close>

text \<open>
  C32 A generated token is read back: parsing it gives its prefix and its secret, and both decode to the
  random bytes they were drawn from.
\<close>

theorem token_read_back:
  assumes "byte_list p" and "length p = prefix_bytes" and "byte_list s" and "length s = secret_bytes"
  shows "\<exists>g. generate_token p s = Inr g
    \<and> parse_token (PStr (token_raw g)) = Some \<lparr>parsed_prefix = token_prefix g, parsed_secret = token_secret g\<rparr>
    \<and> urlsafe_b64decode (token_prefix g) = p \<and> urlsafe_b64decode (token_secret g) = s"
  using assms base64url_token_chars [of p] base64url_token_chars [of s] length_base64url [of p] length_base64url [of s]
  by (simp add: generate_token_total parse_token_iff prefix_pattern_def secret_pattern_def base64url_decode token_constants)

theorem token_read_back_witness:
  "\<exists>g. generate_token (replicate 12 255) (replicate 32 7) = Inr g
    \<and> parse_token (PStr (token_raw g)) = Some \<lparr>parsed_prefix = token_prefix g, parsed_secret = token_secret g\<rparr>
    \<and> urlsafe_b64decode (token_prefix g) = replicate 12 255 \<and> urlsafe_b64decode (token_secret g) = replicate 32 7"
  by (rule token_read_back) (simp_all add: byte_list_def list_all_iff token_constants)

text \<open>
  C34 Allocating a credential ends with one as soon as one of the five generated tokens has a prefix no
  credential has yet, however many of the earlier ones collide.
\<close>

theorem prefix_allocation_ends:
  assumes "\<And>k. k < prefix_collision_retries \<Longrightarrow> \<exists>g. dr_token draws k = Inr g"
    and "\<And>k. dr_id draws k \<notin> credential_id ` set (credentials db)"
    and "credential_created row < credential_expires row"
    and "predecessor row = None \<or> predecessor row \<notin> predecessor ` set (credentials db)"
    and "j < prefix_collision_retries" and "dr_token draws j = Inr g" and "token_prefix g \<notin> credential_prefix ` set (credentials db)"
  shows "\<exists>issued db'. insert_generated_credential X draws row db = Inr (issued, db')
    \<and> credential_prefix (issued_row issued) \<notin> credential_prefix ` set (credentials db)"
proof -
  obtain issued db' where a: "insert_generated_credential X draws row db = Inr (issued, db')"
    using insert_attempts_total [of 0 prefix_collision_retries draws db row j g X] assms
    by (auto simp: insert_generated_credential_def)
  show ?thesis
    by (rule insert_generated_credential_Inr [OF a]) (use a insert_credential_Inr(3) in blast)
qed

theorem prefix_allocation_ends_witness:
  "\<exists>issued db'. insert_generated_credential sample_X (sample_draws\<lparr>dr_token := (\<lambda>k. Inr (sample_token (if k < 4 then 21 else 0)))\<rparr>)
      (sample_credential 0 11 [''courses.launch.read'']) sample_site = Inr (issued, db')
    \<and> credential_prefix (issued_row issued) \<notin> credential_prefix ` set (credentials sample_site)"
  by (rule prefix_allocation_ends [where j = 4])
    (auto simp: sample_store sample_draws_def token_constants days_def seconds_def)

subsection \<open>Authority and its withdrawal\<close>



text \<open>
  C13 What a credential authorises is fixed when it is issued: later it has the same principal, scopes,
  prefix, digest, predecessor and expiry; a revocation or rotation stays; its revision never falls.
\<close>

theorem granted_authority_is_final:
  assumes "site_ok db" and "(site_step X)\<^sup>*\<^sup>* db db'" and "c \<in> set (credentials db)"
  shows "\<exists>d \<in> set (credentials db'). credential_later c d"
  using site_steps_keep [OF assms(2)] assms(1,3) by (simp add: keeps_site_def store_later_def)

theorem granted_authority_is_final_witness:
  "\<exists>d \<in> set (credentials (sample_site\<lparr>users := [], permission_rows := []\<rparr>)).
     credential_later (sample_credential 21 11 [''courses.launch.read'']) d"
proof -
  have "(site_step sample_X)\<^sup>*\<^sup>* sample_site (sample_site\<lparr>users := [], permission_rows := []\<rparr>)"
    by (rule r_into_rtranclp) (rule site_step.accounts)
  from granted_authority_is_final [OF sample_site_ok this] show ?thesis by (simp add: sample_site_def)
qed

text \<open>
  C4 A revoked credential authenticates no request, however many requests, logins and operator calls
  came between.
\<close>

theorem revoked_never_authenticates:
  assumes "site_ok db" and "c \<in> set (credentials db)" and "credential_revoked c \<noteq> None"
    and "(site_step X)\<^sup>*\<^sup>* db db'" and "authenticate X now alternate rq db' = (Inr identity, db'')"
  shows "credential_id (identity_credential identity) \<noteq> credential_id c"
proof
  assume same: "credential_id (identity_credential identity) = credential_id c"
  obtain d where d: "d \<in> set (credentials db')" "credential_later c d" and ok: "site_ok db'"
    using site_steps_keep [OF assms(4)] assms(1,2) by (auto simp: keeps_site_def store_later_def)
  show False
    using assms(5)
  proof (rule authenticate_Inr)
    assume used: "identity_credential identity \<in> set (credentials db')"
      and usable: "credential_usable now (identity_credential identity) (identity_principal identity) db'"
    have "distinct (map credential_id (credentials db'))" using ok credentials_okD(1) by (simp add: site_ok_def)
    then have "identity_credential identity = d"
      using distinct_key_eq used d(1) same d(2) by (metis credential_later_def)
    then show False using usable d(2) assms(3) by (simp add: credential_usable_def credential_later_def)
  qed
qed

theorem revoked_never_authenticates_witness:
  "\<exists>identity db. authenticate sample_X (seconds 60) True (sample_request ''GET'')
       (sample_site\<lparr>credentials := [sample_credential 20 10 [''a''], sample_credential 21 11 [''a'']\<lparr>credential_revoked := Some 5\<rparr>]\<rparr>) = (Inr identity, db)
     \<and> credential_id (identity_credential identity) \<noteq> credential_id (sample_credential 21 11 [''a'']\<lparr>credential_revoked := Some 5\<rparr>)"
proof -
  let ?revoked = "sample_credential 21 11 [''a'']\<lparr>credential_revoked := Some 5\<rparr>"
  let ?db = "sample_site\<lparr>credentials := [sample_credential 20 10 [''a''], ?revoked]\<rparr>"
  have "credentials_ok ?db"
    by (simp add: credentials_ok_def credential_ok_def sample_store credential_constants days_def seconds_def)
  then have ok: "site_ok ?db" using sample_site_ok by (simp add: site_ok_def)
  have revoked: "?revoked \<in> set (credentials ?db)" "credential_revoked ?revoked \<noteq> None" by simp_all
  obtain db where run: "authenticate sample_X (seconds 60) True (sample_request ''GET'') ?db
      = (Inr \<lparr>identity_principal = sample_principal 10 Human ''staff'' (Some 1), identity_credential = sample_credential 20 10 [''a'']\<rparr>, db)"
    using sample_authenticates by blast
  from revoked_never_authenticates [OF ok revoked rtranclp.rtrancl_refl run] run show ?thesis by blast
qed

text \<open>
  C5 A credential route is answered by its view only for a request whose bearer token has the prefix
  and the secret of an unrevoked, unexpired credential with the scope of the route, not rotated or
  within its overlap, of an active human principal who holds the permission to manage credentials.
  Every other request gets an error and leaves accounts, grants, credentials and records alone.
\<close>

theorem served_requests_hold_authority:
  assumes "manage_capabilities (env_registry env)" and "credential_endpoint X env route rq db = (answer, db')"
  shows "(\<exists>parsed c p. header_token rq = Some parsed \<and> holds_authority X (env_now env) (route_key route rq) parsed c p db)
    \<or> (\<exists>e. answer = error_response e \<and> same_authorities db db')"
proof (rule dispatch_cases [OF assms(2) [unfolded credential_endpoint_dispatch] route_view_refused])
  fix known assume "run_view X env (route_key route rq) False (route_view X env route rq) rq db = (Inr answer, known, db')"
  then show ?thesis using served_authority [OF assms(1)] by blast
next
  fix e assume "answer = error_response e" and "same_authorities db db'"
  then show ?thesis by blast
qed

theorem served_requests_hold_authority_witness:
  "(\<exists>parsed c p. header_token (sample_request ''GET'') = Some parsed
      \<and> holds_authority sample_X (seconds 60) (route_key Credential_Collection (sample_request ''GET'')) parsed c p sample_site)
    \<or> (\<exists>e. fst (credential_endpoint sample_X (sample_env []) Credential_Collection (sample_request ''GET'') sample_site) = error_response e
      \<and> same_authorities sample_site
        (snd (credential_endpoint sample_X (sample_env []) Credential_Collection (sample_request ''GET'') sample_site)))"
  using served_requests_hold_authority [of "sample_env []" sample_X Credential_Collection "sample_request ''GET''" sample_site, OF _ prod.collapse [symmetric]]
  by (simp add: sample_env_def manage_capabilities_def sample_registry_def sample_launch_def credential_capabilities)

text \<open>
  C14 The credential routes write no credential but those of the automation accounts: a credential of
  any other principal keeps every column but the time of its last use, and no such principal gets a
  new one.
\<close>

theorem credential_routes_confined:
  assumes "site_ok db" and "credential_endpoint X env route rq db = (answer, db')"
  shows "(\<forall>c \<in> set (credentials db). \<not> manageable_owner db (credential_principal c)
        \<longrightarrow> (\<exists>t. c\<lparr>last_used := t\<rparr> \<in> set (credentials db')))
    \<and> (\<forall>d \<in> set (credentials db'). \<not> manageable_owner db (credential_principal d)
        \<longrightarrow> credential_id d \<in> credential_id ` set (credentials db))"
  using endpoint_confined [OF assms] by blast

theorem credential_routes_confined_witness:
  "\<exists>t. (sample_credential 20 10 [''management.credentials.create'', ''management.credentials.list'',
        ''management.credentials.revoke'', ''management.credentials.rotate''])\<lparr>last_used := t\<rparr>
     \<in> set (credentials (snd (credential_endpoint sample_X (sample_env [(''confirmed'', PBool True)]) (Credential_Revoke 21)
         (sample_request ''POST'') sample_site)))"
proof -
  have "\<not> manageable_owner sample_site 10" by (simp add: manageable_owner_def sample_store)
  moreover have "sample_credential 20 10 [''management.credentials.create'', ''management.credentials.list'',
        ''management.credentials.revoke'', ''management.credentials.rotate''] \<in> set (credentials sample_site)"
    by (simp add: sample_site_def)
  moreover have "credential_principal (sample_credential 20 10 s) = 10" for s by (simp add: sample_credential_def)
  ultimately show ?thesis
    using credential_routes_confined [OF sample_site_ok prod.collapse [symmetric]] by metis
qed

subsection \<open>One-time commands\<close>

text \<open>
  C15 However often a command is retried with its key within a day, and whatever the retries ask for, the
  store is the one its first run left.
\<close>

theorem retried_commands_run_once:
  assumes "execute_one_time_idempotent X call run db = Inr (a, db')" and "live_record X call db = None"
    and "leaves_records run" and "unique_keys db"
    and "\<And>call' run'. (call', run') \<in> set calls \<Longrightarrow> retried_call call call'"
  shows "retry_all (execute_one_time_idempotent X) ((call, run) # calls) db = db'"
  by (rule management_execution.retries_silent [where d = db and c = run]) (use assms in auto)

theorem retried_commands_run_once_witness:
  "\<exists>a db. execute_one_time_idempotent sample_X (one_time_call_of (sample_call ''k'') ''o'' [] True) (\<lambda>d. Inr (\<lparr>response = PNone, safe_result = PNone\<rparr>, d)) sample_site
       = Inr (a, db)
     \<and> retry_all (execute_one_time_idempotent sample_X)
        [(one_time_call_of (sample_call ''k'') ''o'' [] True, \<lambda>d. Inr (\<lparr>response = PNone, safe_result = PNone\<rparr>, d)),
         (one_time_call_of (sample_call ''k'') ''o'' [(''x'', PInt 1)] True, \<lambda>d. Inl Type_Error)] sample_site = db"
proof -
  let ?call = "one_time_call_of (sample_call ''k'') ''o''" and ?run = "\<lambda>d. Inr (\<lparr>response = PNone, safe_result = PNone\<rparr>, d)"
  have leaves: "leaves_records ?run" by (simp add: leaves_records_def)
  obtain a db where ran: "execute_one_time_idempotent sample_X (?call [] True) ?run sample_site = Inr (a, db)"
    using sample_once [OF _ _ _ leaves, of "''o''" "[]" True] by (auto simp: is_ascii_def)
  have "live_record sample_X (?call [] True) sample_site = None" "unique_keys sample_site"
    using sample_site_ok by (simp_all add: live_record_def site_ok_def sample_site_def empty_site_def split: sum.splits)
  moreover have "retried_call (?call [] True) (?call [(''x'', PInt 1)] True)"
    by (simp add: retried_call_def one_time_call_of_def idempotency_retention_def seconds_def)
  ultimately show ?thesis
    using retried_commands_run_once [OF ran _ leaves, of "[(?call [(''x'', PInt 1)] True, \<lambda>d. Inl Type_Error)]"] ran by auto
qed

text \<open>
  A call to issue a credential that is retried with its key within a day never issues another one,
  whatever it asks for; when it asks for the same, the error carries the stored public result, and
  the token is not shown again.
\<close>

theorem issue_retry_never_reissues:
  assumes first: "issue_credential_once X registry draws sv target name scopes expires_at by db = Inr (a, db')"
    and unique: "unique_keys db"
    and retry: "principal_id (sv_actor sv') = principal_id (sv_actor sv)" "sv_key sv' = sv_key sv"
      "sv_now sv' < sv_now sv + idempotency_retention"
  shows "(\<exists>e. issue_credential_once X registry' draws' sv' target' name' scopes' expires' by' db' = Inl e)
    \<and> (\<forall>v. canonical_object X (safe_result a) = Inr v \<longrightarrow>
        issue_credential_once X registry' draws' sv' target name scopes expires_at by' db' = Inl (Secret_Unavailable v))"
proof -
  let ?call = "\<lambda>sv target n scopes t. one_time_call_of sv ''management.credential.create''
      [(''target_principal_id'', PStr (uuid_str target)), (''name'', PStr n),
       (''scopes'', PList (map PStr (sort scopes))), (''expires_at'', expiry_json t)] False"
  from first obtain n where n: "safe_name X name = Inr n"
    and run: "execute_one_time_idempotent X (?call sv target n scopes expires_at)
      (issue_command X registry draws sv target n scopes expires_at by) db = Inr (a, db')"
    unfolding issue_credential_once_def by (elim bind_res_InrE)
  have unsafe: "\<not> ot_replay_safe (?call s t m c e)" for s t m c e by (simp add: one_time_call_of_def)
  have again: "retried_call (?call sv target n scopes expires_at) (?call sv' t m c e)" for t m c e
    using retry by (simp add: retried_call_def one_time_call_of_def)
  have "live_record X (?call sv target n scopes expires_at) db = None" by (rule unsafe_never_replays [OF run unsafe])
  note kept = one_time_leaves_live_record [OF run this unique issue_command_leaves again]
  have "\<exists>e. execute_one_time_idempotent X (?call sv' t m c e') run' db' = Inl e" for t m c e' run'
  proof (cases "execute_one_time_idempotent X (?call sv' t m c e') run' db'")
    case (Inr x)
    then have "live_record X (?call sv' t m c e') db' = None" by (cases x) (rule unsafe_never_replays [OF _ unsafe], simp)
    then show ?thesis using kept [of t m c e'] by simp
  next
    case (Inl e)
    then show ?thesis by (rule exI)
  qed
  then have "\<exists>e. issue_credential_once X registry' draws' sv' target' name' scopes' expires' by' db' = Inl e"
    by (cases "safe_name X name'") (simp_all add: issue_credential_once_def)
  moreover have "issue_credential_once X registry' draws' sv' target name scopes expires_at by' db' = Inl (Secret_Unavailable v)"
    if v: "canonical_object X (safe_result a) = Inr v" for v
  proof -
    obtain r where r: "live_record X (?call sv' target n scopes expires_at) db' = Some r"
      "mr_status r = Completed" "mr_safe_result r = Some (safe_result a)"
      "hash_request X (ot_principal (?call sv target n scopes expires_at)) (ot_operation (?call sv target n scopes expires_at))
        (ot_request (?call sv target n scopes expires_at)) = Inr (mr_request_hash r)"
      using kept by blast
    have "hash_request X (ot_principal (?call sv' target n scopes expires_at)) ''management.credential.create''
        (ot_request (?call sv' target n scopes expires_at)) = Inr (mr_request_hash r)"
      using r(4) retry(1) by (simp add: one_time_call_of_def)
    moreover have "is_ascii ''management.credential.create''" by (simp add: is_ascii_def)
    moreover have "ot_operation (?call sv' target n scopes expires_at) = ''management.credential.create''"
      by (simp add: one_time_call_of_def)
    ultimately show ?thesis
      using one_time_replay_eq [OF r(1)] r(2,3) v unsafe by (simp add: issue_credential_once_def n)
  qed
  ultimately show ?thesis by blast
qed

theorem issue_retry_never_reissues_witness:
  "\<exists>a db v. issue_credential_once sample_X sample_registry sample_draws (sample_call ''k'') 11 ''N'' [''courses.launch.read'']
       None None sample_site = Inr (a, db)
    \<and> issue_credential_once sample_X sample_registry sample_draws (sample_call ''k'') 11 ''N'' [''courses.launch.read'']
       None None db = Inl (Secret_Unavailable v)"
proof -
  obtain a db where first: "issue_credential_once sample_X sample_registry sample_draws (sample_call ''k'') 11 ''N'' [''courses.launch.read'']
       None None sample_site = Inr (a, db)"
    using sample_issue_once by blast
  have "unique_keys sample_site" using sample_site_ok by (simp add: site_ok_def)
  moreover have "seconds 60 < seconds 60 + idempotency_retention" by (simp add: idempotency_retention_def seconds_def)
  ultimately show ?thesis
    using issue_retry_never_reissues [OF first, of "sample_call ''k''"] first by simp
qed

subsection \<open>What the commands do\<close>





text \<open>
  C35 A device login mints a credential of the approver's own principal, for 30 days, with launch scopes
  only, each for a permission the approver holds explicitly.
\<close>

theorem device_login_least_privilege:
  assumes "mint_device_credential X registry draws now i u label db = (Inr answer, db')"
  shows "\<exists>c p. c \<in> set (credentials db') \<and> credential_id c \<notin> credential_id ` set (credentials db)
    \<and> p \<in> set (principals db') \<and> principal_id p = credential_principal c \<and> principal_active p
    \<and> principal_user p = Some (user_id u) \<and> credential_expires c = now + days 30
    \<and> ''courses.launch.read'' \<in> set (credential_scopes c) \<and> set (credential_scopes c) \<subseteq> set launch_scopes
    \<and> (\<forall>s \<in> set (credential_scopes c). \<exists>cap. registry s = Some cap \<and> has_explicit_permission u (cap_permission cap))"
proof -
  from assms obtain p d1 entitled d2 where p: "principal_for X now i u db = Inr (p, d1)"
    and m: "mirror_grants registry u (principal_id p) launch_scopes d1 = (Inr entitled, d2)"
    and mint: "mint_entitled X registry draws now u label p entitled d2 = (Inr answer, db')"
    unfolding mint_device_credential_def by (auto simp: atomic_Inr elim!: bind_kept_InrE)
  have tables: "credentials d2 = credentials db" "principals d2 = principals d1"
    using mirror_grants_tables [OF m] principal_for_Inr [OF p] create_principal_Inr(1) by fastforce+
  note row = principal_for_row [OF p]
  show ?thesis
    using mint
  proof (rule mint_entitled_Inr)
    fix scopes mid j x s and issued :: issued_credential and a :: audit_row
    assume read: "''courses.launch.read'' \<in> set entitled"
      and scopes: "normalize_scopes registry d2 p entitled = Inr scopes"
      and c: "issued_row issued = new_credential now (principal_id p) (device_credential_name X label) scopes
        (now + default_credential_lifetime) (Some (user_id u)) None\<lparr>credential_id := j, credential_prefix := x, secret_digest := s\<rparr>"
      and ins: "insert_credential (issued_row issued) d2 = Inr mid"
      and db': "db' = mid\<lparr>audit_rows := audit_rows mid @ [a]\<rparr>"
    have "set scopes = set entitled" using normalize_scopes_Inr(1) [OF scopes] by simp
    then show ?thesis
      using mirror_grants_Inr [OF m] read row insert_credential_Inr(1,2) [OF ins] tables
      by (intro exI [of _ "issued_row issued"] exI [of _ p]) (simp add: db' c default_credential_lifetime_def)
  qed
qed

theorem device_login_least_privilege_witness:
  "\<exists>answer db c p. mint_device_credential sample_X sample_registry sample_draws (seconds 60) 30 (sample_user 2 launch_permissions)
      ''laptop'' sample_site = (Inr answer, db)
    \<and> c \<in> set (credentials db) \<and> p \<in> set (principals db) \<and> principal_user p = Some 2 \<and> principal_id p = credential_principal c
    \<and> set (credential_scopes c) \<subseteq> set launch_scopes \<and> credential_expires c = seconds 60 + days 30"
proof -
  obtain answer db where run: "mint_device_credential sample_X sample_registry sample_draws (seconds 60) 30
     (sample_user 2 launch_permissions) ''laptop'' sample_site = (Inr answer, db)"
    using sample_login by blast
  have "user_id (sample_user 2 launch_permissions) = 2" by (simp add: sample_user_def)
  with device_login_least_privilege [OF run] run show ?thesis by metis
qed

subsection \<open>Rate limits\<close>

text \<open>
  C26 Of any series of bearer tokens with one prefix, at any times and in any order, at most ten are
  compared with the stored secret and found wrong in any minute.
\<close>

theorem guess_budget:
  assumes "within_budget db" and "guesses X prefix tries db = (answers, db')"
  shows "wrong_guesses t answers \<le> 10"
proof -
  let ?s = "subject_hash X ''invalid-prefix'' prefix"
  note spent = guesses_spent [OF assms, of t]
  then have "spent ?s Adaptive_Cost t db' \<le> class_limit Adaptive_Cost" unfolding within_budget_def by blast
  then show ?thesis using spent spent_nonneg [OF assms(1), of ?s Adaptive_Cost t] by (simp add: rate_constants)
qed

theorem guess_budget_witness:
  "wrong_guesses 5 (fst (guesses sample_X ''p'' (replicate 12 (5, False)) sample_site)) \<le> 10"
proof -
  have "0 \<le> class_limit cls" for cls by (cases cls) (simp_all add: rate_constants)
  then have "within_budget sample_site" by (simp add: within_budget_def spent_def recent_def sample_site_def empty_site_def)
  from guess_budget [OF this prod.collapse [symmetric]] show ?thesis .
qed

text \<open>
  C36 A principal that is refused is told to wait between 1 and 60 seconds; a minute after the refused
  request, without admissions in between, the same request is admitted.
\<close>

theorem refusal_ends:
  assumes refused: "admit X now cost_class cost (Some p) None db = Inl (Rate_Limit_Exceeded delay)"
    and past: "\<And>r. r \<in> set (admissions db) \<Longrightarrow> ra_created r \<le> now"
    and later: "now + seconds 60 \<le> now'"
  shows "1 \<le> delay \<and> delay \<le> 60 \<and> (\<exists>db'. admit X now' cost_class cost (Some p) None db = Inr db')"
proof -
  from refused obtain cls where cls: "cost_class_of cost_class = Some cls" and cost: "min_rate_cost \<le> cost" "cost \<le> max_rate_cost"
    by (auto simp: admit_def split: if_splits option.splits)
  have "\<forall>r \<in> set (admissions db). ra_subject r = subject_hash X ''principal'' (uuid_str p) \<and> ra_class r = cls
      \<longrightarrow> ra_created r \<le> now' - rate_window"
    using past later by (fastforce simp: rate_window_def)
  then show ?thesis
    using refusal_delay(1) [OF refused cls] admit_after_window [OF cost refl refl cls] by blast
qed

theorem refusal_ends_witness:
  "\<exists>delay db'. admit sample_X 5 ''write'' 10 (Some 11) None
      busy_site = Inl (Rate_Limit_Exceeded delay)
    \<and> 1 \<le> delay \<and> delay \<le> 60
    \<and> admit sample_X (5 + seconds 60) ''write'' 10 (Some 11) None
      busy_site = Inr db'"
proof -
    obtain delay where refused: "admit sample_X 5 ''write'' 10 (Some 11) None busy_site = Inl (Rate_Limit_Exceeded delay)"
    by (simp add: admit_def cost_class_of_def recent_def total_cost_def busy_site_def serialize_subject_def rate_constants
        rate_limit_exceeded_def Let_def seconds_def)
  have "ra_created r \<le> 5" if "r \<in> set (admissions busy_site)" for r using that by (auto simp: busy_site_def Let_def)
  from refusal_ends [OF refused this order.refl] refused show ?thesis by blast
qed

subsection \<open>Headers\<close>

text \<open>
  A revision sent back as the ETag it was given is read as that revision, for every revision of at
  most 4300 digits, the most that Python converts.
\<close>

theorem etag_read_back:
  assumes "revision_etag r = Inr etag" and "length (py_str_int r) \<le> int_max_digits" and "rq_if_match rq = Some etag"
  shows "require_if_match rq = Inr r"
proof -
  have r: "1 \<le> r" and etag: "etag = [CHR 0x22] @ ''rev-'' @ py_str_int r @ [CHR 0x22]"
    using assms(1) by (auto simp: revision_etag_def split: if_splits)
  obtain ds where ds: "py_str_int r = ds" "ds = nat_digits (nat r)" "ds \<noteq> []" "list_all digit ds" "digits_value ds = r"
    using r by (auto intro: py_str_int_shape [of r])
  have ascii: "list_all ascii_digit ds" and plain: "CHR '','' \<notin> set ds"
    using ds(4) digit_chars by (auto simp: list_all_iff ascii_digit_def digit_def Let_def)
  have "hd ds \<noteq> CHR ''0''" using r unfolding ds(2) by (intro leading_digit) simp
  then have "etag_revision etag = Some ds"
    using ascii ds(1,3) by (simp add: etag_revision_def etag butlast_append Let_def)
  then show ?thesis
    using assms(2,3) plain ds(1,5) by (simp add: require_if_match_def etag)
qed

theorem etag_read_back_witness:
  "require_if_match ((sample_request ''POST'')\<lparr>rq_if_match := Some (projr (revision_etag 120))\<rparr>) = Inr 120"
  by (rule etag_read_back [of 120 "projr (revision_etag 120)"])
    (simp_all add: revision_etag_def py_str_int_def nat_digits.simps int_max_digits_def)

text \<open>
  C37 A create request without a usable idempotency key is answered with \<open>invalid_request\<close>, where the
  rotation answers the same mistake with \<open>invalid_idempotency_key\<close>: the create view turns every error
  of its transaction into a credential error, the APIError of the key check too.
\<close>

theorem create_hides_bad_key:
  assumes key: "request_idempotency_key rq = Inl (Api_Error 400 ''invalid_idempotency_key'' [] None)"
    and create: "parse_json_object X env rq = Inr body"
      "enforce_fields identity cap body [''target_principal_id'', ''name'', ''scopes'', ''confirmed''] [''expires_at''] = Inr ()"
      "confirmation (env_now env) cap (get_key ''confirmed'' body) = Inr ()"
      "scoped_principal_or_404 env identity (get_key ''target_principal_id'' body) db = Inr target"
      "get_key ''name'' body = PStr name" "get_key ''scopes'' body = PList scopes"
      "request_expiry env (get_key ''expires_at'' body) = Inr expires"
    and rotate: "parse_json_object X env' rq = Inr body'"
      "enforce_fields identity cap' body' [''confirmed''] [''expires_at'', ''overlap_seconds''] = Inr ()"
      "confirmation (env_now env') cap' (get_key ''confirmed'' body') = Inr ()"
      "scoped_credential_or_404 identity i db = Inr c" "\<not> has_key ''overlap_seconds'' body'" "require_if_match rq = Inr revision"
  shows "credential_create X env identity cap rq db = (Inl (Api_Error 400 ''invalid_request'' [] None), db)
    \<and> credential_rotate X env' i identity cap' rq db = (Inl (Api_Error 400 ''invalid_idempotency_key'' [] None), db)"
  using assms
  by (simp add: credential_create_def credential_rotate_def atomic_def credential_error_def credential_error_kept_def
      is_api_error_def invalid_request_def)

theorem create_hides_bad_key_witness:
  "credential_create sample_X (sample_env sample_create_body) sample_identity credential_create_capability
      ((sample_request ''POST'')\<lparr>rq_idempotency_key := []\<rparr>) sample_site
     = (Inl (Api_Error 400 ''invalid_request'' [] None), sample_site)
   \<and> credential_rotate sample_X (sample_env [(''confirmed'', PBool True)]) 21 sample_identity credential_rotate_capability
      ((sample_request ''POST'')\<lparr>rq_idempotency_key := []\<rparr>) sample_site
     = (Inl (Api_Error 400 ''invalid_idempotency_key'' [] None), sample_site)"
proof -
  let ?rq = "(sample_request ''POST'')\<lparr>rq_idempotency_key := []\<rparr>"
  have key: "request_idempotency_key ?rq = Inl (Api_Error 400 ''invalid_idempotency_key'' [] None)"
    by (simp add: request_idempotency_key_def)
  have parse: "parse_json_object sample_X (sample_env body) ?rq = Inr body"
    if "distinct (map fst body)" "list_all (\<lambda>kv. objects_from_pairs (snd kv)) body" for body
  proof -
    have "py_casefold ''application/json'' = ''application/json''" "py_int ''0'' = Some 0" by code_simp+
    with that show ?thesis by (simp add: parse_json_object_def sample_env_def sample_request_def max_json_bytes_def)
  qed
  have create: "parse_json_object sample_X (sample_env sample_create_body) ?rq = Inr sample_create_body"
    by (rule parse) (simp_all add: sample_create_body_def)
  have rotate: "parse_json_object sample_X (sample_env [(''confirmed'', PBool True)]) ?rq = Inr [(''confirmed'', PBool True)]"
    by (rule parse) simp_all
  have fields: "enforce_fields sample_identity credential_create_capability sample_create_body
      [''target_principal_id'', ''name'', ''scopes'', ''confirmed''] [''expires_at''] = Inr ()"
    "enforce_fields sample_identity credential_rotate_capability [(''confirmed'', PBool True)] [''confirmed'']
      [''expires_at'', ''overlap_seconds''] = Inr ()"
    by (simp_all add: enforce_fields_def enforce_writable_fields_def sample_identity_def sample_create_body_def
        credential_capabilities field_policy_def safe_create_fields_def safe_rotate_fields_def extra_keys_def has_key_def)
  have confirmed: "confirmation (env_now (sample_env b)) cap (PBool True) = Inr ()"
    if "cap \<in> {credential_create_capability, credential_rotate_capability}" for b cap
    using that by (auto simp: confirmation_def policy_authorize_def credential_capabilities)
  have target: "scoped_principal_or_404 (sample_env b) sample_identity (PStr ''x'') sample_site
      = Inr (sample_principal 11 Service manageable_snapshot None)" for b
    by (simp add: scoped_principal_or_404_def uuid_value_def sample_env_def sample_identity_def sample_site_def
        manageable_service_principals_def manageable_object_policy_def)
  have c: "scoped_credential_or_404 sample_identity 21 sample_site = Inr (sample_credential 21 11 [''courses.launch.read''])"
    by (simp add: scoped_credential_or_404_def sample_identity_def manageable_credentials_def manageable_service_principals_def
        manageable_object_policy_def sample_site_def sample_credential_def get_principal_def)
  have match: "require_if_match ?rq = Inr 1"
    by (simp add: require_if_match_def sample_request_def etag_revision_def ascii_digit_def int_max_digits_def digits_value_def)
  show ?thesis
    by (rule create_hides_bad_key [OF key create fields(1) _ _ _ _ _ rotate fields(2) _ c _ match])
      (simp_all add: sample_create_body_def get_key_def has_key_def confirmed target request_expiry_def)
qed

end
