(* ===== verification/Core_Operations.thy ===== *)
theory Core_Operations
  imports Core_Audit
begin

text \<open>
  Long-running operations (\<open>core/operations.py\<close>, \<open>Operation\<close> of \<open>core/models.py\<close>): they are created
  pending, started, report progress and are finished or cancelled, each step by a caller who names the
  revision it read. Every step appends an audit row. The request and correlation ids are left out; the
  counters fit the columns of the database.
\<close>

subsection \<open>Rows\<close>

datatype operation_status = Op_Pending | Op_Running | Op_Succeeded | Op_Failed | Op_Cancelled

definition status_value :: "operation_status \<Rightarrow> string" where
  "status_value s = (case s of Op_Pending \<Rightarrow> ''pending'' | Op_Running \<Rightarrow> ''running''
     | Op_Succeeded \<Rightarrow> ''succeeded'' | Op_Failed \<Rightarrow> ''failed'' | Op_Cancelled \<Rightarrow> ''cancelled'')"

definition terminal_status :: "operation_status \<Rightarrow> bool" where
  "terminal_status s \<longleftrightarrow> s \<in> {Op_Succeeded, Op_Failed, Op_Cancelled}"

record operation =
  op_id :: uuid
  op_kind :: string
  op_status :: operation_status
  progress_current :: int
  progress_total :: "int option"
  cancellable :: bool
  cancellation_requested :: "datetime option"
  op_message :: string
  result_summary :: pyval
  op_errors :: pyval
  op_actor :: "int option"
  op_actor_ref :: string
  op_principal :: "uuid option"
  op_key_hash :: string
  op_created :: datetime
  op_started :: "datetime option"
  op_finished :: "datetime option"
  op_updated :: datetime
  op_revision :: int

text \<open>The store: the operations beside the tables of the site.\<close>

record operation_store =
  op_site :: site_db
  operations :: "operation list"

datatype operation_err =
    Site_Err site_err
  | Invalid_Transition string
  | Cancellation_Requested
  | Not_Cancellable

definition op_res :: "(site_err, 'a) res \<Rightarrow> (operation_err, 'a) res" where
  "op_res m = (case m of Inl e \<Rightarrow> Inl (Site_Err e) | Inr x \<Rightarrow> Inr x)"

lemma op_res_simps [simp]: "op_res (Inl e) = Inl (Site_Err e)" "op_res (Inr x) = Inr x"
  by (simp_all add: op_res_def)

lemma op_res_Inr [simp]: "op_res m = Inr x \<longleftrightarrow> m = Inr x"
  by (auto simp: op_res_def split: sum.splits)

subsection \<open>Shared steps\<close>

definition lock_operation ::
    "(operation \<Rightarrow> bool) \<Rightarrow> uuid \<Rightarrow> int \<Rightarrow> operation_store \<Rightarrow> (operation_err, operation) res" where
  "lock_operation scope i expected_revision st =
     op_res (lock_revisioned op_id op_revision scope i expected_revision (operations st))"

lemma lock_operation_Inr:
  assumes "lock_operation scope i expected st = Inr r"
  shows "r \<in> set (operations st)" and "op_id r = i" and "op_revision r = expected" and "1 \<le> expected" and "scope r"
  using lock_revisioned_Inr assms by (metis lock_operation_def op_res_Inr)+

text \<open>The provenance of an audit row: what the caller passes, filled up from the operation.\<close>

definition operation_write_context :: "operation \<Rightarrow> audit_context option \<Rightarrow> audit_context" where
  "operation_write_context r context = (case context of
     None \<Rightarrow> \<lparr>ac_actor_id = op_actor r, ac_principal = op_principal r, ac_actor_ref = op_actor_ref r,
               ac_key_hash = op_key_hash r\<rparr>
   | Some c \<Rightarrow>
       \<lparr>ac_actor_id = (if ac_actor_id c \<noteq> None then ac_actor_id c else op_actor r),
        ac_principal = (if ac_principal c \<noteq> None then ac_principal c else op_principal r),
        ac_actor_ref = (if ac_actor_ref c \<noteq> [] then ac_actor_ref c else op_actor_ref r),
        ac_key_hash = (if ac_key_hash c \<noteq> [] then ac_key_hash c else op_key_hash r)\<rparr>)"

definition max_operation_json_bytes :: nat where "max_operation_json_bytes = 65536"

definition safe_message :: "externals \<Rightarrow> string \<Rightarrow> string" where
  "safe_message X m = take 255 (redact_text X m)"

definition safe_object :: "externals \<Rightarrow> pyval \<Rightarrow> (site_err, pyval) res" where
  "safe_object X v =
     bind_res (canonical_object X (redact_value X v)) (\<lambda>normalized.
     bind_res (json_bytes X normalized) (\<lambda>encoded.
     bind_res (guard_res (length encoded \<le> max_operation_json_bytes)
       (Value_Error ''operation result exceeds 65,536 bytes'')) (\<lambda>_.
     Inr normalized)))"

definition safe_errors :: "externals \<Rightarrow> pyval \<Rightarrow> (site_err, pyval) res" where
  "safe_errors X v =
     bind_res (canonical_json X (redact_value X v)) (\<lambda>normalized.
     bind_res (guard_res (case normalized of PList vs \<Rightarrow> True | _ \<Rightarrow> False)
       (Value_Error ''operation errors must be a JSON list'')) (\<lambda>_.
     bind_res (json_bytes X normalized) (\<lambda>encoded.
     bind_res (guard_res (length encoded \<le> max_operation_json_bytes)
       (Value_Error ''operation errors exceed 65,536 bytes'')) (\<lambda>_.
     Inr normalized))))"

definition audit_operation ::
    "externals \<Rightarrow> operation \<Rightarrow> string \<Rightarrow> payload \<Rightarrow> audit_context option \<Rightarrow> site_db \<Rightarrow> (site_err, site_db) res" where
  "audit_operation X r action changes context db =
     record_audit_event X action ''core.operation'' ''succeeded'' (operation_write_context r context)
       (Some (op_id r)) (op_kind r) (PDict changes) (PDict []) db"

definition before_after :: "pyval \<Rightarrow> pyval \<Rightarrow> pyval" where
  "before_after old new = PDict [(''before'', old), (''after'', new)]"

definition revision_change :: "int \<Rightarrow> operation \<Rightarrow> string \<times> pyval" where
  "revision_change expected_revision r =
     (''revision'', before_after (PInt expected_revision) (PInt (op_revision r)))"

definition status_change :: "operation_status \<Rightarrow> operation \<Rightarrow> string \<times> pyval" where
  "status_change old r = (''status'', before_after (PStr (status_value old)) (PStr (status_value (op_status r))))"

text \<open>\<open>save(update_fields=...)\<close> followed by the audit row: the end of every step.\<close>

definition write_operation ::
    "externals \<Rightarrow> (operation \<Rightarrow> operation \<Rightarrow> operation) \<Rightarrow> operation \<Rightarrow> string \<Rightarrow> payload \<Rightarrow> audit_context option
       \<Rightarrow> operation_store \<Rightarrow> (operation_err, operation \<times> operation_store) res" where
  "write_operation X copy self action changes context st =
     bind_res (op_res (save_revisioned op_id op_revision copy self (operations st))) (\<lambda>rows.
     bind_res (op_res (audit_operation X self action changes context (op_site st))) (\<lambda>db.
       Inr (self, \<lparr>op_site = db, operations = rows\<rparr>)))"

subsection \<open>The operations\<close>

definition empty_context :: audit_context where
  "empty_context = \<lparr>ac_actor_id = None, ac_principal = None, ac_actor_ref = [], ac_key_hash = []\<rparr>"

definition create_operation ::
    "externals \<Rightarrow> datetime \<Rightarrow> uuid \<Rightarrow> string \<Rightarrow> bool \<Rightarrow> int option \<Rightarrow> string \<Rightarrow> audit_context option
       \<Rightarrow> operation_store \<Rightarrow> (operation_err, operation \<times> operation_store) res" where
  "create_operation X now new_id kind can_cancel new_total message context st =
     (if \<not> identifier_ok kind
      then Inl (Site_Err (Value_Error ''operation kind must be a stable lowercase identifier''))
      else if (case new_total of None \<Rightarrow> False | Some t \<Rightarrow> t < 0)
      then Inl (Site_Err (Value_Error ''operation total cannot be negative''))
      else
        let context = (case context of None \<Rightarrow> empty_context | Some c \<Rightarrow> c)
        in bind_res (op_res (validated X context)) (\<lambda>context.
           let r = \<lparr>op_id = new_id, op_kind = kind, op_status = Op_Pending, progress_current = 0,
                 progress_total = new_total, cancellable = can_cancel, cancellation_requested = None,
                 op_message = safe_message X message, result_summary = PDict [], op_errors = PList [],
                 op_actor = ac_actor_id context, op_actor_ref = ac_actor_ref context,
                 op_principal = ac_principal context, op_key_hash = ac_key_hash context, op_created = now,
                 op_started = None, op_finished = None, op_updated = now, op_revision = 1\<rparr>
           in if new_id \<in> op_id ` set (operations st) then Inl (Site_Err Integrity_Error)
              else
                bind_res (op_res (audit_operation X r ''core.operation.create''
                    [(''status'', before_after PNone (PStr (status_value Op_Pending)))] (Some context) (op_site st))) (\<lambda>db.
                Inr (r, \<lparr>op_site = db, operations = operations st @ [r]\<rparr>))))"

definition start_columns :: "datetime \<Rightarrow> operation \<Rightarrow> operation \<Rightarrow> operation" where
  "start_columns now self r = r\<lparr>op_status := op_status self, op_started := op_started self,
     op_revision := op_revision self, op_updated := now\<rparr>"

definition start_operation ::
    "externals \<Rightarrow> datetime \<Rightarrow> uuid \<Rightarrow> int \<Rightarrow> audit_context option
       \<Rightarrow> operation_store \<Rightarrow> (operation_err, operation \<times> operation_store) res" where
  "start_operation X now i expected_revision context st =
     bind_res (lock_operation (\<lambda>r. True) i expected_revision st) (\<lambda>r.
     if op_status r \<noteq> Op_Pending
     then Inl (Invalid_Transition (''cannot start an operation in state '' @ status_value (op_status r)))
     else if cancellation_requested r \<noteq> None then Inl Cancellation_Requested
     else
       let r' = r\<lparr>op_status := Op_Running, op_started := Some now, op_revision := op_revision r + 1, op_updated := now\<rparr>
       in write_operation X (start_columns now) r' ''core.operation.start''
            [revision_change expected_revision r', status_change Op_Pending r'] context st)"

definition progress_columns :: "datetime \<Rightarrow> operation \<Rightarrow> operation \<Rightarrow> operation" where
  "progress_columns now self r = r\<lparr>progress_current := progress_current self, progress_total := progress_total self,
     op_message := op_message self, op_revision := op_revision self, op_updated := now\<rparr>"

definition progress_json :: "operation \<Rightarrow> pyval" where
  "progress_json r = PDict [(''current'', PInt (progress_current r)),
     (''total'', (case progress_total r of None \<Rightarrow> PNone | Some t \<Rightarrow> PInt t)), (''message'', PStr (op_message r))]"

definition update_operation_progress ::
    "externals \<Rightarrow> datetime \<Rightarrow> uuid \<Rightarrow> int \<Rightarrow> int \<Rightarrow> int option \<Rightarrow> string option \<Rightarrow> audit_context option
       \<Rightarrow> operation_store \<Rightarrow> (operation_err, operation \<times> operation_store) res" where
  "update_operation_progress X now i expected_revision current new_total message context st =
     (if current < 0 \<or> (case new_total of None \<Rightarrow> False | Some t \<Rightarrow> t < 0)
      then Inl (Site_Err (Value_Error ''operation progress cannot be negative''))
      else
        bind_res (lock_operation (\<lambda>r. True) i expected_revision st) (\<lambda>r.
        if op_status r \<noteq> Op_Running
        then Inl (Invalid_Transition (''cannot update progress in state '' @ status_value (op_status r)))
        else if cancellation_requested r \<noteq> None then Inl Cancellation_Requested
        else
          let next_total = (case new_total of None \<Rightarrow> progress_total r | Some t \<Rightarrow> Some t)
          in if (case next_total of None \<Rightarrow> False | Some t \<Rightarrow> current > t)
             then Inl (Site_Err (Value_Error ''operation progress cannot exceed its total''))
             else
               let r' = r\<lparr>progress_current := current, progress_total := next_total,
                     op_message := (case message of None \<Rightarrow> op_message r | Some m \<Rightarrow> safe_message X m),
                     op_revision := op_revision r + 1, op_updated := now\<rparr>
               in write_operation X (progress_columns now) r' ''core.operation.progress''
                    [revision_change expected_revision r',
                     (''progress'', before_after (progress_json r) (progress_json r'))] context st))"

definition request_columns :: "datetime \<Rightarrow> operation \<Rightarrow> operation \<Rightarrow> operation" where
  "request_columns now self r = r\<lparr>cancellation_requested := cancellation_requested self,
     op_revision := op_revision self, op_updated := now\<rparr>"

definition request_operation_cancellation ::
    "externals \<Rightarrow> datetime \<Rightarrow> (operation \<Rightarrow> bool) \<Rightarrow> uuid \<Rightarrow> int \<Rightarrow> audit_context option
       \<Rightarrow> operation_store \<Rightarrow> (operation_err, operation \<times> operation_store) res" where
  "request_operation_cancellation X now scope i expected_revision context st =
     bind_res (lock_operation scope i expected_revision st) (\<lambda>r.
     if terminal_status (op_status r)
     then Inl (Invalid_Transition (''cannot request cancellation in state '' @ status_value (op_status r)))
     else if \<not> cancellable r then Inl Not_Cancellable
     else if cancellation_requested r \<noteq> None then Inr (r, st)
     else
       let r' = r\<lparr>cancellation_requested := Some now, op_revision := op_revision r + 1, op_updated := now\<rparr>
       in write_operation X (request_columns now) r' ''core.operation.request_cancellation''
            [(''cancellation_requested'', before_after (PBool False) (PBool True)),
             revision_change expected_revision r'] context st)"

definition cancel_columns :: "datetime \<Rightarrow> operation \<Rightarrow> operation \<Rightarrow> operation" where
  "cancel_columns now self r = r\<lparr>op_status := op_status self, op_finished := op_finished self,
     op_message := op_message self, op_revision := op_revision self, op_updated := now\<rparr>"

definition cancel_operation ::
    "externals \<Rightarrow> datetime \<Rightarrow> uuid \<Rightarrow> int \<Rightarrow> string \<Rightarrow> audit_context option
       \<Rightarrow> operation_store \<Rightarrow> (operation_err, operation \<times> operation_store) res" where
  "cancel_operation X now i expected_revision message context st =
     bind_res (lock_operation (\<lambda>r. True) i expected_revision st) (\<lambda>r.
     if op_status r \<notin> {Op_Pending, Op_Running}
     then Inl (Invalid_Transition (''cannot cancel an operation in state '' @ status_value (op_status r)))
     else if \<not> cancellable r then Inl Not_Cancellable
     else if cancellation_requested r = None
     then Inl (Invalid_Transition ''cancellation must be requested before completion'')
     else
       let r' = r\<lparr>op_status := Op_Cancelled, op_finished := Some now, op_message := safe_message X message,
             op_revision := op_revision r + 1, op_updated := now\<rparr>
       in write_operation X (cancel_columns now) r' ''core.operation.cancel''
            [revision_change expected_revision r', status_change (op_status r) r'] context st)"

definition finish_columns :: "datetime \<Rightarrow> operation \<Rightarrow> operation \<Rightarrow> operation" where
  "finish_columns now self r = r\<lparr>op_status := op_status self, op_finished := op_finished self,
     op_message := op_message self, result_summary := result_summary self, op_errors := op_errors self,
     op_revision := op_revision self, op_updated := now\<rparr>"

definition finish_operation ::
    "externals \<Rightarrow> datetime \<Rightarrow> uuid \<Rightarrow> int \<Rightarrow> bool \<Rightarrow> payload option \<Rightarrow> pyval list option \<Rightarrow> string
       \<Rightarrow> audit_context option \<Rightarrow> operation_store \<Rightarrow> (operation_err, operation \<times> operation_store) res" where
  "finish_operation X now i expected_revision succeeded summary errors message context st =
     bind_res (lock_operation (\<lambda>r. True) i expected_revision st) (\<lambda>r.
     if op_status r \<noteq> Op_Running
     then Inl (Invalid_Transition (''cannot finish an operation in state '' @ status_value (op_status r)))
     else if succeeded \<and> cancellation_requested r \<noteq> None then Inl Cancellation_Requested
     else
       bind_res (op_res (safe_object X (PDict (case summary of None \<Rightarrow> [] | Some d \<Rightarrow> d)))) (\<lambda>summary.
       bind_res (op_res (safe_errors X (PList (case errors of None \<Rightarrow> [] | Some vs \<Rightarrow> vs)))) (\<lambda>errors.
       let r' = r\<lparr>op_status := (if succeeded then Op_Succeeded else Op_Failed), op_finished := Some now,
             op_message := safe_message X message, result_summary := summary, op_errors := errors,
             op_revision := op_revision r + 1, op_updated := now\<rparr>
       in write_operation X (finish_columns now) r' ''core.operation.finish''
            [revision_change expected_revision r', status_change (op_status r) r',
             (''result_summary'', summary), (''errors'', errors)] context st)))"

subsection \<open>What a step does to a row\<close>

text \<open>The constraints of the table, and what the life cycle adds to them.\<close>

definition operation_ok :: "operation \<Rightarrow> bool" where
  "operation_ok r \<longleftrightarrow> 1 \<le> op_revision r \<and> 0 \<le> progress_current r
     \<and> (\<forall>t. progress_total r = Some t \<longrightarrow> progress_current r \<le> t)
     \<and> (op_finished r \<noteq> None \<longleftrightarrow> terminal_status (op_status r))
     \<and> (op_status r = Op_Pending \<longrightarrow> op_started r = None) \<and> (op_status r = Op_Running \<longrightarrow> op_started r \<noteq> None)
     \<and> (cancellation_requested r \<noteq> None \<longrightarrow> cancellable r)
     \<and> (op_status r = Op_Cancelled \<longrightarrow> cancellation_requested r \<noteq> None)
     \<and> (op_status r = Op_Succeeded \<longrightarrow> cancellation_requested r = None)"

text \<open>One step: the next revision of an operation that was not finished.\<close>

definition moved :: "operation \<Rightarrow> operation \<Rightarrow> bool" where
  "moved r r' \<longleftrightarrow> op_id r' = op_id r \<and> op_kind r' = op_kind r \<and> cancellable r' = cancellable r
     \<and> op_actor r' = op_actor r \<and> op_principal r' = op_principal r \<and> op_created r' = op_created r
     \<and> op_revision r' = op_revision r + 1 \<and> \<not> terminal_status (op_status r)
     \<and> (op_status r = Op_Running \<longrightarrow> op_status r' \<noteq> Op_Pending)
     \<and> (cancellation_requested r \<noteq> None \<longrightarrow>
          cancellation_requested r' = cancellation_requested r \<and> terminal_status (op_status r') \<and> op_status r' \<noteq> Op_Succeeded)
     \<and> operation_ok r'"

text \<open>What any number of steps may do to a row.\<close>

definition operation_later :: "operation \<Rightarrow> operation \<Rightarrow> bool" where
  "operation_later r r' \<longleftrightarrow> op_id r' = op_id r \<and> op_kind r' = op_kind r \<and> cancellable r' = cancellable r
     \<and> op_actor r' = op_actor r \<and> op_principal r' = op_principal r \<and> op_created r' = op_created r
     \<and> op_revision r \<le> op_revision r' \<and> (op_revision r' = op_revision r \<longrightarrow> r' = r)
     \<and> (terminal_status (op_status r) \<longrightarrow> r' = r) \<and> (op_status r = Op_Running \<longrightarrow> op_status r' \<noteq> Op_Pending)
     \<and> (cancellation_requested r \<noteq> None \<longrightarrow> cancellation_requested r' = cancellation_requested r
          \<and> (\<not> terminal_status (op_status r) \<longrightarrow> op_status r' \<noteq> Op_Succeeded))"

lemma operation_later_refl: "operation_later r r"
  by (simp add: operation_later_def terminal_status_def)

lemma moved_later: "moved r r' \<Longrightarrow> operation_later r r'"
  by (auto simp: moved_def operation_later_def)

lemma operation_later_trans: "operation_later a b \<Longrightarrow> operation_later b c \<Longrightarrow> operation_later a c"
  by (cases "op_status b") (auto simp: operation_later_def terminal_status_def)

interpretation start: revisioned op_id op_revision "start_columns now" for now
  by unfold_locales (simp_all add: start_columns_def)

interpretation progress: revisioned op_id op_revision "progress_columns now" for now
  by unfold_locales (simp_all add: progress_columns_def)

interpretation request: revisioned op_id op_revision "request_columns now" for now
  by unfold_locales (simp_all add: request_columns_def)

interpretation cancel: revisioned op_id op_revision "cancel_columns now" for now
  by unfold_locales (simp_all add: cancel_columns_def)

interpretation finish: revisioned op_id op_revision "finish_columns now" for now
  by unfold_locales (simp_all add: finish_columns_def)

lemmas operation_columns = start_columns_def progress_columns_def request_columns_def cancel_columns_def finish_columns_def
lemmas saved_operation = start.saved progress.saved request.saved cancel.saved finish.saved

text \<open>The rows of the trail of an operation.\<close>

definition trail :: "uuid \<Rightarrow> site_db \<Rightarrow> int" where
  "trail i db = count_where (\<lambda>a. au_target_type a = ''core.operation'' \<and> au_target_id a = Some i) (audit_rows db)"

lemma audit_operation_Inr:
  assumes "audit_operation X r action changes context db = Inr db'"
  shows "trail i db' = trail i db + (if i = op_id r then 1 else 0)"
  using assms unfolding audit_operation_def
  by (auto elim!: record_audit_event_appends simp: trail_def)

text \<open>The effect of a successful write of a row that was read from the table.\<close>

definition stepped :: "operation \<Rightarrow> operation_store \<Rightarrow> operation_store \<Rightarrow> bool" where
  "stepped r' st st' \<longleftrightarrow> (\<exists>r \<in> set (operations st). moved r r' \<and> operations st' = put_row op_id r' (operations st))
     \<and> (\<forall>i. trail i (op_site st') = trail i (op_site st) + (if i = op_id r' then 1 else 0))"

lemma write_operation_stepped:
  assumes run: "write_operation X copy self action changes context st = Inr (x, st')"
    and saved: "save_revisioned op_id op_revision copy self (operations st)
        = Inr (map (\<lambda>x. if op_id x = op_id r then copy self r else x) (operations st))"
    and r: "r \<in> set (operations st)" and copied: "copy self r = self" and moved: "moved r self"
  shows "stepped self st st' \<and> x = self"
proof -
  have rows: "map (\<lambda>x. if op_id x = op_id r then copy self r else x) (operations st) = put_row op_id self (operations st)"
    using moved by (simp add: put_row_def copied moved_def)
  from run obtain db where db: "audit_operation X self action changes context (op_site st) = Inr db"
    and eq: "x = self" "st' = \<lparr>op_site = db, operations = put_row op_id self (operations st)\<rparr>"
    unfolding write_operation_def saved rows by auto
  show ?thesis using audit_operation_Inr [OF db] r moved by (auto simp: stepped_def eq)
qed

subsection \<open>The operations as steps\<close>

definition operations_ok :: "operation_store \<Rightarrow> bool" where
  "operations_ok st \<longleftrightarrow> distinct (map op_id (operations st)) \<and> (\<forall>r \<in> set (operations st). operation_ok r)
     \<and> (\<forall>r \<in> set (operations st). trail (op_id r) (op_site st) = op_revision r)
     \<and> (\<forall>i. i \<notin> op_id ` set (operations st) \<longrightarrow> trail i (op_site st) = 0)"

lemma operations_okD:
  assumes "operations_ok st"
  shows "distinct (map op_id (operations st))" and "r \<in> set (operations st) \<Longrightarrow> operation_ok r"
  using assms by (simp_all add: operations_ok_def)

lemma write_stepped:
  assumes "write_operation X copy self action changes context st = Inr (x, st')"
    and "lock_operation scope i expected st = Inr r" and ok: "operations_ok st"
    and "revisioned op_id op_revision copy" and "copy self r = self" and moved: "operation_ok r \<Longrightarrow> moved r self"
  shows "stepped x st st'" and "x = self"
proof -
  note r = lock_operation_Inr [OF assms(2)]
  have m: "moved r self" by (rule moved) (rule operations_okD(2) [OF ok r(1)])
  then have "save_revisioned op_id op_revision copy self (operations st)
      = Inr (map (\<lambda>x. if op_id x = op_id r then copy self r else x) (operations st))"
    using r(4) revisioned.saved [OF assms(4) operations_okD(1) [OF ok] r(1)] r(3) by (simp add: moved_def)
  from write_operation_stepped [OF assms(1) this r(1) assms(5) m] show "stepped x st st'" and "x = self" by simp_all
qed

lemmas moves = moved_def operation_ok_def terminal_status_def

lemma start_stepped:
  assumes ok: "operations_ok st" and run: "start_operation X now i expected context st = Inr (x, st')"
  shows "stepped x st st'"
  using run unfolding start_operation_def Let_def
  by (elim bind_res_InrE if_Inl_InrE)
    (drule (1) write_stepped(1) [OF _ _ ok start.revisioned_axioms]; simp add: start_columns_def moves)

lemma progress_stepped:
  assumes ok: "operations_ok st" and run: "update_operation_progress X now i expected current t m context st = Inr (x, st')"
  shows "stepped x st st'"
  using run unfolding update_operation_progress_def Let_def
  by (elim bind_res_InrE if_Inl_InrE)
    (drule (1) write_stepped(1) [OF _ _ ok progress.revisioned_axioms];
      simp add: progress_columns_def moves not_less split: option.splits)

lemma request_stepped:
  assumes ok: "operations_ok st"
    and run: "request_operation_cancellation X now scope i expected context st = Inr (x, st')"
  shows "st' = st \<and> x \<in> set (operations st) \<and> op_id x = i \<and> cancellation_requested x \<noteq> None
    \<or> stepped x st st' \<and> op_id x = i \<and> cancellation_requested x = Some now"
proof -
  let ?self = "\<lambda>r. r\<lparr>cancellation_requested := Some now, op_revision := op_revision r + 1, op_updated := now\<rparr>"
  let ?changes = "\<lambda>r. [(''cancellation_requested'', before_after (PBool False) (PBool True)), revision_change expected (?self r)]"
  from run obtain r where lock: "lock_operation scope i expected st = Inr r"
    and live: "\<not> terminal_status (op_status r)" "cancellable r"
    and step: "(if cancellation_requested r \<noteq> None then Inr (r, st)
      else write_operation X (request_columns now) (?self r) ''core.operation.request_cancellation'' (?changes r) context st)
      = Inr (x, st')"
    unfolding request_operation_cancellation_def Let_def by (elim bind_res_InrE if_Inl_InrE) blast
  note r = lock_operation_Inr [OF lock]
  show ?thesis
  proof (cases "cancellation_requested r = None")
    case True
    then have written: "write_operation X (request_columns now) (?self r) ''core.operation.request_cancellation'' (?changes r) context st
      = Inr (x, st')"
      using step by (simp only: not_True_eq_False if_False simp_thms)
    have "request_columns now (?self r) r = ?self r" by (simp add: request_columns_def)
    moreover have "operation_ok r \<Longrightarrow> moved r (?self r)" using live True by (auto simp: moves)
    ultimately have "stepped x st st'" "x = ?self r"
      using write_stepped [OF written lock ok request.revisioned_axioms] by blast+
    then show ?thesis using r by simp
  next
    case False
    with step have "x = r" "st' = st" by simp_all
    then show ?thesis using r False by blast
  qed
qed

lemma cancel_stepped:
  assumes ok: "operations_ok st" and run: "cancel_operation X now i expected m context st = Inr (x, st')"
  shows "stepped x st st'"
  using run unfolding cancel_operation_def Let_def
  by (elim bind_res_InrE if_Inl_InrE)
    (drule (1) write_stepped(1) [OF _ _ ok cancel.revisioned_axioms]; auto simp: cancel_columns_def moves)

lemma finish_stepped:
  assumes ok: "operations_ok st" and run: "finish_operation X now i expected good summary errors m context st = Inr (x, st')"
  shows "stepped x st st'"
  using run unfolding finish_operation_def Let_def
  by (elim bind_res_InrE if_Inl_InrE)
    (drule (1) write_stepped(1) [OF _ _ ok finish.revisioned_axioms]; auto simp: finish_columns_def moves)

subsection \<open>Every sequence of steps\<close>

text \<open>The calls of a worker or a caller, each naming the revision it read.\<close>

datatype operation_call =
    Start_Call
  | Progress_Call int "int option" "string option"
  | Request_Call "operation \<Rightarrow> bool"
  | Cancel_Call string
  | Finish_Call bool "payload option" "pyval list option" string

fun run_call ::
    "externals \<Rightarrow> datetime \<Rightarrow> audit_context option \<Rightarrow> uuid \<Rightarrow> int \<Rightarrow> operation_call
       \<Rightarrow> operation_store \<Rightarrow> (operation_err, operation \<times> operation_store) res" where
  "run_call X now context i revision Start_Call st = start_operation X now i revision context st"
| "run_call X now context i revision (Progress_Call current t m) st =
     update_operation_progress X now i revision current t m context st"
| "run_call X now context i revision (Request_Call scope) st =
     request_operation_cancellation X now scope i revision context st"
| "run_call X now context i revision (Cancel_Call m) st = cancel_operation X now i revision m context st"
| "run_call X now context i revision (Finish_Call good summary errors m) st =
     finish_operation X now i revision good summary errors m context st"

inductive operation_step :: "externals \<Rightarrow> operation_store \<Rightarrow> operation_store \<Rightarrow> bool" for X where
  create: "create_operation X now new_id kind can_cancel t m context st = Inr (x, st') \<Longrightarrow> operation_step X st st'"
| call: "run_call X now context i revision c st = Inr (x, st') \<Longrightarrow> operation_step X st st'"
| elsewhere: "(\<And>i. trail i site = trail i (op_site st)) \<Longrightarrow> operation_step X st (st\<lparr>op_site := site\<rparr>)"

lemma run_call_stepped:
  assumes "operations_ok st" and "run_call X now context i revision c st = Inr (x, st')"
  shows "st' = st \<or> stepped x st st'"
proof (cases c)
  case (Request_Call scope)
  with assms(2) have "request_operation_cancellation X now scope i revision context st = Inr (x, st')" by simp
  from request_stepped [OF assms(1) this] show ?thesis by blast
qed (use assms(2) start_stepped [OF assms(1)] progress_stepped [OF assms(1)] cancel_stepped [OF assms(1)]
    finish_stepped [OF assms(1)] in auto)

definition operations_later :: "operation_store \<Rightarrow> operation_store \<Rightarrow> bool" where
  "operations_later st st' \<longleftrightarrow> (\<forall>r \<in> set (operations st). \<exists>r' \<in> set (operations st'). operation_later r r')"

lemma operations_later_refl: "operations_later st st"
  using operation_later_refl by (auto simp: operations_later_def)

lemma stepped_ok:
  assumes ok: "operations_ok st" and step: "stepped x st st'"
  shows "operations_ok st' \<and> operations_later st st'"
proof -
  from step obtain r where r: "r \<in> set (operations st)" "moved r x" and rows: "operations st' = put_row op_id x (operations st)"
    and counted: "\<And>i. trail i (op_site st') = trail i (op_site st) + (if i = op_id x then 1 else 0)"
    by (auto simp: stepped_def)
  have same: "op_id r = op_id x" "op_revision x = op_revision r + 1" "operation_ok x"
    using r(2) by (simp_all add: moved_def)
  have rows': "set (operations st') = insert x {y \<in> set (operations st). op_id y \<noteq> op_id x}"
    using set_put_row [OF r(1) same(1)] rows by simp
  have ids: "op_id ` set (operations st') = op_id ` set (operations st)"
    using keys_put_row [of op_id x "operations st"] rows by (metis set_map)
  have "distinct (map op_id (operations st'))" using operations_okD(1) [OF ok] by (simp add: rows)
  moreover have "operation_ok y \<and> trail (op_id y) (op_site st') = op_revision y" if "y \<in> set (operations st')" for y
    using that ok r(1) same by (auto simp: rows' counted operations_ok_def)
  moreover have "trail i (op_site st') = 0" if "i \<notin> op_id ` set (operations st')" for i
    using that ok r(1) same(1) unfolding ids by (auto simp: counted operations_ok_def intro: rev_image_eqI)
  ultimately have "operations_ok st'" by (simp add: operations_ok_def)
  moreover have later: "operation_later y (if op_id y = op_id x then x else y)" if "y \<in> set (operations st)" for y
  proof (cases "op_id y = op_id x")
    case True
    then have "y = r" using distinct_key_eq [OF operations_okD(1) [OF ok]] that r(1) same(1) by simp
    then show ?thesis using moved_later [OF r(2)] same by simp
  qed (simp add: operation_later_refl)
  have "\<exists>z \<in> set (operations st'). operation_later y z" if "y \<in> set (operations st)" for y
    using later [OF that] that unfolding rows' by (cases "op_id y = op_id x") auto
  ultimately show ?thesis by (simp add: operations_later_def)
qed

lemma create_operation_ok:
  assumes ok: "operations_ok st" and run: "create_operation X now new_id kind can_cancel t m context st = Inr (x, st')"
  shows "operations_ok st' \<and> operations_later st st'"
proof -
  from run obtain db where new: "new_id \<notin> op_id ` set (operations st)" and st': "st' = \<lparr>op_site = db, operations = operations st @ [x]\<rparr>"
    and x: "operation_ok x" "op_id x = new_id" "op_revision x = 1"
    and audit: "\<exists>action changes context. audit_operation X x action changes context (op_site st) = Inr db"
    unfolding create_operation_def Let_def
    by (elim bind_res_InrE if_Inl_InrE) (auto simp: operation_ok_def terminal_status_def not_less split: option.splits; blast)
  from audit obtain action changes ctx where "audit_operation X x action changes ctx (op_site st) = Inr db" by blast
  note counted = audit_operation_Inr [OF this]
  have other: "y \<in> set (operations st) \<Longrightarrow> op_id y \<noteq> new_id" for y using new by (metis image_eqI)
  have "operations_ok st'"
    using ok new x other unfolding operations_ok_def st' by (auto simp: counted)
  then show ?thesis using operation_later_refl by (auto simp: operations_later_def st')
qed

lemma operation_step_ok: "operation_step X st st' \<Longrightarrow> operations_ok st \<Longrightarrow> operations_ok st' \<and> operations_later st st'"
proof (induction rule: operation_step.induct)
  case (create now new_id kind can_cancel t m c st x st')
  then show ?case by (intro create_operation_ok)
next
  case (call now ctx i revision c st x st')
  then show ?case using run_call_stepped [OF call(2,1)] stepped_ok operations_later_refl by blast
next
  case (elsewhere site st)
  then show ?case using operation_later_refl by (auto simp: operations_ok_def operations_later_def)
qed

lemma operation_steps_ok:
  "(operation_step X)\<^sup>*\<^sup>* st st' \<Longrightarrow> operations_ok st \<Longrightarrow> operations_ok st' \<and> operations_later st st'"
proof (induction rule: rtranclp_induct)
  case (step mid st')
  then have mid: "operations_ok mid" "operations_later st mid" by simp_all
  with operation_step_ok [OF step.hyps(2)] have "operations_ok st'" "operations_later mid st'" by simp_all
  with mid operation_later_trans show ?case unfolding operations_later_def by blast
qed (simp add: operations_later_refl)

end
