(* ===== verification/Mg_Operations.thy ===== *)
theory Mg_Operations
  imports Mg_Http Core_Operations
begin

text \<open>
  The operations of an API principal (\<open>management_api/operations.py\<close>): it creates, reads and asks to cancel
  its own operations only. Python's reader of UUID texts is a parameter.
\<close>

definition principal_operations :: "principal \<Rightarrow> operation \<Rightarrow> bool" where
  "principal_operations p r \<longleftrightarrow> op_principal r = Some (principal_id p)"

definition principal_context :: "principal \<Rightarrow> audit_context" where
  "principal_context p = \<lparr>ac_actor_id = None, ac_principal = Some (principal_id p),
     ac_actor_ref = principal_ref (principal_id p), ac_key_hash = []\<rparr>"

definition create_principal_operation ::
    "externals \<Rightarrow> datetime \<Rightarrow> uuid \<Rightarrow> principal \<Rightarrow> string \<Rightarrow> bool \<Rightarrow> int option
       \<Rightarrow> operation_store \<Rightarrow> (operation_err, operation \<times> operation_store) res" where
  "create_principal_operation X now new_id p kind can_cancel new_total st =
     create_operation X now new_id kind can_cancel new_total [] (Some (principal_context p)) st"

definition get_principal_operation ::
    "(string \<Rightarrow> uuid option) \<Rightarrow> principal \<Rightarrow> string \<Rightarrow> operation_store \<Rightarrow> operation option" where
  "get_principal_operation parse_uuid p raw_operation_id st = (case parse_uuid raw_operation_id of
     None \<Rightarrow> None
   | Some i \<Rightarrow> List.find (\<lambda>r. principal_operations p r \<and> op_id r = i) (operations st))"

definition cancel_principal_operation ::
    "externals \<Rightarrow> datetime \<Rightarrow> principal \<Rightarrow> uuid \<Rightarrow> int
       \<Rightarrow> operation_store \<Rightarrow> (operation_err, operation \<times> operation_store) res" where
  "cancel_principal_operation X now p i expected_revision st =
     request_operation_cancellation X now (principal_operations p) i expected_revision (Some (principal_context p)) st"

definition present_operation :: "operation \<Rightarrow> (site_err, payload) res" where
  "present_operation r = bind_res (revision_etag (op_revision r)) (\<lambda>etag. Inr
     [(''id'', PStr (uuid_str (op_id r))), (''kind'', PStr (op_kind r)),
      (''status'', PStr (status_value (op_status r))),
      (''progress'', PDict [(''current'', PInt (progress_current r)),
         (''total'', (case progress_total r of None \<Rightarrow> PNone | Some t \<Rightarrow> PInt t))]),
      (''cancellable'', PBool (cancellable r)),
      (''cancellation_requested'', PBool (cancellation_requested r \<noteq> None)),
      (''message'', PStr (op_message r)), (''result'', result_summary r), (''errors'', op_errors r),
      (''revision'', PInt (op_revision r)), (''etag'', PStr etag)])"

text \<open>An operation of the table is always presented: its revision is positive.\<close>

lemma present_operation_total: "operation_ok r \<Longrightarrow> \<exists>d. present_operation r = Inr d"
  by (simp add: present_operation_def revision_etag_def operation_ok_def)

text \<open>A principal that asks to cancel changes no operation but its own.\<close>

lemma cancel_principal_own:
  assumes ok: "operations_ok st" and run: "cancel_principal_operation X now p i revision st = Inr (x, st')"
    and other: "r \<in> set (operations st)" "op_principal r \<noteq> Some (principal_id p)"
  shows "r \<in> set (operations st')" and "op_principal x = Some (principal_id p)"
proof -
  from run obtain own where own: "lock_operation (principal_operations p) i revision st = Inr own"
    unfolding cancel_principal_operation_def request_operation_cancellation_def by blast
  note lock = lock_operation_Inr [OF own]
  have mine: "op_principal y = Some (principal_id p)" if "y \<in> set (operations st)" "op_id y = i" for y
    using distinct_key_eq [OF operations_okD(1) [OF ok] that(1) lock(1)] that(2) lock(2,5)
    by (simp add: principal_operations_def)
  from request_stepped [OF ok run [unfolded cancel_principal_operation_def]]
  show "op_principal x = Some (principal_id p)"
    using mine by (auto simp: stepped_def moved_def)
  from request_stepped [OF ok run [unfolded cancel_principal_operation_def]]
  show "r \<in> set (operations st')"
    using other mine by (auto simp: stepped_def moved_def put_row_def)
qed

end
