(* ===== verification/Core_Webhook.thy ===== *)
theory Core_Webhook
  imports Core_Idempotency
begin

text \<open>
  The course repository webhook: deliveries (\<open>content_sync/webhook_delivery.py\<close>), whose signature is
  verified before the delivery id is fenced against the digest of the body, the parsing of a push
  (\<open>content_sync/course_repository_webhook.py\<close>) and the view that enqueues the import of a commit
  (\<open>api/views/course_repository_webhooks.py\<close>). HMAC and SHA-256 are functions of \<open>externals\<close>; the code
  points of a text are below 256, so it encodes. \<open>json.loads\<close>, the UUID reader and the dispatcher of the
  job queue are parameters.
\<close>

subsection \<open>Deliveries\<close>

definition max_body_bytes_limit :: int where "max_body_bytes_limit = 256 * 1024"
definition max_secret_bytes :: nat where "max_secret_bytes = 4 * 1024"
definition max_delivery_id_bytes :: nat where "max_delivery_id_bytes = 128"

text \<open>\<open>WebhookSignatureInvalid\<close> is a \<open>WebhookDeliveryError\<close> with a reason of its own.\<close>

definition signature_invalid :: site_err where
  "signature_invalid = Webhook_Error ''webhook_signature_invalid''"

definition validate_body :: "int list \<Rightarrow> int \<Rightarrow> (site_err, int list) res" where
  "validate_body body max_body_bytes =
     (if \<not> (1 \<le> max_body_bytes \<and> max_body_bytes \<le> max_body_bytes_limit)
      then Inl (Webhook_Error ''webhook_body_limit_invalid'')
      else if body = [] then Inl (Webhook_Error ''webhook_body_empty'')
      else if int (length body) > max_body_bytes then Inl (Webhook_Error ''webhook_body_too_large'')
      else Inr body)"

text \<open>A secret is bytes or text.\<close>

datatype secret = Secret_Bytes "int list" | Secret_Text string

definition validate_secret :: "secret \<Rightarrow> (site_err, int list) res" where
  "validate_secret secret =
     (let v = (case secret of Secret_Bytes bs \<Rightarrow> bs | Secret_Text s \<Rightarrow> utf8 s)
      in if v = [] then Inl (Webhook_Error ''webhook_secret_empty'')
         else if length v > max_secret_bytes then Inl (Webhook_Error ''webhook_secret_too_large'')
         else Inr v)"

definition signature_prefix :: string where "signature_prefix = ''sha256=''"

definition validate_signature :: "string \<Rightarrow> (site_err, string) res" where
  "validate_signature signature =
     (let digest = drop (length signature_prefix) signature
      in if take (length signature_prefix) signature = signature_prefix \<and> sha256_ok digest then Inr digest
         else Inl signature_invalid)"

definition validate_namespace :: "string \<Rightarrow> (site_err, string) res" where
  "validate_namespace namespace =
     (if identifier_ok namespace then Inr namespace else Inl (Webhook_Error ''webhook_namespace_invalid''))"

definition validate_delivery_id :: "string \<Rightarrow> (site_err, string) res" where
  "validate_delivery_id delivery_id =
     (if delivery_id = [] \<or> length (utf8 delivery_id) > max_delivery_id_bytes
        \<or> list_ex (\<lambda>c. py_space c \<or> \<not> py_printable c) delivery_id
      then Inl (Webhook_Error ''webhook_delivery_id_invalid'') else Inr delivery_id)"

definition validate_body_digest :: "string \<Rightarrow> (site_err, string) res" where
  "validate_body_digest body_sha256 =
     (if sha256_ok body_sha256 then Inr body_sha256 else Inl (Webhook_Error ''webhook_body_digest_invalid''))"

definition verify_webhook_signature ::
    "externals \<Rightarrow> int list \<Rightarrow> secret \<Rightarrow> string \<Rightarrow> int \<Rightarrow> (site_err, string) res" where
  "verify_webhook_signature X body secret signature max_body_bytes =
     bind_res (validate_body body max_body_bytes) (\<lambda>raw_body.
     bind_res (validate_secret secret) (\<lambda>raw_secret.
     bind_res (validate_signature signature) (\<lambda>provided_digest.
     if hmac_sha256 X raw_secret raw_body \<noteq> provided_digest then Inl signature_invalid
     else Inr (sha256 X raw_body))))"

record webhook_result =
  wh_accepted :: bool
  wh_body_sha256 :: string
  wh_record :: uuid

text \<open>What carries the clock and the ids of the fence, and the domain command (\<open>None\<close> for none).\<close>

record delivery =
  dl_now :: datetime
  dl_record :: uuid
  dl_owner :: uuid
  dl_namespace :: string
  dl_id :: string

type_synonym domain_command = "(site_db \<Rightarrow> (site_err, site_db) res) option"

definition persist_fence :: "domain_command \<Rightarrow> string \<Rightarrow> core_command" where
  "persist_fence run digest db = (case run of
     None \<Rightarrow> Inr (PDict [(''body_sha256'', PStr digest)], db)
   | Some f \<Rightarrow> (case f db of
       Inl e \<Rightarrow> Inl Command_Failed
     | Inr db \<Rightarrow> Inr (PDict [(''body_sha256'', PStr digest)], db)))"

definition delivery_call :: "delivery \<Rightarrow> string \<Rightarrow> idempotency_call" where
  "delivery_call d digest = \<lparr>call_now = dl_now d, call_record = dl_record d, call_owner = dl_owner d,
     call_scope = dl_namespace d, call_key = dl_id d, call_request = PDict [(''body_sha256'', PStr digest)]\<rparr>"

text \<open>\<open>WebhookDeliveryConflict\<close> and \<open>WebhookDeliveryInProgress\<close> keep their base classes.\<close>

definition delivery_conflict :: site_err where
  "delivery_conflict = Idempotency_Conflict ''webhook_delivery_conflict''"

definition fence_error :: "site_err \<Rightarrow> site_err" where
  "fence_error e = (case e of
     Idempotency_Conflict m \<Rightarrow> delivery_conflict
   | Idempotency_In_Progress m \<Rightarrow> Idempotency_In_Progress ''webhook_delivery_in_progress''
   | _ \<Rightarrow> e)"

definition fence_webhook_delivery ::
    "externals \<Rightarrow> delivery \<Rightarrow> string \<Rightarrow> domain_command \<Rightarrow> site_db \<Rightarrow> (site_err, webhook_result \<times> site_db) res" where
  "fence_webhook_delivery X d body_sha256 run db =
     bind_res (validate_namespace (dl_namespace d)) (\<lambda>_.
     bind_res (validate_delivery_id (dl_id d)) (\<lambda>_.
     bind_res (validate_body_digest body_sha256) (\<lambda>digest.
     case execute_idempotent X (delivery_call d digest) (persist_fence run digest) db of
       Inl e \<Rightarrow> Inl (fence_error e)
     | Inr (result, db') \<Rightarrow>
         if (case result_value result of PDict v \<Rightarrow> get_key ''body_sha256'' v | _ \<Rightarrow> PNone) \<noteq> PStr digest
         then Inl delivery_conflict
         else Inr (\<lparr>wh_accepted = (\<not> replayed result), wh_body_sha256 = digest, wh_record = result_record result\<rparr>, db'))))"

definition authenticate_and_fence_webhook_delivery ::
    "externals \<Rightarrow> delivery \<Rightarrow> int list \<Rightarrow> secret \<Rightarrow> string \<Rightarrow> int \<Rightarrow> domain_command \<Rightarrow> site_db
       \<Rightarrow> (site_err, webhook_result \<times> site_db) res" where
  "authenticate_and_fence_webhook_delivery X d body secret signature max_body_bytes run db =
     bind_res (verify_webhook_signature X body secret signature max_body_bytes) (\<lambda>body_sha256.
       fence_webhook_delivery X d body_sha256 run db)"

subsection \<open>Pushes\<close>

definition course_adapter_type :: string where "course_adapter_type = ''course_repository_v1''"
definition course_webhook_namespace :: string where "course_webhook_namespace = ''github.course_repository''"
definition course_job_handler :: string where "course_job_handler = ''content_sync.course_repository_sync.import_commit''"
definition course_parser_version :: string where "course_parser_version = ''course-repository-v1''"

definition ascii_alnum :: "char \<Rightarrow> bool" where
  "ascii_alnum c \<longleftrightarrow> ascii_digit c \<or> lower_letter c \<or> (let n = (of_char c :: nat) in 65 \<le> n \<and> n \<le> 90)"

text \<open>\<open>^[0-9a-f]{40}$\<close>, \<open>^[A-Za-z0-9][A-Za-z0-9._-]{0,127}$\<close> and \<open>^[A-Za-z0-9][A-Za-z0-9._/-]{0,254}$\<close>.\<close>

definition sha1_pattern :: "string \<Rightarrow> bool" where
  "sha1_pattern s \<longleftrightarrow> length s = 40 \<and> list_all hex_lower s"

definition repository_component_pattern :: "string \<Rightarrow> bool" where
  "repository_component_pattern s \<longleftrightarrow> s \<noteq> [] \<and> length s \<le> 128 \<and> ascii_alnum (hd s)
     \<and> list_all (\<lambda>c. ascii_alnum c \<or> c \<in> set ''._-'') (tl s)"

definition branch_pattern :: "string \<Rightarrow> bool" where
  "branch_pattern s \<longleftrightarrow> s \<noteq> [] \<and> length s \<le> 255 \<and> ascii_alnum (hd s)
     \<and> list_all (\<lambda>c. ascii_alnum c \<or> c \<in> set ''._/-'') (tl s)"

record course_push =
  push_owner :: string
  push_repository :: string
  push_branch :: string
  push_commit :: string
  push_deleted :: bool

definition required_text :: "pyval \<Rightarrow> string \<Rightarrow> (string \<Rightarrow> bool) \<Rightarrow> (string, string) res" where
  "required_text v code pattern = (case v of
     PStr s \<Rightarrow> if pattern s then Inr s else Inl code | _ \<Rightarrow> Inl code)"

definition ref_prefix :: string where "ref_prefix = ''refs/heads/''"

text \<open>The errors are the codes of \<open>CourseRepositoryWebhookError\<close>.\<close>

definition parse_repository :: "payload \<Rightarrow> (string, string \<times> string) res" where
  "parse_repository repository =
     (let code = ''github_repository_invalid''
      in case get_key ''full_name'' repository of
        PStr full_name \<Rightarrow>
          if length (filter (\<lambda>c. c = CHR ''/'') full_name) \<noteq> 1 then Inl code
          else
            let parts = py_split (CHR ''/'') full_name
            in bind_res (required_text (PStr (hd parts)) code repository_component_pattern) (\<lambda>owner.
               bind_res (required_text (PStr (last parts)) code repository_component_pattern) (\<lambda>repository_name.
               let nested = (case get_key ''owner'' repository of PDict d \<Rightarrow> get_key ''login'' d | _ \<Rightarrow> PNone)
               in if nested \<noteq> PNone \<and> nested \<noteq> PStr owner then Inl code
                  else if get_key ''name'' repository \<noteq> PNone \<and> get_key ''name'' repository \<noteq> PStr repository_name
                  then Inl code
                  else Inr (owner, repository_name)))
      | _ \<Rightarrow> Inl code)"

definition parse_branch :: "pyval \<Rightarrow> (string, string) res" where
  "parse_branch ref = (let code = ''github_ref_invalid'' in case ref of
     PStr s \<Rightarrow>
       if take (length ref_prefix) s \<noteq> ref_prefix then Inl code
       else bind_res (required_text (PStr (drop (length ref_prefix) s)) code branch_pattern) (\<lambda>branch.
         if py_contains ''..'' branch \<or> last branch = CHR ''/'' \<or> py_contains ''//'' branch then Inl code else Inr branch)
   | _ \<Rightarrow> Inl code)"

definition parse_github_course_push :: "pyval \<Rightarrow> string \<Rightarrow> (string, course_push) res" where
  "parse_github_course_push body event_type =
     (if event_type \<noteq> ''push'' then Inl ''github_event_not_push''
      else case body of
        PDict payload \<Rightarrow>
          (case get_key ''repository'' payload of
             PDict repository \<Rightarrow>
               bind_res (parse_repository repository) (\<lambda>(owner, repository_name).
               bind_res (parse_branch (get_key ''ref'' payload)) (\<lambda>branch.
               bind_res (required_text (get_key ''after'' payload) ''github_commit_invalid'' sha1_pattern) (\<lambda>commit_sha.
               if (has_key ''deleted'' payload \<and> get_key ''deleted'' payload \<noteq> PBool False)
                  \<or> commit_sha = replicate 40 (CHR ''0'')
               then Inl ''github_push_deleted''
               else Inr \<lparr>push_owner = owner, push_repository = repository_name, push_branch = branch,
                 push_commit = commit_sha, push_deleted = False\<rparr>)))
           | _ \<Rightarrow> Inl ''github_repository_invalid'')
      | _ \<Rightarrow> Inl ''github_payload_invalid'')"

subsection \<open>The view\<close>

record webhook_env =
  we_now :: datetime
  we_record :: uuid
  we_owner :: uuid
  we_secret :: string
  we_loads :: "int list \<Rightarrow> pyval option"
  we_parse_uuid :: "string \<Rightarrow> uuid option"
  we_dispatch :: "site_err dispatcher"

record webhook_request =
  wr_method :: string
  wr_delivery :: string
  wr_signature :: string
  wr_event :: string
  wr_body :: "int list"

text \<open>The status and the fields of the JSON answer.\<close>

type_synonym webhook_response = "int \<times> payload"

definition webhook_failure :: "string \<Rightarrow> int \<Rightarrow> webhook_response" where
  "webhook_failure code status = (status, [(''error'', PStr code)])"

definition registered_source :: "course_push \<Rightarrow> content_source \<Rightarrow> bool" where
  "registered_source push s \<longleftrightarrow> source_enabled s \<and> source_adapter s = course_adapter_type
     \<and> source_owner s = push_owner push \<and> source_name s = push_repository push \<and> source_branch s = push_branch push"

definition find_source :: "course_push \<Rightarrow> site_db \<Rightarrow> content_source option" where
  "find_source push db = (case sort_key source_id (filter (registered_source push) (content_sources db)) of
     [] \<Rightarrow> None | s # rest \<Rightarrow> Some s)"

definition delivery_record_id :: "externals \<Rightarrow> string \<Rightarrow> site_db \<Rightarrow> (site_err, uuid) res" where
  "delivery_record_id X delivery_id db =
     bind_res (hash_idempotency_key X course_webhook_namespace delivery_id) (\<lambda>key_hash.
       case List.find (\<lambda>r. ir_scope r = course_webhook_namespace \<and> ir_key_hash r = key_hash) (idempotency_records db) of
         None \<Rightarrow> Inl Does_Not_Exist | Some r \<Rightarrow> Inr (ir_id r))"

definition course_job_key :: "content_source \<Rightarrow> string \<Rightarrow> string" where
  "course_job_key s commit_sha =
     ''course-source:'' @ uuid_str (source_id s) @ '':'' @ commit_sha @ '':'' @ course_parser_version"

definition course_job_payload :: "content_source \<Rightarrow> string \<Rightarrow> uuid \<Rightarrow> payload" where
  "course_job_payload s commit_sha record_id =
     [(''source_uuid'', PStr (uuid_str (source_id s))), (''commit_sha'', PStr commit_sha),
      (''delivery_record_id'', PStr (uuid_str record_id))]"

text \<open>A second delivery of a commit may keep the job of the first, with the first delivery's record id.\<close>

definition same_commit_job :: "webhook_env \<Rightarrow> payload \<Rightarrow> job \<Rightarrow> bool" where
  "same_commit_job env payload j \<longleftrightarrow> (let original = job_payload j in
     fst ` set original = fst ` set payload
     \<and> get_key ''source_uuid'' original = get_key ''source_uuid'' payload
     \<and> get_key ''commit_sha'' original = get_key ''commit_sha'' payload
     \<and> (case get_key ''delivery_record_id'' original of PStr t \<Rightarrow> we_parse_uuid env t \<noteq> None | _ \<Rightarrow> False))"

definition enqueue_job ::
    "externals \<Rightarrow> webhook_env \<Rightarrow> string \<Rightarrow> content_source \<Rightarrow> string \<Rightarrow> site_db \<Rightarrow> (site_err, site_db) res" where
  "enqueue_job X env delivery_id s commit_sha db =
     bind_res (delivery_record_id X delivery_id db) (\<lambda>record_id.
       let key = course_job_key s commit_sha; payload = course_job_payload s commit_sha record_id
       in case we_dispatch env course_job_handler key payload (job_intents db) of
            Inr (queued, rows) \<Rightarrow> Inr (db\<lparr>job_intents := rows\<rparr>)
          | Inl conflict \<Rightarrow>
              (case List.find (\<lambda>j. dedup_key j = key) (job_intents db) of
                 None \<Rightarrow> Inl Does_Not_Exist
               | Some existing \<Rightarrow>
                   if \<not> same_commit_job env payload existing then Inl conflict
                   else bind_res (we_dispatch env course_job_handler key (job_payload existing) (job_intents db))
                     (\<lambda>(queued, rows). Inr (db\<lparr>job_intents := rows\<rparr>))))"

definition webhook_refusal :: "site_err \<Rightarrow> webhook_response option" where
  "webhook_refusal e = (case e of
     Idempotency_Conflict m \<Rightarrow> Some (webhook_failure ''github_delivery_conflict'' 409)
   | Idempotency_In_Progress m \<Rightarrow> Some (webhook_failure ''github_delivery_in_progress'' 503)
   | Command_Failed \<Rightarrow> Some (webhook_failure ''course_repository_enqueue_failed'' 503)
   | Webhook_Error m \<Rightarrow> Some (webhook_failure ''github_delivery_invalid'' 400)
   | Value_Error m \<Rightarrow> Some (webhook_failure ''github_delivery_invalid'' 400)
   | _ \<Rightarrow> None)"

definition delivery_of :: "webhook_env \<Rightarrow> webhook_request \<Rightarrow> delivery" where
  "delivery_of env rq = \<lparr>dl_now = we_now env, dl_record = we_record env, dl_owner = we_owner env,
     dl_namespace = course_webhook_namespace, dl_id = wr_delivery rq\<rparr>"

text \<open>\<open>None\<close> is an exception that leaves the view.\<close>

definition github_course_repository_webhook ::
    "externals \<Rightarrow> webhook_env \<Rightarrow> webhook_request \<Rightarrow> site_db \<Rightarrow> webhook_response option \<times> site_db" where
  "github_course_repository_webhook X env rq db =
     (if wr_method rq \<noteq> ''POST'' then (Some (405, []), db)
      else if we_secret env = [] then (Some (webhook_failure ''course_repository_webhook_not_configured'' 503), db)
      else case verify_webhook_signature X (wr_body rq) (Secret_Text (we_secret env)) (wr_signature rq) max_body_bytes_limit of
        Inl e \<Rightarrow> (Some (webhook_failure ''github_signature_invalid'' 401), db)
      | Inr body_sha256 \<Rightarrow>
          (case we_loads env (wr_body rq) of
             None \<Rightarrow> (Some (webhook_failure ''github_payload_invalid'' 400), db)
           | Some body \<Rightarrow>
               (case parse_github_course_push body (wr_event rq) of
                  Inl code \<Rightarrow> (Some (webhook_failure code 400), db)
                | Inr push \<Rightarrow>
                    (case find_source push db of
                       None \<Rightarrow> (Some (webhook_failure ''course_repository_source_unregistered'' 404), db)
                     | Some s \<Rightarrow>
                         (case fence_webhook_delivery X (delivery_of env rq) body_sha256
                             (Some (enqueue_job X env (wr_delivery rq) s (push_commit push))) db of
                            Inl e \<Rightarrow> (webhook_refusal e, db)
                          | Inr (result, db) \<Rightarrow>
                              (Some (202, [(''outcome'', PStr (if wh_accepted result then ''accepted'' else ''replayed'')),
                                 (''delivery_record_id'', PStr (uuid_str (wh_record result)))]), db))))))"

subsection \<open>What a delivery does\<close>

lemma enqueue_job_Inr:
  assumes "enqueue_job X env delivery_id s commit_sha db = Inr db'"
  obtains record_id payload j new rows where "delivery_record_id X delivery_id db = Inr record_id"
    and "we_dispatch env course_job_handler (course_job_key s commit_sha) payload (job_intents db) = Inr ((j, new), rows)"
    and "payload = course_job_payload s commit_sha record_id
      \<or> same_commit_job env (course_job_payload s commit_sha record_id) (j\<lparr>job_payload := payload\<rparr>)"
    and "db' = db\<lparr>job_intents := rows\<rparr>"
  using assms by (auto simp: enqueue_job_def Let_def same_commit_job_def split: sum.splits option.splits if_splits)

lemma enqueue_job_keeps: "keeps_records (persist_fence (Some (enqueue_job X env delivery_id s commit_sha)) digest)"
  by (auto simp: keeps_records_def persist_fence_def split: sum.splits elim!: enqueue_job_Inr)

lemma fence_Inr:
  assumes "fence_webhook_delivery X d body_sha256 run db = Inr (r, db')"
  obtains a where "execute_idempotent X (delivery_call d body_sha256) (persist_fence run body_sha256) db = Inr (a, db')"
    and "wh_accepted r \<longleftrightarrow> \<not> replayed a" and "wh_record r = result_record a" and "sha256_ok body_sha256"
  using assms
  by (auto simp: fence_webhook_delivery_def validate_body_digest_def split: sum.splits if_splits)

lemma delivery_call_simps [simp]:
  "call_scope (delivery_call d digest) = dl_namespace d" "call_key (delivery_call d digest) = dl_id d"
  by (simp_all add: delivery_call_def)

lemma delivery_record:
  assumes "dl_namespace d = dl_namespace d'" and "dl_id d = dl_id d'"
  shows "record_of X (delivery_call d digest) db = record_of X (delivery_call d' digest') db"
proof -
  have "call_keys X (delivery_call d digest) = call_keys X (delivery_call d' digest')"
    unfolding call_keys_def delivery_call_simps assms ..
  then show ?thesis by (simp add: record_of_def)
qed

lemma fence_silent:
  assumes "record_of X (delivery_call d digest) db \<noteq> None" and "fence_webhook_delivery X d digest run db = Inr (r, db')"
  shows "db' = db"
  by (rule fence_Inr [OF assms(2)]) (rule core_execution.silent [OF assms(1)])

text \<open>An accepted delivery leaves its record, whoever asks for it later.\<close>

lemma fence_remembers:
  assumes run: "fence_webhook_delivery X d digest run db = Inr (r, db')" and keep: "keeps_records (persist_fence run digest)"
  shows "record_of X (delivery_call d digest) db' \<noteq> None"
proof (rule fence_Inr [OF run])
  fix a assume a: "execute_idempotent X (delivery_call d digest) (persist_fence run digest) db = Inr (a, db')"
  show ?thesis
  proof (cases "record_of X (delivery_call d digest) db")
    case None
    then show ?thesis using core_execution.remembered [OF a keep TrueI] by simp
  next
    case (Some x)
    then show ?thesis using core_execution.silent [OF _ a] by simp
  qed
qed

text \<open>The requests that get past the checks of the view.\<close>

lemma webhook_view_cases:
  assumes "github_course_repository_webhook X env rq db = (answer, db')"
  obtains (refused) "db' = db" and "\<And>b. answer \<noteq> Some (202, b)"
  | (served) digest body push s r where "verify_webhook_signature X (wr_body rq) (Secret_Text (we_secret env)) (wr_signature rq) max_body_bytes_limit = Inr digest"
      and "we_loads env (wr_body rq) = Some body" and "parse_github_course_push body (wr_event rq) = Inr push"
      and "find_source push db = Some s"
      and "fence_webhook_delivery X (delivery_of env rq) digest
          (Some (enqueue_job X env (wr_delivery rq) s (push_commit push))) db = Inr (r, db')"
      and "answer = Some (202, [(''outcome'', PStr (if wh_accepted r then ''accepted'' else ''replayed'')),
             (''delivery_record_id'', PStr (uuid_str (wh_record r)))])"
  using assms
  by (auto simp: github_course_repository_webhook_def webhook_failure_def webhook_refusal_def
      split: if_splits sum.splits option.splits prod.splits site_err.splits)

lemma find_source_Some:
  assumes "find_source push db = Some s"
  shows "s \<in> set (content_sources db)" and "registered_source push s"
proof -
  from assms have "s \<in> set (sort_key source_id (filter (registered_source push) (content_sources db)))"
    unfolding find_source_def by (metis list.case_eq_if list.set_sel(1) option.distinct(1) option.sel)
  then show "s \<in> set (content_sources db)" "registered_source push s" by simp_all
qed

lemma verified_signature:
  assumes "verify_webhook_signature X body secret signature limit = Inr digest"
  obtains raw where "validate_secret secret = Inr raw" and "signature = signature_prefix @ hmac_sha256 X raw body"
    and "digest = sha256 X body" and "body \<noteq> []" and "int (length body) \<le> limit"
proof -
  from assms obtain raw provided where raw: "validate_secret secret = Inr raw"
    and provided: "validate_signature signature = Inr provided" "hmac_sha256 X raw body = provided"
    and body: "digest = sha256 X body" "body \<noteq> []" "int (length body) \<le> limit"
    by (auto simp: verify_webhook_signature_def validate_body_def split: if_splits)
  have "signature = signature_prefix @ provided"
    using provided(1) by (auto simp: validate_signature_def Let_def split: if_splits)
      (metis append_take_drop_id)
  then show thesis using that raw provided(2) body by blast
qed

end
