(* ===== verification/Public_Pagination.thy ===== *)
theory Public_Pagination
  imports Py_Number
begin

text \<open>
  The paginator of the public catalogues (\<open>content/pagination.py\<close>, with the query filter of
  \<open>content/public_query.py\<close>): the grammar of the page query, the page URLs, the window of page numbers and
  the slices. The title, whose dash is no Latin-1 character, and the templates of the error pages are
  left out.
\<close>

datatype page_err =
    Invalid_Query
  | Page_Not_Found
  | Page_Value_Error string

subsection \<open>The query\<close>

definition max_raw_query_length :: nat where "max_raw_query_length = 512"
definition public_page_size :: int where "public_page_size = 20"
definition public_max_page :: int where "public_max_page = 999"

definition pagination_paths :: "string list" where
  "pagination_paths = [''/blog'', ''/books'', ''/events/past'', ''/wiki'']"

definition parameter_name :: "string \<Rightarrow> string" where
  "parameter_name segment = hd (py_split (CHR ''='') segment)"

definition selector_query :: "string \<Rightarrow> string list \<Rightarrow> string option" where
  "selector_query raw_query selectors =
     (if length raw_query > max_raw_query_length then None
      else Some (py_join ''&'' (filter (\<lambda>segment. parameter_name segment \<in> set selectors) (py_split (CHR ''&'') raw_query))))"

text \<open>\<open>page=([1-9][0-9]{0,2})\Z\<close>: the digits.\<close>

definition page_digits :: "string \<Rightarrow> string option" where
  "page_digits s = (let digits = drop 5 s in
     if take 5 s = ''page='' \<and> digits \<noteq> [] \<and> length digits \<le> 3 \<and> list_all digit digits \<and> hd digits \<noteq> CHR ''0''
     then Some digits else None)"

definition parse_public_page_query :: "string \<Rightarrow> (page_err, int) res" where
  "parse_public_page_query raw_query = (case selector_query raw_query [''page''] of
     None \<Rightarrow> Inl Invalid_Query
   | Some selected \<Rightarrow>
       if selected = [] then Inr 1
       else if length selected > length ''page=999'' then Inl Invalid_Query
       else (case page_digits selected of None \<Rightarrow> Inl Invalid_Query | Some digits \<Rightarrow> Inr (digits_value digits)))"

subsection \<open>URLs and controls\<close>

definition validate_page_number :: "int \<Rightarrow> (page_err, unit) res" where
  "validate_page_number n = guard_res (1 \<le> n \<and> n \<le> public_max_page)
     (Page_Value_Error ''Page number is outside the supported public range.'')"

definition public_page_url :: "string \<Rightarrow> int \<Rightarrow> (page_err, string) res" where
  "public_page_url clean_base_path n =
     bind_res (guard_res (clean_base_path \<in> set pagination_paths)
       (Page_Value_Error ''Pagination requires a reviewed clean public catalogue path.'')) (\<lambda>_.
     bind_res (validate_page_number n) (\<lambda>_.
     Inr (if n = 1 then clean_base_path else clean_base_path @ ''?page='' @ py_str_int n)))"

text \<open>\<open>sorted({1, page_count} | set(range(max(1, n - 2), min(page_count, n + 2) + 1)))\<close>.\<close>

definition page_numbers :: "int \<Rightarrow> int \<Rightarrow> int list" where
  "page_numbers n page_count =
     sort (remdups ([1, page_count] @ [max 1 (n - 2) .. min page_count (n + 2)]))"

datatype control =
    Ellipsis
  | Page_Control int "string option" bool string

text \<open>The loop over the numbers, with the one before.\<close>

fun controls_from :: "int \<Rightarrow> string \<Rightarrow> int option \<Rightarrow> int list \<Rightarrow> (page_err, control list) res" where
  "controls_from n path previous [] = Inr []"
| "controls_from n path previous (number # numbers) =
     (let current = (number = n);
          gap = (case previous of None \<Rightarrow> [] | Some p \<Rightarrow> if number - p > 1 then [Ellipsis] else [])
      in bind_res (if current then Inr None else bind_res (public_page_url path number) (\<lambda>u. Inr (Some u))) (\<lambda>url.
         bind_res (controls_from n path (Some number) numbers) (\<lambda>rest.
         Inr (gap @ Page_Control number url current
           (if current then ''Page '' @ py_str_int number @ '', current page'' else ''Go to page '' @ py_str_int number)
           # rest))))"

definition controls :: "int \<Rightarrow> int \<Rightarrow> string \<Rightarrow> (page_err, control list) res" where
  "controls n page_count path = controls_from n path None (page_numbers n page_count)"

subsection \<open>Pages\<close>

record 'a pagination =
  page_items :: "'a list"
  total_items :: int
  page_number :: int
  page_count :: int
  clean_path :: string
  canonical_path :: string
  catalogue_label :: string
  previous_url :: "string option"
  previous_number :: "int option"
  next_url :: "string option"
  next_number :: "int option"
  page_controls :: "control list"

definition has_controls :: "'a pagination \<Rightarrow> bool" where
  "has_controls p \<longleftrightarrow> page_count p > 1"

definition first_item_number :: "'a pagination \<Rightarrow> int" where
  "first_item_number p = (if page_items p = [] then 0 else (page_number p - 1) * public_page_size + 1)"

definition last_item_number :: "'a pagination \<Rightarrow> int" where
  "last_item_number p = (page_number p - 1) * public_page_size + int (length (page_items p))"

definition optional_url :: "string \<Rightarrow> int option \<Rightarrow> (page_err, string option) res" where
  "optional_url path n = (case n of None \<Rightarrow> Inr None
     | Some n \<Rightarrow> bind_res (public_page_url path n) (\<lambda>u. Inr (Some u)))"

text \<open>How many pages a catalogue has: \<open>max(1, (total + size - 1) // size)\<close>.\<close>

definition pages_of :: "'a list \<Rightarrow> int" where
  "pages_of items = max 1 ((int (length items) + public_page_size - 1) div public_page_size)"

definition build_public_pagination ::
    "'a list \<Rightarrow> int \<Rightarrow> string \<Rightarrow> string \<Rightarrow> int \<Rightarrow> (page_err, 'a pagination) res" where
  "build_public_pagination items n path label page_size =
     bind_res (guard_res (page_size = public_page_size)
       (Page_Value_Error ''Public catalogue pagination uses exactly 20 items per page.'')) (\<lambda>_.
     bind_res (guard_res (py_strip label \<noteq> []) (Page_Value_Error ''An accessible catalogue label is required.'')) (\<lambda>_.
     bind_res (public_page_url path n) (\<lambda>canonical.
     let count = pages_of items in
     bind_res (guard_res (count \<le> public_max_page)
       (Page_Value_Error ''The public catalogue exceeds the supported page range.'')) (\<lambda>_.
     bind_res (guard_res (n \<le> count) Page_Not_Found) (\<lambda>_.
     let start = (n - 1) * page_size;
         previous = (if n > 1 then Some (n - 1) else None);
         following = (if n < count then Some (n + 1) else None) in
     bind_res (optional_url path previous) (\<lambda>prev_link.
     bind_res (optional_url path following) (\<lambda>next_link.
     bind_res (controls n count path) (\<lambda>cs.
     Inr \<lparr>page_items = take (nat page_size) (drop (nat start) items), total_items = int (length items),
       page_number = n, page_count = count, clean_path = path, canonical_path = canonical,
       catalogue_label = label, previous_url = prev_link, previous_number = previous,
       next_url = next_link, next_number = following, page_controls = cs\<rparr>))))))))"

text \<open>What the boundary answers: a page, or a finished response by its status.\<close>

datatype 'a page_answer = Page "'a pagination" | Response int

definition paginate_public_request ::
    "string \<Rightarrow> string \<Rightarrow> 'a list \<Rightarrow> string \<Rightarrow> string \<Rightarrow> int \<Rightarrow> (page_err, 'a page_answer) res" where
  "paginate_public_request verb query items path label page_size =
     (if verb \<notin> {''GET'', ''HEAD''} then Inr (Response 405)
      else case parse_public_page_query query of
        Inl e \<Rightarrow> Inr (Response 400)
      | Inr n \<Rightarrow>
          (case build_public_pagination items n path label page_size of
             Inl Page_Not_Found \<Rightarrow> Inr (Response 404)
           | Inl e \<Rightarrow> Inl e
           | Inr p \<Rightarrow> Inr (Page p)))"

subsection \<open>Reading a page URL back\<close>

lemma parse_page_number:
  assumes "1 \<le> n" and "n \<le> public_max_page"
  shows "parse_public_page_query (''page='' @ py_str_int n) = Inr n"
proof -
  obtain ds where ds: "py_str_int n = ds" "ds = nat_digits (nat n)" "ds \<noteq> []" "list_all digit ds" "digits_value ds = n"
    using assms by (auto intro: py_str_int_shape [of n])
  have len: "length ds \<le> 3" using length_nat_digits [of "nat n" 2] assms ds(2) by (simp add: public_max_page_def)
  have chars: "CHR ''&'' \<notin> set ds" "CHR ''='' \<notin> set ds" using ds(4) by (auto simp: list_all_iff digit_def Let_def)
  have plain: "CHR ''&'' \<notin> set (''page='' @ ds)" using chars by simp
  have name: "parameter_name (''page='' @ ds) = ''page''" by (simp add: parameter_name_def py_split_none [OF chars(2)])
  have "selector_query (''page='' @ ds) [''page''] = Some (''page='' @ ds)"
    using len unfolding selector_query_def py_split_none [OF plain] by (simp add: name max_raw_query_length_def del: append_Cons)
  moreover have "hd ds \<noteq> CHR ''0''" using leading_digit [of "nat n"] assms ds(2) by simp
  ultimately show ?thesis using ds len by (simp add: parse_public_page_query_def page_digits_def)
qed

text \<open>The query of a URL of a path: what follows the question mark, if there is one.\<close>

definition query_part :: "string \<Rightarrow> string \<Rightarrow> string" where
  "query_part path url = drop (Suc (length path)) url"

lemma page_url_read_back:
  assumes "public_page_url path n = Inr url"
  shows "parse_public_page_query (query_part path url) = Inr n" and "url = path \<or> url = path @ ''?'' @ query_part path url"
    and "1 \<le> n" and "n \<le> public_max_page" and "path \<in> set pagination_paths"
  using assms parse_page_number [of n]
  by (auto simp: public_page_url_def validate_page_number_def query_part_def parse_public_page_query_def selector_query_def
      parameter_name_def split: if_splits)

lemma public_page_url_total:
  "path \<in> set pagination_paths \<Longrightarrow> 1 \<le> n \<Longrightarrow> n \<le> public_max_page \<Longrightarrow> \<exists>u. public_page_url path n = Inr u"
  by (simp add: public_page_url_def validate_page_number_def)

subsection \<open>The window\<close>

lemma page_numbers_window:
  assumes "1 \<le> n" and "n \<le> c"
  shows "sorted (page_numbers n c)" and "distinct (page_numbers n c)"
    and "set (page_numbers n c) = {1, c} \<union> {max 1 (n - 2) .. min c (n + 2)}"
    and "length (page_numbers n c) \<le> 7"
proof -
  show set: "set (page_numbers n c) = {1, c} \<union> {max 1 (n - 2) .. min c (n + 2)}"
    unfolding page_numbers_def set_sort set_remdups set_append set_upto by simp
  show "sorted (page_numbers n c)" "distinct (page_numbers n c)" by (simp_all add: page_numbers_def)
  then have "length (page_numbers n c) = card ({1, c} \<union> {max 1 (n - 2) .. min c (n + 2)})"
    using set distinct_card by metis
  also have "\<dots> \<le> card {1, c} + card {max 1 (n - 2) .. min c (n + 2)}" by (rule card_Un_le)
  also have "\<dots> \<le> 2 + 5" by (intro add_mono) (auto simp: card_insert_if)
  finally show "length (page_numbers n c) \<le> 7" by simp
qed

text \<open>The page numbers of a row of controls, in order, and where it shows an ellipsis.\<close>

definition shown_numbers :: "control list \<Rightarrow> int list" where
  "shown_numbers cs = concat (map (\<lambda>c. case c of Ellipsis \<Rightarrow> [] | Page_Control m u b l \<Rightarrow> [m]) cs)"

lemma shown_numbers_simps [simp]:
  "shown_numbers [] = []" "shown_numbers (Ellipsis # cs) = shown_numbers cs"
  "shown_numbers (Page_Control m u b l # cs) = m # shown_numbers cs"
  by (simp_all add: shown_numbers_def)

lemma controls_from_Inr:
  assumes "controls_from n path previous ns = Inr cs"
  shows "shown_numbers cs = ns" and "length cs + (if previous = None \<and> ns \<noteq> [] then 1 else 0) \<le> 2 * length ns"
    and "Page_Control m u b l \<in> set cs \<Longrightarrow> (b \<longleftrightarrow> m = n)
        \<and> (case u of None \<Rightarrow> m = n | Some url \<Rightarrow> m \<noteq> n \<and> public_page_url path m = Inr url)"
proof -
  have "shown_numbers cs = ns \<and> length cs + (if previous = None \<and> ns \<noteq> [] then 1 else 0) \<le> 2 * length ns
    \<and> (\<forall>m u b l. Page_Control m u b l \<in> set cs \<longrightarrow> (b \<longleftrightarrow> m = n)
        \<and> (case u of None \<Rightarrow> m = n | Some url \<Rightarrow> m \<noteq> n \<and> public_page_url path m = Inr url))"
    using assms
  proof (induction ns arbitrary: cs previous)
    case (Cons number numbers)
    from Cons.prems obtain url rest
      where url: "(if number = n then Inr None else bind_res (public_page_url path number) (\<lambda>u. Inr (Some u))) = Inr url"
      and rest: "controls_from n path (Some number) numbers = Inr rest"
      and cs: "cs = (case previous of None \<Rightarrow> [] | Some p \<Rightarrow> if number - p > 1 then [Ellipsis] else []) @
        Page_Control number url (number = n)
          (if number = n then ''Page '' @ py_str_int number @ '', current page'' else ''Go to page '' @ py_str_int number) # rest"
      by (auto simp: Let_def)
    have "case url of None \<Rightarrow> number = n | Some u \<Rightarrow> number \<noteq> n \<and> public_page_url path number = Inr u"
      using url by (auto split: if_splits)
    moreover note Cons.IH [OF rest]
    ultimately show ?case unfolding cs by (cases previous; intro conjI allI impI) auto
  qed simp
  then show "shown_numbers cs = ns" "length cs + (if previous = None \<and> ns \<noteq> [] then 1 else 0) \<le> 2 * length ns"
    "Page_Control m u b l \<in> set cs \<Longrightarrow> (b \<longleftrightarrow> m = n)
        \<and> (case u of None \<Rightarrow> m = n | Some url \<Rightarrow> m \<noteq> n \<and> public_page_url path m = Inr url)"
    by blast+
qed

lemma controls_from_total:
  "path \<in> set pagination_paths \<Longrightarrow> (\<And>m. m \<in> set ns \<Longrightarrow> 1 \<le> m \<and> m \<le> public_max_page)
    \<Longrightarrow> \<exists>cs. controls_from n path previous ns = Inr cs"
proof (induction ns arbitrary: previous)
  case (Cons m ns)
  obtain u where "public_page_url path m = Inr u" using public_page_url_total Cons.prems by (metis list.set_intros(1))
  moreover obtain cs where "controls_from n path (Some m) ns = Inr cs"
    using Cons.IH [OF Cons.prems(1)] Cons.prems(2) by (meson list.set_intros(2))
  ultimately show ?case by (auto simp: Let_def)
qed simp

subsection \<open>Building pages\<close>

text \<open>What a catalogue needs to be shown.\<close>

definition catalogue_ok :: "'a list \<Rightarrow> string \<Rightarrow> string \<Rightarrow> bool" where
  "catalogue_ok items path label \<longleftrightarrow> path \<in> set pagination_paths \<and> py_strip label \<noteq> [] \<and> pages_of items \<le> public_max_page"

lemma build_Inr:
  assumes "build_public_pagination items n path label per_page = Inr p"
  shows "per_page = public_page_size" and "catalogue_ok items path label" and "1 \<le> n" and "n \<le> pages_of items"
    and "page_number p = n" and "page_count p = pages_of items" and "total_items p = int (length items)"
    and "page_items p = take 20 (drop (20 * nat (n - 1)) items)"
    and "public_page_url path n = Inr (canonical_path p)"
    and "controls n (pages_of items) path = Inr (page_controls p)"
    and "previous_number p = (if n > 1 then Some (n - 1) else None)"
    and "next_number p = (if n < pages_of items then Some (n + 1) else None)"
    and "optional_url path (previous_number p) = Inr (previous_url p)"
    and "optional_url path (next_number p) = Inr (next_url p)"
proof -
  from assms obtain canonical prev_link next_link cs where "per_page = public_page_size" and "py_strip label \<noteq> []"
    and url: "public_page_url path n = Inr canonical" and "pages_of items \<le> public_max_page" and "n \<le> pages_of items"
    and "optional_url path (if n > 1 then Some (n - 1) else None) = Inr prev_link"
    and "optional_url path (if n < pages_of items then Some (n + 1) else None) = Inr next_link"
    and "controls n (pages_of items) path = Inr cs"
    and p: "p = \<lparr>page_items = take (nat per_page) (drop (nat ((n - 1) * per_page)) items), total_items = int (length items),
       page_number = n, page_count = pages_of items, clean_path = path, canonical_path = canonical,
       catalogue_label = label, previous_url = prev_link, previous_number = (if n > 1 then Some (n - 1) else None),
       next_url = next_link, next_number = (if n < pages_of items then Some (n + 1) else None), page_controls = cs\<rparr>"
    unfolding build_public_pagination_def Let_def by (elim bind_res_InrE) (simp add: guard_res_def split: if_splits)
  moreover have "nat ((n - 1) * 20) = 20 * nat (n - 1)" by (simp add: nat_mult_distrib mult.commute)
  ultimately show "per_page = public_page_size" "catalogue_ok items path label" "1 \<le> n" "n \<le> pages_of items"
    "page_number p = n" "page_count p = pages_of items" "total_items p = int (length items)"
    "page_items p = take 20 (drop (20 * nat (n - 1)) items)"
    "public_page_url path n = Inr (canonical_path p)" "controls n (pages_of items) path = Inr (page_controls p)"
    "previous_number p = (if n > 1 then Some (n - 1) else None)"
    "next_number p = (if n < pages_of items then Some (n + 1) else None)"
    "optional_url path (previous_number p) = Inr (previous_url p)"
    "optional_url path (next_number p) = Inr (next_url p)"
    using page_url_read_back(3,5) [OF url] by (simp_all add: catalogue_ok_def public_page_size_def)
qed

lemma build_total:
  assumes ok: "catalogue_ok items path label" and "1 \<le> n" and "n \<le> pages_of items"
  shows "\<exists>p. build_public_pagination items n path label public_page_size = Inr p"
proof -
  have path: "path \<in> set pagination_paths" and max: "pages_of items \<le> public_max_page"
    using ok by (simp_all add: catalogue_ok_def)
  have url: "\<exists>u. public_page_url path m = Inr u" if "1 \<le> m" "m \<le> pages_of items" for m
    using public_page_url_total [OF path] that max by auto
  obtain canonical where c: "public_page_url path n = Inr canonical" using url assms by blast
  have links: "\<exists>u. optional_url path (if n > 1 then Some (n - 1) else None) = Inr u"
    "\<exists>u. optional_url path (if n < pages_of items then Some (n + 1) else None) = Inr u"
    using url [of "n - 1"] url [of "n + 1"] assms by (auto simp: optional_url_def)
  have "1 \<le> m \<and> m \<le> public_max_page" if "m \<in> set (page_numbers n (pages_of items))" for m
    using that page_numbers_window(3) [OF assms(2,3)] assms max by auto
  then obtain cs where "controls n (pages_of items) path = Inr cs"
    unfolding controls_def using controls_from_total [OF path] by meson
  with c links ok assms show ?thesis
    by (auto simp: build_public_pagination_def Let_def catalogue_ok_def)
qed

text \<open>Consecutive slices of 20 make up the list.\<close>

lemma slices: "concat (map (\<lambda>k. take 20 (drop (20 * k) xs)) [0..<m]) = take (20 * m) xs"
proof (induction m)
  case (Suc m)
  have "take (20 * Suc m) xs = take (20 * m) xs @ take 20 (drop (20 * m) xs)"
    using take_add [of "20 * m" 20 xs] by (simp add: add.commute)
  with Suc show ?case by simp
qed simp

lemma pages_cover: "length items \<le> 20 * nat (pages_of items)" and pages_used: "k < nat (pages_of items) \<Longrightarrow> items \<noteq> [] \<Longrightarrow> 20 * k < length items"
  by (auto simp: pages_of_def public_page_size_def max_def split: if_splits)

end
