(* ===== verification/Service_Properties.thy ===== *)
theory Service_Properties
  imports Mg_Samples Mg_Operations Core_Webhook Public_Pagination
begin

text \<open>
  The properties of the shared services: the life cycle of long-running operations, the webhook of
  course repositories and the paginator of the public catalogues.
\<close>

subsection \<open>Operations\<close>


text \<open>Whoever comes second with a revision is refused.\<close>

lemma stale_lock:
  assumes "\<And>y. y \<in> set (operations st) \<Longrightarrow> op_id y = i \<Longrightarrow> op_revision y \<noteq> revision"
  shows "\<exists>e. lock_operation scope i revision st = Inl e"
  using assms by (cases "lock_operation scope i revision st") (auto dest: lock_operation_Inr)






text \<open>
  C6 Whatever sequence of calls creates, starts, advances, cancels and finishes operations, in any order and
  interleaving: the rows keep the constraints of the table (a finished operation has its end, a succeeded
  one was never asked to cancel, a cancelled one was), the audit trail of an operation has exactly as many
  rows as its revision counts, a finished operation never changes again, a running one is not pending
  again, and an operation once asked to cancel stays so and does not succeed.
\<close>

theorem operation_life_cycle:
  assumes "(operation_step X)\<^sup>*\<^sup>* st st'" and "operations_ok st"
  shows "(\<forall>r \<in> set (operations st'). operation_ok r \<and> trail (op_id r) (op_site st') = op_revision r)
    \<and> (\<forall>r \<in> set (operations st). \<exists>r' \<in> set (operations st'). op_id r' = op_id r \<and> op_revision r \<le> op_revision r'
         \<and> (op_revision r' = op_revision r \<longrightarrow> r' = r) \<and> (terminal_status (op_status r) \<longrightarrow> r' = r)
         \<and> (op_status r = Op_Running \<longrightarrow> op_status r' \<noteq> Op_Pending)
         \<and> (cancellation_requested r \<noteq> None \<longrightarrow> cancellation_requested r' = cancellation_requested r
              \<and> op_status r' \<noteq> Op_Succeeded))"
proof -
  from operation_steps_ok [OF assms] have ok': "operations_ok st'" and later: "operations_later st st'" by simp_all
  have "operation_ok r" if "r \<in> set (operations st)" for r using assms(2) that by (simp add: operations_ok_def)
  then have succeeds: "op_status r' \<noteq> Op_Succeeded"
    if "r \<in> set (operations st)" "operation_later r r'" "cancellation_requested r \<noteq> None" for r r'
    using that by (cases "terminal_status (op_status r)") (auto simp: operation_ok_def operation_later_def)
  have "\<exists>r' \<in> set (operations st'). op_id r' = op_id r \<and> op_revision r \<le> op_revision r'
         \<and> (op_revision r' = op_revision r \<longrightarrow> r' = r) \<and> (terminal_status (op_status r) \<longrightarrow> r' = r)
         \<and> (op_status r = Op_Running \<longrightarrow> op_status r' \<noteq> Op_Pending)
         \<and> (cancellation_requested r \<noteq> None \<longrightarrow> cancellation_requested r' = cancellation_requested r
              \<and> op_status r' \<noteq> Op_Succeeded)"
    if "r \<in> set (operations st)" for r
  proof -
    obtain r' where r': "r' \<in> set (operations st')" "operation_later r r'"
      using later \<open>r \<in> set (operations st)\<close> unfolding operations_later_def by blast
    moreover have "cancellation_requested r \<noteq> None \<Longrightarrow> op_status r' \<noteq> Op_Succeeded"
      by (rule succeeds [OF \<open>r \<in> set (operations st)\<close> r'(2)])
    ultimately show ?thesis by (intro bexI [of _ r']) (simp_all add: operation_later_def)
  qed
  with ok' show ?thesis unfolding operations_ok_def by blast
qed



subsection \<open>A sample operation\<close>

definition sample_start :: operation_store where
  "sample_start = \<lparr>op_site = empty_site, operations = []\<rparr>"

definition sample_created :: "(operation_err, operation \<times> operation_store) res" where
  "sample_created = create_operation sample_X 0 7 ''demo.run'' True (Some 5) [] None sample_start"

definition sample_running :: "(operation_err, operation \<times> operation_store) res" where
  "sample_running = bind_res sample_created (\<lambda>(r, st). run_call sample_X 1 None 7 1 Start_Call st)"

definition sample_asked :: "(operation_err, operation \<times> operation_store) res" where
  "sample_asked = bind_res sample_running (\<lambda>(r, st). run_call sample_X 2 None 7 2 (Request_Call (\<lambda>r. True)) st)"

lemma sample_start_ok: "operations_ok sample_start"
  by (simp add: operations_ok_def sample_start_def trail_def empty_site_def count_where_def)

definition summary_of :: "(operation_err, operation \<times> operation_store) res \<Rightarrow> (uuid \<times> operation_status \<times> int \<times> bool \<times> string) option" where
  "summary_of m = (case m of Inl e \<Rightarrow> None
     | Inr (x, st) \<Rightarrow> if operations st = [x] then Some (op_id x, op_status x, op_revision x, cancellation_requested x \<noteq> None, op_key_hash x) else None)"

lemma summaries:
  "summary_of sample_created = Some (7, Op_Pending, 1, False, [])"
  "summary_of sample_running = Some (7, Op_Running, 2, False, [])"
  "summary_of sample_asked = Some (7, Op_Running, 3, True, [])"
  by code_simp+

lemma summary_Some:
  assumes "summary_of m = Some (i, s, n, b, a)"
  obtains x st where "m = Inr (x, st)" and "operations st = [x]" and "op_id x = i" and "op_status x = s" and "op_revision x = n"
    and "cancellation_requested x \<noteq> None \<longleftrightarrow> b" and "op_key_hash x = a"
  using assms by (auto simp: summary_of_def split: sum.splits prod.splits if_splits)

lemma sample_states:
  obtains r0 s0 r1 s1 r2 s2 where "sample_created = Inr (r0, s0)" and "run_call sample_X 1 None 7 1 Start_Call s0 = Inr (r1, s1)"
    and "run_call sample_X 2 None 7 2 (Request_Call (\<lambda>r. True)) s1 = Inr (r2, s2)" and "operations s0 = [r0]"
    and "operations s1 = [r1]" and "operations s2 = [r2]" and "op_id r2 = 7" and "op_revision r1 = 2" and "op_status r1 = Op_Running" and "op_revision r2 = 3"
    and "op_status r2 = Op_Running" and "cancellation_requested r2 \<noteq> None" and "op_key_hash r2 = []"
proof -
  obtain r0 s0 where 0: "sample_created = Inr (r0, s0)" "operations s0 = [r0]" using summaries(1) by (rule summary_Some)
  obtain r1 s1 where 1: "sample_running = Inr (r1, s1)" "operations s1 = [r1]" "op_revision r1 = 2" "op_status r1 = Op_Running"
    using summaries(2) by (rule summary_Some)
  obtain r2 s2 where 2: "sample_asked = Inr (r2, s2)" "operations s2 = [r2]" "op_id r2 = 7" "op_revision r2 = 3"
    "op_status r2 = Op_Running" "cancellation_requested r2 \<noteq> None" "op_key_hash r2 = []"
    using summaries(3) by (rule summary_Some) simp_all
  have "run_call sample_X 1 None 7 1 Start_Call s0 = Inr (r1, s1)"
    using 1(1) unfolding sample_running_def 0(1) by simp
  moreover have "run_call sample_X 2 None 7 2 (Request_Call (\<lambda>r. True)) s1 = Inr (r2, s2)"
    using 2(1) unfolding sample_asked_def 1(1) by simp
  ultimately show thesis using that 0 1 2 by blast
qed

lemma sample_reached:
  assumes "sample_created = Inr (r0, s0)" and "run_call sample_X 1 None 7 1 Start_Call s0 = Inr (r1, s1)"
    and "run_call sample_X 2 None 7 2 (Request_Call (\<lambda>r. True)) s1 = Inr (r2, s2)"
  shows "(operation_step sample_X)\<^sup>*\<^sup>* sample_start s1" and "(operation_step sample_X)\<^sup>*\<^sup>* s1 s2"
    and "operations_ok s1" and "operations_ok s2"
proof -
  have "operation_step sample_X sample_start s0" "operation_step sample_X s0 s1" and last: "operation_step sample_X s1 s2"
    using operation_step.create assms(1) [unfolded sample_created_def] operation_step.call [OF assms(2)]
      operation_step.call [OF assms(3)] by blast+
  then show first: "(operation_step sample_X)\<^sup>*\<^sup>* sample_start s1" by simp
  show "(operation_step sample_X)\<^sup>*\<^sup>* s1 s2" using last by simp
  show "operations_ok s1" using operation_steps_ok [OF first sample_start_ok] by simp
  then show "operations_ok s2" using operation_step_ok [OF last] by simp
qed

theorem operation_life_cycle_witness:
  "\<exists>st st' r. (operation_step sample_X)\<^sup>*\<^sup>* st st' \<and> operations st = [r] \<and> op_status r = Op_Running
    \<and> (\<exists>r' \<in> set (operations st'). op_id r' = op_id r \<and> trail (op_id r') (op_site st') = 3)"
proof -
  obtain r0 s0 r1 s1 r2 s2 where s: "sample_created = Inr (r0, s0)" "run_call sample_X 1 None 7 1 Start_Call s0 = Inr (r1, s1)"
    "run_call sample_X 2 None 7 2 (Request_Call (\<lambda>r. True)) s1 = Inr (r2, s2)" "operations s1 = [r1]" "operations s2 = [r2]"
    "op_revision r2 = 3" "op_status r1 = Op_Running"
    by (rule sample_states) blast
  note reached = sample_reached [OF s(1-3)]
  note cycle = operation_life_cycle [OF reached(2,3)]
  have "op_id r2 = op_id r1" "trail (op_id r2) (op_site s2) = 3" using cycle s(4-6) by auto
  moreover have "r2 \<in> set (operations s2)" using s(5) by simp
  ultimately show ?thesis using reached(2) s(4,7) by blast
qed



subsection \<open>The webhook of the course repositories\<close>

lemma held_replays:
  assumes "record_of X call db \<noteq> None" and "execute_idempotent X call run db = Inr (a, db')"
  shows "replayed a"
proof -
  obtain r where "record_of X call db = Some r" using assms(1) by auto
  from execute_replay [OF this] assms(2) show ?thesis by (auto split: if_splits)
qed

lemma record_kept:
  assumes "record_of X call db \<noteq> None" and "set (idempotency_records db) \<subseteq> set (idempotency_records db')"
  shows "record_of X call db' \<noteq> None"
proof -
  from assms(1) obtain keys where keys: "call_keys X call = Some keys" by (auto simp: record_of_def split: option.splits)
  obtain scope key_hash where "keys = (scope, key_hash)" by (cases keys)
  then show ?thesis using assms keys by (auto simp: record_of_def find_None_iff)
qed

lemma delivery_of_record:
  "wr_delivery rq' = wr_delivery rq \<Longrightarrow>
    record_of X (delivery_call (delivery_of env' rq') digest') db = record_of X (delivery_call (delivery_of env rq) digest) db"
  by (rule delivery_record) (simp_all add: delivery_of_def)

text \<open>
  C11 A delivery runs once: after a request with a delivery id was answered 202, every later request with the
  same id, with whatever body, signature, event and clock, leaves the store as it is, as long as the records
  of the replay store are kept; if it is answered 202 again, the answer says it was replayed.
\<close>

theorem webhook_runs_once:
  assumes first: "github_course_repository_webhook X env rq db = (Some (202, b), db1)"
    and kept: "set (idempotency_records db1) \<subseteq> set (idempotency_records db2)" and same: "wr_delivery rq' = wr_delivery rq"
    and again: "github_course_repository_webhook X env' rq' db2 = (answer, db3)"
  shows "db3 = db2 \<and> (\<forall>b'. answer = Some (202, b') \<longrightarrow> get_key ''outcome'' b' = PStr ''replayed'')"
proof -
  obtain digest run where "\<exists>r. fence_webhook_delivery X (delivery_of env rq) digest run db = Inr (r, db1)"
    and keep: "keeps_records (persist_fence run digest)"
    using webhook_view_cases [OF first] enqueue_job_keeps by (metis (no_types, lifting))
  then have "record_of X (delivery_call (delivery_of env rq) digest) db1 \<noteq> None" using fence_remembers by blast
  then have "record_of X (delivery_call (delivery_of env rq) digest) db2 \<noteq> None" using kept by (rule record_kept)
  then have held: "record_of X (delivery_call (delivery_of env' rq') digest') db2 \<noteq> None" for digest'
    by (simp add: delivery_of_record [OF same, of X env' digest' db2 env digest])
  from again show ?thesis
  proof (cases rule: webhook_view_cases)
    case (served digest' body push s r)
    then have "db3 = db2" using fence_silent [OF held] by blast
    moreover from served(5) obtain a where "execute_idempotent X (delivery_call (delivery_of env' rq') digest')
        (persist_fence (Some (enqueue_job X env' (wr_delivery rq') s (push_commit push))) digest') db2 = Inr (a, db3)"
      and "wh_accepted r \<longleftrightarrow> \<not> replayed a"
      by (rule fence_Inr)
    then have "\<not> wh_accepted r" using held_replays [OF held] by blast
    ultimately show ?thesis using served(6) by (simp add: get_key_def)
  qed simp
qed

lemma enqueued_job:
  assumes law: "dispatch_law (we_dispatch env)" and run: "enqueue_job X env delivery_id s commit db = Inr db'"
  shows "\<exists>j \<in> set (job_intents db'). handler j = course_job_handler \<and> dedup_key j = course_job_key s commit
      \<and> get_key ''commit_sha'' (job_payload j) = PStr commit
      \<and> get_key ''source_uuid'' (job_payload j) = PStr (uuid_str (source_id s))
      \<and> (job_intents db' = job_intents db \<or> job_intents db' = job_intents db @ [j])"
proof (rule enqueue_job_Inr [OF run])
  fix record_id payload j new rows
  assume d: "we_dispatch env course_job_handler (course_job_key s commit) payload (job_intents db) = Inr ((j, new), rows)"
    and payload: "payload = course_job_payload s commit record_id
      \<or> same_commit_job env (course_job_payload s commit record_id) (j\<lparr>job_payload := payload\<rparr>)"
    and db': "db' = db\<lparr>job_intents := rows\<rparr>"
  from payload have "get_key ''commit_sha'' payload = PStr commit" "get_key ''source_uuid'' payload = PStr (uuid_str (source_id s))"
    by (auto simp: same_commit_job_def course_job_payload_def get_key_def Let_def)
  then show ?thesis using dispatch_lawD(1-4,6) [OF law d] by (intro bexI [of _ j]) (simp_all add: db')
qed

lemma accepted_job:
  assumes law: "dispatch_law (we_dispatch env)" and accepted: "wh_accepted r"
    and run: "fence_webhook_delivery X d digest (Some (enqueue_job X env delivery_id s commit)) db = Inr (r, db')"
  shows "\<exists>j \<in> set (job_intents db'). handler j = course_job_handler \<and> dedup_key j = course_job_key s commit
      \<and> get_key ''commit_sha'' (job_payload j) = PStr commit
      \<and> get_key ''source_uuid'' (job_payload j) = PStr (uuid_str (source_id s))
      \<and> (job_intents db' = job_intents db \<or> job_intents db' = job_intents db @ [j])"
proof (rule fence_Inr [OF run])
  fix a
  assume a: "execute_idempotent X (delivery_call d digest) (persist_fence (Some (enqueue_job X env delivery_id s commit)) digest) db
      = Inr (a, db')" and "wh_accepted r \<longleftrightarrow> \<not> replayed a"
  then have "record_of X (delivery_call d digest) db = None" using held_replays accepted by blast
  then show ?thesis
  proof (rule execute_first [OF a _ enqueue_job_keeps])
    fix scope key_hash request_hash outcome mid result
    assume "persist_fence (Some (enqueue_job X env delivery_id s commit)) digest (db\<lparr>idempotency_records := idempotency_records db @
        [pending_record (delivery_call d digest) scope key_hash request_hash]\<rparr>) = Inr (outcome, mid)"
      and db': "db' = mid\<lparr>idempotency_records := idempotency_records db @
        [completed result (call_now (delivery_call d digest)) (pending_record (delivery_call d digest) scope key_hash request_hash)]\<rparr>"
    then have "enqueue_job X env delivery_id s commit (db\<lparr>idempotency_records := idempotency_records db @
        [pending_record (delivery_call d digest) scope key_hash request_hash]\<rparr>) = Inr mid"
      by (auto simp: persist_fence_def split: sum.splits)
    from enqueued_job [OF law this] show ?thesis by (simp add: db')
  qed
qed

text \<open>
  C7 No request changes the store or is accepted unless it carries the HMAC of its body under the configured
  secret and pushes to a registered and enabled source; an accepted one leaves exactly the job that imports the
  pushed commit: a job of the course importer stands under the key of the source and the commit, for that
  commit, and the queue has gained that job or nothing, whatever queue keeps the contract of the dispatcher.
\<close>

theorem webhook_enqueues_import:
  assumes law: "dispatch_law (we_dispatch env)" and run: "github_course_repository_webhook X env rq db = (answer, db')"
  shows "((\<forall>b. answer \<noteq> Some (202, b)) \<longrightarrow> db' = db)
    \<and> (\<forall>b. answer = Some (202, b) \<longrightarrow> (\<exists>body push s.
         wr_signature rq = ''sha256='' @ hmac_sha256 X (utf8 (we_secret env)) (wr_body rq)
         \<and> we_loads env (wr_body rq) = Some body \<and> parse_github_course_push body (wr_event rq) = Inr push
         \<and> s \<in> set (content_sources db) \<and> registered_source push s
         \<and> (get_key ''outcome'' b = PStr ''accepted'' \<longrightarrow> (\<exists>j \<in> set (job_intents db'). handler j = course_job_handler
              \<and> dedup_key j = course_job_key s (push_commit push)
              \<and> get_key ''commit_sha'' (job_payload j) = PStr (push_commit push)
              \<and> get_key ''source_uuid'' (job_payload j) = PStr (uuid_str (source_id s))
              \<and> (job_intents db' = job_intents db \<or> job_intents db' = job_intents db @ [j])))))"
  using run
proof (cases rule: webhook_view_cases)
  case (served digest body push s r)
  have signed: "wr_signature rq = ''sha256='' @ hmac_sha256 X (utf8 (we_secret env)) (wr_body rq)"
    using served(1) by (rule verified_signature) (auto simp: validate_secret_def signature_prefix_def Let_def split: if_splits)
  have accepted: "get_key ''outcome'' b = PStr ''accepted'' \<longleftrightarrow> wh_accepted r" if "answer = Some (202, b)" for b
    using served(6) that by (auto simp: get_key_def)
  show ?thesis
    using served(2-4) signed find_source_Some [OF served(4)] accepted_job [OF law _ served(5)] accepted
    by (intro conjI allI impI exI [of _ body] exI [of _ push] exI [of _ s]) (simp_all add: served(6))
qed simp

definition sample_commit :: string where "sample_commit = replicate 40 (CHR ''a'')"

definition sample_push :: payload where
  "sample_push = [(''repository'', PDict [(''full_name'', PStr ''DTC/ml'')]), (''ref'', PStr ''refs/heads/main''),
     (''after'', PStr sample_commit)]"

definition sample_hook :: webhook_env where
  "sample_hook = \<lparr>we_now = 0, we_record = 5, we_owner = 6, we_secret = ''s'', we_loads = (\<lambda>bs. Some (PDict sample_push)),
     we_parse_uuid = (\<lambda>s. Some 0), we_dispatch = table_dispatch Integrity_Error\<rparr>"

definition sample_delivery :: webhook_request where
  "sample_delivery = \<lparr>wr_method = ''POST'', wr_delivery = ''d1'',
     wr_signature = ''sha256='' @ hmac_sha256 sample_X (utf8 ''s'') [1], wr_event = ''push'', wr_body = [1]\<rparr>"

definition hook_site :: site_db where
  "hook_site = empty_site\<lparr>content_sources := [\<lparr>source_id = 3, source_owner = ''DTC'', source_name = ''ml'',
     source_branch = ''main'', source_adapter = course_adapter_type, source_enabled = True\<rparr>]\<rparr>"

lemma hook_verified:
  "verify_webhook_signature sample_X (wr_body sample_delivery) (Secret_Text (we_secret sample_hook)) (wr_signature sample_delivery)
     max_body_bytes_limit = Inr (sha256 sample_X [1])"
proof -
  have "take 7 (''sha256='' @ sample_digits d) = ''sha256=''" "drop 7 (''sha256='' @ sample_digits d) = sample_digits d" for d
    by simp_all
  then show ?thesis
    by (simp add: verify_webhook_signature_def validate_body_def validate_secret_def validate_signature_def signature_prefix_def
      sample_delivery_def sample_hook_def sample_X_def utf8_def utf8_char_def max_body_bytes_limit_def max_secret_bytes_def Let_def
      del: append_Cons)
qed

lemma hook_push:
  "parse_github_course_push (PDict sample_push) ''push'' = Inr \<lparr>push_owner = ''DTC'', push_repository = ''ml'',
     push_branch = ''main'', push_commit = sample_commit, push_deleted = False\<rparr>"
  by code_simp

definition hook_source :: content_source where
  "hook_source = \<lparr>source_id = 3, source_owner = ''DTC'', source_name = ''ml'', source_branch = ''main'',
     source_adapter = course_adapter_type, source_enabled = True\<rparr>"

lemma hook_registered:
  "find_source \<lparr>push_owner = ''DTC'', push_repository = ''ml'', push_branch = ''main'', push_commit = sample_commit,
     push_deleted = False\<rparr> hook_site = Some hook_source"
  by (simp add: find_source_def hook_site_def registered_source_def hook_source_def)

lemma hook_enqueues:
  "\<exists>db'. enqueue_job sample_X sample_hook ''d1'' hook_source sample_commit (hook_site\<lparr>idempotency_records := [r]\<rparr>)
      = Inr db' \<and> idempotency_records db' = [r]"
  if "ir_scope r = course_webhook_namespace" and "ir_key_hash r = sample_digits [utf8 course_webhook_namespace, utf8 ''d1'']"
proof -
  have "hash_idempotency_key sample_X course_webhook_namespace ''d1'' = Inr (sample_digits [utf8 course_webhook_namespace, utf8 ''d1''])"
    by (simp add: hash_idempotency_key_def sample_X_def utf8_def utf8_char_def)
  then show ?thesis
    using that by (simp add: enqueue_job_def delivery_record_id_def sample_hook_def table_dispatch_def hook_site_def empty_site_def Let_def)
qed

lemma hook_fenced:
  "\<exists>r db'. fence_webhook_delivery sample_X (delivery_of sample_hook sample_delivery) (sha256 sample_X [1])
     (Some (enqueue_job sample_X sample_hook ''d1'' hook_source sample_commit)) hook_site = Inr (r, db') \<and> wh_accepted r"
proof -
  let ?h = "sample_digits [utf8 course_webhook_namespace, sample_json (PDict [(''body_sha256'', PStr (sha256 sample_X [1]))])]"
  let ?d = "delivery_call (delivery_of sample_hook sample_delivery) (sha256 sample_X [1])"
  have key: "hash_idempotency_key sample_X course_webhook_namespace ''d1'' = Inr (sample_digits [utf8 course_webhook_namespace, utf8 ''d1''])"
    by (simp add: hash_idempotency_key_def sample_X_def utf8_def utf8_char_def)
  have validate_sample: "validate_identifier sample_X = Inr" by (simp add: sample_X_def)
  have call: "dl_namespace (delivery_of sample_hook sample_delivery) = course_webhook_namespace"
      "dl_id (delivery_of sample_hook sample_delivery) = ''d1''" "call_record ?d = 5" "call_owner ?d = 6"
    by (simp_all add: delivery_call_def delivery_of_def sample_hook_def sample_delivery_def)
  obtain db where "enqueue_job sample_X sample_hook ''d1'' hook_source sample_commit (hook_site\<lparr>idempotency_records :=
      [pending_record ?d course_webhook_namespace (sample_digits [utf8 course_webhook_namespace, utf8 ''d1'']) ?h]\<rparr>) = Inr db"
    and db: "idempotency_records db = [pending_record ?d course_webhook_namespace (sample_digits [utf8 course_webhook_namespace, utf8 ''d1'']) ?h]"
    using hook_enqueues by (meson record_simps(2,3))
  then have ran: "persist_fence (Some (enqueue_job sample_X sample_hook ''d1'' hook_source sample_commit)) (sha256 sample_X [1])
      (hook_site\<lparr>idempotency_records := [pending_record ?d course_webhook_namespace (sample_digits [utf8 course_webhook_namespace, utf8 ''d1'']) ?h]\<rparr>)
      = Inr (PDict [(''body_sha256'', PStr (sha256 sample_X [1]))], db)"
    by (simp add: persist_fence_def)
  have empty: "idempotency_records hook_site = []" by (simp add: hook_site_def empty_site_def)
  have h: "hash_idempotency_request sample_X course_webhook_namespace (call_request ?d) = Inr ?h"
    by (simp add: hash_idempotency_request_def delivery_call_def sample_X_def)
  have "\<exists>db'. execute_idempotent sample_X ?d (persist_fence (Some (enqueue_job sample_X sample_hook ''d1'' hook_source sample_commit))
      (sha256 sample_X [1])) hook_site = Inr (\<lparr>result_value = PDict [(''body_sha256'', PStr (sha256 sample_X [1]))], replayed = False,
        result_record = 5\<rparr>, db')"
    using ran by (simp add: execute_idempotent_def call key h empty complete_record_def db count_where_def validate_sample)
  moreover have "validate_delivery_id ''d1'' = Inr ''d1''" by code_simp
  moreover have "validate_namespace course_webhook_namespace = Inr course_webhook_namespace" by code_simp
  moreover have "sha256 sample_X bs = sample_digits [bs]" for bs by (simp add: sample_X_def)
  ultimately show ?thesis
    by (auto simp: fence_webhook_delivery_def validate_body_digest_def get_key_def delivery_of_def sample_delivery_def)
qed

lemma hook_answers:
  assumes "fence_webhook_delivery sample_X (delivery_of sample_hook sample_delivery) (sha256 sample_X [1])
     (Some (enqueue_job sample_X sample_hook ''d1'' hook_source sample_commit)) hook_site = Inr (r, db')" and "wh_accepted r"
  shows "github_course_repository_webhook sample_X sample_hook sample_delivery hook_site
    = (Some (202, [(''outcome'', PStr ''accepted''), (''delivery_record_id'', PStr (uuid_str (wh_record r)))]), db')"
proof -
  have "wr_method sample_delivery = ''POST''" "wr_event sample_delivery = ''push''" "wr_delivery sample_delivery = ''d1''"
    "we_secret sample_hook \<noteq> []" "we_loads sample_hook b = Some (PDict sample_push)" for b
    by (simp_all add: sample_delivery_def sample_hook_def)
  then show ?thesis
    using assms by (simp add: github_course_repository_webhook_def hook_verified hook_push hook_registered)
qed

theorem webhook_enqueues_import_witness:
  "\<exists>b db' j. github_course_repository_webhook sample_X sample_hook sample_delivery hook_site = (Some (202, b), db')
    \<and> get_key ''outcome'' b = PStr ''accepted'' \<and> j \<in> set (job_intents db') \<and> handler j = course_job_handler
    \<and> get_key ''commit_sha'' (job_payload j) = PStr sample_commit"
proof -
  obtain r db' where fence: "fence_webhook_delivery sample_X (delivery_of sample_hook sample_delivery) (sha256 sample_X [1])
     (Some (enqueue_job sample_X sample_hook ''d1'' hook_source sample_commit)) hook_site = Inr (r, db')" "wh_accepted r"
    using hook_fenced by blast
  have answer: "github_course_repository_webhook sample_X sample_hook sample_delivery hook_site
    = (Some (202, [(''outcome'', PStr ''accepted''), (''delivery_record_id'', PStr (uuid_str (wh_record r)))]), db')"
    using hook_answers [OF fence] .
  have law: "dispatch_law (we_dispatch sample_hook)" by (simp add: sample_hook_def table_dispatch_law)
  have loads: "we_loads sample_hook b = Some (PDict sample_push)" "wr_event sample_delivery = ''push''" for b
    by (simp_all add: sample_hook_def sample_delivery_def)
  have commit: "push_commit p = sample_commit" if "parse_github_course_push (PDict sample_push) ''push'' = Inr p" for p
    using that hook_push by auto
  from webhook_enqueues_import [OF law answer, THEN conjunct2, THEN spec, THEN mp, OF refl]
  obtain body push s where body: "we_loads sample_hook (wr_body sample_delivery) = Some body"
      "parse_github_course_push body (wr_event sample_delivery) = Inr push"
    and job: "get_key ''outcome'' [(''outcome'', PStr ''accepted''), (''delivery_record_id'', PStr (uuid_str (wh_record r)))] = PStr ''accepted''
      \<longrightarrow> (\<exists>j \<in> set (job_intents db'). handler j = course_job_handler \<and> dedup_key j = course_job_key s (push_commit push)
        \<and> get_key ''commit_sha'' (job_payload j) = PStr (push_commit push)
        \<and> get_key ''source_uuid'' (job_payload j) = PStr (uuid_str (source_id s))
        \<and> (job_intents db' = job_intents hook_site \<or> job_intents db' = job_intents hook_site @ [j]))"
    by (elim exE conjE) (rule that)
  have "push_commit push = sample_commit" using body commit loads by simp
  have outcome: "get_key ''outcome'' [(''outcome'', PStr ''accepted''), x] = PStr ''accepted''" for x
    by (simp add: get_key_def)
  from job [THEN mp, OF outcome] obtain j where "j \<in> set (job_intents db')" "handler j = course_job_handler"
    "get_key ''commit_sha'' (job_payload j) = PStr (push_commit push)" by (elim bexE conjE) (rule that)
  with \<open>push_commit push = sample_commit\<close> outcome answer show ?thesis by (intro exI conjI) simp_all
qed

theorem webhook_runs_once_witness:
  "\<exists>b db'. github_course_repository_webhook sample_X sample_hook sample_delivery hook_site = (Some (202, b), db')
    \<and> snd (github_course_repository_webhook sample_X sample_hook sample_delivery db') = db'"
proof -
  obtain r db' where fence: "fence_webhook_delivery sample_X (delivery_of sample_hook sample_delivery) (sha256 sample_X [1])
     (Some (enqueue_job sample_X sample_hook ''d1'' hook_source sample_commit)) hook_site = Inr (r, db')" "wh_accepted r"
    using hook_fenced by blast
  note answer = hook_answers [OF fence]
  obtain answer' db3 where again: "github_course_repository_webhook sample_X sample_hook sample_delivery db' = (answer', db3)"
    by fastforce
  have "db3 = db'" using webhook_runs_once [OF answer subset_refl refl again] by blast
  then show ?thesis using answer again by (metis snd_conv)
qed

subsection \<open>The public catalogues\<close>

text \<open>The items of a page, none when there is no such page.\<close>

definition items_of_page :: "'a list \<Rightarrow> string \<Rightarrow> string \<Rightarrow> int \<Rightarrow> 'a list" where
  "items_of_page items path label n =
     (case build_public_pagination items n path label public_page_size of Inl e \<Rightarrow> [] | Inr p \<Rightarrow> page_items p)"

text \<open>
  C12 A catalogue that fits the supported range is shown completely: the pages 1 to the page count all exist, and
  their items, one page after the other, are the catalogue in its order, every item once; each page of a
  catalogue with items has some and at most 20, numbered as the page says; the page after the last is not
  found.
\<close>

theorem pages_partition:
  assumes "catalogue_ok items path label"
  shows "concat (map (items_of_page items path label) [1..pages_of items]) = items
    \<and> (\<forall>n. 1 \<le> n \<and> n \<le> pages_of items \<longrightarrow> (\<exists>p. build_public_pagination items n path label public_page_size = Inr p
         \<and> length (page_items p) \<le> 20 \<and> (items \<noteq> [] \<longrightarrow> page_items p \<noteq> []
              \<and> items ! nat (first_item_number p - 1) = hd (page_items p)
              \<and> last_item_number p - first_item_number p + 1 = int (length (page_items p)))))
    \<and> (pages_of items < n \<and> n \<le> public_max_page \<longrightarrow>
         build_public_pagination items n path label public_page_size = Inl Page_Not_Found)"
proof (intro conjI allI impI)
  have page: "items_of_page items path label n = take 20 (drop (20 * nat (n - 1)) items)" if "1 \<le> n" "n \<le> pages_of items" for n
    using build_total [OF assms that] build_Inr(8) by (fastforce simp: items_of_page_def)
  have numbers: "[1..pages_of items] = map (\<lambda>k. int k + 1) [0..<nat (pages_of items)]"
    by (rule nth_equalityI) (simp_all add: nth_upto)
  have "map (items_of_page items path label) [1..pages_of items] = map (\<lambda>k. take 20 (drop (20 * k) items)) [0..<nat (pages_of items)]"
    unfolding numbers map_map by (rule map_cong [OF refl]) (simp add: page)
  then show "concat (map (items_of_page items path label) [1..pages_of items]) = items"
    using slices [of items "nat (pages_of items)"] pages_cover [of items] by simp
next
  fix n
  assume n: "1 \<le> n \<and> n \<le> pages_of items"
  then obtain p where p: "build_public_pagination items n path label public_page_size = Inr p" using build_total [OF assms] by blast
  have start: "items \<noteq> [] \<Longrightarrow> 20 * nat (n - 1) < length items" using pages_used [of "nat (n - 1)" items] n by simp
  have "nat ((n - 1) * 20) = 20 * nat (n - 1)" using n by (simp add: nat_mult_distrib)
  then have "items \<noteq> [] \<Longrightarrow> items ! nat (first_item_number p - 1) = hd (page_items p)"
    using start build_Inr(5,8) [OF p] by (simp add: first_item_number_def public_page_size_def hd_drop_conv_nth)
  moreover have "items \<noteq> [] \<Longrightarrow> page_items p \<noteq> []" "length (page_items p) \<le> 20" using start build_Inr(8) [OF p] by auto
  ultimately show "\<exists>p. build_public_pagination items n path label public_page_size = Inr p
         \<and> length (page_items p) \<le> 20 \<and> (items \<noteq> [] \<longrightarrow> page_items p \<noteq> []
              \<and> items ! nat (first_item_number p - 1) = hd (page_items p)
              \<and> last_item_number p - first_item_number p + 1 = int (length (page_items p)))"
    using p by (intro exI [of _ p]) (simp add: first_item_number_def last_item_number_def)
next
  assume "pages_of items < n \<and> n \<le> public_max_page"
  moreover from this have "1 \<le> n" by (simp add: pages_of_def)
  ultimately show "build_public_pagination items n path label public_page_size = Inl Page_Not_Found"
    using assms by (simp add: build_public_pagination_def catalogue_ok_def public_page_url_def validate_page_number_def Let_def)
qed


lemma wiki_ok: "catalogue_ok [0..<45::nat] ''/wiki'' ''Wiki''" and wiki_pages: "pages_of [0..<45::nat] = 3"
  by code_simp+

theorem pages_partition_witness:
  "concat (map (items_of_page [0..<45::nat] ''/wiki'' ''Wiki'') [1..3]) = [0..<45]
    \<and> build_public_pagination [0..<45::nat] 4 ''/wiki'' ''Wiki'' public_page_size = Inl Page_Not_Found"
  using pages_partition [OF wiki_ok, of 4] unfolding wiki_pages by (simp add: public_max_page_def)




end
